(* ===== verification/Prelude.thy ===== *)
theory Prelude
  imports Main "HOL-Library.Sublist" "HOL-Library.Char_ord" "HOL-Library.Word"
begin

text \<open>
  What every component of the agent shares: the parts of Go's standard library that the
  modelled code calls (packages \<open>strings\<close>, \<open>strconv\<close> and the line scanner of
  \<open>bufio\<close>), 64-bit integers and the plumbing for fallible results.

  A Go string is a \<open>string\<close>, that is a list of bytes: \<open>len\<close> is \<open>length\<close> and
  indexing counts bytes, as in Go. White space is Unicode white space in its UTF-8 encoding,
  as \<open>strings.TrimSpace\<close> and \<open>strings.Fields\<close> have it.
\<close>

named_theorems go_simps \<open>evaluation rules for the Go library functions\<close>
named_theorems result_simps \<open>rules for results of type error + value\<close>

subsection \<open>Fallible results\<close>

text \<open>Go's \<open>(value, error)\<close> pair is \<open>Inl error\<close> or \<open>Inr value\<close>.\<close>

definition rbind :: "'e + 'a \<Rightarrow> ('a \<Rightarrow> 'e + 'b) \<Rightarrow> 'e + 'b" where
  "rbind r f = (case r of Inl e \<Rightarrow> Inl e | Inr x \<Rightarrow> f x)"

lemma rbind_simps [simp, result_simps]:
  "rbind (Inl e) f = Inl e"
  "rbind (Inr x) f = f x"
  by (simp_all add: rbind_def)

lemma rbind_Inr_iff [result_simps]:
  "rbind r f = Inr y \<longleftrightarrow> (\<exists>x. r = Inr x \<and> f x = Inr y)"
  by (cases r) simp_all

lemma rbind_Inl_iff [result_simps]:
  "rbind r f = Inl e \<longleftrightarrow> r = Inl e \<or> (\<exists>x. r = Inr x \<and> f x = Inl e)"
  by (cases r) auto

abbreviation is_ok :: "'e + 'a \<Rightarrow> bool" where
  "is_ok r \<equiv> \<not> isl r"

lemma find_Some_in: "find P xs = Some x \<Longrightarrow> x \<in> set xs \<and> P x"
  by (auto simp: find_Some_iff)

subsection \<open>White space\<close>

text \<open>
  The UTF-8 encodings of the code points for which \<open>unicode.IsSpace\<close> holds. Lead bytes
  never occur inside a longer encoding, so looking for an encoding at every byte position finds
  the same white space as decoding rune by rune.
\<close>

definition space_encodings :: "string list" where
  "space_encodings =
     [[CHR 0x20], [CHR 0x0A], [CHR 0x09], [CHR 0x0D], [CHR 0x0B], [CHR 0x0C],
      [CHR 0xC2, CHR 0x85], [CHR 0xC2, CHR 0xA0], [CHR 0xE1, CHR 0x9A, CHR 0x80],
      [CHR 0xE2, CHR 0x80, CHR 0x80], [CHR 0xE2, CHR 0x80, CHR 0x81],
      [CHR 0xE2, CHR 0x80, CHR 0x82], [CHR 0xE2, CHR 0x80, CHR 0x83],
      [CHR 0xE2, CHR 0x80, CHR 0x84], [CHR 0xE2, CHR 0x80, CHR 0x85],
      [CHR 0xE2, CHR 0x80, CHR 0x86], [CHR 0xE2, CHR 0x80, CHR 0x87],
      [CHR 0xE2, CHR 0x80, CHR 0x88], [CHR 0xE2, CHR 0x80, CHR 0x89],
      [CHR 0xE2, CHR 0x80, CHR 0x8A], [CHR 0xE2, CHR 0x80, CHR 0xA8],
      [CHR 0xE2, CHR 0x80, CHR 0xA9], [CHR 0xE2, CHR 0x80, CHR 0xAF],
      [CHR 0xE2, CHR 0x81, CHR 0x9F], [CHR 0xE3, CHR 0x80, CHR 0x80]]"

definition ws_len :: "string \<Rightarrow> nat" where
  "ws_len s = (case find (\<lambda>w. prefix w s) space_encodings of None \<Rightarrow> 0 | Some w \<Rightarrow> length w)"

definition ws_rlen :: "string \<Rightarrow> nat" where
  "ws_rlen s = (case find (\<lambda>w. suffix w s) space_encodings of None \<Rightarrow> 0 | Some w \<Rightarrow> length w)"

lemma space_encodings_nonempty: "w \<in> set space_encodings \<Longrightarrow> w \<noteq> []"
  by (auto simp: space_encodings_def)

lemma space_encodings_head:
  "w \<in> set space_encodings \<Longrightarrow> CHR 0x20 \<in> set w \<Longrightarrow> w = [CHR 0x20]"
  by (auto simp: space_encodings_def)

lemma space_encodings_newline:
  "w \<in> set space_encodings \<Longrightarrow> CHR 0x0A \<in> set w \<Longrightarrow> w = [CHR 0x0A]"
  by (auto simp: space_encodings_def)

lemma ws_len_0_iff: "ws_len s = 0 \<longleftrightarrow> (\<forall>w \<in> set space_encodings. \<not> prefix w s)"
  by (auto simp: ws_len_def find_None_iff find_Some_iff dest: space_encodings_nonempty split: option.splits)
    (metis nth_mem space_encodings_nonempty)

lemma ws_rlen_0_iff: "ws_rlen s = 0 \<longleftrightarrow> (\<forall>w \<in> set space_encodings. \<not> suffix w s)"
  by (auto simp: ws_rlen_def find_None_iff find_Some_iff dest: space_encodings_nonempty split: option.splits)
    (metis nth_mem space_encodings_nonempty)

lemma ws_len_le: "ws_len s \<le> length s"
  by (auto simp: ws_len_def find_Some_iff dest: prefix_length_le split: option.splits)

lemma ws_len_Nil [simp, go_simps]: "ws_len [] = 0"
  using ws_len_le [of "[]"] by simp

lemma ws_rlen_le: "ws_rlen s \<le> length s"
  by (auto simp: ws_rlen_def find_Some_iff dest: suffix_length_le split: option.splits)

lemma ws_rlen_Nil [simp]: "ws_rlen [] = 0"
  using ws_rlen_le [of "[]"] by simp

subsection \<open>strings.TrimSpace and strings.Fields\<close>

function trim_left :: "string \<Rightarrow> string" where
  "trim_left s = (if ws_len s = 0 then s else trim_left (drop (ws_len s) s))"
  by pat_completeness auto
termination
proof (relation "measure length")
  fix s :: string
  assume "ws_len s \<noteq> 0"
  then show "(drop (ws_len s) s, s) \<in> measure length"
    using ws_len_le [of s] by simp
qed simp

function trim_right :: "string \<Rightarrow> string" where
  "trim_right s = (if ws_rlen s = 0 then s else trim_right (take (length s - ws_rlen s) s))"
  by pat_completeness auto
termination
proof (relation "measure length")
  fix s :: string
  assume "ws_rlen s \<noteq> 0"
  then show "(take (length s - ws_rlen s) s, s) \<in> measure length"
    using ws_rlen_le [of s] by simp
qed simp

declare trim_left.simps [simp del] trim_right.simps [simp del]

definition trim_space :: "string \<Rightarrow> string" where
  "trim_space s = trim_right (trim_left s)"

function fields_from :: "string \<Rightarrow> string \<Rightarrow> string list" where
  "fields_from acc s =
     (if s = [] then (if acc = [] then [] else [rev acc])
      else if ws_len s = 0 then fields_from (hd s # acc) (tl s)
      else (if acc = [] then [] else [rev acc]) @ fields_from [] (drop (ws_len s) s))"
  by pat_completeness auto
termination
proof (relation "measure (\<lambda>(acc, s). length s)")
  fix acc s :: string
  assume "s \<noteq> []" "ws_len s \<noteq> 0"
  then show "(([], drop (ws_len s) s), acc, s) \<in> measure (\<lambda>(acc, s). length s)"
    using ws_len_le [of s] by simp
qed auto

declare fields_from.simps [simp del]

definition fields_of :: "string \<Rightarrow> string list" where
  "fields_of s = fields_from [] s"

text \<open>A string without white space anywhere.\<close>

fun nospace :: "string \<Rightarrow> bool" where
  "nospace [] = True"
| "nospace (c # s) = (ws_len (c # s) = 0 \<and> nospace s)"

lemma ws_len_append: "ws_len (a @ b) = 0 \<Longrightarrow> ws_len a = 0"
  by (auto simp: ws_len_0_iff)

lemma ws_len_append_sep:
  assumes "a \<noteq> []" "ws_len a = 0"
  shows "ws_len (a @ CHR 0x20 # b) = 0"
  unfolding ws_len_0_iff
proof (intro ballI notI)
  fix w assume w: "w \<in> set space_encodings" and p: "prefix w (a @ CHR 0x20 # b)"
  with assms(2) have np: "\<not> prefix w a" by (auto simp: ws_len_0_iff)
  with p obtain u where u: "w = a @ u" "prefix u (CHR 0x20 # b)"
    by (auto simp: prefix_append)
  with np have "u \<noteq> []" by auto
  with u(2) have "CHR 0x20 \<in> set w" using u(1) by (cases u) auto
  with w have "w = [CHR 0x20]" by (blast dest: space_encodings_head)
  with u(1) assms(1) \<open>u \<noteq> []\<close> show False by (cases a) auto
qed

lemma ws_len_sep:
  assumes "a \<noteq> []"
  shows "ws_len (a @ CHR 0x20 # b) = ws_len a"
proof -
  have "prefix w (a @ CHR 0x20 # b) \<longleftrightarrow> prefix w a" if w: "w \<in> set space_encodings" for w
  proof
    assume "prefix w (a @ CHR 0x20 # b)"
    then consider "prefix w a" | u where "w = a @ u" "u \<noteq> []" "prefix u (CHR 0x20 # b)"
      by (cases "prefix w a") (auto simp: prefix_append)
    then show "prefix w a"
    proof cases
      case 2
      then have "CHR 0x20 \<in> set w" by (cases u) auto
      then have "w = [CHR 0x20]" using w by (blast dest: space_encodings_head)
      then show ?thesis using 2 assms by (cases a) auto
    qed
  qed simp
  then have "find (\<lambda>w. prefix w (a @ CHR 0x20 # b)) space_encodings = find (\<lambda>w. prefix w a) space_encodings"
    by (intro find_cong) simp_all
  then show ?thesis by (simp add: ws_len_def)
qed

lemma ws_len_space [simp]: "ws_len (CHR 0x20 # r) = 1"
  by (simp add: ws_len_def space_encodings_def)

lemma ws_len_newline [simp]: "ws_len (CHR 0x0A # r) = 1"
  by (simp add: ws_len_def space_encodings_def)

lemma nospace_iff: "nospace s \<longleftrightarrow> (\<forall>i < length s. ws_len (drop i s) = 0)"
  by (induction s) (auto simp: less_Suc_eq_0_disj)

lemma nospace_drop: "nospace s \<Longrightarrow> nospace (drop i s)"
  by (simp add: nospace_iff)

lemma nospace_ws_len: "nospace s \<Longrightarrow> ws_len s = 0"
  by (cases s) simp_all

lemma nospace_no_space: "nospace s \<Longrightarrow> CHR 0x20 \<notin> set s"
  by (induction s) (auto simp: ws_len_def space_encodings_def)

lemma nospace_no_newline: "nospace s \<Longrightarrow> CHR 0x0A \<notin> set s"
  by (induction s) (auto simp: ws_len_def space_encodings_def)

lemma nospace_ws_rlen:
  assumes "nospace s"
  shows "ws_rlen s = 0"
  unfolding ws_rlen_0_iff
proof (intro ballI notI)
  fix w assume w: "w \<in> set space_encodings" and "suffix w s"
  then obtain p where p: "s = p @ w" by (auto simp: suffix_def)
  from assms have "nospace (drop (length p) s)" by (rule nospace_drop)
  then have "ws_len w = 0" using p by (simp add: nospace_ws_len)
  with w show False by (auto simp: ws_len_0_iff)
qed

lemma ws_rlen_append_sep:
  assumes "nospace f" "f \<noteq> []"
  shows "ws_rlen (a @ CHR 0x20 # f) = 0"
  unfolding ws_rlen_0_iff
proof (intro ballI notI)
  fix w assume w: "w \<in> set space_encodings" and p: "suffix w (a @ CHR 0x20 # f)"
  have "\<not> suffix w f"
    using nospace_ws_rlen [OF assms(1)] w by (auto simp: ws_rlen_0_iff)
  with p have "suffix f w" "f \<noteq> w"
    by (auto simp: suffix_def append_eq_append_conv2 Cons_eq_append_conv)
  then obtain u where u: "w = u @ f" "u \<noteq> []" by (auto simp: suffix_def)
  with p have "suffix u (a @ [CHR 0x20])" by (auto simp: suffix_def)
  with u(2) have "last u = CHR 0x20" by (auto simp: suffix_def) (metis last_appendR last_snoc)
  with u(2) have "CHR 0x20 \<in> set u" by (metis last_in_set)
  with u(1) have "CHR 0x20 \<in> set w" by simp
  with w have "w = [CHR 0x20]" by (blast dest: space_encodings_head)
  with u assms(2) show False by (cases u) auto
qed

lemma trim_right_keep:
  assumes "\<forall>w \<in> set space_encodings. c \<notin> set w"
  shows "\<exists>r'. trim_right (p @ c # r) = p @ c # r'"
proof (induction "length r" arbitrary: r rule: less_induct)
  case less
  let ?s = "p @ c # r"
  show ?case
  proof (cases "ws_rlen ?s = 0")
    case True
    then show ?thesis by (simp add: trim_right.simps [of ?s])
  next
    case False
    then obtain w where w: "w \<in> set space_encodings" "suffix w ?s" "ws_rlen ?s = length w"
      unfolding ws_rlen_def by (auto split: option.splits dest!: find_Some_in)
    have "length w \<le> length r"
    proof (rule ccontr)
      assume "\<not> length w \<le> length r"
      moreover have "suffix (c # r) ?s" by (simp add: suffix_def)
      ultimately have "suffix (c # r) w" using w(2) by (auto intro: suffix_length_suffix)
      then have "c \<in> set w" by (auto simp: suffix_def)
      with assms w(1) show False by blast
    qed
    then have t: "take (length ?s - ws_rlen ?s) ?s = p @ c # take (length r - length w) r"
      using w(3) by (simp add: Suc_diff_le)
    have "0 < length w" using False w(3) by simp
    with \<open>length w \<le> length r\<close> have "length (take (length r - length w) r) < length r"
      by (simp add: diff_less del: length_greater_0_conv)
    from less [OF this] show ?thesis using False t by (simp add: trim_right.simps [of ?s])
  qed
qed

text \<open>What a right trim removes behind a character that is no part of a space does not depend on what is before it.\<close>

lemma ws_rlen_behind:
  assumes "\<forall>w \<in> set space_encodings. c \<notin> set w"
  shows "ws_rlen (p @ c # r) = ws_rlen r"
proof -
  have "suffix w (p @ c # r) \<longleftrightarrow> suffix w r" if "w \<in> set space_encodings" for w
  proof
    assume w: "suffix w (p @ c # r)"
    have "suffix (c # r) (p @ c # r)" by (simp add: suffix_def)
    with w have "suffix w (c # r) \<or> suffix (c # r) w" by (rule suffix_same_cases)
    moreover have "c \<notin> set w" using assms that by blast
    ultimately show "suffix w r" by (auto simp: suffix_def Cons_eq_append_conv)
  next
    assume "suffix w r"
    then show "suffix w (p @ c # r)" using suffix_appendI [of w r "p @ [c]"] by simp
  qed
  then have "find (\<lambda>w. suffix w (p @ c # r)) space_encodings = find (\<lambda>w. suffix w r) space_encodings"
    by (intro find_cong) simp_all
  then show ?thesis by (simp add: ws_rlen_def)
qed

lemma trim_right_behind:
  assumes "\<forall>w \<in> set space_encodings. c \<notin> set w"
  shows "trim_right (p @ c # r) = p @ c # trim_right r"
proof (induction "length r" arbitrary: r rule: less_induct)
  case less
  note n = ws_rlen_behind [OF assms, of p r]
  show ?case
  proof (cases "ws_rlen r = 0")
    case True
    then show ?thesis using n by (simp add: trim_right.simps [of "p @ c # r"] trim_right.simps [of r])
  next
    case False
    then have r: "ws_rlen r \<le> length r" "length (take (length r - ws_rlen r) r) < length r"
      using ws_rlen_le [of r] by simp_all
    then have "take (length (p @ c # r) - ws_rlen r) (p @ c # r) = p @ c # take (length r - ws_rlen r) r"
      by (simp add: Suc_diff_le)
    with less [OF r(2)] show ?thesis
      using False n by (simp add: trim_right.simps [of "p @ c # r"] trim_right.simps [of r])
  qed
qed

text \<open>A word of characters that are no part of a space stays in front of what is trimmed.\<close>

definition solid :: "string \<Rightarrow> bool" where
  "solid s \<longleftrightarrow> s \<noteq> [] \<and> list_all (\<lambda>c. list_all (\<lambda>w. c \<notin> set w) space_encodings) s"

lemma trim_space_solid:
  assumes "solid k"
  shows "trim_space (k @ r) = k @ trim_right r"
proof -
  obtain a c where k: "k = a @ [c]" "\<forall>w \<in> set space_encodings. c \<notin> set w"
    using assms by (cases k rule: rev_cases) (auto simp: solid_def list_all_iff)
  have "hd k \<notin> set w" if "w \<in> set space_encodings" for w
    using assms that by (cases k) (auto simp: solid_def list_all_iff)
  then have "ws_len (k @ r) = 0"
    using assms space_encodings_nonempty by (fastforce simp: ws_len_0_iff solid_def prefix_def neq_Nil_conv append_eq_Cons_conv)
  then have "trim_space (k @ r) = trim_right (a @ c # r)" by (simp add: trim_space_def trim_left.simps [of "a @ c # r"] k(1))
  then show ?thesis using trim_right_behind [OF k(2)] k(1) by simp
qed

lemma trim_right_newline: "trim_right (s @ [CHR 0x0A]) = trim_right s"
  by (simp add: trim_right.simps [of "s @ [CHR 0x0A]"] ws_rlen_def space_encodings_def suffix_def)

lemma trim_left_id: "ws_len s = 0 \<Longrightarrow> trim_left s = s"
  by (simp add: trim_left.simps [of s])

lemma trim_space_right: "ws_len s = 0 \<Longrightarrow> trim_space s = trim_right s"
  by (simp add: trim_space_def trim_left_id)

lemma trim_space_id: "ws_len s = 0 \<Longrightarrow> ws_rlen s = 0 \<Longrightarrow> trim_space s = s"
  by (simp add: trim_space_def trim_left.simps [of s] trim_right.simps [of s])

lemma ws_len_trim_left: "ws_len (trim_left s) = 0"
  by (induction s rule: trim_left.induct) (simp add: trim_left.simps)

lemma ws_rlen_trim_right: "ws_rlen (trim_right s) = 0"
  by (induction s rule: trim_right.induct) (simp add: trim_right.simps)

lemma ws_len_take: "ws_len s = 0 \<Longrightarrow> ws_len (take n s) = 0"
  by (metis append_take_drop_id ws_len_append)

lemma ws_len_trim_right: "ws_len s = 0 \<Longrightarrow> ws_len (trim_right s) = 0"
  by (induction s rule: trim_right.induct) (metis trim_right.simps ws_len_take)

lemma ws_len_trim_space [simp]: "ws_len (trim_space s) = 0"
  by (simp add: trim_space_def ws_len_trim_right ws_len_trim_left)

lemma ws_rlen_trim_space [simp]: "ws_rlen (trim_space s) = 0"
  by (simp add: trim_space_def ws_rlen_trim_right)

lemma trim_space_idem [simp]: "trim_space (trim_space s) = trim_space s"
  by (rule trim_space_id) simp_all

lemma trim_space_Nil [simp]: "trim_space [] = []"
  by (simp add: trim_space_id)

lemma set_trim_left: "set (trim_left s) \<subseteq> set s"
  by (induction s rule: trim_left.induct) (metis trim_left.simps set_drop_subset subset_trans order_refl)

lemma set_trim_right: "set (trim_right s) \<subseteq> set s"
  by (induction s rule: trim_right.induct) (metis trim_right.simps set_take_subset subset_trans order_refl)

lemma set_trim_space: "set (trim_space s) \<subseteq> set s"
  unfolding trim_space_def using set_trim_left set_trim_right by blast

lemma fields_from_word_sep:
  "nospace a \<Longrightarrow> fields_from acc (a @ CHR 0x20 # r) =
     (if rev acc @ a = [] then [] else [rev acc @ a]) @ fields_from [] r"
proof (induction a arbitrary: acc)
  case Nil
  then show ?case by (simp add: fields_from.simps [of acc])
next
  case (Cons c a)
  have "ws_len (c # a @ CHR 0x20 # r) = 0"
    using ws_len_append_sep [of "c # a" r] Cons.prems by simp
  with Cons show ?case by (simp add: fields_from.simps [of acc])
qed

lemma fields_from_word_end:
  "nospace a \<Longrightarrow> fields_from acc a = (if rev acc @ a = [] then [] else [rev acc @ a])"
proof (induction a arbitrary: acc)
  case Nil
  then show ?case by (simp add: fields_from.simps [of acc])
next
  case (Cons c a)
  then show ?case by (simp add: fields_from.simps [of acc])
qed

lemma fields_from_props:
  "(\<forall>i < length acc. ws_len (drop i (rev acc @ s)) = 0) \<Longrightarrow>
     f \<in> set (fields_from acc s) \<Longrightarrow> f \<noteq> [] \<and> nospace f"
proof (induction acc s rule: fields_from.induct)
  case (1 acc s)
  have acc: "nospace (rev acc)"
    unfolding nospace_iff
  proof (intro allI impI)
    fix i assume "i < length (rev acc)"
    with "1.prems"(1) have "ws_len (drop i (rev acc) @ s) = 0" by auto
    then show "ws_len (drop i (rev acc)) = 0" by (rule ws_len_append)
  qed
  show ?case
  proof (cases "s = []")
    case True
    with "1.prems"(2) acc show ?thesis by (auto simp: fields_from.simps [of acc] split: if_splits)
  next
    case s: False
    show ?thesis
    proof (cases "ws_len s = 0")
      case True
      have "\<forall>i < length (hd s # acc). ws_len (drop i (rev (hd s # acc) @ tl s)) = 0"
        using "1.prems"(1) True s by (auto simp: less_Suc_eq)
      moreover have "f \<in> set (fields_from (hd s # acc) (tl s))"
        using "1.prems"(2) True s by (simp add: fields_from.simps [of acc])
      ultimately show ?thesis using "1.IH"(1) [OF s True] by blast
    next
      case False
      with "1.prems"(2) s have "f \<in> set (if acc = [] then [] else [rev acc]) \<or>
          f \<in> set (fields_from [] (drop (ws_len s) s))"
        by (simp add: fields_from.simps [of acc])
      then show ?thesis using "1.IH"(2) [OF s False] acc by (auto split: if_splits)
    qed
  qed
qed

lemma fields_nospace: "f \<in> set (fields_of s) \<Longrightarrow> nospace f"
  and fields_nonempty: "f \<in> set (fields_of s) \<Longrightarrow> f \<noteq> []"
  using fields_from_props [of "[]" s f] by (auto simp: fields_of_def)

lemma fields_Nil [simp]: "fields_of [] = []"
  by (simp add: fields_of_def fields_from.simps)

lemma fields_word: "nospace a \<Longrightarrow> a \<noteq> [] \<Longrightarrow> fields_of (a @ CHR 0x20 # r) = a # fields_of r"
  by (simp add: fields_of_def fields_from_word_sep)

lemma fields_from_sep: "fields_from acc (a @ CHR 0x20 # r) = fields_from acc a @ fields_of r"
proof (induction acc a rule: fields_from.induct)
  case (1 acc a)
  show ?case
  proof (cases "a = []")
    case True
    then show ?thesis by (subst (1 2) fields_from.simps) (simp add: fields_of_def)
  next
    case ne: False
    note l = ws_len_sep [OF ne, of r]
    show ?thesis
    proof (cases "ws_len a = 0")
      case True
      then show ?thesis
        using 1(1) [OF ne True] ne l by (subst (1 2) fields_from.simps) (simp add: neq_Nil_conv, auto)
    next
      case False
      then show ?thesis
        using 1(2) [OF ne False] ne l ws_len_le [of a] by (subst (1 2) fields_from.simps) simp
    qed
  qed
qed

lemma fields_sep: "fields_of (a @ CHR 0x20 # r) = fields_of a @ fields_of r"
  using fields_from_sep [of "[]" a r] by (simp add: fields_of_def)

lemma fields_single: "nospace a \<Longrightarrow> a \<noteq> [] \<Longrightarrow> fields_of a = [a]"
  by (simp add: fields_of_def fields_from_word_end)

subsection \<open>strings.Join, strings.Split and their relatives\<close>

fun join :: "string \<Rightarrow> string list \<Rightarrow> string" where
  "join sep [] = []"
| "join sep [x] = x"
| "join sep (x # y # ys) = x @ sep @ join sep (y # ys)"

fun split_on :: "char \<Rightarrow> string \<Rightarrow> string list" where
  "split_on c [] = [[]]"
| "split_on c (x # xs) =
     (if x = c then [] # split_on c xs
      else (case split_on c xs of [] \<Rightarrow> [[x]] | l # ls \<Rightarrow> (x # l) # ls))"

lemma split_on_nonempty [simp]: "split_on c s \<noteq> []"
  by (cases s) (auto split: list.splits)

lemma join_Cons: "xs \<noteq> [] \<Longrightarrow> join sep (x # xs) = x @ sep @ join sep xs"
  by (cases xs) simp_all

lemma join_snoc: "xs \<noteq> [] \<Longrightarrow> join sep (xs @ [x]) = join sep xs @ sep @ x"
  by (induction xs rule: induct_list012) auto

lemma join_append: "xs \<noteq> [] \<Longrightarrow> ys \<noteq> [] \<Longrightarrow> join sep (xs @ ys) = join sep xs @ sep @ join sep ys"
  by (induction xs rule: induct_list012) (auto simp: join_Cons)

lemma join_split_on: "join [c] (split_on c s) = s"
proof (induction s)
  case Nil
  then show ?case by simp
next
  case (Cons x xs)
  then show ?case
    by (cases "split_on c xs"; cases "tl (split_on c xs)") (auto simp: join_Cons)
qed

lemma split_on_no_sep: "l \<in> set (split_on c s) \<Longrightarrow> c \<notin> set l"
proof (induction s arbitrary: l)
  case Nil
  then show ?case by simp
next
  case (Cons x xs)
  then show ?case by (cases "split_on c xs") (auto split: if_splits)
qed

lemma split_on_id: "c \<notin> set s \<Longrightarrow> split_on c s = [s]"
  by (induction s) auto

lemma split_on_append: "c \<notin> set a \<Longrightarrow> split_on c (a @ c # s) = a # split_on c s"
  by (induction a) auto

lemma split_on_join:
  "ls \<noteq> [] \<Longrightarrow> (\<forall>l \<in> set ls. c \<notin> set l) \<Longrightarrow> split_on c (join [c] ls) = ls"
proof (induction ls rule: induct_list012)
  case (3 x y zs)
  then show ?case by (simp add: split_on_append)
qed (simp_all add: split_on_id)

lemma split_on_sep: "split_on c (a @ c # b) = split_on c a @ split_on c b"
proof -
  have "split_on c (join [c] (split_on c a) @ c # b) = split_on c a @ split_on c b"
    if "ls \<noteq> []" "\<forall>l \<in> set ls. c \<notin> set l" "ls = split_on c a" for ls
  proof -
    have "split_on c (join [c] ls @ c # b) = ls @ split_on c b" using that(1,2)
      by (induction ls rule: induct_list012) (auto simp: split_on_append)
    with that(3) show ?thesis by simp
  qed
  from this [of "split_on c a"] show ?thesis by (metis join_split_on split_on_no_sep split_on_nonempty)
qed

lemma split_on_behind: "c \<notin> set a \<Longrightarrow> split_on c (a @ s) = (a @ hd (split_on c s)) # tl (split_on c s)"
  by (induction a) (auto split: list.splits)

lemma split_on_blanks: "split_on c (a @ replicate n c) = split_on c a @ replicate n []"
proof (induction n)
  case (Suc n)
  have "a @ replicate (Suc n) c = (a @ replicate n c) @ c # []"
    by (simp add: replicate_append_same)
  then show ?case using Suc by (simp only: split_on_sep) (simp add: replicate_append_same [symmetric])
qed simp

lemma set_join: "set (join sep ls) \<subseteq> set sep \<union> \<Union> (set ` set ls)"
  by (induction sep ls rule: join.induct) auto

lemma fields_join_append:
  assumes "\<forall>f \<in> set fs. nospace f \<and> f \<noteq> []" "fs \<noteq> []"
  shows "fields_of (join [CHR 0x20] fs @ CHR 0x20 # r) = fs @ fields_of r"
  using assms
proof (induction fs rule: induct_list012)
  case (3 x y zs)
  have eq: "join [CHR 0x20] (x # y # zs) @ CHR 0x20 # r
      = x @ CHR 0x20 # (join [CHR 0x20] (y # zs) @ CHR 0x20 # r)"
    by simp
  have "nospace x" "x \<noteq> []" using "3.prems" by auto
  then have "fields_of (join [CHR 0x20] (x # y # zs) @ CHR 0x20 # r)
      = x # fields_of (join [CHR 0x20] (y # zs) @ CHR 0x20 # r)"
    unfolding eq by (rule fields_word)
  also have "fields_of (join [CHR 0x20] (y # zs) @ CHR 0x20 # r) = (y # zs) @ fields_of r"
    using "3.IH"(2) "3.prems" by auto
  finally show ?case by simp
qed (simp_all add: fields_word)

lemma fields_join:
  assumes "\<forall>f \<in> set fs. nospace f \<and> f \<noteq> []"
  shows "fields_of (join [CHR 0x20] fs) = fs"
  using assms
proof (induction fs rule: induct_list012)
  case (3 x y zs)
  have "nospace x" "x \<noteq> []" using "3.prems" by auto
  then have "fields_of (x @ CHR 0x20 # join [CHR 0x20] (y # zs)) = x # fields_of (join [CHR 0x20] (y # zs))"
    by (rule fields_word)
  with "3.IH"(2) "3.prems" show ?case by simp
qed (simp_all add: fields_single)

lemma ws_len_join:
  assumes "\<forall>f \<in> set fs. nospace f \<and> f \<noteq> []"
  shows "ws_len (join [CHR 0x20] fs) = 0"
  using assms by (induction fs rule: induct_list012) (auto simp: nospace_ws_len ws_len_append_sep)

lemma ws_rlen_join:
  assumes "\<forall>f \<in> set fs. nospace f \<and> f \<noteq> []"
  shows "ws_rlen (join [CHR 0x20] fs) = 0"
  using assms
proof (induction fs rule: rev_induct)
  case (snoc x xs)
  then show ?case
    by (cases "xs = []") (auto simp: nospace_ws_rlen join_snoc ws_rlen_append_sep)
qed simp

lemma trim_space_join:
  "\<forall>f \<in> set fs. nospace f \<and> f \<noteq> [] \<Longrightarrow> trim_space (join [CHR 0x20] fs) = join [CHR 0x20] fs"
  by (simp add: trim_space_id ws_len_join ws_rlen_join)

lemma trim_space_Space: "trim_space (CHR 0x20 # s) = trim_space s"
  by (simp add: trim_space_def trim_left.simps [of "CHR 0x20 # s"])

lemma join_fields: "\<forall>f \<in> set (fields_of s). nospace f \<and> f \<noteq> []"
  using fields_nospace fields_nonempty by blast

lemma hd_fields_from:
  "acc \<noteq> [] \<Longrightarrow> fields_from acc s \<noteq> [] \<and> prefix (rev acc) (hd (fields_from acc s))"
proof (induction acc s rule: fields_from.induct)
  case (1 acc s)
  show ?case
  proof (cases "s = [] \<or> ws_len s \<noteq> 0")
    case True
    then show ?thesis using 1(3) by (subst (1 2) fields_from.simps) auto
  next
    case False
    then have "fields_from acc s = fields_from (hd s # acc) (tl s)" by (subst fields_from.simps) auto
    moreover have "prefix (rev acc) (rev (hd s # acc))" by simp
    ultimately show ?thesis using 1(1) False by (metis list.distinct(1) prefix_order.trans)
  qed
qed

lemma hd_fields:
  assumes "s \<noteq> []" "ws_len s = 0"
  shows "fields_of s \<noteq> []" "hd (fields_of s) \<noteq> []" "hd (hd (fields_of s)) = hd s"
proof -
  have f: "fields_of s = fields_from [hd s] (tl s)"
    using assms by (simp add: fields_of_def fields_from.simps [of "[]" s])
  note p = hd_fields_from [of "[hd s]" "tl s"]
  show "fields_of s \<noteq> []" using p f by simp
  show "hd (fields_of s) \<noteq> []" "hd (hd (fields_of s)) = hd s"
    using p f by (auto simp: prefix_def)
qed

text \<open>\<open>strings.Contains\<close>, \<open>ContainsAny\<close> (with ASCII sets), \<open>HasPrefix\<close> and the trims.\<close>

fun contains :: "string \<Rightarrow> string \<Rightarrow> bool" where
  "contains [] p = (p = [])"
| "contains (c # s) p = (prefix p (c # s) \<or> contains s p)"

definition contains_any :: "string \<Rightarrow> string \<Rightarrow> bool" where
  "contains_any s cs = list_ex (\<lambda>c. c \<in> set cs) s"

definition trim_prefix :: "string \<Rightarrow> string \<Rightarrow> string" where
  "trim_prefix s p = (if prefix p s then drop (length p) s else s)"

definition trim_suffix :: "string \<Rightarrow> string \<Rightarrow> string" where
  "trim_suffix s p = (if suffix p s then take (length s - length p) s else s)"

definition trim_right_char :: "char \<Rightarrow> string \<Rightarrow> string" where
  "trim_right_char c s = rev (dropWhile (\<lambda>x. x = c) (rev s))"

lemma contains_iff: "contains s p \<longleftrightarrow> (\<exists>a b. s = a @ p @ b)"
proof (induction s)
  case Nil
  then show ?case by auto
next
  case (Cons c s)
  show ?case
  proof
    assume "contains (c # s) p"
    then consider "prefix p (c # s)" | "contains s p" by auto
    then show "\<exists>a b. c # s = a @ p @ b"
    proof cases
      case 1
      then show ?thesis by (auto simp: prefix_def intro: exI [of _ "[]"])
    next
      case 2
      then obtain a b where "s = a @ p @ b" using Cons.IH by auto
      then have "c # s = (c # a) @ p @ b" by simp
      then show ?thesis by blast
    qed
  next
    assume "\<exists>a b. c # s = a @ p @ b"
    then obtain a b where ab: "c # s = a @ p @ b" by blast
    then have "prefix p (c # s) \<or> (\<exists>a b. s = a @ p @ b)"
      by (cases a) auto
    then show "contains (c # s) p" by (simp add: Cons.IH)
  qed
qed

lemma contains_single [simp]: "contains s [c] \<longleftrightarrow> c \<in> set s"
  by (auto simp: contains_iff in_set_conv_decomp)

lemma contains_any_iff: "contains_any s cs \<longleftrightarrow> set s \<inter> set cs \<noteq> {}"
  by (auto simp: contains_any_def list_ex_iff)

lemma trim_right_char_snoc: "trim_right_char c (s @ [c]) = trim_right_char c s"
  by (simp add: trim_right_char_def)

lemma trim_right_char_id: "s = [] \<or> last s \<noteq> c \<Longrightarrow> trim_right_char c s = s"
  by (cases s rule: rev_cases) (simp_all add: trim_right_char_def)

lemma trim_right_char_decomp: "\<exists>n. s = trim_right_char c s @ replicate n c"
proof (induction s rule: rev_induct)
  case Nil
  then show ?case by (simp add: trim_right_char_def)
next
  case (snoc x s)
  show ?case
  proof (cases "x = c")
    case True
    from snoc obtain n where "s = trim_right_char c s @ replicate n c" by blast
    then have "s @ [x] = trim_right_char c s @ replicate (Suc n) c"
      using True by (metis append_assoc replicate_append_same replicate_Suc)
    then show ?thesis using True by (metis trim_right_char_snoc)
  next
    case False
    then show ?thesis by (auto simp: trim_right_char_id intro: exI [of _ 0])
  qed
qed

lemma trim_right_char_last: "trim_right_char c s = [] \<or> last (trim_right_char c s) \<noteq> c"
proof -
  have "dropWhile (\<lambda>x. x = c) (rev s) = [] \<or> hd (dropWhile (\<lambda>x. x = c) (rev s)) \<noteq> c"
    using hd_dropWhile [of "\<lambda>x. x = c" "rev s"] by blast
  then show ?thesis by (auto simp: trim_right_char_def last_rev)
qed

subsection \<open>strconv: decimal integers\<close>

fun digit_char :: "nat \<Rightarrow> char" where
  "digit_char d = char_of (48 + d)"

fun show_nat :: "nat \<Rightarrow> string" where
  "show_nat n = (if n < 10 then [digit_char n] else show_nat (n div 10) @ [digit_char (n mod 10)])"

declare show_nat.simps [simp del]

text \<open>\<open>strconv.Itoa\<close> and \<open>fmt.Sprintf("%d", n)\<close>.\<close>

definition itoa :: "int \<Rightarrow> string" where
  "itoa n = (if n < 0 then CHR ''-'' # show_nat (nat (- n)) else show_nat (nat n))"

definition is_digit :: "char \<Rightarrow> bool" where
  "is_digit c = (48 \<le> (of_char c :: nat) \<and> of_char c \<le> (57 :: nat))"

fun digits_val :: "nat \<Rightarrow> string \<Rightarrow> nat option" where
  "digits_val acc [] = Some acc"
| "digits_val acc (c # s) = (if is_digit c then digits_val (10 * acc + (of_char c - 48)) s else None)"

text \<open>
  \<open>strconv.Atoi\<close> on a 64-bit host: an optional sign, at least one digit, nothing else, and the
  value in range. The error is \<open>None\<close>.
\<close>

definition atoi :: "string \<Rightarrow> int option" where
  "atoi s =
     (let neg = (case s of c # _ \<Rightarrow> c = CHR ''-'' | [] \<Rightarrow> False);
          body = (case s of c # r \<Rightarrow> if c = CHR ''-'' \<or> c = CHR ''+'' then r else s | [] \<Rightarrow> [])
      in if body = [] then None
         else (case digits_val 0 body of
             None \<Rightarrow> None
           | Some n \<Rightarrow> (let v = (if neg then - int n else int n)
                        in if - (2 ^ 63) \<le> v \<and> v < 2 ^ 63 then Some v else None)))"

lemma digits_val_append:
  "digits_val acc (a @ b) = (case digits_val acc a of None \<Rightarrow> None | Some v \<Rightarrow> digits_val v b)"
  by (induction a arbitrary: acc) auto

lemma digit_char_ok:
  "d < 10 \<Longrightarrow> is_digit (digit_char d)" "d < 10 \<Longrightarrow> of_char (digit_char d) = 48 + d"
  by (simp_all add: is_digit_def)

lemma digits_val_show_nat: "digits_val 0 (show_nat n) = Some n"
proof (induction n rule: show_nat.induct)
  case (1 n)
  show ?case
  proof (cases "n < 10")
    case True
    then show ?thesis
      using digit_char_ok [OF True] by (simp add: show_nat.simps [of n] del: digit_char.simps)
  next
    case False
    have d: "n mod 10 < 10" by simp
    show ?thesis
      using "1.IH" [OF False] False digit_char_ok [OF d]
      by (simp add: show_nat.simps [of n] digits_val_append del: digit_char.simps)
  qed
qed

lemma show_nat_digits: "c \<in> set (show_nat n) \<Longrightarrow> is_digit c"
proof (induction n rule: show_nat.induct)
  case (1 n)
  then show ?case
    using digit_char_ok(1) [of n] digit_char_ok(1) [of "n mod 10"]
    by (cases "n < 10") (auto simp: show_nat.simps [of n] simp del: digit_char.simps)
qed

lemma show_nat_nonempty [simp]: "show_nat n \<noteq> []"
  by (simp add: show_nat.simps [of n])

lemma show_nat_inject: "show_nat a = show_nat b \<longleftrightarrow> a = b"
  by (metis digits_val_show_nat option.inject)

lemma itoa_no_colon: "CHR '':'' \<notin> set (itoa n)"
proof -
  have "\<not> is_digit (CHR '':'')" by (simp add: is_digit_def)
  then show ?thesis using show_nat_digits by (auto simp: itoa_def)
qed

lemma itoa_head: "\<not> (n < 0) \<Longrightarrow> CHR ''-'' \<notin> set (itoa n)"
  using show_nat_digits [of "CHR ''-''" "nat n"] by (auto simp: itoa_def is_digit_def)

lemma itoa_inject: "itoa m = itoa n \<longleftrightarrow> m = n"
proof
  assume eq: "itoa m = itoa n"
  have minus: "k < 0 \<longleftrightarrow> CHR ''-'' \<in> set (itoa k)" for k
    using itoa_head [of k] by (auto simp: itoa_def)
  have "(m < 0) = (n < 0)"
    using eq by (simp only: minus)
  with eq show "m = n" by (auto simp: itoa_def show_nat_inject split: if_splits)
qed simp

lemma atoi_itoa_nonneg: "0 \<le> n \<Longrightarrow> n < 2 ^ 63 \<Longrightarrow> atoi (itoa n) = Some n"
proof -
  assume n: "0 \<le> n" "n < 2 ^ 63"
  obtain c r where cr: "show_nat (nat n) = c # r"
    by (metis list.exhaust show_nat_nonempty)
  then have "is_digit c" using show_nat_digits [of c "nat n"] by simp
  then have "c \<noteq> CHR ''-''" "c \<noteq> CHR ''+''" by (auto simp: is_digit_def)
  moreover have "digits_val 0 (c # r) = Some (nat n)"
    using digits_val_show_nat [of "nat n"] by (simp only: cr)
  ultimately show ?thesis using n cr by (simp add: atoi_def itoa_def)
qed

subsection \<open>Case\<close>

definition ascii_lower :: "char \<Rightarrow> char" where
  "ascii_lower c =
     (if 65 \<le> (of_char c :: nat) \<and> of_char c \<le> (90 :: nat) then char_of ((of_char c :: nat) + 32) else c)"

text \<open>
  \<open>strings.ToLower\<close>. The ASCII letters are lowered, and so are the only two other code
  points whose lower case is ASCII: U+0130 (to \<open>i\<close>) and U+212A (to \<open>k\<close>). The remaining
  non-ASCII letters keep their bytes here; Go maps them to other non-ASCII letters, which no
  caller can tell apart, since every caller compares the result with ASCII words.
\<close>

fun to_lower :: "string \<Rightarrow> string" where
  "to_lower [] = []"
| "to_lower (c # s) =
     (if c = CHR 0xC4 \<and> prefix [CHR 0xB0] s then CHR ''i'' # to_lower (drop 1 s)
      else if c = CHR 0xE2 \<and> prefix [CHR 0x84, CHR 0xAA] s then CHR ''k'' # to_lower (drop 2 s)
      else ascii_lower c # to_lower s)"

subsection \<open>bufio.Scanner over lines\<close>

text \<open>
  The default scanner gives up (its error is never looked at by the modelled callers) at the
  first line of 65536 bytes or more; a trailing carriage return is dropped from each line and a
  last line without a newline counts when it is not empty.
\<close>

definition max_scan_token :: nat where
  "max_scan_token = 64 * 1024"

definition raw_lines :: "string \<Rightarrow> string list" where
  "raw_lines s = (let ls = split_on CHR 0x0A s in if last ls = [] then butlast ls else ls)"

definition drop_cr :: "string \<Rightarrow> string" where
  "drop_cr l = (if l \<noteq> [] \<and> last l = CHR 0x0D then butlast l else l)"

definition scan_lines :: "string \<Rightarrow> string list" where
  "scan_lines s = map drop_cr (takeWhile (\<lambda>l. length l < max_scan_token) (raw_lines s))"

text \<open>Writing lines each followed by a newline.\<close>

definition unlines :: "string list \<Rightarrow> string" where
  "unlines ls = concat (map (\<lambda>l. l @ [CHR 0x0A]) ls)"

lemma unlines_simps [simp]:
  "unlines [] = []" "unlines (l # ls) = l @ CHR 0x0A # unlines ls"
  "unlines (xs @ ys) = unlines xs @ unlines ys"
  by (simp_all add: unlines_def)

lemma split_on_unlines:
  "(\<forall>l \<in> set ls. CHR 0x0A \<notin> set l) \<Longrightarrow> split_on CHR 0x0A (unlines ls) = ls @ [[]]"
  by (induction ls) (simp_all add: split_on_append)

lemma raw_lines_unlines:
  "(\<forall>l \<in> set ls. CHR 0x0A \<notin> set l) \<Longrightarrow> raw_lines (unlines ls) = ls"
  by (simp add: raw_lines_def split_on_unlines)

lemma unlines_join: "ls \<noteq> [] \<Longrightarrow> unlines ls = join [CHR 0x0A] ls @ [CHR 0x0A]"
  by (induction ls rule: induct_list012) auto

lemma scan_lines_unlines:
  assumes "\<forall>l \<in> set ls. CHR 0x0A \<notin> set l \<and> length l < max_scan_token \<and> (l = [] \<or> last l \<noteq> CHR 0x0D)"
  shows "scan_lines (unlines ls) = ls"
proof -
  have eq: "takeWhile (\<lambda>l. length l < max_scan_token) ls = ls"
    unfolding takeWhile_eq_all_conv using assms by blast
  have nl: "\<forall>l \<in> set ls. CHR 0x0A \<notin> set l" using assms by blast
  have "map drop_cr ls = ls"
    using assms by (intro map_idI) (auto simp: drop_cr_def)
  then show ?thesis unfolding scan_lines_def raw_lines_unlines [OF nl] eq .
qed

subsection \<open>Free-form values\<close>

text \<open>The values the agent stores in a \<open>map[string]interface{}\<close>.\<close>

datatype json =
    JNull
  | JBool bool
  | JInt int
  | JStr string
  | JArr "json list"
  | JObj "(string \<times> json) list"

subsection \<open>Strings without white space\<close>

lemma nospace_chars: "list_all (\<lambda>c. list_all (\<lambda>w. hd w \<noteq> c) space_encodings) s \<Longrightarrow> nospace s"
proof (induction s)
  case (Cons c s)
  have "\<not> prefix w (c # s)" if w: "w \<in> set space_encodings" for w
    using space_encodings_nonempty [OF w] Cons.prems w by (cases w) (auto simp: list_all_iff)
  then show ?case using Cons by (simp add: ws_len_0_iff)
qed simp

lemma nospace_trim: "nospace s \<Longrightarrow> trim_space s = s"
  by (simp add: trim_space_id nospace_ws_len nospace_ws_rlen)

lemma digits_not_space: "list_all (\<lambda>w. \<not> is_digit (hd w)) space_encodings"
  by code_simp

lemma nospace_digits: "\<forall>c \<in> set s. is_digit c \<Longrightarrow> nospace s"
  using digits_not_space by (intro nospace_chars) (auto simp: list_all_iff)

subsection \<open>64-bit integers\<close>

text \<open>The value an \<open>int\<close>, \<open>int64\<close> or \<open>time.Duration\<close> holds after an operation: it wraps.\<close>

definition int64 :: "int \<Rightarrow> int" where
  "int64 x = sint (word_of_int x :: 64 word)"

lemma int64_range: "- (2 ^ 63) \<le> int64 x \<and> int64 x < 2 ^ 63"
  using sint_ge [of "word_of_int x :: 64 word"] sint_lt [of "word_of_int x :: 64 word"] by (simp add: int64_def)

lemma int64_id: "- (2 ^ 63) \<le> x \<Longrightarrow> x < 2 ^ 63 \<Longrightarrow> int64 x = x"
  unfolding int64_def by (simp add: sint_sbintrunc' signed_take_bit_int_eq_self)

end
