(* ===== verification/Protocol.thy ===== *)
theory Protocol
  imports Prelude
begin

text \<open>
  The wire vocabulary of \<open>pkg/protocol/messages.go\<close>: message types, actions and channels are
  Go string constants, the messages are structs that embed the base \<open>Message\<close>. Raw JSON
  payloads stay uninterpreted strings; whoever handles one receives the outcome of decoding it.
\<close>

subsection \<open>Message types\<close>

type_synonym message_type = string

abbreviation TypeAuth :: message_type where
  "TypeAuth \<equiv> ''auth''"
abbreviation TypeAuthOK :: message_type where
  "TypeAuthOK \<equiv> ''auth_ok''"
abbreviation TypeAuthFail :: message_type where
  "TypeAuthFail \<equiv> ''auth_fail''"
abbreviation TypeHeartbeat :: message_type where
  "TypeHeartbeat \<equiv> ''heartbeat''"
abbreviation TypeHeartbeatAck :: message_type where
  "TypeHeartbeatAck \<equiv> ''heartbeat_ack''"
abbreviation TypeCommand :: message_type where
  "TypeCommand \<equiv> ''command''"
abbreviation TypeCommandResult :: message_type where
  "TypeCommandResult \<equiv> ''command_result''"
abbreviation TypeSubscribe :: message_type where
  "TypeSubscribe \<equiv> ''subscribe''"
abbreviation TypeUnsubscribe :: message_type where
  "TypeUnsubscribe \<equiv> ''unsubscribe''"
abbreviation TypeStream :: message_type where
  "TypeStream \<equiv> ''stream''"
abbreviation TypeError :: message_type where
  "TypeError \<equiv> ''error''"
abbreviation TypeSystemInfo :: message_type where
  "TypeSystemInfo \<equiv> ''system_info''"
abbreviation TypeCapabilities :: message_type where
  "TypeCapabilities \<equiv> ''capabilities''"
abbreviation TypeDiscovery :: message_type where
  "TypeDiscovery \<equiv> ''discovery''"
abbreviation TypeDiscoveryRequest :: message_type where
  "TypeDiscoveryRequest \<equiv> ''discovery_request''"
abbreviation TypeCredentialUpdate :: message_type where
  "TypeCredentialUpdate \<equiv> ''credential_update''"
abbreviation TypeCredentialUpdateAck :: message_type where
  "TypeCredentialUpdateAck \<equiv> ''credential_update_ack''"

subsection \<open>Actions\<close>

type_synonym action = string

abbreviation ActionDockerContainerList :: action where
  "ActionDockerContainerList \<equiv> ''docker:container:list''"
abbreviation ActionDockerContainerInspect :: action where
  "ActionDockerContainerInspect \<equiv> ''docker:container:inspect''"
abbreviation ActionDockerContainerCreate :: action where
  "ActionDockerContainerCreate \<equiv> ''docker:container:create''"
abbreviation ActionDockerContainerStart :: action where
  "ActionDockerContainerStart \<equiv> ''docker:container:start''"
abbreviation ActionDockerContainerStop :: action where
  "ActionDockerContainerStop \<equiv> ''docker:container:stop''"
abbreviation ActionDockerContainerRestart :: action where
  "ActionDockerContainerRestart \<equiv> ''docker:container:restart''"
abbreviation ActionDockerContainerRemove :: action where
  "ActionDockerContainerRemove \<equiv> ''docker:container:remove''"
abbreviation ActionDockerContainerLogs :: action where
  "ActionDockerContainerLogs \<equiv> ''docker:container:logs''"
abbreviation ActionDockerContainerStats :: action where
  "ActionDockerContainerStats \<equiv> ''docker:container:stats''"
abbreviation ActionDockerContainerExec :: action where
  "ActionDockerContainerExec \<equiv> ''docker:container:exec''"
abbreviation ActionDockerImageList :: action where
  "ActionDockerImageList \<equiv> ''docker:image:list''"
abbreviation ActionDockerImagePull :: action where
  "ActionDockerImagePull \<equiv> ''docker:image:pull''"
abbreviation ActionDockerImageRemove :: action where
  "ActionDockerImageRemove \<equiv> ''docker:image:remove''"
abbreviation ActionDockerImageBuild :: action where
  "ActionDockerImageBuild \<equiv> ''docker:image:build''"
abbreviation ActionDockerVolumeList :: action where
  "ActionDockerVolumeList \<equiv> ''docker:volume:list''"
abbreviation ActionDockerVolumeCreate :: action where
  "ActionDockerVolumeCreate \<equiv> ''docker:volume:create''"
abbreviation ActionDockerVolumeRemove :: action where
  "ActionDockerVolumeRemove \<equiv> ''docker:volume:remove''"
abbreviation ActionDockerNetworkList :: action where
  "ActionDockerNetworkList \<equiv> ''docker:network:list''"
abbreviation ActionDockerNetworkCreate :: action where
  "ActionDockerNetworkCreate \<equiv> ''docker:network:create''"
abbreviation ActionDockerNetworkRemove :: action where
  "ActionDockerNetworkRemove \<equiv> ''docker:network:remove''"
abbreviation ActionDockerComposeList :: action where
  "ActionDockerComposeList \<equiv> ''docker:compose:list''"
abbreviation ActionDockerComposePs :: action where
  "ActionDockerComposePs \<equiv> ''docker:compose:ps''"
abbreviation ActionDockerComposeUp :: action where
  "ActionDockerComposeUp \<equiv> ''docker:compose:up''"
abbreviation ActionDockerComposeDown :: action where
  "ActionDockerComposeDown \<equiv> ''docker:compose:down''"
abbreviation ActionDockerComposeLogs :: action where
  "ActionDockerComposeLogs \<equiv> ''docker:compose:logs''"
abbreviation ActionDockerComposeRestart :: action where
  "ActionDockerComposeRestart \<equiv> ''docker:compose:restart''"
abbreviation ActionDockerComposePull :: action where
  "ActionDockerComposePull \<equiv> ''docker:compose:pull''"
abbreviation ActionSystemMetrics :: action where
  "ActionSystemMetrics \<equiv> ''system:metrics''"
abbreviation ActionSystemInfo :: action where
  "ActionSystemInfo \<equiv> ''system:info''"
abbreviation ActionSystemProcesses :: action where
  "ActionSystemProcesses \<equiv> ''system:processes''"
abbreviation ActionSystemExec :: action where
  "ActionSystemExec \<equiv> ''system:exec''"
abbreviation ActionPackagesInstall :: action where
  "ActionPackagesInstall \<equiv> ''packages:install''"
abbreviation ActionPackagesRemove :: action where
  "ActionPackagesRemove \<equiv> ''packages:remove''"
abbreviation ActionPackagesListInstalled :: action where
  "ActionPackagesListInstalled \<equiv> ''packages:list_installed''"
abbreviation ActionPackagesUpdateCache :: action where
  "ActionPackagesUpdateCache \<equiv> ''packages:update_cache''"
abbreviation ActionPackagesInstallAsync :: action where
  "ActionPackagesInstallAsync \<equiv> ''packages:install_async''"
abbreviation ActionPackagesUpgrade :: action where
  "ActionPackagesUpgrade \<equiv> ''packages:upgrade''"
abbreviation ActionPackagesSearch :: action where
  "ActionPackagesSearch \<equiv> ''packages:search''"
abbreviation ActionPackagesInfo :: action where
  "ActionPackagesInfo \<equiv> ''packages:info''"
abbreviation ActionSystemdStatus :: action where
  "ActionSystemdStatus \<equiv> ''systemd:status''"
abbreviation ActionSystemdStart :: action where
  "ActionSystemdStart \<equiv> ''systemd:start''"
abbreviation ActionSystemdStop :: action where
  "ActionSystemdStop \<equiv> ''systemd:stop''"
abbreviation ActionSystemdRestart :: action where
  "ActionSystemdRestart \<equiv> ''systemd:restart''"
abbreviation ActionSystemdEnable :: action where
  "ActionSystemdEnable \<equiv> ''systemd:enable''"
abbreviation ActionSystemdDisable :: action where
  "ActionSystemdDisable \<equiv> ''systemd:disable''"
abbreviation ActionSystemdDaemonReload :: action where
  "ActionSystemdDaemonReload \<equiv> ''systemd:daemon_reload''"
abbreviation ActionSystemdListUnits :: action where
  "ActionSystemdListUnits \<equiv> ''systemd:list_units''"
abbreviation ActionSystemdLogs :: action where
  "ActionSystemdLogs \<equiv> ''systemd:logs''"
abbreviation ActionSystemdLogsFollow :: action where
  "ActionSystemdLogsFollow \<equiv> ''systemd:logs_follow''"
abbreviation ActionDoctorProbe :: action where
  "ActionDoctorProbe \<equiv> ''doctor:probe''"
abbreviation ActionRuntimesList :: action where
  "ActionRuntimesList \<equiv> ''runtimes:list''"
abbreviation ActionRuntimesPyenvBootstrap :: action where
  "ActionRuntimesPyenvBootstrap \<equiv> ''runtimes:pyenv:bootstrap''"
abbreviation ActionRuntimesPythonInstalled :: action where
  "ActionRuntimesPythonInstalled \<equiv> ''runtimes:python:installed''"
abbreviation ActionRuntimesPythonAvailable :: action where
  "ActionRuntimesPythonAvailable \<equiv> ''runtimes:python:available''"
abbreviation ActionRuntimesPythonInstall :: action where
  "ActionRuntimesPythonInstall \<equiv> ''runtimes:python:install''"
abbreviation ActionRuntimesPythonUninstall :: action where
  "ActionRuntimesPythonUninstall \<equiv> ''runtimes:python:uninstall''"
abbreviation ActionRuntimesPythonSetGlobal :: action where
  "ActionRuntimesPythonSetGlobal \<equiv> ''runtimes:python:set_global''"
abbreviation ActionRuntimesPythonSetLocal :: action where
  "ActionRuntimesPythonSetLocal \<equiv> ''runtimes:python:set_local''"
abbreviation ActionRuntimesPythonCurrent :: action where
  "ActionRuntimesPythonCurrent \<equiv> ''runtimes:python:current''"
abbreviation ActionCronStatus :: action where
  "ActionCronStatus \<equiv> ''cron:status''"
abbreviation ActionCronList :: action where
  "ActionCronList \<equiv> ''cron:list''"
abbreviation ActionCronAdd :: action where
  "ActionCronAdd \<equiv> ''cron:add''"
abbreviation ActionCronRemove :: action where
  "ActionCronRemove \<equiv> ''cron:remove''"
abbreviation ActionCronToggle :: action where
  "ActionCronToggle \<equiv> ''cron:toggle''"
abbreviation ActionCronUpdate :: action where
  "ActionCronUpdate \<equiv> ''cron:update''"
abbreviation ActionCloudflaredStatus :: action where
  "ActionCloudflaredStatus \<equiv> ''cloudflared:status''"
abbreviation ActionCloudflaredLogin :: action where
  "ActionCloudflaredLogin \<equiv> ''cloudflared:login''"
abbreviation ActionCloudflaredTunnelList :: action where
  "ActionCloudflaredTunnelList \<equiv> ''cloudflared:tunnel:list''"
abbreviation ActionCloudflaredTunnelCreate :: action where
  "ActionCloudflaredTunnelCreate \<equiv> ''cloudflared:tunnel:create''"
abbreviation ActionCloudflaredTunnelRoute :: action where
  "ActionCloudflaredTunnelRoute \<equiv> ''cloudflared:tunnel:route''"
abbreviation ActionCloudflaredTunnelDelete :: action where
  "ActionCloudflaredTunnelDelete \<equiv> ''cloudflared:tunnel:delete''"
abbreviation ActionWireguardKeygen :: action where
  "ActionWireguardKeygen \<equiv> ''wireguard:keygen''"
abbreviation ActionWireguardInterfaceUp :: action where
  "ActionWireguardInterfaceUp \<equiv> ''wireguard:interface:up''"
abbreviation ActionWireguardInterfaceDown :: action where
  "ActionWireguardInterfaceDown \<equiv> ''wireguard:interface:down''"
abbreviation ActionWireguardPeerSet :: action where
  "ActionWireguardPeerSet \<equiv> ''wireguard:peer:set''"
abbreviation ActionWireguardPeerRemove :: action where
  "ActionWireguardPeerRemove \<equiv> ''wireguard:peer:remove''"
abbreviation ActionWireguardStatus :: action where
  "ActionWireguardStatus \<equiv> ''wireguard:status''"
abbreviation ActionWireguardForward :: action where
  "ActionWireguardForward \<equiv> ''wireguard:forward''"
abbreviation ActionWireguardUnforward :: action where
  "ActionWireguardUnforward \<equiv> ''wireguard:unforward''"
abbreviation ActionFirewallAllowPort :: action where
  "ActionFirewallAllowPort \<equiv> ''firewall:allow_port''"
abbreviation ActionFirewallDenyPort :: action where
  "ActionFirewallDenyPort \<equiv> ''firewall:deny_port''"
abbreviation ActionFirewallStatus :: action where
  "ActionFirewallStatus \<equiv> ''firewall:status''"
abbreviation ActionFirewallAllowIP :: action where
  "ActionFirewallAllowIP \<equiv> ''firewall:allow_ip''"
abbreviation ActionFirewallDenyIP :: action where
  "ActionFirewallDenyIP \<equiv> ''firewall:deny_ip''"
abbreviation ActionFail2banStatus :: action where
  "ActionFail2banStatus \<equiv> ''fail2ban:status''"
abbreviation ActionFail2banBan :: action where
  "ActionFail2banBan \<equiv> ''fail2ban:ban''"
abbreviation ActionFail2banUnban :: action where
  "ActionFail2banUnban \<equiv> ''fail2ban:unban''"
abbreviation ActionCrowdsecDecisionsList :: action where
  "ActionCrowdsecDecisionsList \<equiv> ''crowdsec:decisions:list''"
abbreviation ActionCrowdsecBan :: action where
  "ActionCrowdsecBan \<equiv> ''crowdsec:ban''"
abbreviation ActionCrowdsecUnban :: action where
  "ActionCrowdsecUnban \<equiv> ''crowdsec:unban''"
abbreviation ActionCloudflareOriginLockStatus :: action where
  "ActionCloudflareOriginLockStatus \<equiv> ''cloudflare:origin_lock:status''"
abbreviation ActionCloudflareOriginLockApply :: action where
  "ActionCloudflareOriginLockApply \<equiv> ''cloudflare:origin_lock:apply''"
abbreviation ActionCloudflareOriginLockRemove :: action where
  "ActionCloudflareOriginLockRemove \<equiv> ''cloudflare:origin_lock:remove''"
abbreviation ActionFileRead :: action where
  "ActionFileRead \<equiv> ''file:read''"
abbreviation ActionFileWrite :: action where
  "ActionFileWrite \<equiv> ''file:write''"
abbreviation ActionFileList :: action where
  "ActionFileList \<equiv> ''file:list''"
abbreviation ActionSSHKeysAdd :: action where
  "ActionSSHKeysAdd \<equiv> ''ssh:keys:add''"
abbreviation ActionSSHKeysRemove :: action where
  "ActionSSHKeysRemove \<equiv> ''ssh:keys:remove''"
abbreviation ActionSSHKeysList :: action where
  "ActionSSHKeysList \<equiv> ''ssh:keys:list''"
abbreviation ActionTerminalCreate :: action where
  "ActionTerminalCreate \<equiv> ''terminal:create''"
abbreviation ActionTerminalInput :: action where
  "ActionTerminalInput \<equiv> ''terminal:input''"
abbreviation ActionTerminalResize :: action where
  "ActionTerminalResize \<equiv> ''terminal:resize''"
abbreviation ActionTerminalClose :: action where
  "ActionTerminalClose \<equiv> ''terminal:close''"
abbreviation ActionAgentUpdate :: action where
  "ActionAgentUpdate \<equiv> ''agent:update''"
abbreviation ActionAgentRecapabilities :: action where
  "ActionAgentRecapabilities \<equiv> ''agent:recapabilities''"
abbreviation ActionSurveyRead :: action where
  "ActionSurveyRead \<equiv> ''survey:read''"
abbreviation ActionGUICapabilities :: action where
  "ActionGUICapabilities \<equiv> ''gui:capabilities''"
abbreviation ActionGUIScreenshot :: action where
  "ActionGUIScreenshot \<equiv> ''gui:screenshot''"

subsection \<open>Channels\<close>

abbreviation ChannelMetrics :: string where
  "ChannelMetrics \<equiv> ''metrics''"

text \<open>The channel formats with a single hole, filled in by \<open>fmt.Sprintf\<close>.\<close>

definition ChannelTerminal :: "string \<Rightarrow> string" where
  "ChannelTerminal session_id = ''terminal:'' @ session_id"

definition ChannelJob :: "string \<Rightarrow> string" where
  "ChannelJob job_id = ''job:'' @ job_id"

subsection \<open>Messages\<close>

record message =
  msg_type :: message_type
  msg_id :: string
  msg_timestamp :: int
  msg_signature :: string

definition NewMessage :: "message_type \<Rightarrow> string \<Rightarrow> int \<Rightarrow> message" where
  "NewMessage ty ident now_ms =
     \<lparr>msg_type = ty, msg_id = ident, msg_timestamp = now_ms, msg_signature = []\<rparr>"

record command_message = message +
  cm_action :: action
  cm_params :: string
  cm_timeout :: int

record command_result =
  cr_command_id :: string
  cr_success :: bool
  cr_data :: string
  cr_error :: string
  cr_duration :: int

record subscribe_message = message +
  sub_channel :: string

record unsubscribe_message = message +
  unsub_channel :: string

record credential_update = message +
  cu_rotation_id :: string
  cu_api_key :: string
  cu_api_secret :: string
  cu_hmac_sig :: string

record credential_update_ack =
  ack_rotation_id :: string
  ack_success :: bool
  ack_error :: string

record service_check =
  sc_name :: string
  sc_kind :: string
  sc_status :: string
  sc_detail :: string
  sc_checked_at :: string

type_synonym capability_map = "string \<rightharpoonup> bool"

record capabilities_message =
  caps_map :: "capability_map option"           \<comment> \<open>a Go map may be nil\<close>
  caps_platform :: string
  caps_distro :: string
  caps_distro_version :: string
  caps_runtimes :: "(string \<rightharpoonup> string) option"
  caps_allowed_paths :: "string list"
  caps_sudo :: string
  caps_runtime_managers :: "(string \<rightharpoonup> string) option"
  caps_systemd_json :: bool
  caps_probed_at :: int

end
