(* ===== verification/Permissions.thy ===== *)
theory Permissions
  imports Protocol
begin

text \<open>
  The permission levels of \<open>internal/permissions/permissions.go\<close> and the table that maps
  every action to the least level that may run it. A level is a Go string type, so any string can
  occur; the strings that are no level have rank 0.
\<close>

type_synonym level = string

abbreviation Monitor :: level where
  "Monitor \<equiv> ''monitor''"
abbreviation Protect :: level where
  "Protect \<equiv> ''protect''"
abbreviation Full :: level where
  "Full \<equiv> ''full''"
abbreviation Default :: level where
  "Default \<equiv> Full"

definition level_rank :: "level \<Rightarrow> nat" where
  "level_rank l =
     (if l = Monitor then 1 else if l = Protect then 2 else if l = Full then 3 else 0)"

datatype permission_error =
    UnknownLevel string
  | NotPermitted action level level   \<comment> \<open>the action, the level it needs, the agent's level\<close>

definition Parse :: "string \<Rightarrow> permission_error + level" where
  "Parse s = (let l = to_lower (trim_space s) in if level_rank l = 0 then Inl (UnknownLevel s) else Inr l)"

definition Describe :: "level \<Rightarrow> string" where
  "Describe l =
     (if l = Monitor then ''report-only: sends metrics and service checks outbound; accepts NO commands from the panel''
      else if l = Protect then ''security actions only (firewall, fail2ban, CrowdSec, Cloudflare origin lock); everything else is rejected''
      else if l = Full then ''full control: the panel can run any supported action (docker, files, terminal, packages, ...)''
      else ''unknown'')"

definition protectActions :: "action list" where
  "protectActions =
     [ActionFirewallAllowPort, ActionFirewallDenyPort, ActionFirewallStatus,
      ActionFirewallAllowIP, ActionFirewallDenyIP, ActionFail2banStatus, ActionFail2banBan,
      ActionFail2banUnban, ActionCrowdsecDecisionsList, ActionCrowdsecBan, ActionCrowdsecUnban,
      ActionCloudflareOriginLockStatus, ActionCloudflareOriginLockApply,
      ActionCloudflareOriginLockRemove]"

definition fullActions :: "action list" where
  "fullActions =
     [ActionDockerContainerList, ActionDockerContainerInspect, ActionDockerContainerCreate,
      ActionDockerContainerStart, ActionDockerContainerStop, ActionDockerContainerRestart,
      ActionDockerContainerRemove, ActionDockerContainerLogs, ActionDockerContainerStats,
      ActionDockerContainerExec, ActionDockerImageList, ActionDockerImagePull,
      ActionDockerImageRemove, ActionDockerImageBuild, ActionDockerVolumeList,
      ActionDockerVolumeCreate, ActionDockerVolumeRemove, ActionDockerNetworkList,
      ActionDockerNetworkCreate, ActionDockerNetworkRemove, ActionDockerComposeList,
      ActionDockerComposePs, ActionDockerComposeUp, ActionDockerComposeDown,
      ActionDockerComposeLogs, ActionDockerComposeRestart, ActionDockerComposePull,
      ActionSystemMetrics, ActionSystemInfo, ActionSystemProcesses, ActionSystemExec,
      ActionPackagesInstall, ActionPackagesRemove, ActionPackagesListInstalled,
      ActionPackagesUpdateCache, ActionPackagesInstallAsync, ActionPackagesUpgrade,
      ActionPackagesSearch, ActionPackagesInfo, ActionSystemdStatus, ActionSystemdStart,
      ActionSystemdStop, ActionSystemdRestart, ActionSystemdEnable, ActionSystemdDisable,
      ActionSystemdDaemonReload, ActionSystemdListUnits, ActionSystemdLogs,
      ActionSystemdLogsFollow, ActionDoctorProbe, ActionRuntimesList,
      ActionRuntimesPyenvBootstrap, ActionRuntimesPythonInstalled, ActionRuntimesPythonAvailable,
      ActionRuntimesPythonInstall, ActionRuntimesPythonUninstall, ActionRuntimesPythonSetGlobal,
      ActionRuntimesPythonSetLocal, ActionRuntimesPythonCurrent, ActionCronStatus,
      ActionCronList, ActionCronAdd, ActionCronRemove, ActionCronToggle, ActionCronUpdate,
      ActionCloudflaredStatus, ActionCloudflaredLogin, ActionCloudflaredTunnelList,
      ActionCloudflaredTunnelCreate, ActionCloudflaredTunnelRoute, ActionCloudflaredTunnelDelete,
      ActionWireguardKeygen, ActionWireguardInterfaceUp, ActionWireguardInterfaceDown,
      ActionWireguardPeerSet, ActionWireguardPeerRemove, ActionWireguardStatus,
      ActionWireguardForward, ActionWireguardUnforward, ActionFileRead, ActionFileWrite,
      ActionFileList, ActionSSHKeysAdd, ActionSSHKeysRemove, ActionSSHKeysList,
      ActionTerminalCreate, ActionTerminalInput, ActionTerminalResize, ActionTerminalClose,
      ActionAgentUpdate, ActionAgentRecapabilities, ActionSurveyRead, ActionGUICapabilities,
      ActionGUIScreenshot]"

definition required :: "action \<rightharpoonup> level" where
  "required =
     fold (\<lambda>a m. m(a \<mapsto> Protect)) protectActions (fold (\<lambda>a m. m(a \<mapsto> Full)) fullActions Map.empty)"

text \<open>\<open>Required\<close> also reports whether the action is classified.\<close>

definition Required :: "action \<Rightarrow> level \<times> bool" where
  "Required a = (case required a of Some l \<Rightarrow> (l, True) | None \<Rightarrow> (Full, False))"

definition Allowed :: "level \<Rightarrow> action \<Rightarrow> bool" where
  "Allowed l a =
     (if l = Monitor \<or> level_rank l = 0 then False
      else level_rank (fst (Required a)) \<le> level_rank l)"

definition Check :: "level \<Rightarrow> action \<Rightarrow> permission_error + unit" where
  "Check l a = (if Allowed l a then Inr () else Inl (NotPermitted a (fst (Required a)) l))"

definition ChannelAllowed :: "level \<Rightarrow> string \<Rightarrow> bool" where
  "ChannelAllowed l ch = (if l = Full then True else if l = Protect then ch = ChannelMetrics else False)"

definition ProtectActions :: "action list" where
  "ProtectActions = protectActions"

definition KnownActions :: "action set" where
  "KnownActions = dom required"

subsection \<open>The table\<close>

lemma fold_upd_const: "fold (\<lambda>a m. m(a \<mapsto> v)) xs m0 a = (if a \<in> set xs then Some v else m0 a)"
  by (induction xs arbitrary: m0) auto

lemma required_eq:
  "required a =
     (if a \<in> set protectActions then Some Protect
      else if a \<in> set fullActions then Some Full else None)"
  by (simp add: required_def fold_upd_const)

lemma level_rank_simps [simp]:
  "level_rank Monitor = 1" "level_rank Protect = 2" "level_rank Full = 3"
  by (simp_all add: level_rank_def)

lemma level_rank_cases:
  obtains "l = Monitor" "level_rank l = 1" | "l = Protect" "level_rank l = 2"
    | "l = Full" "level_rank l = 3" | "level_rank l = 0" "l \<notin> {Monitor, Protect, Full}"
  by (cases "l = Monitor"; cases "l = Protect"; cases "l = Full") (simp_all add: level_rank_def)

lemma level_rank_le_3: "level_rank l \<le> 3"
  by (simp add: level_rank_def)

lemma level_rank_ge: "3 \<le> level_rank k \<Longrightarrow> k = Full" "2 \<le> level_rank k \<Longrightarrow> k = Protect \<or> k = Full"
  by (simp_all add: level_rank_def split: if_splits)

lemma Required_level: "fst (Required a) = (if a \<in> set protectActions then Protect else Full)"
  by (simp add: Required_def required_eq)

lemma Allowed_iff:
  "Allowed l a \<longleftrightarrow> l = Full \<or> l = Protect \<and> a \<in> set protectActions"
  by (cases l rule: level_rank_cases) (auto simp: Allowed_def Required_level)

lemma Allowed_simps [simp]:
  "Allowed Full a" "\<not> Allowed Monitor a" "Allowed Protect a \<longleftrightarrow> a \<in> set protectActions"
  by (simp_all add: Allowed_iff)

lemma Check_iff [simp]: "is_ok (Check l a) \<longleftrightarrow> Allowed l a"
  by (simp add: Check_def)

lemma Check_Inr_iff: "Check l a = Inr u \<longleftrightarrow> Allowed l a"
  by (simp add: Check_def)

lemma tables_disjoint: "set protectActions \<inter> set fullActions = {}"
  by (simp add: protectActions_def fullActions_def)

lemma tables_distinct: "distinct (protectActions @ fullActions)"
  by (simp add: protectActions_def fullActions_def)

lemma Parse_ok_iff:
  "Parse s = Inr l \<longleftrightarrow> l = to_lower (trim_space s) \<and> l \<in> {Monitor, Protect, Full}"
  by (cases "to_lower (trim_space s)" rule: level_rank_cases)
    (auto simp: Parse_def Let_def level_rank_def split: if_splits)

subsection \<open>The gate\<close>

text \<open>
  C7. The gate is monotone in the level, refuses everything at monitor and at any string that is no
  level, and needs full for an action the table does not name: whatever a level may do a higher one
  may do, and an action nobody classified is never open below full.
\<close>

theorem levels_ordered:
  assumes "Parse s = Inr l" "level_rank l \<le> level_rank k"
  shows "(is_ok (Check l a) \<longrightarrow> is_ok (Check k a)) \<and> \<not> is_ok (Check Monitor a) \<and>
     (a \<notin> KnownActions \<and> is_ok (Check l a) \<longrightarrow> l = Full) \<and>
     (is_ok (Check l a) \<and> l \<noteq> Full \<longrightarrow> a \<in> set ProtectActions)"
proof -
  have l: "l \<in> {Monitor, Protect, Full}" using assms(1) Parse_ok_iff by blast
  have k: "l = Full \<longrightarrow> k = Full" "l = Protect \<longrightarrow> k = Protect \<or> k = Full"
    using assms(2) level_rank_ge [of k] by (metis level_rank_simps(2,3))+
  have "a \<notin> KnownActions \<longrightarrow> a \<notin> set protectActions"
    by (auto simp: KnownActions_def required_eq dom_def)
  then show ?thesis using l k by (auto simp: Allowed_iff ProtectActions_def)
qed

theorem levels_ordered_witness:
  "is_ok (Check Protect ActionFail2banBan) \<and> is_ok (Check Full ActionFail2banBan) \<and>
   \<not> is_ok (Check Protect ''made:up'')"
proof -
  have p: "Parse '' Protect'' = Inr Protect"
    by code_simp
  have "is_ok (Check Protect ActionFail2banBan)" by (simp add: protectActions_def)
  with levels_ordered [OF p, of Full ActionFail2banBan] levels_ordered [OF p, of Full "''made:up''"]
  show ?thesis by (simp add: ProtectActions_def protectActions_def)
qed

end
