(* ===== verification/Bounded_Log.thy ===== *)
theory Bounded_Log
  imports Prelude
begin

text \<open>
  The contract that the agent's three in-memory histories share (the activity log of
  \<open>internal/events\<close>, the replay ring of \<open>internal/jobs\<close> and the metric sampler of
  \<open>internal/agent/sampler.go\<close>): adding an entry never panics, and what can be read back is
  the last \<open>capacity\<close> entries added, oldest first. The lemmas about whole histories are proved
  once from the contract; each component interprets the locale on its own operations.
\<close>

text \<open>The last \<open>n\<close> elements of a list.\<close>

definition last_n :: "nat \<Rightarrow> 'a list \<Rightarrow> 'a list" where
  "last_n n xs = drop (length xs - n) xs"

lemma length_last_n [simp]: "length (last_n n xs) = min n (length xs)"
  by (simp add: last_n_def)

lemma last_n_all [simp]: "length xs \<le> n \<Longrightarrow> last_n n xs = xs"
  by (simp add: last_n_def)

lemma last_n_append: "last_n n (last_n n xs @ ys) = last_n n (xs @ ys)"
proof (cases "length xs \<le> n")
  case True
  then show ?thesis by simp
next
  case False
  then have "last_n n (last_n n xs @ ys) =
      drop (n + length ys - n) (drop (length xs - n) xs) @ drop (length ys - n) ys"
    by (auto simp: last_n_def intro!: arg_cong2 [where f = append])
  also have "\<dots> = last_n n (xs @ ys)"
    using False by (auto simp: last_n_def intro!: arg_cong2 [where f = append] arg_cong2 [where f = drop])
  finally show ?thesis .
qed

lemma last_n_snoc: "0 < n \<Longrightarrow> last_n n (xs @ [x]) \<noteq> [] \<and> last (last_n n (xs @ [x])) = x"
  by (auto simp: last_n_def)

lemma set_last_n: "set (last_n n xs) \<subseteq> set xs"
  by (simp add: last_n_def set_drop_subset)

lemma sorted_wrt_last_n: "sorted_wrt R xs \<Longrightarrow> sorted_wrt R (last_n n xs)"
  by (simp add: last_n_def sorted_wrt_drop)

lemma distinct_last_n: "distinct xs \<Longrightarrow> distinct (last_n n xs)"
  by (simp add: last_n_def)

locale bounded_log =
  fixes contents :: "'s \<Rightarrow> 'e list"
    and push :: "'e \<Rightarrow> 's \<Rightarrow> 's option"
    and capacity :: "'s \<Rightarrow> nat"
    and ok :: "'s \<Rightarrow> bool"
  assumes capacity_pos: "ok s \<Longrightarrow> 0 < capacity s"
    and bounded: "ok s \<Longrightarrow> length (contents s) \<le> capacity s"
    and push_ok: "ok s \<Longrightarrow>
      \<exists>s'. push e s = Some s' \<and> ok s' \<and> capacity s' = capacity s \<and>
        contents s' = last_n (capacity s) (contents s @ [e])"
begin

primrec push_all :: "'e list \<Rightarrow> 's \<Rightarrow> 's option" where
  "push_all [] s = Some s"
| "push_all (e # es) s = Option.bind (push e s) (push_all es)"

lemma push_all_ok:
  "ok s \<Longrightarrow> \<exists>s'. push_all es s = Some s' \<and> ok s' \<and> capacity s' = capacity s \<and>
     contents s' = last_n (capacity s) (contents s @ es)"
proof (induction es arbitrary: s)
  case Nil
  then show ?case using bounded by simp
next
  case (Cons e es)
  then obtain s1 where s1: "push e s = Some s1" "ok s1" "capacity s1 = capacity s"
      "contents s1 = last_n (capacity s) (contents s @ [e])"
    using push_ok by blast
  then obtain s2 where s2: "push_all es s1 = Some s2" "ok s2" "capacity s2 = capacity s1"
      "contents s2 = last_n (capacity s1) (contents s1 @ es)"
    using Cons.IH by blast
  then show ?case using s1 by (auto simp: last_n_append)
qed

lemma newest_kept:
  assumes "ok s" "push e s = Some s'"
  shows "contents s' \<noteq> [] \<and> last (contents s') = e"
proof -
  have "contents s' = last_n (capacity s) (contents s @ [e])"
    using push_ok [OF assms(1), of e] assms(2) by simp
  then show ?thesis using last_n_snoc [OF capacity_pos [OF assms(1)], of "contents s" e] by simp
qed

lemma nothing_lost_below_capacity:
  assumes "ok s" "push e s = Some s'" "length (contents s) < capacity s"
  shows "contents s' = contents s @ [e]"
  using push_ok [OF assms(1), of e] assms(2,3) by auto

end

end
