(* ===== verification/Events.thy ===== *)
theory Events
  imports Bounded_Log
begin

text \<open>
  The activity log, \<open>internal/events/store.go\<close>: a bounded list of events with increasing
  ids, rewritten to one JSON file after every change. The file is modelled by what decoding it
  yields (\<open>None\<close> when it is missing or does not decode); whether a rewrite succeeds is an
  argument, since every write error is swallowed. Slicing \<open>s.events[1:]\<close> of an empty slice
  panics, so \<open>Append\<close> returns an option.
\<close>

record event =
  ev_id :: int
  ev_time :: int
  ev_kind :: string
  ev_severity :: string
  ev_message :: string
  ev_meta :: "(string \<times> string) list"

record store =
  st_events :: "event list"
  st_cap :: nat
  st_next_id :: int
  st_persist :: string
  st_file :: "event list option"

definition saveLocked :: "bool \<Rightarrow> store \<Rightarrow> store" where
  "saveLocked write_ok s =
     (if st_persist s = [] \<or> \<not> write_ok then s else s\<lparr>st_file := Some (st_events s)\<rparr>)"

definition load :: "store \<Rightarrow> store" where
  "load s =
     (if st_persist s = [] then s
      else (case st_file s of
          None \<Rightarrow> s
        | Some evs0 \<Rightarrow>
            (let evs = (if st_cap s < length evs0 then drop (length evs0 - st_cap s) evs0 else evs0)
             in s\<lparr>st_events := evs,
                  st_next_id := fold (\<lambda>ev m. if m < ev_id ev then ev_id ev else m) evs (st_next_id s)\<rparr>)))"

definition NewStore :: "nat \<Rightarrow> string \<Rightarrow> event list option \<Rightarrow> store" where
  "NewStore capacity path file =
     load \<lparr>st_events = [], st_cap = capacity, st_next_id = 0, st_persist = path, st_file = file\<rparr>"

text \<open>The eviction and the append of \<open>Append\<close>.\<close>

definition store_push :: "event \<Rightarrow> store \<Rightarrow> store option" where
  "store_push ev s =
     (if st_cap s \<le> length (st_events s)
      then (if st_events s = [] then None else Some (s\<lparr>st_events := tl (st_events s) @ [ev]\<rparr>))
      else Some (s\<lparr>st_events := st_events s @ [ev]\<rparr>))"

definition Append :: "string \<Rightarrow> string \<Rightarrow> string \<Rightarrow> (string \<times> string) list \<Rightarrow> int \<Rightarrow> bool \<Rightarrow> store \<Rightarrow> (event \<times> store) option" where
  "Append kind sev msg meta now_ms write_ok s =
     (let n = st_next_id s + 1;
          ev = \<lparr>ev_id = n, ev_time = now_ms, ev_kind = kind, ev_severity = sev, ev_message = msg, ev_meta = meta\<rparr>
      in case store_push ev (s\<lparr>st_next_id := n\<rparr>) of
          None \<Rightarrow> None
        | Some s' \<Rightarrow> Some (ev, saveLocked write_ok s'))"

definition Snapshot :: "int \<Rightarrow> store \<Rightarrow> event list" where
  "Snapshot since s = filter (\<lambda>ev. since < ev_time ev) (st_events s)"

definition Clear :: "bool \<Rightarrow> store \<Rightarrow> store" where
  "Clear write_ok s = saveLocked write_ok (s\<lparr>st_events := []\<rparr>)"

text \<open>A restart of the agent: the file survives, the memory does not.\<close>

datatype store_op =
    OpAppend string string string "(string \<times> string) list" int bool
  | OpClear bool
  | OpRestart

fun store_step :: "store_op \<Rightarrow> store \<Rightarrow> store option" where
  "store_step (OpAppend k v m md t w) s = map_option snd (Append k v m md t w s)"
| "store_step (OpClear w) s = Some (Clear w s)"
| "store_step OpRestart s = Some (NewStore (st_cap s) (st_persist s) (st_file s))"

fun store_run :: "store_op list \<Rightarrow> store \<Rightarrow> store option" where
  "store_run [] s = Some s"
| "store_run (x # xs) s = Option.bind (store_step x s) (store_run xs)"

subsection \<open>The bounded-log contract\<close>

definition store_bounded :: "store \<Rightarrow> bool" where
  "store_bounded s \<longleftrightarrow> 0 < st_cap s \<and> length (st_events s) \<le> st_cap s"

lemma store_push_ok:
  assumes "store_bounded s"
  shows "\<exists>s'. store_push ev s = Some s' \<and> store_bounded s' \<and> st_cap s' = st_cap s \<and>
     st_events s' = last_n (st_cap s) (st_events s @ [ev]) \<and>
     st_next_id s' = st_next_id s \<and> st_persist s' = st_persist s \<and> st_file s' = st_file s"
proof (cases "st_cap s \<le> length (st_events s)")
  case True
  with assms have len: "length (st_events s) = st_cap s" "st_events s \<noteq> []"
    by (auto simp: store_bounded_def)
  then have "tl (st_events s) @ [ev] = last_n (st_cap s) (st_events s @ [ev])"
    by (cases "st_events s") (auto simp: last_n_def)
  with assms True len show ?thesis by (auto simp: store_push_def store_bounded_def)
next
  case False
  with assms show ?thesis by (auto simp: store_push_def store_bounded_def)
qed

interpretation event_log: bounded_log st_events store_push st_cap store_bounded
proof
  fix s :: store assume "store_bounded s"
  then show "0 < st_cap s" "length (st_events s) \<le> st_cap s" by (simp_all add: store_bounded_def)
next
  fix s :: store and e assume "store_bounded s"
  then show "\<exists>s'. store_push e s = Some s' \<and> store_bounded s' \<and> st_cap s' = st_cap s \<and>
      st_events s' = last_n (st_cap s) (st_events s @ [e])"
    using store_push_ok by blast
qed

subsection \<open>Ids increase\<close>

definition ids_increase :: "event list \<Rightarrow> bool" where
  "ids_increase evs \<longleftrightarrow> sorted_wrt (<) (map ev_id evs)"

definition store_inv :: "store \<Rightarrow> bool" where
  "store_inv s \<longleftrightarrow> store_bounded s \<and> ids_increase (st_events s) \<and>
     (\<forall>ev \<in> set (st_events s). ev_id ev \<le> st_next_id s) \<and>
     (\<forall>evs. st_file s = Some evs \<longrightarrow> ids_increase evs)"

lemma ids_increase_last_n: "ids_increase evs \<Longrightarrow> ids_increase (last_n n evs)"
  unfolding ids_increase_def last_n_def by (metis drop_map sorted_wrt_drop)

lemma fold_max_id:
  "m \<le> fold (\<lambda>ev m. if m < ev_id ev then ev_id ev else m) evs m"
  "ev \<in> set evs \<Longrightarrow> ev_id ev \<le> fold (\<lambda>ev m. if m < ev_id ev then ev_id ev else m) evs m"
proof (induction evs arbitrary: m)
  case (Cons a evs)
  {
    case 1
    show ?case using Cons.IH(1) [of "if m < ev_id a then ev_id a else m"] by (auto split: if_splits)
  next
    case 2
    then show ?case
      using Cons.IH(1) [of "if m < ev_id a then ev_id a else m"] Cons.IH(2)
      by (auto split: if_splits)
  }
qed simp_all

lemma saveLocked_fields [simp]:
  "st_events (saveLocked w s) = st_events s" "st_cap (saveLocked w s) = st_cap s"
  "st_next_id (saveLocked w s) = st_next_id s" "st_persist (saveLocked w s) = st_persist s"
  by (simp_all add: saveLocked_def)

lemma saveLocked_inv: "store_inv s \<Longrightarrow> store_inv (saveLocked w s)"
  by (auto simp: store_inv_def saveLocked_def store_bounded_def)

lemma NewStore_cap [simp]: "st_cap (NewStore capacity path file) = capacity"
  by (simp add: NewStore_def load_def Let_def split: option.splits)

lemma NewStore_inv:
  assumes "0 < capacity" "\<forall>evs. file = Some evs \<longrightarrow> ids_increase evs"
  shows "store_inv (NewStore capacity path file)"
proof (cases "path = [] \<or> file = None")
  case True
  then show ?thesis
    using assms by (auto simp: NewStore_def load_def store_inv_def store_bounded_def ids_increase_def)
next
  case False
  then obtain evs where evs: "file = Some evs" "path \<noteq> []" by auto
  let ?kept = "last_n capacity evs"
  have "(if capacity < length evs then drop (length evs - capacity) evs else evs) = ?kept"
    by (simp add: last_n_def)
  then show ?thesis
    using assms evs fold_max_id(2) [of _ ?kept 0]
    by (auto simp: NewStore_def load_def store_inv_def store_bounded_def Let_def ids_increase_last_n)
qed

lemma Append_inv:
  assumes "store_inv s"
  shows "\<exists>ev s'. Append k v m md t w s = Some (ev, s') \<and> store_inv s' \<and>
     ev_id ev = st_next_id s + 1 \<and> st_next_id s' = st_next_id s + 1 \<and> st_cap s' = st_cap s \<and>
     st_persist s' = st_persist s \<and> st_events s' = last_n (st_cap s) (st_events s @ [ev])"
proof -
  let ?ev = "\<lparr>ev_id = st_next_id s + 1, ev_time = t, ev_kind = k, ev_severity = v, ev_message = m, ev_meta = md\<rparr>"
  let ?s1 = "s\<lparr>st_next_id := st_next_id s + 1\<rparr>"
  have "store_bounded ?s1" using assms by (simp add: store_inv_def store_bounded_def)
  then obtain s2 where s2: "store_push ?ev ?s1 = Some s2" "store_bounded s2" "st_cap s2 = st_cap s"
      "st_events s2 = last_n (st_cap s) (st_events s @ [?ev])" "st_next_id s2 = st_next_id s + 1"
      "st_persist s2 = st_persist s" "st_file s2 = st_file s"
    using store_push_ok [of ?s1 ?ev] by auto
  have "ids_increase (st_events s @ [?ev])"
    using assms by (force simp: store_inv_def ids_increase_def sorted_wrt_append)
  then have "ids_increase (st_events s2)" using s2(4) by (simp add: ids_increase_last_n)
  moreover have "\<forall>ev \<in> set (st_events s2). ev_id ev \<le> st_next_id s2"
    using assms s2(4,5) set_last_n [of "st_cap s" "st_events s @ [?ev]"]
    by (fastforce simp: store_inv_def)
  ultimately have "store_inv s2" using assms s2 by (simp add: store_inv_def)
  with s2 show ?thesis by (simp add: Append_def Let_def saveLocked_inv)
qed

lemma NewStore_bounded: "0 < capacity \<Longrightarrow> store_bounded (NewStore capacity path file)"
  by (auto simp: NewStore_def load_def store_bounded_def Let_def split: option.splits)

lemma Append_bounded:
  assumes "store_bounded s"
  shows "\<exists>ev s'. Append k v m md t w s = Some (ev, s') \<and> store_bounded s'"
proof -
  have b: "store_bounded (s\<lparr>st_next_id := st_next_id s + 1\<rparr>)" using assms by (simp add: store_bounded_def)
  show ?thesis
    using store_push_ok [OF b, of "\<lparr>ev_id = st_next_id s + 1, ev_time = t, ev_kind = k, ev_severity = v, ev_message = m, ev_meta = md\<rparr>"]
    by (auto simp: Append_def Let_def store_bounded_def)
qed

lemma Clear_inv: "store_inv s \<Longrightarrow> store_inv (Clear w s)"
  unfolding Clear_def
  by (rule saveLocked_inv) (simp add: store_inv_def store_bounded_def ids_increase_def)

lemma store_step_inv:
  "store_inv s \<Longrightarrow> \<exists>s'. store_step x s = Some s' \<and> store_inv s' \<and> st_cap s' = st_cap s"
proof (cases x)
  case (OpAppend k v m md t w)
  assume "store_inv s"
  then show ?thesis using Append_inv [of s k v m md t w] OpAppend by auto
next
  case (OpClear w)
  assume "store_inv s"
  then show ?thesis using OpClear Clear_inv by (auto simp: Clear_def)
next
  case OpRestart
  assume s: "store_inv s"
  then have "store_inv (NewStore (st_cap s) (st_persist s) (st_file s))"
    by (intro NewStore_inv) (auto simp: store_inv_def store_bounded_def)
  then show ?thesis using OpRestart by simp
qed

text \<open>
  The activity log never panics and keeps its invariant over any run of appends, clears and
  restarts, whatever the clock says and whichever file writes fail: at most \<open>cap\<close> events, ids
  strictly increasing in the buffer and never above the counter.
\<close>

theorem store_run_safe:
  assumes "0 < capacity" and "\<forall>evs. file = Some evs \<longrightarrow> ids_increase evs"
  shows "\<exists>s. store_run ops (NewStore capacity path file) = Some s \<and> st_cap s = capacity \<and>
     length (st_events s) \<le> capacity \<and> sorted_wrt (<) (map ev_id (st_events s)) \<and>
     (\<forall>ev \<in> set (st_events s). ev_id ev \<le> st_next_id s)"
proof -
  have "\<exists>s. store_run ops s0 = Some s \<and> store_inv s \<and> st_cap s = st_cap s0" if "store_inv s0" for s0
    using that
  proof (induction ops arbitrary: s0)
    case (Cons x xs)
    then show ?case using store_step_inv [of s0 x] by fastforce
  qed simp
  from this [OF NewStore_inv [OF assms]] show ?thesis
    by (auto simp: store_inv_def store_bounded_def ids_increase_def)
qed

theorem store_run_safe_witness:
  "\<exists>s. store_run [OpAppend ''info'' ''info'' ''a'' [] 5 True, OpRestart] (NewStore 2 ''/d/events.json'' None) = Some s
     \<and> st_cap s = 2 \<and> length (st_events s) \<le> 2 \<and> sorted_wrt (<) (map ev_id (st_events s))
     \<and> (\<forall>ev \<in> set (st_events s). ev_id ev \<le> st_next_id s)"
  using store_run_safe [of 2 None "[OpAppend ''info'' ''info'' ''a'' [] 5 True, OpRestart]" "''/d/events.json''"]
  by simp

end
