(* ===== verification/Jobs.thy ===== *)
theory Jobs
  imports Bounded_Log Protocol "HOL-Library.AList"
begin

text \<open>
  Long-running jobs, \<open>internal/jobs/jobs.go\<close>: one ring buffer of events per job, replayed to a
  late subscriber, and a registry that keeps the last \<open>maxJobs\<close> jobs. The ring is the code's own
  (a slice of \<open>cap\<close> slots, the index of the next slot to write, and whether it has wrapped);
  writing outside the slice panics, so \<open>ring_push\<close> returns an option. Random ids are arguments.
\<close>

record event =
  je_phase :: string
  je_lines :: "string list"
  je_message :: string
  je_percent :: "int option"
  je_exit_code :: "int option"
  je_error :: string
  je_extra :: "(string \<times> json) list"

abbreviation PhaseStart :: string where "PhaseStart \<equiv> ''start''"
abbreviation PhaseLog :: string where "PhaseLog \<equiv> ''log''"
abbreviation PhaseStatus :: string where "PhaseStatus \<equiv> ''status''"
abbreviation PhaseDone :: string where "PhaseDone \<equiv> ''done''"

definition zero_event :: event where
  "zero_event = \<lparr>je_phase = [], je_lines = [], je_message = [], je_percent = None,
     je_exit_code = None, je_error = [], je_extra = []\<rparr>"

record job =
  job_ID :: string
  job_Channel :: string
  job_events :: "event list"
  job_cap :: nat
  job_head :: nat
  job_full :: bool
  job_done :: bool      \<comment> \<open>the \<open>done\<close> channel is closed\<close>

record registry =
  reg_jobs :: "(string \<times> job) list"      \<comment> \<open>the map, keyed by id\<close>
  reg_maxJobs :: nat
  reg_order :: "string list"

definition NewRegistry :: "int \<Rightarrow> registry" where
  "NewRegistry maxJobs =
     \<lparr>reg_jobs = [], reg_maxJobs = nat (if maxJobs \<le> 0 then 64 else maxJobs), reg_order = []\<rparr>"

definition new_job :: "string \<Rightarrow> int \<Rightarrow> job" where
  "new_job i bufferCap =
     (let c = nat (if bufferCap \<le> 0 then 200 else bufferCap)
      in \<lparr>job_ID = i, job_Channel = ChannelJob i, job_events = replicate c zero_event,
          job_cap = c, job_head = 0, job_full = False, job_done = False\<rparr>)"

text \<open>The trimming loop of \<open>Registry.New\<close>.\<close>

fun trim_jobs :: "nat \<Rightarrow> string list \<Rightarrow> (string \<times> job) list \<Rightarrow> string list \<times> (string \<times> job) list" where
  "trim_jobs m [] js = ([], js)"
| "trim_jobs m (oldest # order) js =
     (if m < length (oldest # order) then trim_jobs m order (AList.delete oldest js)
      else (oldest # order, js))"

definition New :: "string \<Rightarrow> int \<Rightarrow> registry \<Rightarrow> job \<times> registry" where
  "New i bufferCap r =
     (let j = new_job i bufferCap;
          (order, js) = trim_jobs (reg_maxJobs r) (reg_order r @ [i]) (AList.update i j (reg_jobs r))
      in (j, r\<lparr>reg_jobs := js, reg_order := order\<rparr>))"

definition Get :: "string \<Rightarrow> registry \<Rightarrow> job option" where
  "Get i r = map_of (reg_jobs r) i"

definition LookupByChannel :: "string \<Rightarrow> registry \<Rightarrow> job option" where
  "LookupByChannel channel r =
     (if length channel \<le> 4 \<or> take 4 channel \<noteq> ''job:'' then None else Get (drop 4 channel) r)"

text \<open>The critical section of \<open>Push\<close>: write, advance, note the wrap.\<close>

definition ring_push :: "event \<Rightarrow> job \<Rightarrow> job option" where
  "ring_push ev j =
     (if job_head j < length (job_events j) \<and> job_cap j \<noteq> 0
      then (let h = (job_head j + 1) mod job_cap j
            in Some (j\<lparr>job_events := (job_events j)[job_head j := ev], job_head := h,
                       job_full := (job_full j \<or> h = 0)\<rparr>))
      else None)"

text \<open>
  \<open>Push\<close> with a streamer: the result is the new job and what was handed to \<open>SendStream\<close>
  (nothing for a nil streamer).
\<close>

definition Push :: "bool \<Rightarrow> event \<Rightarrow> job \<Rightarrow> (job \<times> (string \<times> event) list) option" where
  "Push streamer ev j =
     (case ring_push ev j of
        None \<Rightarrow> None
      | Some j1 \<Rightarrow>
          (let j2 = (if je_phase ev = PhaseDone then j1\<lparr>job_done := True\<rparr> else j1)
           in Some (j2, if streamer then [(job_Channel j2, ev)] else [])))"

definition Replay :: "job \<Rightarrow> event list" where
  "Replay j =
     (if job_full j then drop (job_head j) (job_events j) @ take (job_head j) (job_events j)
      else take (job_head j) (job_events j))"

definition HasTerminated :: "job \<Rightarrow> bool" where
  "HasTerminated j = job_done j"

subsection \<open>The ring is a bounded log\<close>

definition ring_ok :: "job \<Rightarrow> bool" where
  "ring_ok j \<longleftrightarrow> 0 < job_cap j \<and> length (job_events j) = job_cap j \<and> job_head j < job_cap j"

lemma new_job_ok: "ring_ok (new_job i c)"
  by (simp add: ring_ok_def new_job_def Let_def)

lemma Replay_length: "ring_ok j \<Longrightarrow> length (Replay j) \<le> job_cap j"
  by (simp add: Replay_def ring_ok_def)

lemma ring_push_ok:
  assumes "ring_ok j"
  shows "\<exists>j'. ring_push e j = Some j' \<and> ring_ok j' \<and> job_cap j' = job_cap j \<and>
    Replay j' = last_n (job_cap j) (Replay j @ [e])"
proof -
  let ?es = "(job_events j)[job_head j := e]"
  let ?h = "(job_head j + 1) mod job_cap j"
  have ok: "0 < job_cap j" "length (job_events j) = job_cap j" "job_head j < job_cap j"
    using assms by (auto simp: ring_ok_def)
  let ?j = "j\<lparr>job_events := ?es, job_head := ?h, job_full := (job_full j \<or> ?h = 0)\<rparr>"
  have tk: "take (Suc (job_head j)) ?es = take (job_head j) (job_events j) @ [e]"
    using ok by (simp add: take_Suc_conv_app_nth)
  have dr: "drop (Suc (job_head j)) ?es = drop (Suc (job_head j)) (job_events j)"
    by simp
  have old: "drop (job_head j) (job_events j) =
      job_events j ! job_head j # drop (Suc (job_head j)) (job_events j)"
    using ok by (simp add: Cons_nth_drop_Suc)
  have "Replay ?j = last_n (job_cap j) (Replay j @ [e])"
  proof (cases "job_head j + 1 = job_cap j")
    case True
    then have "Replay ?j = take (Suc (job_head j)) ?es" using ok by (simp add: Replay_def)
    then show ?thesis
      using True ok tk by (cases "job_full j") (auto simp: Replay_def last_n_def old)
  next
    case False
    then have h: "?h = Suc (job_head j)" using ok by simp
    then show ?thesis
      using ok tk dr by (cases "job_full j") (auto simp: Replay_def last_n_def old)
  qed
  moreover have "ring_push e j = Some ?j" using ok by (simp add: ring_push_def Let_def)
  moreover have "ring_ok ?j" using ok by (simp add: ring_ok_def)
  moreover have "job_cap ?j = job_cap j" by simp
  ultimately show ?thesis by blast
qed

interpretation job_ring: bounded_log Replay ring_push job_cap ring_ok
proof
  fix j :: job assume "ring_ok j"
  then show "0 < job_cap j" "length (Replay j) \<le> job_cap j"
    by (simp add: ring_ok_def, rule Replay_length)
qed (rule ring_push_ok)

lemma Push_ring: "Push st ev j = map_option
    (\<lambda>j1. (if je_phase ev = PhaseDone then j1\<lparr>job_done := True\<rparr> else j1,
           if st then [(job_Channel j1, ev)] else [])) (ring_push ev j)"
  by (simp add: Push_def Let_def split: option.splits)

text \<open>Pushing a list of events in turn, as the job's goroutine does; what is streamed is collected.\<close>

fun push_events :: "bool \<Rightarrow> event list \<Rightarrow> job \<Rightarrow> (job \<times> (string \<times> event) list) option" where
  "push_events st [] j = Some (j, [])"
| "push_events st (ev # evs) j =
     (case Push st ev j of
        None \<Rightarrow> None
      | Some (j1, out1) \<Rightarrow>
          (case push_events st evs j1 of None \<Rightarrow> None | Some (j2, out2) \<Rightarrow> Some (j2, out1 @ out2)))"

lemma done_update [simp]:
  "Replay (j\<lparr>job_done := b\<rparr>) = Replay j" "ring_ok (j\<lparr>job_done := b\<rparr>) = ring_ok j"
  by (simp_all add: Replay_def ring_ok_def)

lemma ring_push_fields:
  "ring_push ev j = Some j' \<Longrightarrow> job_Channel j' = job_Channel j \<and> job_done j' = job_done j \<and> job_ID j' = job_ID j"
  by (auto simp: ring_push_def Let_def split: if_splits)

lemma Push_ok:
  assumes "ring_ok j"
  shows "\<exists>j' out. Push st ev j = Some (j', out) \<and> ring_ok j' \<and> job_cap j' = job_cap j \<and>
    job_Channel j' = job_Channel j \<and> Replay j' = last_n (job_cap j) (Replay j @ [ev]) \<and>
    (job_done j' \<longleftrightarrow> job_done j \<or> je_phase ev = PhaseDone) \<and>
    out = (if st then [(job_Channel j, ev)] else [])"
proof -
  obtain j1 where j1: "ring_push ev j = Some j1" "ring_ok j1" "job_cap j1 = job_cap j"
      "Replay j1 = last_n (job_cap j) (Replay j @ [ev])"
    using ring_push_ok [OF assms] by blast
  then show ?thesis using ring_push_fields [OF j1(1)] by (auto simp: Push_ring)
qed

lemma push_events_ok:
  "ring_ok j \<Longrightarrow> \<exists>j' out. push_events st evs j = Some (j', out) \<and> ring_ok j' \<and> job_cap j' = job_cap j \<and>
     Replay j' = last_n (job_cap j) (Replay j @ evs) \<and>
     (job_done j' \<longleftrightarrow> job_done j \<or> (\<exists>ev \<in> set evs. je_phase ev = PhaseDone)) \<and>
     out = (if st then map (\<lambda>ev. (job_Channel j, ev)) evs else [])"
proof (induction evs arbitrary: j)
  case Nil
  then show ?case using Replay_length by auto
next
  case (Cons ev evs)
  obtain j1 out where p: "Push st ev j = Some (j1, out)" "ring_ok j1" "job_cap j1 = job_cap j"
      "job_Channel j1 = job_Channel j" "Replay j1 = last_n (job_cap j) (Replay j @ [ev])"
      "job_done j1 \<longleftrightarrow> job_done j \<or> je_phase ev = PhaseDone"
      "out = (if st then [(job_Channel j, ev)] else [])"
    using Push_ok [OF Cons.prems] by blast
  obtain j2 out2 where q: "push_events st evs j1 = Some (j2, out2)" "ring_ok j2" "job_cap j2 = job_cap j1"
      "Replay j2 = last_n (job_cap j1) (Replay j1 @ evs)"
      "job_done j2 \<longleftrightarrow> job_done j1 \<or> (\<exists>ev \<in> set evs. je_phase ev = PhaseDone)"
      "out2 = (if st then map (\<lambda>ev. (job_Channel j1, ev)) evs else [])"
    using Cons.IH [OF p(2)] by blast
  show ?case using p q by (auto simp: last_n_append)
qed

subsection \<open>The registry keeps the last jobs\<close>

definition reg_ok :: "registry \<Rightarrow> bool" where
  "reg_ok r \<longleftrightarrow> 0 < reg_maxJobs r \<and> distinct (reg_order r) \<and> length (reg_order r) \<le> reg_maxJobs r \<and>
     dom (map_of (reg_jobs r)) = set (reg_order r) \<and>
     (\<forall>i j. Get i r = Some j \<longrightarrow> job_ID j = i \<and> job_Channel j = ChannelJob i \<and> ring_ok j)"

lemma trim_jobs_last:
  "distinct order \<Longrightarrow> trim_jobs m order js = (order', js') \<Longrightarrow>
     order' = last_n m order \<and>
     map_of js' = (map_of js) |` (- set (take (length order - m) order))"
proof (induction m order js rule: trim_jobs.induct)
  case (2 m oldest order js)
  show ?case
  proof (cases "m < length (oldest # order)")
    case True
    with 2 have IH: "order' = last_n m order"
        "map_of js' = map_of (AList.delete oldest js) |` (- set (take (length order - m) order))"
      by auto
    have "Suc (length order) - m = Suc (length order - m)" using True by auto
    then show ?thesis using IH True
      by (auto simp: last_n_def delete_conv' restrict_map_def fun_eq_iff)
  next
    case False
    with 2 show ?thesis by (auto simp: last_n_def restrict_map_def)
  qed
qed (auto simp: last_n_def restrict_map_def)

text \<open>
  The jobs that \<open>New\<close> is called for, with fresh ids (a 16-byte random id is taken not to repeat);
  the buffer sizes and the maximum are any integers.
\<close>

fun new_jobs :: "(string \<times> int) list \<Rightarrow> registry \<Rightarrow> registry" where
  "new_jobs [] r = r"
| "new_jobs ((i, c) # js) r = new_jobs js (snd (New i c r))"

lemma New_order:
  assumes "distinct (reg_order r @ [i])"
  shows "reg_order (snd (New i c r)) = last_n (reg_maxJobs r) (reg_order r @ [i])"
    and "reg_maxJobs (snd (New i c r)) = reg_maxJobs r"
    and "map_of (reg_jobs (snd (New i c r))) =
      ((map_of (reg_jobs r))(i \<mapsto> new_job i c)) |`
        (- set (take (Suc (length (reg_order r)) - reg_maxJobs r) (reg_order r @ [i])))"
proof -
  obtain order js where t:
    "trim_jobs (reg_maxJobs r) (reg_order r @ [i]) (AList.update i (new_job i c) (reg_jobs r)) = (order, js)"
    by fastforce
  note trim_jobs_last [OF assms t]
  then show "reg_order (snd (New i c r)) = last_n (reg_maxJobs r) (reg_order r @ [i])"
    and "reg_maxJobs (snd (New i c r)) = reg_maxJobs r"
    and "map_of (reg_jobs (snd (New i c r))) =
      ((map_of (reg_jobs r))(i \<mapsto> new_job i c)) |`
        (- set (take (Suc (length (reg_order r)) - reg_maxJobs r) (reg_order r @ [i])))"
    by (simp_all add: New_def t update_conv')
qed

lemma set_last_n_take:
  "distinct xs \<Longrightarrow> set (last_n n xs) = set xs - set (take (length xs - n) xs)"
  unfolding last_n_def
  by (metis append_take_drop_id distinct_append set_append Diff_triv Un_Diff Diff_cancel Un_empty_left inf_commute)

lemma New_ok:
  assumes "reg_ok r" "i \<notin> set (reg_order r)"
  shows "reg_ok (snd (New i c r))"
proof -
  have d: "distinct (reg_order r @ [i])" using assms by (simp add: reg_ok_def)
  have dom: "dom (map_of (reg_jobs r)) = set (reg_order r)" using assms by (simp add: reg_ok_def)
  have "dom (map_of (reg_jobs (snd (New i c r)))) = set (reg_order (snd (New i c r)))"
    using set_last_n_take [OF d, of "reg_maxJobs r"]
    by (auto simp: New_order [OF d] dom)
  moreover have "job_ID j = k \<and> job_Channel j = ChannelJob k \<and> ring_ok j"
    if "Get k (snd (New i c r)) = Some j" for k j
    using that assms(1) new_job_ok [of i c]
    by (auto simp: Get_def New_order [OF d] reg_ok_def restrict_map_def new_job_def Let_def split: if_splits)
  moreover note distinct_last_n [OF d, of "reg_maxJobs r"]
  ultimately show ?thesis
    using assms by (simp add: reg_ok_def New_order(1) [OF d] New_order(2) [OF d])
qed

lemma new_jobs_ok:
  assumes "reg_ok r" "distinct (reg_order r @ map fst js)"
  shows "reg_ok (new_jobs js r) \<and> reg_maxJobs (new_jobs js r) = reg_maxJobs r \<and>
    reg_order (new_jobs js r) = last_n (reg_maxJobs r) (reg_order r @ map fst js)"
  using assms
proof (induction js arbitrary: r)
  case Nil
  then show ?case by (simp add: reg_ok_def)
next
  case (Cons ic js)
  obtain i c where ic: "ic = (i, c)" by fastforce
  have d: "distinct (reg_order r @ [i])" and fresh: "i \<notin> set (reg_order r)"
    using Cons.prems(2) ic by auto
  have "distinct (reg_order (snd (New i c r)) @ map fst js)"
    using Cons.prems(2) ic New_order(1) [OF d, of c] distinct_last_n [OF d, of "reg_maxJobs r"]
      set_last_n [of "reg_maxJobs r" "reg_order r @ [i]"]
    by fastforce
  from Cons.IH [OF New_ok [OF Cons.prems(1) fresh] this] show ?case
    using ic New_order [OF d, of c] by (simp add: last_n_append)
qed

lemma NewRegistry_ok: "reg_ok (NewRegistry m)"
  by (simp add: reg_ok_def NewRegistry_def Get_def)

lemma LookupByChannel_ChannelJob: "i \<noteq> [] \<Longrightarrow> LookupByChannel (ChannelJob i) r = Get i r"
  by (cases i) (auto simp: LookupByChannel_def ChannelJob_def)

lemma reg_jobs_after_new:
  assumes "distinct (map fst js)"
  shows "(Get i (new_jobs js (NewRegistry m)) \<noteq> None) \<longleftrightarrow>
    i \<in> set (last_n (reg_maxJobs (NewRegistry m)) (map fst js))"
proof -
  have o: "reg_order (NewRegistry m) = []" by (simp add: NewRegistry_def)
  have "reg_ok (new_jobs js (NewRegistry m))"
      "reg_order (new_jobs js (NewRegistry m)) = last_n (reg_maxJobs (NewRegistry m)) (map fst js)"
    using new_jobs_ok [OF NewRegistry_ok, of m js] assms o by auto
  then show ?thesis by (auto simp: reg_ok_def Get_def dom_def set_eq_iff)
qed

subsection \<open>Properties\<close>

text \<open>
  C12. A late subscriber is caught up: whatever events a job pushed, the code does not panic,
  \<open>Replay\<close> gives exactly the last \<open>cap\<close> of them in order (all of them below the capacity),
  every event was streamed in order on the job's own channel, and \<open>HasTerminated\<close> says whether
  one of them was \<open>done\<close>.
\<close>

theorem replay_is_tail:
  "\<exists>j out. push_events True evs (new_job i bufferCap) = Some (j, out) \<and>
     Replay j = drop (length evs - nat (if bufferCap \<le> 0 then 200 else bufferCap)) evs \<and>
     out = map (\<lambda>ev. (''job:'' @ i, ev)) evs \<and>
     (HasTerminated j \<longleftrightarrow> (\<exists>ev \<in> set evs. je_phase ev = PhaseDone))"
proof -
  have "Replay (new_job i bufferCap) = []" "job_Channel (new_job i bufferCap) = ''job:'' @ i"
      "\<not> job_done (new_job i bufferCap)"
      "job_cap (new_job i bufferCap) = nat (if bufferCap \<le> 0 then 200 else bufferCap)"
    by (simp_all add: Replay_def new_job_def Let_def ChannelJob_def)
  then show ?thesis
    using push_events_ok [OF new_job_ok, of True evs i bufferCap]
    by (auto simp: last_n_def HasTerminated_def)
qed

text \<open>
  The registry serves exactly the last \<open>maxJobs\<close> jobs: after any sequence of \<open>New\<close> with
  fresh ids, a channel lookup finds the job of that channel when it is one of the last \<open>maxJobs\<close>
  (64 for a non-positive maximum), and nothing otherwise.
\<close>

theorem registry_keeps_last:
  assumes "distinct (map fst js)" and "i \<noteq> []"
  shows "(LookupByChannel (''job:'' @ i) (new_jobs js (NewRegistry m)) \<noteq> None) \<longleftrightarrow>
    i \<in> set (drop (length js - nat (if m \<le> 0 then 64 else m)) (map fst js))"
  using reg_jobs_after_new [OF assms(1), of i m] LookupByChannel_ChannelJob [OF assms(2)]
  by (simp add: ChannelJob_def last_n_def NewRegistry_def)

theorem registry_keeps_last_witness:
  "(LookupByChannel ''job:a'' (new_jobs [(''a'', 0), (''b'', 5), (''c'', 5)] (NewRegistry 2)) \<noteq> None)
     \<longleftrightarrow> ''a'' \<in> set (drop 1 [''a'', ''b'', ''c''])"
  using registry_keeps_last [of "[(''a'', 0), (''b'', 5), (''c'', 5)]" "''a''" 2] by simp

end
