(* ===== verification/Sampler.thy ===== *)
theory Sampler
  imports Bounded_Log Complex_Main
begin

text \<open>
  The metric sampler, \<open>internal/agent/sampler.go\<close>: one sample per tick in a buffer of fixed
  capacity. The loop is a fold over the ticks; what \<open>Collect\<close> answers at a tick is an argument
  (\<open>None\<close> for an error). Shifting an empty buffer panics (\<open>s.samples[1:]\<close> of an empty slice).
\<close>

record sample =
  sm_timestamp :: int
  sm_cpu :: real
  sm_mem :: real

record sampler =
  sp_samples :: "sample list"
  sp_cap :: nat

definition newMetricSampler :: "nat \<Rightarrow> sampler" where
  "newMetricSampler capacity = \<lparr>sp_samples = [], sp_cap = capacity\<rparr>"

text \<open>\<open>copy(s.samples, s.samples[1:])\<close>: the elements move one place down, the last one stays.\<close>

definition shift_down :: "'a list \<Rightarrow> 'a list" where
  "shift_down xs = tl xs @ [last xs]"

definition push :: "sample \<Rightarrow> sampler \<Rightarrow> sampler option" where
  "push x s =
     (if sp_cap s \<le> length (sp_samples s)
      then (if sp_samples s = [] then None
            else (let moved = shift_down (sp_samples s);
                      cut = take (length moved - 1) moved
                  in Some (s\<lparr>sp_samples := cut @ [x]\<rparr>)))
      else Some (s\<lparr>sp_samples := sp_samples s @ [x]\<rparr>))"

definition snapshot :: "sampler \<Rightarrow> sample list" where
  "snapshot s = sp_samples s"

text \<open>One tick of \<open>samplerLoop\<close>, and the ticks until the context is cancelled.\<close>

definition sampler_tick :: "sample option \<Rightarrow> sampler \<Rightarrow> sampler option" where
  "sampler_tick r s = (case r of None \<Rightarrow> Some s | Some x \<Rightarrow> push x s)"

fun samplerLoop :: "sample option list \<Rightarrow> sampler \<Rightarrow> sampler option" where
  "samplerLoop [] s = Some s"
| "samplerLoop (r # rs) s = Option.bind (sampler_tick r s) (samplerLoop rs)"

definition sampler_ok :: "sampler \<Rightarrow> bool" where
  "sampler_ok s \<longleftrightarrow> 0 < sp_cap s \<and> length (sp_samples s) \<le> sp_cap s"

lemma push_last_n:
  assumes "sampler_ok s"
  shows "\<exists>s'. push x s = Some s' \<and> sampler_ok s' \<and> sp_cap s' = sp_cap s \<and>
    snapshot s' = last_n (sp_cap s) (snapshot s @ [x])"
proof (cases "sp_cap s \<le> length (sp_samples s)")
  case True
  with assms obtain y ys where ys: "sp_samples s = y # ys" "Suc (length ys) = sp_cap s"
    by (cases "sp_samples s") (auto simp: sampler_ok_def)
  then show ?thesis
    using assms True
    by (auto simp: push_def shift_down_def snapshot_def sampler_ok_def last_n_def Let_def)
next
  case False
  then show ?thesis using assms by (auto simp: push_def snapshot_def sampler_ok_def last_n_def)
qed

interpretation metric_log: bounded_log snapshot push sp_cap sampler_ok
proof
  fix s :: sampler assume "sampler_ok s"
  then show "0 < sp_cap s" "length (snapshot s) \<le> sp_cap s"
    by (simp_all add: sampler_ok_def snapshot_def)
qed (rule push_last_n)

lemma samplerLoop_push_all:
  "samplerLoop rs s = metric_log.push_all (concat (map (\<lambda>r. case r of None \<Rightarrow> [] | Some x \<Rightarrow> [x]) rs)) s"
  by (induction rs arbitrary: s)
    (auto simp: sampler_tick_def split: option.splits intro!: arg_cong [where f = "Option.bind _"])

text \<open>
  The history shown by the console: over any sequence of ticks the sampler does not panic and
  holds exactly the last \<open>capacity\<close> samples that were collected, in order; failed collections
  leave no gap.
\<close>

theorem sampler_history:
  assumes "0 < capacity"
  shows "\<exists>s. samplerLoop rs (newMetricSampler capacity) = Some s \<and>
    (let collected = [x. Some x \<leftarrow> rs]
     in snapshot s = drop (length collected - capacity) collected)"
proof -
  have "sampler_ok (newMetricSampler capacity)"
    using assms by (simp add: sampler_ok_def newMetricSampler_def)
  moreover have "concat (map (\<lambda>r. case r of None \<Rightarrow> [] | Some x \<Rightarrow> [x]) rs) = [x. Some x \<leftarrow> rs]"
    by (rule arg_cong [where f = concat], rule map_cong) (auto split: option.splits)
  ultimately show ?thesis
    using metric_log.push_all_ok [of "newMetricSampler capacity"]
    by (fastforce simp: samplerLoop_push_all last_n_def newMetricSampler_def snapshot_def)
qed

theorem sampler_history_witness:
  "\<exists>s. samplerLoop [Some \<lparr>sm_timestamp = 1, sm_cpu = 2, sm_mem = 3\<rparr>, None] (newMetricSampler 300) = Some s \<and>
    (let collected = [x. Some x \<leftarrow> [Some \<lparr>sm_timestamp = 1, sm_cpu = 2, sm_mem = 3\<rparr>, None]]
     in snapshot s = drop (length collected - 300) collected)"
  using sampler_history [of 300 "[Some \<lparr>sm_timestamp = 1, sm_cpu = 2, sm_mem = 3\<rparr>, None]"] by simp

end
