(* ===== verification/Effects.thy ===== *)
theory Effects
  imports Prelude
begin

text \<open>
  Handlers as computations: the errors they return, the external programs they run, and the rules
  that take a handler apart to say which commands it can run.
\<close>

subsection \<open>Errors of the command handlers\<close>

text \<open>
  What a panel command handler returns as its error: the decoding of the parameters failed, the
  request or the host was refused with a message, escalation is not possible or was refused by
  sudo, or an external program failed.
\<close>

datatype exec_error =
    ExitStatus int    \<comment> \<open>the program ran and ended with this status\<close>
  | NotStarted        \<comment> \<open>it could not be started, or was killed by the deadline\<close>

datatype herror =
    InvalidParams
  | Refused string
  | SudoRequired
  | SudoRefused
  | CommandFailed string exec_error string

subsection \<open>External commands\<close>

text \<open>
  An external program is outside the model. A command is its name and argument vector (and what
  is piped to it); what it prints and how it ends is given by the host, which may answer
  differently each time (its answer is a function of everything run before). The state a handler
  threads through is the list of the commands it has run, in order, so that what a handler does to
  the host is a fact about lists.
\<close>

datatype cmd =
    Run (cmd_name: string) (cmd_args: "string list")
  | Pipe (cmd_name: string) (cmd_args: "string list") string

record run_result =
  rr_out :: string
  rr_stderr :: string
  rr_err :: "exec_error option"

type_synonym trace = "cmd list"
type_synonym host = "trace \<Rightarrow> cmd \<Rightarrow> run_result"

definition exec_cmd :: "host \<Rightarrow> cmd \<Rightarrow> trace \<Rightarrow> run_result \<times> trace" where
  "exec_cmd h c t = (h t c, t @ [c])"

text \<open>
  The host a handler runs on: the operating system it was built for, which tools \<open>LookPath\<close>
  finds, and how programs answer.
\<close>

record env =
  env_linux :: bool
  env_path :: "string \<Rightarrow> bool"
  env_run :: host

text \<open>Computations that run commands and may fail.\<close>

type_synonym ('e, 'a) act = "trace \<Rightarrow> ('e + 'a) \<times> trace"

definition ret :: "'a \<Rightarrow> ('e, 'a) act" where
  "ret x t = (Inr x, t)"

definition throw :: "'e \<Rightarrow> ('e, 'a) act" where
  "throw e t = (Inl e, t)"

definition abind :: "('e, 'a) act \<Rightarrow> ('a \<Rightarrow> ('e, 'b) act) \<Rightarrow> ('e, 'b) act" where
  "abind m f t = (case m t of (Inl e, t') \<Rightarrow> (Inl e, t') | (Inr x, t') \<Rightarrow> f x t')"

definition guard :: "bool \<Rightarrow> 'e \<Rightarrow> ('e, unit) act" where
  "guard b e t = (if b then (Inr (), t) else (Inl e, t))"

definition lift :: "('e + 'a) \<Rightarrow> ('e, 'a) act" where
  "lift r t = (r, t)"

definition run :: "env \<Rightarrow> cmd \<Rightarrow> ('e, run_result) act" where
  "run env c t = (Inr (env_run env t c), t @ [c])"

text \<open>A handler that goes on whatever the outcome of a step was.\<close>

definition attempt :: "('e, 'a) act \<Rightarrow> ('d, 'e + 'a) act" where
  "attempt m t = (case m t of (r, t') \<Rightarrow> (Inr r, t'))"

primrec amap :: "('a \<Rightarrow> ('e, 'b) act) \<Rightarrow> 'a list \<Rightarrow> ('e, 'b list) act" where
  "amap f [] = ret []"
| "amap f (x # xs) = abind (f x) (\<lambda>y. abind (amap f xs) (\<lambda>ys. ret (y # ys)))"

text \<open>
  Every command that a computation adds to the trace satisfies \<open>P\<close>, and a result satisfies
  \<open>Q\<close>. The rules take a computation apart.
\<close>

definition emits :: "(cmd \<Rightarrow> bool) \<Rightarrow> ('a \<Rightarrow> bool) \<Rightarrow> ('e, 'a) act \<Rightarrow> bool" where
  "emits P Q m \<longleftrightarrow> (\<forall>t. \<exists>cs. snd (m t) = t @ cs \<and> list_all P cs \<and> (\<forall>x. fst (m t) = Inr x \<longrightarrow> Q x))"

named_theorems emits_rules

lemma emits_ret [emits_rules]: "Q x \<Longrightarrow> emits P Q (ret x)"
  by (simp add: emits_def ret_def)

lemma emits_throw [emits_rules]: "emits P Q (throw e)"
  by (simp add: emits_def throw_def)

lemma emits_guard [emits_rules]: "(b \<Longrightarrow> Q ()) \<Longrightarrow> emits P Q (guard b e)"
  by (simp add: emits_def guard_def)

lemma emits_lift [emits_rules]: "(\<And>x. r = Inr x \<Longrightarrow> Q x) \<Longrightarrow> emits P Q (lift r)"
  by (simp add: emits_def lift_def)

lemma emits_run [emits_rules]: "P c \<Longrightarrow> emits P (\<lambda>_. True) (run env c)"
  by (simp add: emits_def run_def)

lemma emits_bind:
  assumes "emits P R m" "\<And>x. R x \<Longrightarrow> emits P Q (f x)"
  shows "emits P Q (abind m f)"
  unfolding emits_def
proof
  fix t
  obtain cs where m: "snd (m t) = t @ cs" "list_all P cs" "\<forall>x. fst (m t) = Inr x \<longrightarrow> R x"
    using assms(1) by (auto simp: emits_def)
  show "\<exists>cs. snd (abind m f t) = t @ cs \<and> list_all P cs \<and> (\<forall>x. fst (abind m f t) = Inr x \<longrightarrow> Q x)"
  proof (cases "fst (m t)")
    case (Inl e)
    then show ?thesis using m by (intro exI [of _ cs]) (auto simp: abind_def split: prod.split sum.split)
  next
    case (Inr x)
    then have "emits P Q (f x)" using m(3) assms(2) by blast
    then obtain ds where "snd (f x (t @ cs)) = (t @ cs) @ ds" "list_all P ds"
        "\<forall>y. fst (f x (t @ cs)) = Inr y \<longrightarrow> Q y"
      unfolding emits_def by blast
    then show ?thesis
      using m Inr by (intro exI [of _ "cs @ ds"]) (cases "m t"; auto simp: abind_def)
  qed
qed

lemma emits_attempt: "emits P Q m \<Longrightarrow> emits P (\<lambda>r. \<forall>x. r = Inr x \<longrightarrow> Q x) (attempt m)"
  by (auto simp: emits_def attempt_def split: prod.splits) (metis snd_conv fst_conv)

lemma emits_weaken: "emits P Q m \<Longrightarrow> (\<And>x. Q x \<Longrightarrow> Q' x) \<Longrightarrow> emits P Q' m"
  unfolding emits_def by blast

lemma emits_mono: "emits P Q m \<Longrightarrow> (\<And>c. P c \<Longrightarrow> P' c) \<Longrightarrow> emits P' Q m"
  unfolding emits_def by (metis list_all_iff)

lemma emits_amap:
  assumes "\<And>x. x \<in> set xs \<Longrightarrow> emits P (\<lambda>_. True) (f x)"
  shows "emits P (\<lambda>_. True) (amap f xs)"
  using assms
proof (induction xs)
  case (Cons x xs)
  show ?case
    unfolding amap.simps
    by (rule emits_bind [of P "\<lambda>_. True"], rule Cons.prems, simp, rule emits_bind [of P "\<lambda>_. True"],
        rule Cons.IH) (simp_all add: Cons.prems emits_ret)
qed (simp add: emits_ret)

lemma emits_trace: "emits P Q m \<Longrightarrow> m t = (r, t') \<Longrightarrow> \<exists>cs. t' = t @ cs \<and> list_all P cs"
  unfolding emits_def by (metis snd_conv)

lemma emits_case_sum [emits_rules]:
  "(\<And>e. r = Inl e \<Longrightarrow> emits P Q (f e)) \<Longrightarrow> (\<And>x. r = Inr x \<Longrightarrow> emits P Q (g x)) \<Longrightarrow> emits P Q (case r of Inl e \<Rightarrow> f e | Inr x \<Rightarrow> g x)"
  by (cases r) auto

lemma emits_case_option [emits_rules]:
  "(r = None \<Longrightarrow> emits P Q a) \<Longrightarrow> (\<And>x. r = Some x \<Longrightarrow> emits P Q (g x)) \<Longrightarrow> emits P Q (case r of None \<Rightarrow> a | Some x \<Rightarrow> g x)"
  by (cases r) auto

lemma emits_if [emits_rules]: "(b \<Longrightarrow> emits P Q x) \<Longrightarrow> (\<not> b \<Longrightarrow> emits P Q y) \<Longrightarrow> emits P Q (if b then x else y)"
  by simp

end
