(* ===== verification/Paths.thy ===== *)
theory Paths
  imports Prelude
begin

text \<open>
  The lexical path functions of \<open>path\<close> and \<open>path/filepath\<close> on Unix: \<open>Clean\<close>, \<open>Join\<close>,
  \<open>Dir\<close>, \<open>Base\<close>, \<open>IsAbs\<close> and the join with the working directory that \<open>Abs\<close> does.
\<close>

definition IsAbs :: "string \<Rightarrow> bool" where
  "IsAbs p = prefix ''/'' p"

text \<open>The elements that are left after \<open>.\<close> and \<open>..\<close> are worked off, in reverse.\<close>

fun clean_elems :: "bool \<Rightarrow> string list \<Rightarrow> string list \<Rightarrow> string list" where
  "clean_elems rooted acc [] = rev acc"
| "clean_elems rooted acc (e # es) =
     (if e = [] \<or> e = ''.'' then clean_elems rooted acc es
      else if e = ''..'' then
        (case acc of
           [] \<Rightarrow> if rooted then clean_elems rooted [] es else clean_elems rooted [''..''] es
         | a # acc' \<Rightarrow> if a = ''..'' then clean_elems rooted (''..'' # acc) es else clean_elems rooted acc' es)
      else clean_elems rooted (e # acc) es)"

definition Clean :: "string \<Rightarrow> string" where
  "Clean p =
     (let es = clean_elems (IsAbs p) [] (split_on CHR ''/'' p)
      in if IsAbs p then ''/'' @ join ''/'' es
         else if es = [] then ''.'' else join ''/'' es)"

definition Join :: "string list \<Rightarrow> string" where
  "Join ps = (let qs = filter (\<lambda>p. p \<noteq> []) ps in if qs = [] then [] else Clean (join ''/'' qs))"

definition upto_last_slash :: "string \<Rightarrow> string" where
  "upto_last_slash p = rev (dropWhile (\<lambda>c. c \<noteq> CHR ''/'') (rev p))"

definition after_last_slash :: "string \<Rightarrow> string" where
  "after_last_slash p = rev (takeWhile (\<lambda>c. c \<noteq> CHR ''/'') (rev p))"

definition Dir :: "string \<Rightarrow> string" where
  "Dir p = Clean (upto_last_slash p)"

definition Base :: "string \<Rightarrow> string" where
  "Base p =
     (if p = [] then ''.''
      else (let q = trim_right_char CHR ''/'' p in if q = [] then ''/'' else after_last_slash q))"

definition Abs_path :: "string \<Rightarrow> string \<Rightarrow> string" where
  "Abs_path cwd p = (if IsAbs p then Clean p else Join [cwd, p])"

text \<open>A path with neither empty elements nor \<open>.\<close> or \<open>..\<close>: what \<open>Clean\<close> makes of a rooted path.\<close>

definition elem_ok :: "string \<Rightarrow> bool" where
  "elem_ok e \<longleftrightarrow> e \<noteq> [] \<and> e \<noteq> ''.'' \<and> e \<noteq> ''..'' \<and> CHR ''/'' \<notin> set e"

lemma clean_elems_rooted:
  "list_all elem_ok acc \<Longrightarrow> \<forall>e \<in> set es. CHR ''/'' \<notin> set e \<Longrightarrow> list_all elem_ok (clean_elems True acc es)"
proof (induction es arbitrary: acc)
  case (Cons e es)
  have tl: "list_all elem_ok acc'" if "acc = a # acc'" for a acc' using Cons.prems(1) that by simp
  have ok: "elem_ok e" if "e \<noteq> []" "e \<noteq> ''.''" "e \<noteq> ''..''" using Cons.prems(2) that by (simp add: elem_ok_def)
  have nodd: "a \<noteq> ''..''" if "acc = a # acc'" for a acc' using Cons.prems(1) that by (simp add: elem_ok_def)
  have es: "\<forall>e \<in> set es. CHR ''/'' \<notin> set e" using Cons.prems(2) by simp
  show ?case
    using Cons.IH [OF _ es] Cons.prems(1) ok by (cases acc) (simp_all add: nodd)
qed (simp add: list_all_rev)

lemma clean_elems_id:
  "list_all elem_ok es \<Longrightarrow> clean_elems rooted acc es = rev acc @ es"
  by (induction es arbitrary: acc) (auto simp: elem_ok_def)

definition rooted_path :: "string list \<Rightarrow> string" where
  "rooted_path es = ''/'' @ join ''/'' es"

lemma Clean_rooted:
  assumes "IsAbs p"
  shows "\<exists>es. Clean p = rooted_path es \<and> list_all elem_ok es"
  using assms clean_elems_rooted [of "[]" "split_on CHR ''/'' p"] split_on_no_sep
  by (auto simp: Clean_def rooted_path_def Let_def)

lemma split_rooted: "list_all elem_ok es \<Longrightarrow> es \<noteq> [] \<Longrightarrow> split_on CHR ''/'' (rooted_path es) = [] # es"
  by (simp add: rooted_path_def split_on_join list_all_iff elem_ok_def)

lemma Clean_rooted_path: "list_all elem_ok es \<Longrightarrow> Clean (rooted_path es) = rooted_path es"
proof (cases "es = []")
  case False
  assume a: "list_all elem_ok es"
  have "IsAbs (rooted_path es)" by (simp add: IsAbs_def rooted_path_def)
  then show ?thesis
    using split_rooted [OF a False] clean_elems_id [OF a]
    by (simp add: Clean_def Let_def) (simp add: rooted_path_def)
qed (simp add: rooted_path_def Clean_def IsAbs_def)

lemma Clean_idem: "IsAbs p \<Longrightarrow> Clean (Clean p) = Clean p"
  using Clean_rooted Clean_rooted_path by metis

end
