(* ===== verification/Exec.thy ===== *)
theory Exec
  imports Effects Paths
begin

text \<open>
  Privilege escalation and bounded execution: \<open>internal/agent/sudo.go\<close>, the \<open>runPrivileged\<close>
  of \<open>sshkeys_handlers.go\<close>, and the \<open>system:exec\<close> action with its helpers from
  \<open>internal/agent/workflow_handlers.go\<close>. Deadlines are not run down: a program killed by its
  deadline is one of the answers of the host.
\<close>

datatype sudo_mode = SudoRoot | SudoPasswordless | SudoUnavailable

definition probeSudoMode :: "env \<Rightarrow> bool \<Rightarrow> trace \<Rightarrow> sudo_mode \<times> trace" where
  "probeSudoMode env euid_root t =
     (if \<not> env_linux env then (SudoUnavailable, t)
      else if euid_root then (SudoRoot, t)
      else if \<not> env_path env ''sudo'' then (SudoUnavailable, t)
      else (let c = Run ''sudo'' [''-n'', ''true''] in
            (case rr_err (env_run env t c) of Some _ \<Rightarrow> SudoUnavailable | None \<Rightarrow> SudoPasswordless, t @ [c])))"

text \<open>The program and arguments that are started in place of a command.\<close>

fun sudo_wrap :: "cmd \<Rightarrow> cmd" where
  "sudo_wrap (Run n as) = Run ''sudo'' (''-n'' # n # as)"
| "sudo_wrap (Pipe n as input) = Pipe ''sudo'' (''-n'' # n # as) input"

fun sudoCommandContext :: "sudo_mode \<Rightarrow> cmd \<Rightarrow> herror + cmd" where
  "sudoCommandContext SudoRoot c = Inr c"
| "sudoCommandContext SudoPasswordless c = Inr (sudo_wrap c)"
| "sudoCommandContext SudoUnavailable c = Inl SudoRequired"

definition classifySudoError :: "string \<Rightarrow> bool" where
  "classifySudoError err =
     (let low = to_lower err in
      list_ex (contains low)
        [''a password is required'', ''a terminal is required'', ''sudo: not allowed'', ''sudo: must be setuid root''])"

definition runPrivileged :: "env \<Rightarrow> sudo_mode \<Rightarrow> cmd \<Rightarrow> (herror, string) act" where
  "runPrivileged env mode c =
     abind (lift (sudoCommandContext mode c)) (\<lambda>c'.
     abind (run env c') (\<lambda>r.
       case rr_err r of
         None \<Rightarrow> ret (rr_out r)
       | Some e \<Rightarrow>
           (let msg = trim_space (rr_stderr r) in
            if classifySudoError msg then throw SudoRequired
            else throw (CommandFailed (cmd_name c) e msg))))"

text \<open>What a mode lets through of a set of commands.\<close>

fun via :: "sudo_mode \<Rightarrow> (cmd \<Rightarrow> bool) \<Rightarrow> cmd \<Rightarrow> bool" where
  "via SudoRoot P c = P c"
| "via SudoPasswordless P c = (\<exists>d. c = sudo_wrap d \<and> P d)"
| "via SudoUnavailable P c = False"

lemma emits_runPrivileged: "P c \<Longrightarrow> emits (via mode P) (\<lambda>_. True) (runPrivileged env mode c)"
  unfolding runPrivileged_def Let_def
  apply (rule emits_bind [where R = "via mode P"])
   apply (rule emits_lift)
   apply (cases mode; auto)
  apply (rule emits_bind [where R = "\<lambda>_. True"])
   apply (erule emits_run)
  apply (intro emits_case_option emits_ret emits_if emits_throw TrueI)
  done

subsection \<open>system:exec\<close>

record security_config =
  sec_AllowedPaths :: "string list"
  sec_BlockedCommands :: "string list"
  sec_MaxExecTimeout :: int

definition second :: int where "second = 1000000000"
definition defaultMaxExecTimeout :: int where "defaultMaxExecTimeout = 10 * 60 * second"

definition commandBlocked :: "string list \<Rightarrow> string \<Rightarrow> bool" where
  "commandBlocked blocked cmd =
     (let cmdAbs = trim_space cmd; cmdBase = Base cmdAbs in
      list_ex (\<lambda>raw. let e = trim_space raw in
        e \<noteq> [] \<and> (e = cmdAbs \<or> e = cmdBase \<or> Base e = cmdBase)) blocked)"

definition resolveMaxExecTimeout :: "security_config option \<Rightarrow> int" where
  "resolveMaxExecTimeout cfg =
     (case cfg of
        Some c \<Rightarrow> if 0 < sec_MaxExecTimeout c then sec_MaxExecTimeout c else defaultMaxExecTimeout
      | None \<Rightarrow> defaultMaxExecTimeout)"

definition truncate_out :: "string \<Rightarrow> nat \<Rightarrow> string" where
  "truncate_out s n =
     (if length s \<le> n then s
      else take n s @ [CHR 0x0A, CHR 0xE2, CHR 0x80, CHR 0xA6] @ ''[truncated]'')"

record exec_params =
  ep_command :: string
  ep_args :: "string list"
  ep_working_dir :: string
  ep_timeout_seconds :: int

record exec_result =
  er_command :: string
  er_args :: "string list"
  er_exit_code :: int
  er_output :: string

text \<open>
  The handler: besides the outcome it gives the deadline and the directory the command was started
  with, if it was started. \<open>cfg\<close> is the agent's configuration (\<open>None\<close> for a nil one) with
  whether \<open>features.exec\<close> is on.
\<close>

definition exec_timeout :: "security_config \<Rightarrow> int \<Rightarrow> int" where
  "exec_timeout cfg secs =
     (let maxTimeout = resolveMaxExecTimeout (Some cfg);
          timeout = int64 (secs * second)
      in if timeout \<le> 0 \<or> maxTimeout < timeout then maxTimeout else timeout)"

definition shell_meta :: string where
  "shell_meta = [CHR 0x60, CHR 0x0A, CHR 0x0D] @ '';&|$<>''"

definition handleSystemExec :: "env \<Rightarrow> (security_config \<times> bool) option \<Rightarrow> herror + exec_params \<Rightarrow>
    (herror, exec_result \<times> int \<times> string) act" where
  "handleSystemExec env cfg params =
     (case cfg of
        None \<Rightarrow> throw (Refused ''system:exec is disabled by agent config (features.exec=false)'')
      | Some (sec, enabled) \<Rightarrow>
         abind (guard enabled (Refused ''system:exec is disabled by agent config (features.exec=false)'')) (\<lambda>_.
         abind (lift params) (\<lambda>p.
           let cmd = trim_space (ep_command p) in
           abind (guard (cmd \<noteq> []) (Refused ''command is required'')) (\<lambda>_.
           abind (guard (prefix ''/'' cmd) (Refused ''command must be an absolute path'')) (\<lambda>_.
           abind (guard (\<not> contains_any cmd shell_meta)
             (Refused ''command contains shell metacharacters; pass arguments via args[]'')) (\<lambda>_.
           abind (guard (\<not> commandBlocked (sec_BlockedCommands sec) cmd)
             (Refused ''command is blocked by agent security config'')) (\<lambda>_.
           abind (run env (Run cmd (ep_args p))) (\<lambda>r.
             let result = (\<lambda>code. (\<lparr>er_command = cmd, er_args = ep_args p, er_exit_code = code,
                 er_output = truncate_out (rr_out r) (1024 * 32)\<rparr>, exec_timeout sec (ep_timeout_seconds p), ep_working_dir p))
             in case rr_err r of
                  None \<Rightarrow> ret (result 0)
                | Some (ExitStatus n) \<Rightarrow> ret (result n)
                | Some NotStarted \<Rightarrow> throw (CommandFailed cmd NotStarted [])))))))))"

lemma exec_timeout_bounds:
  "0 < exec_timeout cfg secs \<and> exec_timeout cfg secs \<le> resolveMaxExecTimeout (Some cfg)"
  by (simp add: exec_timeout_def Let_def resolveMaxExecTimeout_def defaultMaxExecTimeout_def second_def)

text \<open>
  C9. \<open>system:exec\<close> starts at most one program; it is the trimmed command of the request, an
  absolute path without shell metacharacters, whose base name is neither a configured blocked
  command nor the base name of one; its arguments are passed on unchanged; nothing is started
  when the feature is off. The deadline is positive and never above the configured maximum, also
  when the requested seconds overflow a 64-bit duration.
\<close>

theorem system_exec_confined:
  assumes "handleSystemExec env cfg params t = (r, t')" and "t' \<noteq> t"
  shows "\<exists>sec p. cfg = Some (sec, True) \<and> params = Inr p \<and> t' = t @ [Run (trim_space (ep_command p)) (ep_args p)] \<and>
     prefix ''/'' (trim_space (ep_command p)) \<and> set (trim_space (ep_command p)) \<inter> set '';&|$<>'' = {} \<and>
     (\<forall>b \<in> set (sec_BlockedCommands sec). trim_space b \<noteq> [] \<longrightarrow>
        trim_space b \<noteq> trim_space (ep_command p) \<and> Base (trim_space b) \<noteq> Base (trim_space (ep_command p))) \<and>
     (\<forall>res d dir. r = Inr (res, d, dir) \<longrightarrow> dir = ep_working_dir p \<and> 0 < d \<and> d \<le> resolveMaxExecTimeout (Some sec))"
proof (cases cfg)
  case None
  then show ?thesis using assms by (simp add: handleSystemExec_def throw_def)
next
  case (Some se)
  obtain sec en where se: "se = (sec, en)" by fastforce
  note defs = handleSystemExec_def abind_def guard_def lift_def run_def throw_def ret_def Let_def Some se
  obtain p where p: "params = Inr p" using assms by (cases params) (auto simp: defs split: if_splits)
  let ?c = "trim_space (ep_command p)"
  have g: "en" "?c \<noteq> []" "prefix ''/'' ?c" "\<not> contains_any ?c shell_meta"
      "\<not> commandBlocked (sec_BlockedCommands sec) ?c"
    using assms by (auto simp: defs p split: if_splits)
  have t: "t' = t @ [Run ?c (ep_args p)]"
    and d: "\<forall>res d dir. r = Inr (res, d, dir) \<longrightarrow> dir = ep_working_dir p \<and> d = exec_timeout sec (ep_timeout_seconds p)"
    using assms g by (auto simp: defs p split: option.splits exec_error.splits)
  have "set ?c \<inter> set '';&|$<>'' = {}" using g(4) by (auto simp: contains_any_iff shell_meta_def)
  moreover have "trim_space b \<noteq> ?c \<and> Base (trim_space b) \<noteq> Base ?c"
    if "b \<in> set (sec_BlockedCommands sec)" "trim_space b \<noteq> []" for b
    using g(5) that by (auto simp: commandBlocked_def Let_def list_ex_iff)
  moreover have dd: "\<forall>res d dir. r = Inr (res, d, dir) \<longrightarrow> dir = ep_working_dir p \<and> 0 < d \<and> d \<le> resolveMaxExecTimeout (Some sec)"
    using d exec_timeout_bounds [of sec] by auto
  ultimately show ?thesis
    by (intro conjI ballI impI exI [of _ sec] exI [of _ p])
      (use Some se p g t in \<open>simp_all\<close>)
qed

theorem system_exec_confined_witness:
  "\<exists>sec p. (\<lparr>sec_AllowedPaths = [], sec_BlockedCommands = [''rm''], sec_MaxExecTimeout = 5\<rparr>, True) = (sec, True) \<and>
     p = \<lparr>ep_command = ''/bin/ls'', ep_args = [''-l''], ep_working_dir = [], ep_timeout_seconds = 2 ^ 63\<rparr> \<and>
     [Run ''/bin/ls'' [''-l'']] = [] @ [Run (trim_space (ep_command p)) (ep_args p)]"
proof -
  let ?env = "\<lparr>env_linux = True, env_path = (\<lambda>_. True), env_run = (\<lambda>_ _. \<lparr>rr_out = [], rr_stderr = [], rr_err = None\<rparr>)\<rparr>"
  let ?cfg = "Some (\<lparr>sec_AllowedPaths = [], sec_BlockedCommands = [''rm''], sec_MaxExecTimeout = 5\<rparr>, True)"
  let ?p = "\<lparr>ep_command = ''/bin/ls'', ep_args = [''-l''], ep_working_dir = [], ep_timeout_seconds = 2 ^ 63\<rparr>"
  have c: "trim_space ''/bin/ls'' = ''/bin/ls''" "commandBlocked [''rm''] ''/bin/ls'' = False"
      "contains_any ''/bin/ls'' shell_meta = False"
    by code_simp+
  have "snd (handleSystemExec ?env ?cfg (Inr ?p) []) = [Run ''/bin/ls'' [''-l'']]"
    by (simp add: handleSystemExec_def abind_def guard_def lift_def run_def ret_def Let_def c)
  then obtain r where "handleSystemExec ?env ?cfg (Inr ?p) [] = (r, [Run ''/bin/ls'' [''-l'']])"
    by (metis prod.collapse)
  from system_exec_confined [OF this] show ?thesis by auto
qed

end
