(* ===== verification/Base64.thy ===== *)
theory Base64
  imports Prelude
begin

text \<open>
  \<open>base64.StdEncoding\<close>: the standard alphabet with padding. Decoding skips carriage returns and
  newlines and accepts padding bits that are not zero, as Go's decoder does.
\<close>

definition b64_alphabet :: string where
  "b64_alphabet = ''ABCDEFGHIJKLMNOPQRSTUVWXYZabcdefghijklmnopqrstuvwxyz0123456789+/''"

definition b64_char :: "nat \<Rightarrow> char" where
  "b64_char n = b64_alphabet ! n"

definition b64_val :: "char \<Rightarrow> nat option" where
  "b64_val c = (if c \<in> set b64_alphabet then Some (length (takeWhile (\<lambda>d. d \<noteq> c) b64_alphabet)) else None)"

definition byte :: "nat \<Rightarrow> char" where
  "byte n = char_of n"

definition b64_three :: "nat \<Rightarrow> nat \<Rightarrow> nat \<Rightarrow> nat \<Rightarrow> string" where
  "b64_three a b c d = [byte (a * 4 + b div 16), byte (b mod 16 * 16 + c div 4), byte (c mod 4 * 64 + d)]"

fun b64_dec :: "string \<Rightarrow> string option" where
  "b64_dec [] = Some []"
| "b64_dec (p # q # r # s # rest) =
     (case (b64_val p, b64_val q) of
        (Some a, Some b) \<Rightarrow>
          (if r = CHR ''='' then (if s = CHR ''='' \<and> rest = [] then Some (take 1 (b64_three a b 0 0)) else None)
           else (case b64_val r of
               None \<Rightarrow> None
             | Some c \<Rightarrow>
                 (if s = CHR ''='' then (if rest = [] then Some (take 2 (b64_three a b c 0)) else None)
                  else (case b64_val s of
                      None \<Rightarrow> None
                    | Some d \<Rightarrow> (case b64_dec rest of None \<Rightarrow> None | Some out \<Rightarrow> Some (b64_three a b c d @ out))))))
      | _ \<Rightarrow> None)"
| "b64_dec _ = None"

definition b64_decode :: "string \<Rightarrow> string option" where
  "b64_decode s = b64_dec (filter (\<lambda>c. c \<noteq> CHR 0x0D \<and> c \<noteq> CHR 0x0A) s)"

fun b64_encode :: "string \<Rightarrow> string" where
  "b64_encode [] = []"
| "b64_encode [x] = (let a = of_char x :: nat in [b64_char (a div 4), b64_char (a mod 4 * 16)] @ ''=='')"
| "b64_encode [x, y] = (let a = of_char x :: nat; b = of_char y :: nat in
     [b64_char (a div 4), b64_char (a mod 4 * 16 + b div 16), b64_char (b mod 16 * 4)] @ ''='')"
| "b64_encode (x # y # z # rest) = (let a = of_char x :: nat; b = of_char y :: nat; c = of_char z :: nat in
     [b64_char (a div 4), b64_char (a mod 4 * 16 + b div 16), b64_char (b mod 16 * 4 + c div 64), b64_char (c mod 64)] @
     b64_encode rest)"

text \<open>Decoding undoes encoding.\<close>

lemma b64_char_table:
  "list_all (\<lambda>n. b64_val (b64_char n) = Some n \<and> b64_char n \<notin> set [CHR ''='', CHR 0x0D, CHR 0x0A]) [0..<64]"
  by code_simp

lemma b64_char_ok:
  assumes "n < 64"
  shows "b64_val (b64_char n) = Some n" "b64_char n \<noteq> CHR ''=''" "b64_char n \<noteq> CHR 0x0D" "b64_char n \<noteq> CHR 0x0A"
  using b64_char_table assms by (simp_all add: list_all_iff)

lemma sextets:
  "a < 256 \<Longrightarrow> a div 4 < (64 :: nat)" "a mod 4 * 16 < (64 :: nat)" "b < 256 \<Longrightarrow> a mod 4 * 16 + b div 16 < (64 :: nat)"
  "b mod 16 * 4 < (64 :: nat)" "c < 256 \<Longrightarrow> b mod 16 * 4 + c div 64 < (64 :: nat)" "c mod 64 < (64 :: nat)"
  by linarith+

lemma halves: "r < k \<Longrightarrow> (q * k + r) div k = (q :: nat)" "r < k \<Longrightarrow> (q * k + r) mod k = (r :: nat)"
  by simp_all

lemma octets:
  assumes "b < 256" "c < (256 :: nat)"
  shows "b64_three (a div 4) (a mod 4 * 16 + b div 16) (b mod 16 * 4 + c div 64) (c mod 64) = [byte a, byte b, byte c]"
proof -
  have "b div 16 < 16" "c div 64 < 4" "c mod 64 < 64" using assms by linarith+
  then show ?thesis by (simp only: b64_three_def halves div_mult_mod_eq)
qed

lemma octets_short:
  "take (Suc 0) (b64_three (a div 4) (a mod 4 * 16) 0 0) = [byte a]"
  "b < (256 :: nat) \<Longrightarrow> take 2 (b64_three (a div 4) (a mod 4 * 16 + b div 16) (b mod 16 * 4) 0) = [byte a, byte b]"
  using octets [of 0 0 a] octets [of b 0 a] by simp_all

lemmas b64_simps = b64_char_ok sextets octets octets_short nat_of_char_less_256

lemma b64_dec_encode: "b64_dec (b64_encode s) = Some s"
  by (induction s rule: b64_encode.induct) (simp_all add: b64_simps byte_def Let_def)

lemma b64_encode_one_line: "filter (\<lambda>c. c \<noteq> CHR 0x0D \<and> c \<noteq> CHR 0x0A) (b64_encode s) = b64_encode s"
  by (induction s rule: b64_encode.induct) (simp_all add: b64_simps Let_def)

theorem b64_decode_encode: "b64_decode (b64_encode s) = Some s"
  by (simp add: b64_decode_def b64_encode_one_line b64_dec_encode)

text \<open>The encoding has no character that is part of a space.\<close>

lemma b64_char_solid: "n < 64 \<Longrightarrow> solid [b64_char n]"
proof -
  have "list_all (\<lambda>n. solid [b64_char n]) [0..<64]" by code_simp
  then show "n < 64 \<Longrightarrow> solid [b64_char n]" by (simp add: list_all_iff)
qed

lemma solid_Cons: "solid (c # s) \<longleftrightarrow> solid [c] \<and> (s = [] \<or> solid s)"
  by (auto simp: solid_def)

lemma b64_encode_solid: "s \<noteq> [] \<Longrightarrow> solid (b64_encode s)"
proof (induction s rule: b64_encode.induct)
  case (4 x y z rest)
  then show ?case
    by (cases "rest = []") (simp_all add: Let_def solid_Cons [of _ "_ # _"] solid_Cons [of _ "b64_encode _"] b64_char_solid b64_simps)
qed (simp_all add: Let_def solid_Cons [of _ "_ # _"] b64_char_solid b64_simps, simp_all add: solid_def space_encodings_def)

end
