(* ===== verification/SshKeys.thy ===== *)
theory SshKeys
  imports Exec Base64
begin

text \<open>
  Managing one key in a user's \<open>authorized_keys\<close>: the pure line handling of
  \<open>internal/agent/sshkeys.go\<close> and the privileged file operations and handlers of
  \<open>internal/agent/sshkeys_handlers.go\<close>. SHA-256, the user database and the local rendering of a
  time are parameters. \<open>ssh -V\<close> and the file tools are commands of the host.
\<close>

definition sshKeyTypes :: "string list" where
  "sshKeyTypes = [''ssh-ed25519'', ''ssh-rsa'', ''ecdsa-sha2-nistp256'', ''ecdsa-sha2-nistp384'',
     ''ecdsa-sha2-nistp521'', ''sk-ssh-ed25519@openssh.com'', ''sk-ecdsa-sha2-nistp256@openssh.com'']"

definition is_lower :: "char \<Rightarrow> bool" where "is_lower c \<longleftrightarrow> c \<in> set ''abcdefghijklmnopqrstuvwxyz''"
definition is_letter :: "char \<Rightarrow> bool" where "is_letter c \<longleftrightarrow> is_lower c \<or> c \<in> set ''ABCDEFGHIJKLMNOPQRSTUVWXYZ''"

definition sshUsernameRe :: "string \<Rightarrow> bool" where
  "sshUsernameRe s \<longleftrightarrow>
     (case s of [] \<Rightarrow> False
      | c # r \<Rightarrow> (is_lower c \<or> c = CHR ''_'') \<and> length r \<le> 31 \<and>
          list_all (\<lambda>d. is_lower d \<or> is_digit d \<or> d \<in> set ''_-'') r)"

definition sshBlobRe :: "string \<Rightarrow> bool" where
  "sshBlobRe s \<longleftrightarrow>
     (let body = trim_right_char CHR ''='' s in
      body \<noteq> [] \<and> list_all (\<lambda>c. is_letter c \<or> is_digit c \<or> c \<in> set ''+/'') body \<and> length s \<le> length body + 2)"

definition sshOptionRe :: "string \<Rightarrow> bool" where
  "sshOptionRe s \<longleftrightarrow>
     (let name = takeWhile (\<lambda>c. is_letter c \<or> is_digit c \<or> c = CHR ''-'') s;
          rest = drop (length name) s
      in name \<noteq> [] \<and> is_letter (hd name) \<and>
         (rest = [] \<or>
          (prefix (''='' @ [CHR 0x22]) rest \<and> 3 \<le> length rest \<and> last rest = CHR 0x22 \<and>
           set (butlast (drop 2 rest)) \<inter> {CHR 0x22, CHR 0x0D, CHR 0x0A} = {})))"

definition sshCommentRe :: "string \<Rightarrow> bool" where
  "sshCommentRe s \<longleftrightarrow> CHR 0x0D \<notin> set s \<and> CHR 0x0A \<notin> set s \<and> length s \<le> 200"

record ssh_key =
  sk_Type :: string
  sk_Blob :: string
  sk_Comment :: string

definition material :: "ssh_key \<Rightarrow> string" where
  "material k = sk_Type k @ '' '' @ sk_Blob k"

definition fingerprint :: "(string \<Rightarrow> string) \<Rightarrow> ssh_key \<Rightarrow> string" where
  "fingerprint sha256 k =
     (case b64_decode (sk_Blob k) of
        None \<Rightarrow> []
      | Some raw \<Rightarrow> ''SHA256:'' @ trim_right_char CHR ''='' (b64_encode (sha256 raw)))"

definition validateSSHUsername :: "string \<Rightarrow> herror + unit" where
  "validateSSHUsername u = (if sshUsernameRe u then Inr () else Inl (Refused ''invalid username''))"

definition parsePublicKey :: "string \<Rightarrow> herror + ssh_key" where
  "parsePublicKey line0 =
     (let line = trim_space line0 in
      if line = [] \<or> contains_any line [CHR 0x0D, CHR 0x0A] then Inl (Refused ''public key must be a single line'')
      else (let fs = fields_of line in
        if length fs < 2 then Inl (Refused ''public key must be <type> <base64-blob> [comment]'')
        else if fs ! 0 \<notin> set sshKeyTypes then Inl (Refused ''unsupported key type'')
        else if \<not> sshBlobRe (fs ! 1) then Inl (Refused ''key blob is not valid base64'')
        else if b64_decode (fs ! 1) = None then Inl (Refused ''key blob is not valid base64'')
        else Inr \<lparr>sk_Type = fs ! 0, sk_Blob = fs ! 1, sk_Comment = join '' '' (drop 2 fs)\<rparr>))"

definition validateSSHOptions :: "string list \<Rightarrow> herror + unit" where
  "validateSSHOptions opts =
     (if list_all sshOptionRe opts then Inr () else Inl (Refused ''invalid authorized_keys option''))"

text \<open>The end of the options field: the first blank or tab outside quotes.\<close>

fun options_end :: "bool \<Rightarrow> string \<Rightarrow> nat option" where
  "options_end q [] = None"
| "options_end q (r # rest) =
     (if r = CHR 0x22 then map_option Suc (options_end (\<not> q) rest)
      else if \<not> q \<and> (r = CHR 0x20 \<or> r = CHR 0x09) then Some 0
      else map_option Suc (options_end q rest))"

definition key_of_fields :: "string \<Rightarrow> string list \<Rightarrow> (ssh_key \<times> string) option" where
  "key_of_fields opts fs =
     (if length fs < 2 \<or> fs ! 0 \<notin> set sshKeyTypes then None
      else Some (\<lparr>sk_Type = fs ! 0, sk_Blob = fs ! 1, sk_Comment = join '' '' (drop 2 fs)\<rparr>, opts))"

definition parseAuthorizedKeysLine :: "string \<Rightarrow> (ssh_key \<times> string) option" where
  "parseAuthorizedKeysLine line =
     (let trimmed = trim_space line in
      if trimmed = [] \<or> prefix ''#'' trimmed then None
      else if hd (fields_of trimmed) \<in> set sshKeyTypes then key_of_fields [] (fields_of trimmed)
      else (case options_end False trimmed of
          None \<Rightarrow> None
        | Some e \<Rightarrow> key_of_fields (take e trimmed) (fields_of (trim_space (drop e trimmed)))))"

definition formatAuthorizedKeysLine :: "ssh_key \<Rightarrow> string list \<Rightarrow> string" where
  "formatAuthorizedKeysLine key opts =
     (if opts = [] then [] else join '','' opts @ '' '') @ material key @
     (if sk_Comment key = [] then [] else '' '' @ sk_Comment key)"

text \<open>\<open>strings.ReplaceAll(content, "\r\n", "\n")\<close>.\<close>

fun replace_crlf :: "string \<Rightarrow> string" where
  "replace_crlf [] = []"
| "replace_crlf [c] = [c]"
| "replace_crlf (c # d # s) =
     (if c = CHR 0x0D \<and> d = CHR 0x0A then CHR 0x0A # replace_crlf s else c # replace_crlf (d # s))"

definition splitLines :: "string \<Rightarrow> string list" where
  "splitLines content0 =
     (let content = trim_right_char (CHR 0x0A) (replace_crlf content0)
      in if content = [] then [] else split_on (CHR 0x0A) content)"

definition joinLines :: "string list \<Rightarrow> string" where
  "joinLines lines = (if lines = [] then [] else join [CHR 0x0A] lines @ [CHR 0x0A])"

definition carries :: "ssh_key \<Rightarrow> string \<Rightarrow> bool" where
  "carries key line \<longleftrightarrow>
     (case parseAuthorizedKeysLine line of Some (k, _) \<Rightarrow> material k = material key | None \<Rightarrow> False)"

text \<open>The loop of \<open>authorizedKeysUpsert\<close>, with \<open>found\<close> and \<open>changed\<close>.\<close>

fun upsert_loop :: "ssh_key \<Rightarrow> string \<Rightarrow> bool \<Rightarrow> bool \<Rightarrow> string list \<Rightarrow> string list \<times> bool \<times> bool" where
  "upsert_loop key newLine found changed [] = ([], found, changed)"
| "upsert_loop key newLine found changed (line # lines) =
     (if carries key line
      then (if found then upsert_loop key newLine True True lines
            else (let (out, f, c) = upsert_loop key newLine True (changed \<or> line \<noteq> newLine) lines
                  in (newLine # out, f, c)))
      else (let (out, f, c) = upsert_loop key newLine found changed lines in (line # out, f, c)))"

definition authorizedKeysUpsert :: "string \<Rightarrow> ssh_key \<Rightarrow> string \<Rightarrow> string \<times> bool" where
  "authorizedKeysUpsert content key newLine =
     (let (out, found, changed) = upsert_loop key newLine False False (splitLines content)
      in if found then (joinLines out, changed) else (joinLines (out @ [newLine]), True))"

definition authorizedKeysRemove :: "string \<Rightarrow> ssh_key \<Rightarrow> string \<times> bool" where
  "authorizedKeysRemove content key =
     (let lines = splitLines content; out = filter (\<lambda>l. \<not> carries key l) lines
      in if length out = length lines then (content, False) else (joinLines out, True))"

text \<open>\<open>OpenSSH_(\d+)\.(\d+)\<close>, leftmost match; a number out of range becomes the largest integer.\<close>

definition atoi_clamped :: "string \<Rightarrow> int" where
  "atoi_clamped s = (case atoi s of Some n \<Rightarrow> n | None \<Rightarrow> 2 ^ 63 - 1)"

definition version_here :: "string \<Rightarrow> (int \<times> int) option" where
  "version_here s =
     (if \<not> prefix ''OpenSSH_'' s then None
      else (let r = drop 8 s; a = takeWhile is_digit r; r2 = drop (length a) r; b = takeWhile is_digit (drop 1 r2)
            in if a = [] \<or> \<not> prefix ''.'' r2 \<or> b = [] then None else Some (atoi_clamped a, atoi_clamped b)))"

fun parseOpenSSHVersion :: "string \<Rightarrow> (int \<times> int) option" where
  "parseOpenSSHVersion [] = None"
| "parseOpenSSHVersion (c # s) =
     (case version_here (c # s) of Some v \<Rightarrow> Some v | None \<Rightarrow> parseOpenSSHVersion s)"

definition supportsExpiryTime :: "int \<Rightarrow> int \<Rightarrow> bool" where
  "supportsExpiryTime major minor \<longleftrightarrow> 8 < major \<or> (major = 8 \<and> 2 \<le> minor)"

definition expiryTimeOption :: "(int \<Rightarrow> string) \<Rightarrow> int \<Rightarrow> string" where
  "expiryTimeOption local_stamp t = ''expiry-time='' @ [CHR 0x22] @ local_stamp t @ [CHR 0x22]"

subsection \<open>Privileged file operations\<close>

record ssh_params =
  sp_User :: string
  sp_Key :: string
  sp_Options :: "string list"
  sp_ExpiresAt :: int
  sp_EnsureUser :: bool

datatype lookup = UnknownUser | LookupFailed | HomeDir string

record ssh_env =
  se_env :: env
  se_mode :: sudo_mode
  se_lookup :: "trace \<Rightarrow> string \<Rightarrow> lookup"   \<comment> \<open>the user database, after what has been run\<close>
  se_sha256 :: "string \<Rightarrow> string"
  se_stamp :: "int \<Rightarrow> string"

datatype ssh_error = UserMissing | SshErr herror

record ssh_io =
  io_user :: string
  io_dir :: string
  io_path :: string

definition lift_err :: "(herror, 'a) act \<Rightarrow> (ssh_error, 'a) act" where
  "lift_err m t = (case m t of (Inl e, t') \<Rightarrow> (Inl (SshErr e), t') | (Inr x, t') \<Rightarrow> (Inr x, t'))"

definition lookup_user :: "ssh_env \<Rightarrow> string \<Rightarrow> (ssh_error, lookup) act" where
  "lookup_user se u t = (Inr (se_lookup se t u), t)"

definition newSSHKeysIO :: "ssh_env \<Rightarrow> string \<Rightarrow> bool \<Rightarrow> (ssh_error, ssh_io) act" where
  "newSSHKeysIO se username ensure =
     abind (guard (se_mode se = SudoRoot \<or> se_mode se = SudoPasswordless) (SshErr SudoRequired)) (\<lambda>_.
     abind (lookup_user se username) (\<lambda>u0.
     abind (if u0 = UnknownUser \<and> ensure
            then abind (lift_err (runPrivileged (se_env se) (se_mode se)
                   (Run ''useradd'' [''-m'', ''-s'', ''/bin/bash'', username]))) (\<lambda>_. lookup_user se username)
            else ret u0) (\<lambda>u.
       case u of
         UnknownUser \<Rightarrow> throw UserMissing
       | LookupFailed \<Rightarrow> throw (SshErr (Refused ''look up user''))
       | HomeDir home \<Rightarrow>
           if home = [] \<or> home = ''/'' \<or> \<not> IsAbs home
           then throw (SshErr (Refused ''user has no usable home directory''))
           else (let dir = Join [home, ''.ssh'']
                 in ret \<lparr>io_user = username, io_dir = dir, io_path = Join [dir, ''authorized_keys'']\<rparr>))))"

fun as_user :: "string \<Rightarrow> cmd \<Rightarrow> cmd" where
  "as_user u (Run n as) = (if u = ''root'' then Run n as else Run ''runuser'' ([''-u'', u, ''--'', n] @ as))"
| "as_user u (Pipe n as inp) = (if u = ''root'' then Pipe n as inp else Pipe ''runuser'' ([''-u'', u, ''--'', n] @ as) inp)"

definition io_run :: "ssh_env \<Rightarrow> ssh_io \<Rightarrow> cmd \<Rightarrow> (ssh_error, string) act" where
  "io_run se io c = lift_err (runPrivileged (se_env se) (se_mode se) (as_user (io_user io) c))"

definition io_read :: "ssh_env \<Rightarrow> ssh_io \<Rightarrow> (ssh_error, string) act" where
  "io_read se io =
     abind (attempt (io_run se io (Run ''test'' [''-e'', io_path io]))) (\<lambda>r.
       case r of
         Inl (SshErr (CommandFailed n (ExitStatus k) m)) \<Rightarrow>
           if k = 1 then ret [] else throw (SshErr (CommandFailed n (ExitStatus k) m))
       | Inl e \<Rightarrow> throw e
       | Inr _ \<Rightarrow> io_run se io (Run ''cat'' [io_path io]))"

text \<open>A step of the write that removes the temporary file when it fails.\<close>

definition or_cleanup :: "ssh_env \<Rightarrow> ssh_io \<Rightarrow> string \<Rightarrow> cmd \<Rightarrow> (ssh_error, unit) act" where
  "or_cleanup se io tmp c =
     abind (attempt (io_run se io c)) (\<lambda>r.
       case r of
         Inr _ \<Rightarrow> ret ()
       | Inl e \<Rightarrow> abind (attempt (io_run se io (Run ''rm'' [''-f'', tmp]))) (\<lambda>_. throw e))"

definition io_write :: "ssh_env \<Rightarrow> ssh_io \<Rightarrow> string \<Rightarrow> (ssh_error, unit) act" where
  "io_write se io content =
     abind (io_run se io (Run ''mkdir'' [''-p'', ''-m'', ''700'', io_dir io])) (\<lambda>_.
     abind (io_run se io (Run ''chmod'' [''700'', io_dir io])) (\<lambda>_.
     abind (io_run se io (Run ''mktemp'' [Join [io_dir io, ''.authorized_keys.XXXXXX'']])) (\<lambda>out.
       let tmp = trim_space out in
       abind (guard (prefix (io_dir io @ ''/'') tmp) (SshErr (Refused ''unexpected temp path''))) (\<lambda>_.
       abind (or_cleanup se io tmp (Pipe ''tee'' [tmp] content)) (\<lambda>_.
       abind (or_cleanup se io tmp (Run ''chmod'' [''600'', tmp])) (\<lambda>_.
         or_cleanup se io tmp (Run ''mv'' [''-f'', tmp, io_path io])))))))"

definition openSSHVersion :: "ssh_env \<Rightarrow> (ssh_error, (int \<times> int) option) act" where
  "openSSHVersion se =
     abind (run (se_env se) (Run ''ssh'' [''-V''])) (\<lambda>r. ret (parseOpenSSHVersion (rr_out r @ rr_stderr r)))"

subsection \<open>Handlers\<close>

definition parseSSHKeysParams :: "ssh_env \<Rightarrow> herror + ssh_params \<Rightarrow> bool \<Rightarrow> herror + ssh_params \<times> ssh_key option" where
  "parseSSHKeysParams se params needKey =
     rbind params (\<lambda>p.
       if \<not> env_linux (se_env se) then Inl (Refused ''ssh key management is only supported on Linux agents'')
       else rbind (validateSSHUsername (sp_User p)) (\<lambda>_.
         if \<not> needKey then Inr (p, None)
         else rbind (parsePublicKey (sp_Key p)) (\<lambda>key.
           if sshCommentRe (sk_Comment key) then Inr (p, Some key) else Inl (Refused ''key comment is too long''))))"

definition need_key :: "(ssh_params \<times> ssh_key option) \<Rightarrow> (ssh_error, ssh_params \<times> ssh_key) act" where
  "need_key pk = (case pk of (p, Some k) \<Rightarrow> ret (p, k) | (p, None) \<Rightarrow> throw (SshErr InvalidParams))"

record ssh_reply =
  sr_user :: string
  sr_path :: string
  sr_changed :: bool
  sr_fingerprint :: string
  sr_expiry_applied :: bool

definition lift_h :: "herror + 'a \<Rightarrow> (ssh_error, 'a) act" where
  "lift_h r = lift_err (lift r)"

definition handleSSHKeysAdd :: "ssh_env \<Rightarrow> herror + ssh_params \<Rightarrow> (ssh_error, ssh_reply) act" where
  "handleSSHKeysAdd se params =
     abind (lift_h (parseSSHKeysParams se params True)) (\<lambda>pk. abind (need_key pk) (\<lambda>(p, key).
     abind (lift_h (validateSSHOptions (sp_Options p))) (\<lambda>_.
     abind (guard (\<not> list_ex (prefix ''expiry-time'') (sp_Options p))
       (SshErr (Refused ''pass expires_at instead of an expiry-time option''))) (\<lambda>_.
     abind (newSSHKeysIO se (sp_User p) (sp_EnsureUser p)) (\<lambda>io.
     abind (if 0 < sp_ExpiresAt p
            then abind (openSSHVersion se) (\<lambda>v.
              case v of
                Some (major, minor) \<Rightarrow>
                  if supportsExpiryTime major minor
                  then ret (sp_Options p @ [expiryTimeOption (se_stamp se) (sp_ExpiresAt p)], True)
                  else ret (sp_Options p, False)
              | None \<Rightarrow> ret (sp_Options p, False))
            else ret (sp_Options p, False)) (\<lambda>(opts, expiryApplied).
     abind (io_read se io) (\<lambda>content.
       let (updated, changed) = authorizedKeysUpsert content key (formatAuthorizedKeysLine key opts) in
       abind (if changed then io_write se io updated else ret ()) (\<lambda>_.
         ret \<lparr>sr_user = sp_User p, sr_path = io_path io, sr_changed = changed,
              sr_fingerprint = fingerprint (se_sha256 se) key, sr_expiry_applied = expiryApplied\<rparr>))))))))"

definition handleSSHKeysRemove :: "ssh_env \<Rightarrow> herror + ssh_params \<Rightarrow> (ssh_error, string \<times> bool) act" where
  "handleSSHKeysRemove se params =
     abind (lift_h (parseSSHKeysParams se params True)) (\<lambda>pk. abind (need_key pk) (\<lambda>(p, key).
     abind (attempt (newSSHKeysIO se (sp_User p) False)) (\<lambda>r.
       case r of
         Inl UserMissing \<Rightarrow> ret (sp_User p, False)
       | Inl e \<Rightarrow> throw e
       | Inr io \<Rightarrow>
           abind (io_read se io) (\<lambda>content.
             let (updated, changed) = authorizedKeysRemove content key in
             abind (if changed then io_write se io updated else ret ()) (\<lambda>_. ret (sp_User p, changed))))))"

definition handleSSHKeysList :: "ssh_env \<Rightarrow> herror + ssh_params \<Rightarrow> (ssh_error, (string \<times> string \<times> string \<times> string) list) act" where
  "handleSSHKeysList se params =
     abind (lift_h (parseSSHKeysParams se params False)) (\<lambda>(p, _).
     abind (newSSHKeysIO se (sp_User p) False) (\<lambda>io.
     abind (io_read se io) (\<lambda>content.
       ret (concat (map (\<lambda>line. case parseAuthorizedKeysLine line of
               None \<Rightarrow> []
             | Some (k, opts) \<Rightarrow> [(sk_Type k, fingerprint (se_sha256 se) k, sk_Comment k, opts)]) (splitLines content))))))"

subsection \<open>Lines of the file\<close>

lemma replace_crlf_id: "CHR 0x0D \<notin> set s \<Longrightarrow> replace_crlf s = s"
  by (induction s rule: replace_crlf.induct) auto

lemma split_on_subset: "l \<in> set (split_on c s) \<Longrightarrow> set l \<subseteq> set s"
proof -
  assume "l \<in> set (split_on c s)"
  moreover have "l \<in> set ls \<Longrightarrow> set l \<subseteq> set (join [c] ls)" for ls
    by (induction ls rule: induct_list012) auto
  ultimately show ?thesis by (metis join_split_on)
qed

lemma splitLines_no_cr:
  assumes "CHR 0x0D \<notin> set s" "l \<in> set (splitLines s)"
  shows "CHR 0x0D \<notin> set l" "CHR 0x0A \<notin> set l"
proof -
  have t: "set (trim_right_char (CHR 0x0A) s) \<subseteq> set s"
    by (metis trim_right_char_decomp set_append Un_upper1)
  have l: "l \<in> set (split_on (CHR 0x0A) (trim_right_char (CHR 0x0A) s))"
    using assms by (auto simp: splitLines_def replace_crlf_id Let_def split: if_splits)
  show "CHR 0x0D \<notin> set l" using split_on_subset [OF l] t assms(1) by blast
  show "CHR 0x0A \<notin> set l" using split_on_no_sep [OF l] .
qed

text \<open>Writing lines and reading them back loses at most blank lines.\<close>

lemma splitLines_joinLines:
  assumes "\<forall>l \<in> set ls. CHR 0x0A \<notin> set l \<and> CHR 0x0D \<notin> set l"
  shows "filter (\<lambda>l. l \<noteq> []) (splitLines (joinLines ls)) = filter (\<lambda>l. l \<noteq> []) ls"
proof (cases "ls = []")
  case False
  let ?s = "joinLines ls"
  have s: "?s = unlines ls" using False by (simp add: joinLines_def unlines_join)
  have "CHR 0x0D \<notin> set ?s" unfolding s unlines_def using assms by auto
  then have r: "replace_crlf ?s = ?s" by (rule replace_crlf_id)
  obtain n where n: "?s = trim_right_char (CHR 0x0A) ?s @ replicate n (CHR 0x0A)"
    using trim_right_char_decomp by blast
  have "split_on (CHR 0x0A) ?s = ls @ [[]]" unfolding s using assms by (intro split_on_unlines) blast
  then have "ls @ [[]] = split_on (CHR 0x0A) (trim_right_char (CHR 0x0A) ?s) @ replicate n []"
    by (subst (asm) n) (simp only: split_on_blanks)
  then have "filter (\<lambda>l. l \<noteq> []) (ls @ [[]]) =
      filter (\<lambda>l. l \<noteq> []) (split_on (CHR 0x0A) (trim_right_char (CHR 0x0A) ?s) @ replicate n [])"
    by simp
  then show ?thesis by (simp add: splitLines_def Let_def r)
qed (simp add: joinLines_def splitLines_def trim_right_char_def)

lemma carries_Nil [simp]: "\<not> carries key []"
  by (simp add: carries_def parseAuthorizedKeysLine_def)

lemma filter_carries_nonblank: "filter (carries key) (filter (\<lambda>l. l \<noteq> []) ls) = filter (carries key) ls"
  by (induction ls) auto

lemma upsert_loop_spec:
  assumes "carries key nl" "upsert_loop key nl f c ls = (out, f', c')"
  shows "filter (\<lambda>l. \<not> carries key l) out = filter (\<lambda>l. \<not> carries key l) ls \<and>
    f' = (f \<or> (\<exists>l \<in> set ls. carries key l)) \<and>
    filter (carries key) out = (if \<not> f \<and> f' then [nl] else []) \<and> set out \<subseteq> set ls \<union> {nl}"
  using assms(2)
proof (induction ls arbitrary: f c out f' c')
  case (Cons l ls)
  show ?case
  proof (cases "carries key l")
    case True
    show ?thesis
    proof (cases f)
      case f: True
      then show ?thesis using Cons.IH [of True True out f' c'] Cons.prems True by auto
    next
      case nf: False
      obtain o1 f1 c1 where u: "upsert_loop key nl True (c \<or> l \<noteq> nl) ls = (o1, f1, c1)" by (metis prod_cases3)
      then have "out = nl # o1" "f' = f1" using Cons.prems True nf by auto
      then show ?thesis using Cons.IH [OF u] True nf assms(1) by auto
    qed
  next
    case False
    obtain o1 f1 c1 where u: "upsert_loop key nl f c ls = (o1, f1, c1)" by (metis prod_cases3)
    then have "out = l # o1" "f' = f1" using Cons.prems False by auto
    then show ?thesis using Cons.IH [OF u] False by auto
  qed
qed auto

lemma upsert_loop_same:
  "filter (carries key) ls = (if f then [] else [nl]) \<Longrightarrow> upsert_loop key nl f c ls = (ls, True, c)
     \<or> (f \<and> upsert_loop key nl f c ls = (ls, f, c))"
proof (induction ls arbitrary: f)
  case (Cons l ls)
  show ?case
  proof (cases "carries key l")
    case True
    then have "\<not> f" "l = nl" "filter (carries key) ls = []" using Cons.prems by (auto split: if_splits)
    then show ?thesis using Cons.IH [of True] True by auto
  next
    case False
    then show ?thesis using Cons.IH [of f] Cons.prems by auto
  qed
qed (auto split: if_splits)

lemma upsert_lines:
  assumes "carries key nl" "CHR 0x0D \<notin> set content" "CHR 0x0D \<notin> set nl" "CHR 0x0A \<notin> set nl"
    and "authorizedKeysUpsert content key nl = (new, changed)"
  shows "filter (\<lambda>l. l \<noteq> [] \<and> \<not> carries key l) (splitLines new) = filter (\<lambda>l. l \<noteq> [] \<and> \<not> carries key l) (splitLines content)"
    and "filter (carries key) (splitLines new) = [nl]" "CHR 0x0D \<notin> set new"
proof -
  obtain out f c where u: "upsert_loop key nl False False (splitLines content) = (out, f, c)" by (metis prod_cases3)
  define fin where "fin = (if f then out else out @ [nl])"
  have new: "new = joinLines fin" using assms(5) u by (auto simp: authorizedKeysUpsert_def fin_def split: if_splits)
  note sp = upsert_loop_spec [OF assms(1) u]
  have ok: "\<forall>l \<in> set fin. CHR 0x0A \<notin> set l \<and> CHR 0x0D \<notin> set l"
    using sp splitLines_no_cr [OF assms(2)] assms(3,4) by (auto simp: fin_def split: if_splits)
  note j = splitLines_joinLines [OF ok, folded new]
  have "filter (\<lambda>l. \<not> carries key l) fin = filter (\<lambda>l. \<not> carries key l) (splitLines content)"
    using sp assms(1) by (auto simp: fin_def)
  moreover have "filter (\<lambda>l. l \<noteq> [] \<and> \<not> carries key l) xs = filter (\<lambda>l. \<not> carries key l) (filter (\<lambda>l. l \<noteq> []) xs)" for xs
    by (simp only: filter_filter)
  moreover have "filter (\<lambda>l. l \<noteq> []) (filter (\<lambda>l. \<not> carries key l) xs) = filter (\<lambda>l. \<not> carries key l) (filter (\<lambda>l. l \<noteq> []) xs)" for xs
    by (simp only: filter_filter conj_commute)
  ultimately show "filter (\<lambda>l. l \<noteq> [] \<and> \<not> carries key l) (splitLines new) = filter (\<lambda>l. l \<noteq> [] \<and> \<not> carries key l) (splitLines content)"
    by (metis j)
  have "filter (carries key) fin = [nl]" using sp assms(1) by (auto simp: fin_def)
  then show "filter (carries key) (splitLines new) = [nl]"
    using j filter_carries_nonblank by metis
  show "CHR 0x0D \<notin> set new"
    using ok set_join [of "[CHR 0x0A]" fin] by (auto simp: new joinLines_def)
qed

lemma remove_lines:
  assumes "CHR 0x0D \<notin> set content" "authorizedKeysRemove content key = (new, changed)"
  shows "filter (\<lambda>l. l \<noteq> []) (splitLines new) = filter (\<lambda>l. l \<noteq> [] \<and> \<not> carries key l) (splitLines content) \<and>
    (changed \<longleftrightarrow> (\<exists>l \<in> set (splitLines content). carries key l)) \<and> (\<not> changed \<longrightarrow> new = content)"
proof -
  let ?ls = "splitLines content"
  let ?out = "filter (\<lambda>l. \<not> carries key l) ?ls"
  have len: "length ?out = length ?ls \<longleftrightarrow> \<not> (\<exists>l \<in> set ?ls. carries key l)"
    by (metis (mono_tags, lifting) filter_True length_filter_less less_irrefl)
  show ?thesis
  proof (cases "length ?out = length ?ls")
    case True
    then have "?out = ?ls" using len by (simp add: filter_id_conv)
    then show ?thesis using True len assms(2)
      by (auto simp: authorizedKeysRemove_def Let_def intro: filter_cong)
  next
    case False
    have "\<forall>l \<in> set ?out. CHR 0x0A \<notin> set l \<and> CHR 0x0D \<notin> set l" using splitLines_no_cr [OF assms(1)] by auto
    from splitLines_joinLines [OF this] show ?thesis
      using False len assms(2) by (auto simp: authorizedKeysRemove_def Let_def conj_commute)
  qed
qed

subsection \<open>Formatting and parsing a line\<close>

lemma ws_len_letter: "is_letter c \<Longrightarrow> ws_len (c # s) = 0"
  unfolding ws_len_0_iff space_encodings_def is_letter_def is_lower_def by auto

lemma options_end_skip:
  "list_all (\<lambda>c. c \<noteq> CHR 0x22 \<and> c \<noteq> CHR 0x20 \<and> c \<noteq> CHR 0x09) s \<Longrightarrow>
     options_end False (s @ r) = map_option ((+) (length s)) (options_end False r)"
  by (induction s) (cases "options_end False r"; auto)+

lemma options_end_quoted:
  "CHR 0x22 \<notin> set v \<Longrightarrow> options_end True (v @ r) = map_option ((+) (length v)) (options_end True r)"
  by (induction v) (cases "options_end True r"; auto)+

lemma option_shape:
  assumes "sshOptionRe o'"
  shows "\<exists>name v. name \<noteq> [] \<and> is_letter (hd name) \<and> list_all (\<lambda>c. is_letter c \<or> is_digit c \<or> c = CHR ''-'') name \<and>
    (o' = name \<or> o' = name @ ''='' @ [CHR 0x22] @ v @ [CHR 0x22] \<and> CHR 0x22 \<notin> set v)"
proof -
  define name where "name = takeWhile (\<lambda>c. is_letter c \<or> is_digit c \<or> c = CHR ''-'') o'"
  define rest where "rest = drop (length name) o'"
  have o: "o' = name @ rest" unfolding name_def rest_def by (metis takeWhile_eq_take append_take_drop_id)
  have n: "name \<noteq> []" "is_letter (hd name)"
    and r: "rest = [] \<or> (prefix (''='' @ [CHR 0x22]) rest \<and> 3 \<le> length rest \<and> last rest = CHR 0x22 \<and>
           set (butlast (drop 2 rest)) \<inter> {CHR 0x22, CHR 0x0D, CHR 0x0A} = {})"
    using assms by (auto simp: sshOptionRe_def Let_def name_def rest_def)
  have l: "list_all (\<lambda>c. is_letter c \<or> is_digit c \<or> c = CHR ''-'') name"
    unfolding name_def by (auto simp: list_all_iff dest: set_takeWhileD)
  show ?thesis
  proof (cases "rest = []")
    case True
    then show ?thesis using n l o by auto
  next
    case False
    then have p: "prefix (''='' @ [CHR 0x22]) rest" "3 \<le> length rest" "last rest = CHR 0x22"
        "set (butlast (drop 2 rest)) \<inter> {CHR 0x22, CHR 0x0D, CHR 0x0A} = {}" using r by auto
    then obtain w where w: "rest = ''='' @ [CHR 0x22] @ w" by (auto simp: prefix_def)
    with p(2) have "w \<noteq> []" by auto
    then have "w = butlast w @ [CHR 0x22]" using p(3) w by (metis append_butlast_last_id last_appendR append_is_Nil_conv)
    moreover have "CHR 0x22 \<notin> set (butlast w)" using p(4) w by auto
    moreover have "o' = name @ ''='' @ [CHR 0x22] @ butlast w @ [CHR 0x22]"
      unfolding o w by (subst calculation(1)) simp
    ultimately show ?thesis using n l by (intro exI [of _ name] exI [of _ "butlast w"]) simp
  qed
qed

lemma option_chars:
  assumes "list_all (\<lambda>c. is_letter c \<or> is_digit c \<or> c = CHR ''-'') name"
  shows "list_all (\<lambda>c. c \<noteq> CHR 0x22 \<and> c \<noteq> CHR 0x20 \<and> c \<noteq> CHR 0x09) name"
proof -
  have "\<not> (is_letter c \<or> is_digit c \<or> c = CHR ''-'')" if "c = CHR 0x22 \<or> c = CHR 0x20 \<or> c = CHR 0x09" for c
    using that by (elim disjE) (simp_all add: is_letter_def is_lower_def is_digit_def)
  then show ?thesis using assms unfolding list_all_iff by blast
qed

lemma options_end_option:
  assumes "sshOptionRe o'"
  shows "options_end False (o' @ r) = map_option ((+) (length o')) (options_end False r)"
proof -
  obtain name v where o: "list_all (\<lambda>c. is_letter c \<or> is_digit c \<or> c = CHR ''-'') name"
      "o' = name \<or> o' = name @ ''='' @ [CHR 0x22] @ v @ [CHR 0x22] \<and> CHR 0x22 \<notin> set v"
    using option_shape [OF assms] by blast
  note skip = options_end_skip [OF option_chars [OF o(1)]]
  show ?thesis using o(2)
  proof
    assume "o' = name" then show ?thesis using skip by simp
  next
    assume q: "o' = name @ ''='' @ [CHR 0x22] @ v @ [CHR 0x22] \<and> CHR 0x22 \<notin> set v"
    then have "options_end False (o' @ r) =
        map_option ((+) (length name)) (options_end False (''='' @ [CHR 0x22] @ v @ [CHR 0x22] @ r))"
      using skip [of "''='' @ [CHR 0x22] @ v @ [CHR 0x22] @ r"] by simp
    also have "options_end False (''='' @ [CHR 0x22] @ v @ [CHR 0x22] @ r) =
        map_option (\<lambda>k. Suc (Suc (length v + Suc k))) (options_end False r)"
      using options_end_quoted [of v "CHR 0x22 # r"] q by (simp add: option.map_comp comp_def)
    finally show ?thesis using q by (cases "options_end False r") simp_all
  qed
qed

lemma options_end_join:
  "list_all sshOptionRe opts \<Longrightarrow>
     options_end False (join '','' opts @ r) = map_option ((+) (length (join '','' opts))) (options_end False r)"
proof (induction opts rule: induct_list012)
  case (3 x y zs)
  have "options_end False (join '','' (x # y # zs) @ r) =
      map_option ((+) (length x)) (options_end False ('','' @ join '','' (y # zs) @ r))"
    using 3(3) options_end_option [of x "'','' @ join '','' (y # zs) @ r"] by simp
  also have "options_end False ('','' @ join '','' (y # zs) @ r) =
      map_option Suc (options_end False (join '','' (y # zs) @ r))"
    by simp
  finally show ?case using 3 by (cases "options_end False r") simp_all
next
  case 1
  show ?case by (cases "options_end False r") simp_all
qed (simp add: options_end_option)

text \<open>A key as \<open>parsePublicKey\<close> returns it.\<close>

definition key_ok :: "ssh_key \<Rightarrow> bool" where
  "key_ok k \<longleftrightarrow> sk_Type k \<in> set sshKeyTypes \<and> nospace (sk_Blob k) \<and> sk_Blob k \<noteq> [] \<and>
     sk_Comment k = join '' '' (fields_of (sk_Comment k))"

lemma join_fields_drop:
  "join '' '' (drop n (fields_of s)) = join '' '' (fields_of (join '' '' (drop n (fields_of s))))"
proof -
  have "\<forall>f \<in> set (drop n (fields_of s)). nospace f \<and> f \<noteq> []" using join_fields by (auto dest: in_set_dropD)
  then show ?thesis by (simp add: fields_join)
qed

lemma parsePublicKey_ok: "parsePublicKey s = Inr k \<Longrightarrow> key_ok k"
proof -
  assume a: "parsePublicKey s = Inr k"
  let ?fs = "fields_of (trim_space s)"
  have "2 \<le> length ?fs" and k: "k = \<lparr>sk_Type = ?fs ! 0, sk_Blob = ?fs ! 1, sk_Comment = join '' '' (drop 2 ?fs)\<rparr>"
      "?fs ! 0 \<in> set sshKeyTypes"
    using a by (auto simp: parsePublicKey_def Let_def split: if_splits)
  then have "?fs ! 1 \<in> set ?fs" by simp
  then show ?thesis using k fields_nospace fields_nonempty join_fields_drop by (auto simp: key_ok_def)
qed

lemma keyType_word: "ty \<in> set sshKeyTypes \<Longrightarrow> nospace ty \<and> ty \<noteq> []"
proof -
  have "list_all (\<lambda>ty. nospace ty \<and> ty \<noteq> []) sshKeyTypes" by code_simp
  then show "ty \<in> set sshKeyTypes \<Longrightarrow> nospace ty \<and> ty \<noteq> []" by (auto simp: list_all_iff)
qed

lemma parse_format:
  assumes k: "key_ok k" and o: "list_all sshOptionRe opts"
    and w: "opts \<noteq> [] \<Longrightarrow> hd (fields_of (join '','' opts)) \<notin> set sshKeyTypes"
  shows "parseAuthorizedKeysLine (formatAuthorizedKeysLine k opts) = Some (k, join '','' opts)"
proof -
  define ws where "ws = sk_Type k # sk_Blob k # fields_of (sk_Comment k)"
  let ?m = "join '' '' ws"
  have words: "\<forall>f \<in> set ws. nospace f \<and> f \<noteq> []"
    using k keyType_word join_fields by (auto simp: ws_def key_ok_def)
  have c: "fields_of (sk_Comment k) = [] \<longleftrightarrow> sk_Comment k = []"
    using k by (metis key_ok_def join.simps(1) fields_Nil)
  have m: "?m = material k @ (if sk_Comment k = [] then [] else '' '' @ sk_Comment k)"
    using c k by (cases "fields_of (sk_Comment k)") (auto simp: ws_def material_def key_ok_def join_Cons)
  have fm: "fields_of ?m = ws" by (rule fields_join [OF words])
  have key: "key_of_fields op ws = Some (k, op)" for op
    using k by (cases k) (auto simp: ws_def key_of_fields_def key_ok_def)
  have m_ne: "?m \<noteq> []" using words by (auto simp: ws_def join_Cons)
  show ?thesis
  proof (cases "opts = []")
    case True
    have "hd ws \<in> set sshKeyTypes" using k by (simp add: ws_def key_ok_def)
    moreover have "\<not> prefix ''#'' ?m"
    proof -
      have "list_all (\<lambda>ty. \<not> prefix ''#'' ty \<and> ty \<noteq> []) sshKeyTypes" by code_simp
      then have "\<not> prefix ''#'' (sk_Type k)" "sk_Type k \<noteq> []" using k by (auto simp: key_ok_def list_all_iff)
      then show ?thesis by (cases "sk_Type k") (auto simp: ws_def join_Cons)
    qed
    ultimately show ?thesis
      using True m_ne m [symmetric] key fm
      by (simp add: formatAuthorizedKeysLine_def parseAuthorizedKeysLine_def Let_def trim_space_join [OF words])
  next
    case False
    let ?J = "join '','' opts"
    let ?line = "?J @ CHR 0x20 # ?m"
    obtain o1 os where o1: "opts = o1 # os" using False by (cases opts) auto
    then have "sshOptionRe o1" using o by simp
    then obtain ch o1' where ch: "o1 = ch # o1'" "is_letter ch"
      using option_shape [of o1] by (metis append_is_Nil_conv hd_append2 list.collapse)
    then obtain J' where J: "?J = ch # J'" using o1 by (cases os) auto
    have wl: "ws_len ?J = 0" unfolding J by (rule ws_len_letter [OF ch(2)])
    have "ws_len ?line = 0" using ws_len_sep [of ?J ?m] wl J by simp
    moreover have "ws_rlen ?line = 0"
    proof -
      have "ws = butlast ws @ [last ws]" "butlast ws \<noteq> []" by (auto simp: ws_def)
      then have "?line = (?J @ CHR 0x20 # join '' '' (butlast ws)) @ CHR 0x20 # last ws"
        by (metis append.assoc append_Cons join_snoc append_Nil)
      moreover have "nospace (last ws)" "last ws \<noteq> []" using words by (auto simp: ws_def)
      ultimately show ?thesis using ws_rlen_append_sep by metis
    qed
    ultimately have t: "trim_space ?line = ?line" by (rule trim_space_id)
    have fJ: "fields_of ?J \<noteq> []" using hd_fields [of ?J] J wl by simp
    then have "hd (fields_of ?line) = hd (fields_of ?J)" by (simp add: fields_sep)
    then have h: "hd (fields_of ?line) \<notin> set sshKeyTypes" using w [OF False] by simp
    have e: "options_end False ?line = Some (length ?J)" using options_end_join [OF o, of "CHR 0x20 # ?m"] by simp
    have "trim_space (drop (length ?J) ?line) = ?m" by (simp add: trim_space_Space trim_space_join [OF words])
    moreover have "\<not> prefix ''#'' ?line" using J ch by (auto simp: is_letter_def is_lower_def)
    ultimately have "parseAuthorizedKeysLine ?line = Some (k, ?J)"
      using t h e fm key J by (simp add: parseAuthorizedKeysLine_def Let_def)
    then show ?thesis using False m by (simp add: formatAuthorizedKeysLine_def)
  qed
qed

subsection \<open>What the handlers run\<close>

definition acts_for :: "string \<Rightarrow> cmd \<Rightarrow> bool" where
  "acts_for u d \<longleftrightarrow> (\<exists>c. d = as_user u c) \<or> d = Run ''useradd'' [''-m'', ''-s'', ''/bin/bash'', u]"

definition ssh_cmd_ok :: "ssh_env \<Rightarrow> string \<Rightarrow> cmd \<Rightarrow> bool" where
  "ssh_cmd_ok se u c \<longleftrightarrow> c = Run ''ssh'' [''-V''] \<or> via (se_mode se) (acts_for u) c"

abbreviation any :: "'a \<Rightarrow> bool" where "any \<equiv> \<lambda>_. True"

lemma emits_lift_err: "emits P Q m \<Longrightarrow> emits P Q (lift_err m)"
proof -
  assume m: "emits P Q m"
  have "snd (lift_err m t) = snd (m t) \<and> (\<forall>x. fst (lift_err m t) = Inr x \<longrightarrow> fst (m t) = Inr x)" for t
    by (auto simp: lift_err_def split: prod.splits sum.splits)
  then show ?thesis using m unfolding emits_def by metis
qed

lemma emits_prod: "(\<And>a b. x = (a, b) \<Longrightarrow> emits P Q (f a b)) \<Longrightarrow> emits P Q (case x of (a, b) \<Rightarrow> f a b)"
  by (cases x) simp

lemma emits_lookup: "emits P any (lookup_user se u)"
  by (simp add: emits_def lookup_user_def)

lemma emits_priv:
  assumes "acts_for u c"
  shows "emits (ssh_cmd_ok se u) any (lift_err (runPrivileged (se_env se) (se_mode se) c))"
  by (rule emits_lift_err, rule emits_mono [OF emits_runPrivileged [of "acts_for u", OF assms]])
    (simp add: ssh_cmd_ok_def)

lemma emits_newIO: "emits (ssh_cmd_ok se u) (\<lambda>io. io_user io = u) (newSSHKeysIO se u ensure)"
  unfolding newSSHKeysIO_def Let_def
  apply (rule emits_bind [where R = any], rule emits_guard, simp)
  apply (rule emits_bind [where R = any], rule emits_lookup)
  apply (rule emits_bind [where R = any])
   apply (rule emits_if)
    apply (rule emits_bind [where R = any], rule emits_priv, simp add: acts_for_def, rule emits_lookup)
   apply (rule emits_ret, simp)
  subgoal for a b u' by (cases u') (auto intro: emits_throw emits_ret emits_if)
  done

lemma emits_io_run: "io_user io = u \<Longrightarrow> emits (ssh_cmd_ok se u) any (io_run se io c)"
  unfolding io_run_def by (rule emits_priv) (auto simp: acts_for_def)

lemma emits_io_attempt: "io_user io = u \<Longrightarrow> emits (ssh_cmd_ok se u) any (attempt (io_run se io c))"
  by (rule emits_weaken [OF emits_attempt [OF emits_io_run]]) simp_all

lemma emits_io_read: "io_user io = u \<Longrightarrow> emits (ssh_cmd_ok se u) any (io_read se io)"
  unfolding io_read_def
  apply (rule emits_bind [where R = any], erule emits_io_attempt)
  subgoal for r
    by (auto intro!: emits_throw emits_ret emits_io_run emits_if split: sum.splits ssh_error.splits herror.splits exec_error.splits)
  done

lemma emits_or_cleanup: "io_user io = u \<Longrightarrow> emits (ssh_cmd_ok se u) any (or_cleanup se io tmp c)"
  unfolding or_cleanup_def
  by (rule emits_bind [where R = any], erule emits_io_attempt, rule emits_case_sum,
      rule emits_bind [where R = any], erule emits_io_attempt)
    (simp_all add: emits_throw emits_ret)

lemma emits_io_write: "io_user io = u \<Longrightarrow> emits (ssh_cmd_ok se u) any (io_write se io content)"
  unfolding io_write_def Let_def
  by (intro emits_bind [where R = any] emits_io_run emits_or_cleanup emits_guard TrueI) auto

lemma emits_version: "emits (ssh_cmd_ok se u) any (openSSHVersion se)"
  unfolding openSSHVersion_def
  by (rule emits_bind [where R = any], rule emits_run) (simp_all add: ssh_cmd_ok_def emits_ret)

lemma emits_bind_pair:
  "emits P (\<lambda>x. \<exists>k. x = (p, k)) m \<Longrightarrow> (\<And>b. emits P Q (f p b)) \<Longrightarrow> emits P Q (abind m (\<lambda>(a, b). f a b))"
  by (erule emits_bind) auto

lemma emits_bind_prod:
  "emits P any m \<Longrightarrow> (\<And>a b. emits P Q (f a b)) \<Longrightarrow> emits P Q (abind m (\<lambda>(a, b). f a b))"
  by (erule emits_bind) auto

lemma emits_params:
  "emits P (\<lambda>pk. \<exists>k. pk = (p, k)) (lift_h (parseSSHKeysParams se (Inr p) need))"
  unfolding lift_h_def
  by (rule emits_lift_err, rule emits_lift)
    (auto simp: parseSSHKeysParams_def rbind_Inr_iff split: if_splits)

lemma emits_need_key: "\<exists>k. pk = (p, k) \<Longrightarrow> emits P (\<lambda>pk'. \<exists>k. pk' = (p, k)) (need_key pk)"
  unfolding need_key_def by (auto intro!: emits_prod emits_case_option emits_ret emits_throw)

lemma emits_lift_h: "emits P any (lift_h r)"
  unfolding lift_h_def by (rule emits_lift_err, rule emits_lift) simp

lemma emits_Add: "emits (ssh_cmd_ok se (sp_User p)) any (handleSSHKeysAdd se (Inr p))"
  unfolding handleSSHKeysAdd_def Let_def
  apply (rule emits_bind [OF emits_params])
  apply (rule emits_bind_pair, erule emits_need_key)
  apply (rule emits_bind [OF emits_lift_h])
  apply (rule emits_bind [where R = any], rule emits_guard, rule TrueI)
  apply (rule emits_bind [OF emits_newIO])
  apply (rule emits_bind_prod)
   apply (rule emits_if)
    apply (rule emits_bind [OF emits_version])
    apply (intro emits_case_option emits_prod emits_if emits_ret TrueI)
   apply (rule emits_ret, rule TrueI)
  apply (rule emits_bind [where R = any], erule emits_io_read)
  apply (rule emits_prod)
  apply (rule emits_bind [where R = any], rule emits_if, erule emits_io_write, (rule emits_ret, rule TrueI)+)
  done

lemma emits_Remove: "emits (ssh_cmd_ok se (sp_User p)) any (handleSSHKeysRemove se (Inr p))"
  unfolding handleSSHKeysRemove_def Let_def
  apply (rule emits_bind [OF emits_params])
  apply (rule emits_bind_pair, erule emits_need_key)
  apply (rule emits_bind [OF emits_attempt [OF emits_newIO]])
  apply (rule emits_case_sum)
  subgoal for x b r e by (cases e) (auto intro: emits_ret emits_throw)
  apply (rule emits_bind [where R = any], rule emits_io_read, blast)
  apply (rule emits_prod)
  apply (rule emits_bind [where R = any], rule emits_if, rule emits_io_write, blast, (rule emits_ret, rule TrueI)+)
  done

lemma emits_List: "emits (ssh_cmd_ok se (sp_User p)) any (handleSSHKeysList se (Inr p))"
  unfolding handleSSHKeysList_def Let_def
  apply (rule emits_bind_pair [OF emits_params])
  apply (rule emits_bind [OF emits_newIO])
  apply (rule emits_bind [where R = any], erule emits_io_read)
  apply (rule emits_ret, rule TrueI)
  done

definition unsudo :: "sudo_mode \<Rightarrow> cmd \<Rightarrow> cmd" where
  "unsudo mode c = (if mode = SudoPasswordless
     then (case c of Run n as \<Rightarrow> Run (as ! 1) (drop 2 as) | Pipe n as i \<Rightarrow> Pipe (as ! 1) (drop 2 as) i) else c)"

lemma via_unsudo: "via mode P c \<Longrightarrow> P (unsudo mode c)"
proof (cases mode)
  case SudoPasswordless
  assume "via mode P c"
  then obtain d where "c = sudo_wrap d" "P d" using SudoPasswordless by auto
  then show ?thesis using SudoPasswordless by (cases d) (auto simp: unsudo_def)
qed (auto simp: unsudo_def)

lemma acts_for_user:
  "acts_for u d \<Longrightarrow> u \<noteq> ''root'' \<Longrightarrow>
     d = Run ''useradd'' [''-m'', ''-s'', ''/bin/bash'', u] \<or> cmd_name d = ''runuser'' \<and> take 3 (cmd_args d) = [''-u'', u, ''--'']"
proof -
  assume "acts_for u d" "u \<noteq> ''root''"
  moreover have "cmd_name (as_user u c) = ''runuser'' \<and> take 3 (cmd_args (as_user u c)) = [''-u'', u, ''--'']"
    if "u \<noteq> ''root''" for c using that by (cases c) auto
  ultimately show ?thesis by (auto simp: acts_for_def)
qed

lemma ssh_cmd_user:
  assumes "emits (ssh_cmd_ok se u) any m" "m t = (r, t')" "u \<noteq> ''root''"
  shows "\<exists>cs. t' = t @ cs \<and> (\<forall>c \<in> set cs. c = Run ''ssh'' [''-V''] \<or>
     unsudo (se_mode se) c = Run ''useradd'' [''-m'', ''-s'', ''/bin/bash'', u] \<or>
     cmd_name (unsudo (se_mode se) c) = ''runuser'' \<and> take 3 (cmd_args (unsudo (se_mode se) c)) = [''-u'', u, ''--''])"
proof -
  obtain cs where cs: "t' = t @ cs" "list_all (ssh_cmd_ok se u) cs" using emits_trace [OF assms(1,2)] by blast
  have "c = Run ''ssh'' [''-V''] \<or> unsudo (se_mode se) c = Run ''useradd'' [''-m'', ''-s'', ''/bin/bash'', u] \<or>
     cmd_name (unsudo (se_mode se) c) = ''runuser'' \<and> take 3 (cmd_args (unsudo (se_mode se) c)) = [''-u'', u, ''--'']"
    if "c \<in> set cs" for c
  proof -
    have "ssh_cmd_ok se u c" using cs(2) that by (simp add: list_all_iff)
    then show ?thesis
      using via_unsudo [of "se_mode se" "acts_for u" c] acts_for_user [of u "unsudo (se_mode se) c"] assms(3)
      by (auto simp: ssh_cmd_ok_def)
  qed
  then show ?thesis using cs(1) by blast
qed

subsection \<open>Properties\<close>

text \<open>
  C17. Installing a key: for a valid key and valid options whose first word is not itself a key
  type, the rewritten file has exactly one line for the key's material, which reads back as that
  key with those options; every other line (blank ones aside) is kept, in order; and doing it
  again changes nothing.
\<close>

theorem ssh_upsert_installs:
  assumes "parsePublicKey s = Inr key" and "validateSSHOptions opts = Inr ()"
    and "opts \<noteq> [] \<longrightarrow> hd (fields_of (join '','' opts)) \<notin> set sshKeyTypes"
    and "CHR 0x0D \<notin> set content" and "line = formatAuthorizedKeysLine key opts"
    and "CHR 0x0A \<notin> set line" and "CHR 0x0D \<notin> set line"
    and "authorizedKeysUpsert content key line = (new, changed)"
  shows "parseAuthorizedKeysLine line = Some (key, join '','' opts) \<and>
     filter (carries key) (splitLines new) = [line] \<and>
     filter (\<lambda>l. l \<noteq> [] \<and> \<not> carries key l) (splitLines new) = filter (\<lambda>l. l \<noteq> [] \<and> \<not> carries key l) (splitLines content) \<and>
     snd (authorizedKeysUpsert new key line) = False"
proof -
  have "list_all sshOptionRe opts" using assms(2) by (auto simp: validateSSHOptions_def split: if_splits)
  then have p: "parseAuthorizedKeysLine line = Some (key, join '','' opts)"
    using parse_format [OF parsePublicKey_ok [OF assms(1)]] assms(3,5) by blast
  then have c: "carries key line" by (simp add: carries_def)
  note u = upsert_lines [OF c assms(4,7,6,8)]
  have "snd (authorizedKeysUpsert new key line) = False"
    using upsert_loop_same [of key "splitLines new" False line False] u(2)
    by (auto simp: authorizedKeysUpsert_def)
  then show ?thesis using p u by blast
qed

text \<open>
  Removing a key: afterwards no line carries its material and every other line (blank ones
  aside) is kept in order; the file is rewritten exactly when some line carried it.
\<close>

theorem ssh_remove_exact:
  assumes "CHR 0x0D \<notin> set content" and "authorizedKeysRemove content key = (new, changed)"
  shows "filter (\<lambda>l. l \<noteq> []) (splitLines new) = filter (\<lambda>l. l \<noteq> [] \<and> \<not> carries key l) (splitLines content) \<and>
     (changed \<longleftrightarrow> (\<exists>l \<in> set (splitLines content). carries key l)) \<and> (\<not> changed \<longrightarrow> new = content)"
  by (rule remove_lines [OF assms])

text \<open>
  C13. For any user other than root, every program that the three \<open>ssh:keys\<close> handlers run (under
  sudo or not) is started as that user with \<open>runuser -u\<close>; the only exceptions are creating the
  user and the version probe \<open>ssh -V\<close>.
\<close>

theorem ssh_runs_as_user:
  assumes "sp_User p \<noteq> ''root''"
    and "handleSSHKeysAdd se (Inr p) t = (r1, t1)" and "handleSSHKeysRemove se (Inr p) t = (r2, t2)"
    and "handleSSHKeysList se (Inr p) t = (r3, t3)"
  shows "\<exists>cs1 cs2 cs3. t1 = t @ cs1 \<and> t2 = t @ cs2 \<and> t3 = t @ cs3 \<and>
     (\<forall>c \<in> set (cs1 @ cs2 @ cs3). c = Run ''ssh'' [''-V''] \<or>
        unsudo (se_mode se) c = Run ''useradd'' [''-m'', ''-s'', ''/bin/bash'', sp_User p] \<or>
        cmd_name (unsudo (se_mode se) c) = ''runuser'' \<and> take 3 (cmd_args (unsudo (se_mode se) c)) = [''-u'', sp_User p, ''--''])"
proof -
  let ?ok = "\<lambda>c. c = Run ''ssh'' [''-V''] \<or>
        unsudo (se_mode se) c = Run ''useradd'' [''-m'', ''-s'', ''/bin/bash'', sp_User p] \<or>
        cmd_name (unsudo (se_mode se) c) = ''runuser'' \<and> take 3 (cmd_args (unsudo (se_mode se) c)) = [''-u'', sp_User p, ''--'']"
  obtain cs1 cs2 cs3 where "t1 = t @ cs1" "\<forall>c \<in> set cs1. ?ok c" "t2 = t @ cs2" "\<forall>c \<in> set cs2. ?ok c"
      "t3 = t @ cs3" "\<forall>c \<in> set cs3. ?ok c"
    using ssh_cmd_user [OF emits_Add assms(2,1)] ssh_cmd_user [OF emits_Remove assms(3,1)]
      ssh_cmd_user [OF emits_List assms(4,1)]
    by (elim exE conjE) (rule that)
  then show ?thesis
    by (intro exI [of _ cs1] exI [of _ cs2] exI [of _ cs3] conjI ballI) (unfold set_append, auto)
qed

definition witness_key :: ssh_key where
  "witness_key = \<lparr>sk_Type = ''ssh-ed25519'', sk_Blob = ''AAAA'', sk_Comment = ''me''\<rparr>"

theorem ssh_upsert_installs_witness:
  "filter (carries witness_key) (splitLines (fst (authorizedKeysUpsert (unlines [''# c'', ''ssh-ed25519 AAAA'', ''ssh-rsa BBBB''])
     witness_key ''no-pty ssh-ed25519 AAAA me''))) = [''no-pty ssh-ed25519 AAAA me'']"
proof -
  have k: "parsePublicKey ''ssh-ed25519 AAAA me'' = Inr witness_key" by code_simp
  have o: "validateSSHOptions [''no-pty''] = Inr ()" by code_simp
  have w: "[''no-pty''] \<noteq> [] \<longrightarrow> hd (fields_of (join '','' [''no-pty''])) \<notin> set sshKeyTypes" by code_simp
  have c: "CHR 0x0D \<notin> set (unlines [''# c'', ''ssh-ed25519 AAAA'', ''ssh-rsa BBBB''])" by code_simp
  have l: "''no-pty ssh-ed25519 AAAA me'' = formatAuthorizedKeysLine witness_key [''no-pty'']" by code_simp
  have n: "CHR 0x0A \<notin> set ''no-pty ssh-ed25519 AAAA me''" "CHR 0x0D \<notin> set ''no-pty ssh-ed25519 AAAA me''" by simp_all
  from ssh_upsert_installs [OF k o w c l n prod.collapse [symmetric]] show ?thesis by blast
qed

theorem ssh_remove_exact_witness:
  "filter (\<lambda>l. l \<noteq> []) (splitLines (fst (authorizedKeysRemove ''ssh-ed25519 AAAA'' witness_key))) =
     filter (\<lambda>l. l \<noteq> [] \<and> \<not> carries witness_key l) (splitLines ''ssh-ed25519 AAAA'')"
proof -
  have "CHR 0x0D \<notin> set ''ssh-ed25519 AAAA''" by simp
  from ssh_remove_exact [OF this prod.collapse [symmetric]] show ?thesis by blast
qed

theorem ssh_runs_as_user_witness:
  "\<exists>se p cs1. sp_User p = ''bob'' \<and> snd (handleSSHKeysAdd se (Inr p) []) = [] @ cs1 \<and>
     (\<forall>c \<in> set cs1. c = Run ''ssh'' [''-V''] \<or>
        unsudo (se_mode se) c = Run ''useradd'' [''-m'', ''-s'', ''/bin/bash'', sp_User p] \<or>
        cmd_name (unsudo (se_mode se) c) = ''runuser'' \<and> take 3 (cmd_args (unsudo (se_mode se) c)) = [''-u'', sp_User p, ''--''])"
proof -
  let ?se = "\<lparr>se_env = \<lparr>env_linux = True, env_path = (\<lambda>_. True), env_run = (\<lambda>_ _. \<lparr>rr_out = [], rr_stderr = [], rr_err = None\<rparr>)\<rparr>,
    se_mode = SudoRoot, se_lookup = (\<lambda>_ _. HomeDir ''/home/bob''), se_sha256 = (\<lambda>s. s), se_stamp = (\<lambda>_. ''209901010000'')\<rparr>"
  let ?p = "\<lparr>sp_User = ''bob'', sp_Key = ''ssh-ed25519 AAAA me'', sp_Options = [], sp_ExpiresAt = 0, sp_EnsureUser = False\<rparr>"
  have u: "sp_User ?p \<noteq> ''root''" by simp
  obtain r1 t1 where a: "handleSSHKeysAdd ?se (Inr ?p) [] = (r1, t1)" by (rule prod.exhaust)
  obtain r2 t2 where b: "handleSSHKeysRemove ?se (Inr ?p) [] = (r2, t2)" by (rule prod.exhaust)
  obtain r3 t3 where c: "handleSSHKeysList ?se (Inr ?p) [] = (r3, t3)" by (rule prod.exhaust)
  from ssh_runs_as_user [OF u a b c] obtain cs1 where
    cs: "t1 = [] @ cs1" "\<forall>c \<in> set cs1. c = Run ''ssh'' [''-V''] \<or>
        unsudo (se_mode ?se) c = Run ''useradd'' [''-m'', ''-s'', ''/bin/bash'', sp_User ?p] \<or>
        cmd_name (unsudo (se_mode ?se) c) = ''runuser'' \<and> take 3 (cmd_args (unsudo (se_mode ?se) c)) = [''-u'', sp_User ?p, ''--'']"
    unfolding set_append by blast
  have "snd (handleSSHKeysAdd ?se (Inr ?p) []) = [] @ cs1" by (simp only: a cs(1) snd_conv)
  moreover have "sp_User ?p = ''bob''" by simp
  ultimately show ?thesis using cs(2) by blast
qed

text \<open>
  An option that is a bare key type, such as \<open>ssh-rsa\<close>, is accepted by the options check, but
  the line written with it is not recognised as carrying the key: installing the key again adds a
  second line, and removing it leaves both.
\<close>

theorem ssh_key_type_option_lost:
  "validateSSHOptions [''ssh-rsa''] = Inr () \<and>
   formatAuthorizedKeysLine witness_key [''ssh-rsa''] = ''ssh-rsa ssh-ed25519 AAAA me'' \<and>
   fst (authorizedKeysUpsert (unlines [''ssh-rsa ssh-ed25519 AAAA me'']) witness_key ''ssh-rsa ssh-ed25519 AAAA me'')
     = unlines [''ssh-rsa ssh-ed25519 AAAA me'', ''ssh-rsa ssh-ed25519 AAAA me''] \<and>
   authorizedKeysRemove (unlines [''ssh-rsa ssh-ed25519 AAAA me'']) witness_key
     = (unlines [''ssh-rsa ssh-ed25519 AAAA me''], False)"
  by (intro conjI) code_simp+

end
