(* ===== verification/Files.thy ===== *)
theory Files
  imports Exec Base64 "HOL-Library.AList" "HOL-Library.List_Lexorder"
begin

text \<open>
  File access below the operator's allowed roots, \<open>internal/agent/file_handlers.go\<close>, over a model
  of the file system: an association list from the elements of a (link-free) path to a directory,
  a file or a symbolic link. \<open>walk\<close> is path resolution: the kernel's when a file is opened (at
  most 40 links) and \<open>filepath.EvalSymlinks\<close> (at most 255). Permissions, races with other
  processes and Windows drives are not modelled.
\<close>

datatype node = DirN | FileN string | LinkN string

type_synonym fs = "(string list \<times> node) list"

definition elems :: "string \<Rightarrow> string list" where
  "elems p = split_on CHR ''/'' p"

text \<open>
  Resolution of the remaining elements below \<open>dest\<close>. With \<open>create\<close> a missing last element is
  the place where a file would be created.
\<close>

function walk :: "bool \<Rightarrow> fs \<Rightarrow> nat \<Rightarrow> string list \<Rightarrow> string list \<Rightarrow> string list option" where
  "walk create f links dest [] = Some dest"
| "walk create f links dest (e # es) =
     (if e = [] \<or> e = ''.'' then walk create f links dest es
      else if e = ''..'' then walk create f links (butlast dest) es
      else (case map_of f (dest @ [e]) of
          None \<Rightarrow> if create \<and> es = [] then Some (dest @ [e]) else None
        | Some DirN \<Rightarrow> walk create f links (dest @ [e]) es
        | Some (FileN _) \<Rightarrow> if es = [] then Some (dest @ [e]) else None
        | Some (LinkN t) \<Rightarrow>
            if links = 0 then None
            else walk create f (links - 1) (if IsAbs t then [] else dest) (elems t @ es)))"
  by pat_completeness simp_all
termination
  by (relation "(\<lambda>(c, f, links, d, es). links) <*mlex*> measure (\<lambda>(c, f, links, d, es). length es)")
    (auto simp: mlex_prod_def)

declare walk.simps [simp del]

definition EvalSymlinks :: "fs \<Rightarrow> string \<Rightarrow> string option" where
  "EvalSymlinks f p = map_option rooted_path (walk False f 255 [] (elems p))"

text \<open>What the kernel opens, and where it creates a file.\<close>

definition kernel_open :: "fs \<Rightarrow> string list \<Rightarrow> string \<Rightarrow> string list option" where
  "kernel_open f cwd p = walk False f 40 (if IsAbs p then [] else cwd) (elems p)"

definition kernel_create :: "fs \<Rightarrow> string list \<Rightarrow> string \<Rightarrow> string list option" where
  "kernel_create f cwd p = walk True f 40 (if IsAbs p then [] else cwd) (elems p)"

subsection \<open>The allowlist\<close>

text \<open>The walk up to the nearest existing ancestor; \<open>None\<close> is running out of fuel.\<close>

fun ancestor_loop :: "nat \<Rightarrow> fs \<Rightarrow> string \<Rightarrow> string \<Rightarrow> string \<Rightarrow> string option" where
  "ancestor_loop 0 f absp d sfx = None"
| "ancestor_loop (Suc n) f absp d sfx =
     (let parent = Dir d in
      if parent = d then Some absp
      else (case EvalSymlinks f parent of
          Some resolved \<Rightarrow> Some (Join [resolved, Base d, sfx])
        | None \<Rightarrow> ancestor_loop n f absp parent (Join [Base d, sfx])))"

definition resolveSymlinkPath :: "fs \<Rightarrow> string \<Rightarrow> string \<Rightarrow> string option" where
  "resolveSymlinkPath f cwd p =
     (let absp = Abs_path cwd (Clean p) in
      case EvalSymlinks f absp of
        Some resolved \<Rightarrow> Some resolved
      | None \<Rightarrow> ancestor_loop (Suc (length absp)) f absp absp [])"

definition pathWithinAllowedRoot :: "string \<Rightarrow> string \<Rightarrow> bool" where
  "pathWithinAllowedRoot target allowed \<longleftrightarrow>
     target = allowed \<or> prefix (trim_right_char CHR ''/'' allowed @ ''/'') target"

definition validateFileAccess :: "fs \<Rightarrow> string \<Rightarrow> string list \<Rightarrow> string \<Rightarrow> herror + unit" where
  "validateFileAccess f cwd allowedPaths p =
     (if allowedPaths = [] then Inl (Refused ''file access denied: no allowed_paths configured'')
      else (case resolveSymlinkPath f cwd p of
          None \<Rightarrow> Inl (Refused ''invalid path'')
        | Some target \<Rightarrow>
            if list_ex (\<lambda>ap. trim_space ap \<noteq> [] \<and>
                 (case resolveSymlinkPath f cwd ap of
                    None \<Rightarrow> False
                  | Some allowed \<Rightarrow> pathWithinAllowedRoot target allowed)) allowedPaths
            then Inr () else Inl (Refused ''file access denied for path'')))"

subsection \<open>Handlers\<close>

definition cwd_elems :: "string \<Rightarrow> string list" where
  "cwd_elems cwd = filter (\<lambda>e. e \<noteq> []) (elems cwd)"

record file_reply =
  fr_path :: string
  fr_content :: string
  fr_size :: nat

definition handleFileRead :: "fs \<Rightarrow> string \<Rightarrow> string list \<Rightarrow> herror + string \<Rightarrow> herror + file_reply" where
  "handleFileRead f cwd allowed params =
     rbind params (\<lambda>p.
       if p = [] then Inl (Refused ''path is required'')
       else rbind (validateFileAccess f cwd allowed p) (\<lambda>_.
         case kernel_open f (cwd_elems cwd) p of
           None \<Rightarrow> Inl (Refused ''failed to read file'')
         | Some loc \<Rightarrow>
             (case map_of f loc of
                Some (FileN d) \<Rightarrow> Inr \<lparr>fr_path = p, fr_content = b64_encode d, fr_size = length d\<rparr>
              | _ \<Rightarrow> Inl (Refused ''failed to read file''))))"

record write_params =
  wp_path :: string
  wp_content :: string
  wp_mode :: nat
  wp_create_dirs :: bool

text \<open>
  The permission bits of a new file: setuid, setgid and sticky are masked off. A file mode is kept
  by the kernel when the file already exists.
\<close>

definition file_mode :: "nat \<Rightarrow> nat" where
  "file_mode m = (if m \<noteq> 0 then m mod 512 else 420)"

text \<open>\<open>os.MkdirAll\<close>: resolution that creates the directories it misses.\<close>

function mkdirs :: "fs \<Rightarrow> nat \<Rightarrow> string list \<Rightarrow> string list \<Rightarrow> fs option" where
  "mkdirs f links dest [] = Some f"
| "mkdirs f links dest (e # es) =
     (if e = [] \<or> e = ''.'' then mkdirs f links dest es
      else if e = ''..'' then mkdirs f links (butlast dest) es
      else (case map_of f (dest @ [e]) of
          None \<Rightarrow> mkdirs (AList.update (dest @ [e]) DirN f) links (dest @ [e]) es
        | Some DirN \<Rightarrow> mkdirs f links (dest @ [e]) es
        | Some (FileN _) \<Rightarrow> None
        | Some (LinkN t) \<Rightarrow>
            (case walk False f 40 dest [e] of
               None \<Rightarrow> None
             | Some d \<Rightarrow> if links = 0 then None else mkdirs f (links - 1) (if IsAbs t then [] else dest) (elems t @ es))))"
  by pat_completeness simp_all
termination
  by (relation "(\<lambda>(f, links, d, es). links) <*mlex*> measure (\<lambda>(f, links, d, es). length es)")
    (auto simp: mlex_prod_def)

definition handleFileWrite :: "fs \<Rightarrow> string \<Rightarrow> string list \<Rightarrow> herror + write_params \<Rightarrow> (herror + string \<times> nat \<times> nat) \<times> fs" where
  "handleFileWrite f cwd allowed params =
     (case rbind params (\<lambda>p.
        if wp_path p = [] then Inl (Refused ''path is required'')
        else rbind (validateFileAccess f cwd allowed (wp_path p)) (\<lambda>_.
          case b64_decode (wp_content p) of
            None \<Rightarrow> Inl (Refused ''invalid base64 content'')
          | Some d \<Rightarrow>
              if wp_create_dirs p
              then rbind (validateFileAccess f cwd allowed (Dir (wp_path p))) (\<lambda>_.
                (case mkdirs f 40 (if IsAbs (Dir (wp_path p)) then [] else cwd_elems cwd) (elems (Dir (wp_path p))) of
                   None \<Rightarrow> Inl (Refused ''failed to create parent directories'')
                 | Some f1 \<Rightarrow> Inr (p, d, f1)))
              else Inr (p, d, f))) of
        Inl e \<Rightarrow> (Inl e, f)
      | Inr (p, d, f1) \<Rightarrow>
          (case kernel_create f1 (cwd_elems cwd) (wp_path p) of
             None \<Rightarrow> (Inl (Refused ''failed to write file''), f1)
           | Some loc \<Rightarrow>
               if loc = [] \<or> map_of f1 loc = Some DirN then (Inl (Refused ''failed to write file''), f1)
               else (Inr (wp_path p, length d, file_mode (wp_mode p)), AList.update loc (FileN d) f1)))"

record file_entry =
  fe_name :: string
  fe_path :: string
  fe_is_dir :: bool

definition children :: "fs \<Rightarrow> string list \<Rightarrow> string list" where
  "children f loc = sort (remdups (map last (filter (\<lambda>p. p \<noteq> [] \<and> butlast p = loc) (map fst f))))"

definition handleFileList :: "fs \<Rightarrow> string \<Rightarrow> string list \<Rightarrow> herror + string \<Rightarrow> herror + string \<times> file_entry list" where
  "handleFileList f cwd allowed params =
     rbind params (\<lambda>p0.
       let p = (if p0 = [] \<or> p0 = ''/'' \<or> p0 = [CHR 0x5C] then ''/'' else p0) in
       rbind (validateFileAccess f cwd allowed p) (\<lambda>_.
         case kernel_open f (cwd_elems cwd) p of
           None \<Rightarrow> Inl (Refused ''failed to list directory'')
         | Some loc \<Rightarrow>
             if loc \<noteq> [] \<and> map_of f loc \<noteq> Some DirN then Inl (Refused ''failed to list directory'')
             else Inr (p, map (\<lambda>n. \<lparr>fe_name = n, fe_path = Join [p, n],
                 fe_is_dir = (map_of f (loc @ [n]) = Some DirN)\<rparr>) (children f loc))))"

subsection \<open>Resolution\<close>

lemma walk_ok: "walk c f links dest es = Some d \<Longrightarrow> list_all elem_ok dest \<Longrightarrow>
    \<forall>e \<in> set es. CHR ''/'' \<notin> set e \<Longrightarrow> list_all elem_ok d"
proof (induction c f links dest es rule: walk.induct)
  case (1 c f links dest)
  then show ?case by (simp add: walk.simps)
next
  case (2 c f links dest e es)
  note IH = "2.IH"
  have es: "\<forall>e \<in> set es. CHR ''/'' \<notin> set e" and e: "CHR ''/'' \<notin> set e" using 2 by auto
  consider "e = [] \<or> e = ''.''" | "e = ''..''" | (real) "e \<noteq> []" "e \<noteq> ''.''" "e \<noteq> ''..''" by blast
  then show ?case
  proof cases
    case 1
    then show ?thesis using IH(1) "2.prems" es by (auto simp: walk.simps)
  next
    case up: 2
    have "list_all elem_ok (butlast dest)" using "2.prems"(2) by (auto simp: list_all_iff dest: in_set_butlastD)
    then show ?thesis using IH(2) "2.prems" es up by (simp add: walk.simps)
  next
    case real
    then have "elem_ok e" using e by (simp add: elem_ok_def)
    then have ok: "list_all elem_ok (dest @ [e])" using "2.prems"(2) by simp
    have ts: "\<forall>e' \<in> set (elems t @ es). CHR ''/'' \<notin> set e'" for t using es split_on_no_sep by (auto simp: elems_def)
    have d: "list_all elem_ok (if IsAbs t then [] else dest)" for t using "2.prems"(2) by simp
    have r: "\<not> (e = [] \<or> e = ''.'')" "e \<noteq> ''..''" using real by auto
    show ?thesis
    proof (cases "map_of f (dest @ [e])")
      case None
      then show ?thesis using real "2.prems"(1) ok by (auto simp: walk.simps(2) split: if_splits)
    next
      case (Some n)
      show ?thesis
      proof (cases n)
        case DirN
        then have "walk c f links (dest @ [e]) es = Some d" using r "2.prems"(1) Some by (simp add: walk.simps(2))
        from IH(3) [OF r Some DirN this ok es] show ?thesis .
      next
        case (FileN x)
        then show ?thesis using real "2.prems"(1) ok Some by (auto simp: walk.simps(2) split: if_splits)
      next
        case (LinkN t)
        then have "links \<noteq> 0" "walk c f (links - 1) (if IsAbs t then [] else dest) (elems t @ es) = Some d"
          using r "2.prems"(1) Some by (auto simp: walk.simps(2) split: if_splits)
        from IH(4) [OF r Some LinkN this d ts] show ?thesis .
      qed
    qed
  qed
qed

lemma walk_links: "walk c f links dest es = Some d \<Longrightarrow> links \<le> links' \<Longrightarrow> walk c f links' dest es = Some d"
proof (induction c f links dest es arbitrary: links' rule: walk.induct)
  case (1 c f links dest)
  then show ?case by (simp add: walk.simps)
next
  case (2 c f links dest e es)
  note IH = "2.IH" and prems = "2.prems"
  consider "e = [] \<or> e = ''.''" | "e = ''..''" | (real) "\<not> (e = [] \<or> e = ''.'')" "e \<noteq> ''..''" by blast
  then show ?case
  proof cases
    case 1
    then show ?thesis using IH(1) [OF 1] prems by (simp add: walk.simps(2))
  next
    case 2
    then show ?thesis using IH(2) [OF _ 2] prems by (simp add: walk.simps(2))
  next
    case real
    show ?thesis
    proof (cases "map_of f (dest @ [e])")
      case None
      then show ?thesis using real prems by (simp add: walk.simps(2))
    next
      case (Some n)
      show ?thesis
      proof (cases n)
        case DirN
        then show ?thesis using IH(3) [OF real Some DirN] real prems Some by (simp add: walk.simps(2))
      next
        case (FileN x)
        then show ?thesis using real prems Some by (simp add: walk.simps(2))
      next
        case (LinkN t)
        have l: "links \<noteq> 0" "links' \<noteq> 0" "links - 1 \<le> links' - 1"
          using LinkN real prems Some by (auto simp: walk.simps(2) split: if_splits)
        have "walk c f (links - 1) (if IsAbs t then [] else dest) (elems t @ es) = Some d"
          using LinkN real prems Some l by (simp add: walk.simps(2))
        from IH(4) [OF real Some LinkN l(1) this l(3)] show ?thesis
          using LinkN real Some l by (simp add: walk.simps(2))
      qed
    qed
  qed
qed

lemma elems_no_slash: "e \<in> set (elems p) \<Longrightarrow> CHR ''/'' \<notin> set e"
  by (auto simp: elems_def dest: split_on_no_sep)

lemma EvalSymlinks_rooted: "EvalSymlinks f p = Some r \<Longrightarrow> \<exists>d. r = rooted_path d \<and> list_all elem_ok d"
  using walk_ok [of False f 255 "[]" "elems p"] elems_no_slash by (auto simp: EvalSymlinks_def)

lemma trim_right_rooted:
  assumes "list_all elem_ok es" "es \<noteq> []"
  shows "trim_right_char CHR ''/'' (rooted_path es) = rooted_path es"
proof -
  have l: "last es \<noteq> []" "CHR ''/'' \<notin> set (last es)"
    using assms by (auto simp: list_all_iff elem_ok_def)
  have "rooted_path es = ''/'' @ (if butlast es = [] then last es else join ''/'' (butlast es) @ ''/'' @ last es)"
    using assms(2) join_snoc [of "butlast es" "''/''" "last es"] by (cases "butlast es = []") (auto simp: rooted_path_def, (metis append_butlast_last_id join.simps(2) append_Nil)+)
  then have "last (rooted_path es) = last (last es)" using l(1) by (auto split: if_splits)
  then have "last (rooted_path es) \<noteq> CHR ''/''" using l by (metis last_in_set)
  then show ?thesis by (simp add: trim_right_char_id)
qed

text \<open>The prefix test on strings is the prefix test on path elements.\<close>

lemma rooted_inj:
  assumes "list_all elem_ok a" "list_all elem_ok b" "rooted_path a = rooted_path b"
  shows "a = b"
proof -
  have ne: "rooted_path xs = ''/'' \<longleftrightarrow> xs = []" if "list_all elem_ok xs" for xs
    using that by (cases "(''/'', xs)" rule: join.cases) (auto simp: rooted_path_def elem_ok_def)
  show ?thesis
  proof (cases "a = [] \<or> b = []")
    case True
    then show ?thesis using ne [OF assms(1)] ne [OF assms(2)] assms(3) by (auto simp: rooted_path_def)
  next
    case False
    then show ?thesis using split_rooted assms by (metis list.inject)
  qed
qed

lemma within_prefix:
  assumes "list_all elem_ok t" "list_all elem_ok a"
  shows "pathWithinAllowedRoot (rooted_path t) (rooted_path a) \<longleftrightarrow> prefix a t"
proof (cases "a = []")
  case True
  have "trim_right_char CHR ''/'' ''/'' = []" by (simp add: trim_right_char_def)
  then show ?thesis using True by (simp add: pathWithinAllowedRoot_def rooted_path_def)
next
  case a: False
  note tr = trim_right_rooted [OF assms(2) a]
  show ?thesis
  proof
    assume "pathWithinAllowedRoot (rooted_path t) (rooted_path a)"
    then consider "rooted_path t = rooted_path a" | "prefix (rooted_path a @ ''/'') (rooted_path t)"
      by (auto simp: pathWithinAllowedRoot_def tr)
    then show "prefix a t"
    proof cases
      case 1
      then show ?thesis using rooted_inj [OF assms] by simp
    next
      case 2
      then obtain r where r: "rooted_path t = rooted_path a @ CHR ''/'' # r" by (auto simp: prefix_def)
      have "t \<noteq> []" using r by (auto simp: rooted_path_def)
      then have "[] # t = split_on CHR ''/'' (rooted_path a @ CHR ''/'' # r)"
        using split_rooted [OF assms(1)] r by simp
      also have "\<dots> = split_on CHR ''/'' (rooted_path a) @ split_on CHR ''/'' r" by (rule split_on_sep)
      finally show ?thesis using split_rooted [OF assms(2) a] by simp
    qed
  next
    assume "prefix a t"
    then obtain r where r: "t = a @ r" by (auto simp: prefix_def)
    then show "pathWithinAllowedRoot (rooted_path t) (rooted_path a)"
      using a unfolding pathWithinAllowedRoot_def tr by (cases "r = []") (auto simp: rooted_path_def join_append)
  qed
qed

subsection \<open>The walk to an ancestor\<close>

lemma Clean_trailing: "list_all elem_ok es \<Longrightarrow> Clean (rooted_path es @ ''/'') = rooted_path es"
proof -
  assume ok: "list_all elem_ok es"
  have s: "split_on CHR ''/'' (rooted_path es @ ''/'') = split_on CHR ''/'' (rooted_path es) @ [[]]"
    using split_on_sep [of "CHR ''/''" "rooted_path es" "[]"] by simp
  have "clean_elems True [] (split_on CHR ''/'' (rooted_path es) @ [[]]) = es"
  proof (cases "es = []")
    case False
    have "clean_elems True acc (xs @ [[]]) = rev acc @ xs" if "list_all elem_ok xs" for acc xs
      using that by (induction xs arbitrary: acc) (auto simp: elem_ok_def)
    then show ?thesis using split_rooted [OF ok False] ok by simp
  qed (simp add: rooted_path_def)
  moreover have "IsAbs (rooted_path es @ ''/'')" by (simp add: IsAbs_def rooted_path_def)
  ultimately show ?thesis unfolding Clean_def Let_def s by (simp add: rooted_path_def)
qed

lemma upto_last_slash_append: "CHR ''/'' \<notin> set e \<Longrightarrow> upto_last_slash (a @ ''/'' @ e) = a @ ''/''"
proof -
  assume "CHR ''/'' \<notin> set e"
  then have "dropWhile (\<lambda>c. c \<noteq> CHR ''/'') (rev e @ CHR ''/'' # rev a) = CHR ''/'' # rev a"
    by (subst dropWhile_append2) auto
  then show ?thesis by (simp add: upto_last_slash_def)
qed

lemma rooted_snoc:
  "rooted_path (es @ [e]) = (if es = [] then [] else rooted_path es) @ ''/'' @ e"
  by (cases "es = []") (auto simp: rooted_path_def join_snoc)

lemma Dir_rooted:
  assumes "list_all elem_ok (es @ [e])"
  shows "Dir (rooted_path (es @ [e])) = rooted_path es"
proof -
  have "CHR ''/'' \<notin> set e" using assms by (simp add: elem_ok_def)
  then have "upto_last_slash (rooted_path (es @ [e])) = (if es = [] then [] else rooted_path es) @ ''/''"
    unfolding rooted_snoc by (rule upto_last_slash_append)
  moreover have "Clean ''/'' = rooted_path []" using Clean_rooted_path [of "[]"] by (simp add: rooted_path_def)
  ultimately show ?thesis using Clean_trailing [of es] assms by (auto simp: Dir_def)
qed

lemma Dir_root: "Dir (rooted_path []) = rooted_path []"
proof -
  have "upto_last_slash ''/'' = ''/''" by (simp add: upto_last_slash_def)
  then show ?thesis using Clean_rooted_path [of "[]"] by (simp add: Dir_def rooted_path_def)
qed

lemma Join_rooted: "\<exists>d. Join (rooted_path a # ps) = rooted_path d \<and> list_all elem_ok d"
proof -
  have f: "filter (\<lambda>p. p \<noteq> []) (rooted_path a # ps) = rooted_path a # filter (\<lambda>p. p \<noteq> []) ps"
    by (simp add: rooted_path_def)
  have "IsAbs (join ''/'' (rooted_path a # qs))" for qs
    by (cases qs) (auto simp: IsAbs_def rooted_path_def)
  then have "\<exists>d. Clean (join ''/'' (filter (\<lambda>p. p \<noteq> []) (rooted_path a # ps))) = rooted_path d \<and> list_all elem_ok d"
    unfolding f by (rule Clean_rooted)
  then show ?thesis unfolding Join_def Let_def f by simp
qed

lemma ancestor_loop_rooted:
  assumes "list_all elem_ok es" "length es < n" "list_all elem_ok as"
  shows "\<exists>d. ancestor_loop n f (rooted_path as) (rooted_path es) sfx = Some (rooted_path d) \<and> list_all elem_ok d"
  using assms(1,2)
proof (induction n arbitrary: es sfx)
  case (Suc n)
  show ?case
  proof (cases es rule: rev_cases)
    case Nil
    then show ?thesis using assms(3) by (auto simp: Dir_root)
  next
    case (snoc es' e)
    then have d: "Dir (rooted_path es) = rooted_path es'" using Dir_rooted Suc.prems(1) by simp
    show ?thesis
    proof (cases "EvalSymlinks f (rooted_path es')")
      case None
      have "list_all elem_ok es'" "length es' < n" using Suc.prems snoc by auto
      from Suc.IH [OF this] show ?thesis using None d assms(3) by (auto simp: Let_def)
    next
      case (Some r)
      then obtain a where "r = rooted_path a" using EvalSymlinks_rooted by blast
      then show ?thesis using Join_rooted [of a] Some d assms(3) by (auto simp: Let_def)
    qed
  qed
qed simp

lemma length_rooted: "list_all elem_ok es \<Longrightarrow> length es < length (rooted_path es)"
proof -
  have "list_all elem_ok es \<Longrightarrow> length es \<le> length (join ''/'' es)"
    by (induction es rule: induct_list012) (auto simp: elem_ok_def Suc_le_eq)
  then show "list_all elem_ok es \<Longrightarrow> length es < length (rooted_path es)" by (simp add: rooted_path_def)
qed

lemma Abs_path_rooted:
  assumes "IsAbs cwd"
  shows "\<exists>es. Abs_path cwd p = rooted_path es \<and> list_all elem_ok es"
proof (cases "IsAbs p")
  case True
  then show ?thesis using Clean_rooted by (simp add: Abs_path_def)
next
  case False
  have "cwd \<noteq> []" using assms by (auto simp: IsAbs_def)
  then have "Join [cwd, p] = Clean (cwd @ (if p = [] then [] else ''/'' @ p))" by (simp add: Join_def)
  then obtain q where "Join [cwd, p] = Clean (cwd @ q)" by blast
  moreover have "IsAbs (cwd @ q)" using assms by (auto simp: IsAbs_def)
  ultimately show ?thesis using False Clean_rooted by (simp add: Abs_path_def)
qed

lemma resolve_rooted:
  assumes "IsAbs cwd"
  shows "\<exists>d. resolveSymlinkPath f cwd p = Some (rooted_path d) \<and> list_all elem_ok d"
proof -
  obtain es where es: "Abs_path cwd (Clean p) = rooted_path es" "list_all elem_ok es"
    using Abs_path_rooted [OF assms] by blast
  show ?thesis
  proof (cases "EvalSymlinks f (rooted_path es)")
    case None
    then show ?thesis
      using ancestor_loop_rooted [OF es(2) _ es(2), of "Suc (length (rooted_path es))" f "[]"] length_rooted [OF es(2)]
      by (auto simp: resolveSymlinkPath_def Let_def es(1) simp del: ancestor_loop.simps)
  next
    case (Some r)
    then show ?thesis using EvalSymlinks_rooted [OF Some] by (simp add: resolveSymlinkPath_def Let_def es(1))
  qed
qed

lemma resolve_existing:
  assumes "IsAbs p" "Clean p = p" "kernel_open f cw p = Some loc"
  shows "resolveSymlinkPath f cwd p = Some (rooted_path loc)" "list_all elem_ok loc"
proof -
  have w: "walk False f 255 [] (elems p) = Some loc"
    using walk_links [of False f 40 "[]" "elems p" loc 255] assms by (simp add: kernel_open_def)
  then show "resolveSymlinkPath f cwd p = Some (rooted_path loc)"
    using assms by (simp add: resolveSymlinkPath_def Abs_path_def EvalSymlinks_def)
  show "list_all elem_ok loc" using walk_ok [OF w] elems_no_slash by auto
qed

lemma access_inside:
  assumes "validateFileAccess f cwd allowed p = Inr ()" "IsAbs cwd"
    and "resolveSymlinkPath f cwd p = Some (rooted_path loc)" "list_all elem_ok loc"
  shows "\<exists>ap \<in> set allowed. trim_space ap \<noteq> [] \<and>
    (\<exists>root. resolveSymlinkPath f cwd ap = Some (rooted_path root) \<and> prefix root loc)"
proof -
  obtain ap al where ap: "ap \<in> set allowed" "trim_space ap \<noteq> []" "resolveSymlinkPath f cwd ap = Some al"
      "pathWithinAllowedRoot (rooted_path loc) al"
    using assms(1,3) by (auto simp: validateFileAccess_def list_ex_iff split: if_splits option.splits)
  moreover obtain root where "al = rooted_path root" "list_all elem_ok root"
    using resolve_rooted [OF assms(2), of f ap] ap(3) by auto
  ultimately show ?thesis using within_prefix [OF assms(4)] by blast
qed

subsection \<open>Paths without \<open>..\<close>\<close>

text \<open>
  Resolution is not changed by leaving out the elements that \<open>Clean\<close> leaves out of a path without
  \<open>..\<close>, whatever links are met on the way; so for such a path the allowlist judges the very file
  that is opened.
\<close>

definition kept :: "string \<Rightarrow> bool" where
  "kept e \<longleftrightarrow> e \<noteq> [] \<and> e \<noteq> ''.''"

lemma walk_kept:
  "walk create f links dest es = Some d \<Longrightarrow> es = xs @ ys \<Longrightarrow>
     walk create f links dest (xs @ filter kept ys) = Some d"
proof (induction create f links dest es arbitrary: xs ys rule: walk.induct)
  case (1 create f links dest)
  then show ?case by simp
next
  case (2 create f links dest e es)
  obtain us vs where uv: "es = us @ vs" "xs @ filter kept ys = (if xs \<noteq> [] \<or> kept e then e # us @ filter kept vs else us @ filter kept vs)"
      "xs = [] \<Longrightarrow> us = []"
    using 2(6) by (cases xs) auto
  have skip: "walk create f links dest (xs @ filter kept ys) = Some d" if e: "e = [] \<or> e = ''.''"
    using 2(1) [OF e _ uv(1)] 2(5) e uv(2) by (simp add: walk.simps(2))
  have up: "walk create f links dest (xs @ filter kept ys) = Some d" if e: "\<not> (e = [] \<or> e = ''.'')" "e = ''..''"
  proof -
    have "kept e" using e by (simp add: kept_def)
    then show ?thesis using 2(2) [OF e _ uv(1)] 2(5) e uv(2) by (simp add: walk.simps(2))
  qed
  have down: "walk create f links dest (xs @ filter kept ys) = Some d" if e: "\<not> (e = [] \<or> e = ''.'')" "e \<noteq> ''..''"
  proof -
    have s: "xs @ filter kept ys = e # us @ filter kept vs" using uv(2) e by (simp add: kept_def)
    show ?thesis
    proof (cases "map_of f (dest @ [e])")
      case None
      then show ?thesis using 2(5) e uv(1) unfolding s by (auto simp: walk.simps(2) split: if_splits)
    next
      case (Some n)
      show ?thesis
      proof (cases n)
        case DirN
        then show ?thesis using 2(3) [OF e Some DirN _ uv(1)] 2(5) e Some unfolding s by (simp add: walk.simps(2))
      next
        case (FileN x)
        then show ?thesis using 2(5) e uv(1) Some unfolding s by (auto simp: walk.simps(2) split: if_splits)
      next
        case (LinkN t)
        have l: "links \<noteq> 0" using 2(5) e Some LinkN by (auto simp: walk.simps(2) split: if_splits)
        then show ?thesis
          using 2(4) [OF e Some LinkN l, of "elems t @ us" vs] 2(5) e Some LinkN uv(1) unfolding s
          by (simp add: walk.simps(2))
      qed
    qed
  qed
  show ?case using skip up down by blast
qed

lemma clean_elems_kept:
  "''..'' \<notin> set es \<Longrightarrow> clean_elems rooted acc es = rev acc @ filter kept es"
  by (induction es arbitrary: acc) (auto simp: kept_def)

lemma kernel_open_clean:
  assumes "kernel_open f cw p = Some loc" "IsAbs p" "''..'' \<notin> set (elems p)"
  shows "kernel_open f cw (Clean p) = Some loc"
proof -
  have c: "Clean p = rooted_path (filter kept (elems p))"
    using assms(2) clean_elems_kept [OF assms(3), of True "[]"] by (simp add: Clean_def rooted_path_def Let_def elems_def)
  have w: "walk False f 40 [] (filter kept (elems p)) = Some loc"
    using walk_kept [of False f 40 "[]" "elems p" loc "[]"] assms(1,2) by (simp add: kernel_open_def)
  have "IsAbs (Clean p)" by (simp add: c rooted_path_def IsAbs_def)
  moreover have "walk False f 40 [] (elems (Clean p)) = Some loc"
  proof (cases "filter kept (elems p) = []")
    case True
    then show ?thesis using w by (simp add: c rooted_path_def elems_def walk.simps)
  next
    case False
    have "list_all elem_ok (filter kept (elems p))"
      using assms(3) elems_no_slash by (auto simp: list_all_iff elem_ok_def kept_def)
    then have "elems (Clean p) = [] # filter kept (elems p)"
      using split_rooted False by (simp add: c elems_def)
    then show ?thesis using w by (simp add: walk.simps)
  qed
  ultimately show ?thesis by (simp add: kernel_open_def)
qed

lemma access_no_dotdot:
  assumes "validateFileAccess f cwd allowed p = Inr ()" "IsAbs cwd" "IsAbs p" "''..'' \<notin> set (elems p)"
    and "kernel_open f cw p = Some loc"
  shows "\<exists>ap \<in> set allowed. trim_space ap \<noteq> [] \<and>
    (\<exists>root. resolveSymlinkPath f cwd ap = Some (rooted_path root) \<and> prefix root loc)"
proof -
  have i: "Clean (Clean p) = Clean p" by (rule Clean_idem [OF assms(3)])
  have a: "IsAbs (Clean p)" using Clean_rooted [OF assms(3)] by (auto simp: rooted_path_def IsAbs_def)
  note r = resolve_existing [OF a i kernel_open_clean [OF assms(5,3,4)]]
  have "resolveSymlinkPath f cwd p = Some (rooted_path loc)"
    using r(1) [of cwd] by (simp add: resolveSymlinkPath_def i)
  from access_inside [OF assms(1,2) this r(2)] show ?thesis .
qed

subsection \<open>Properties\<close>



text \<open>
  C8. Reading stays inside the allowed roots: for an absolute path that is already in lexically
  clean form, a successful \<open>file:read\<close> returns the content of the file the kernel opens, and that
  file lies, links resolved, below the resolved form of one of the configured roots.
\<close>

theorem file_read_confined:
  assumes "handleFileRead f cwd allowed (Inr p) = Inr r" and "IsAbs cwd" and "IsAbs p" and "Clean p = p"
  shows "\<exists>loc d root. \<exists>ap \<in> set allowed. kernel_open f (cwd_elems cwd) p = Some loc \<and> map_of f loc = Some (FileN d) \<and>
     fr_content r = b64_encode d \<and> resolveSymlinkPath f cwd ap = Some (''/'' @ join ''/'' root) \<and> prefix root loc"
proof -
  have v: "validateFileAccess f cwd allowed p = Inr ()"
    using assms(1) by (auto simp: handleFileRead_def rbind_Inr_iff split: if_splits)
  obtain loc d where k: "kernel_open f (cwd_elems cwd) p = Some loc" "map_of f loc = Some (FileN d)"
      "fr_content r = b64_encode d"
    using assms(1) by (auto simp: handleFileRead_def rbind_Inr_iff split: if_splits option.splits node.splits)
  show ?thesis
    using access_inside [OF v assms(2) resolve_existing [OF assms(3,4) k(1)]] k
    unfolding rooted_path_def by blast
qed

definition witness_fs :: fs where
  "witness_fs = [([''srv''], DirN), ([''srv'', ''data''], DirN), ([''srv'', ''data'', ''a''], FileN ''hi''),
     ([''srv'', ''data'', ''l''], LinkN ''/etc/ssl''), ([''srv'', ''data'', ''d''], LinkN ''/etc/new''),
     ([''etc''], DirN), ([''etc'', ''ssl''], DirN), ([''etc'', ''shadow''], FileN ''secret'')]"

theorem file_read_confined_witness:
  "\<exists>loc d root. \<exists>ap \<in> set [''/srv/data'']. kernel_open witness_fs (cwd_elems ''/'') ''/srv/data/a'' = Some loc \<and>
     map_of witness_fs loc = Some (FileN d) \<and> resolveSymlinkPath witness_fs ''/'' ap = Some (''/'' @ join ''/'' root) \<and> prefix root loc"
proof -
  have r: "handleFileRead witness_fs ''/'' [''/srv/data''] (Inr ''/srv/data/a'') =
      Inr \<lparr>fr_path = ''/srv/data/a'', fr_content = ''aGk='', fr_size = 2\<rparr>"
    by code_simp
  have c: "IsAbs ''/''" "IsAbs ''/srv/data/a''" "Clean ''/srv/data/a'' = ''/srv/data/a''" by code_simp+
  from file_read_confined [OF r c] show ?thesis by blast
qed

text \<open>
  Two ways out of the allowed roots. The check looks at the lexically cleaned path but the
  file is opened by the path as sent, so \<open>..\<close> behind a link to a directory leaves the root when
  the kernel follows it; and a link whose target does not exist yet is judged by its own name, but
  writing through it creates the target.
\<close>

theorem file_access_escapes:
  "handleFileRead witness_fs ''/'' [''/srv/data''] (Inr ''/srv/data/l/../shadow'') =
     Inr \<lparr>fr_path = ''/srv/data/l/../shadow'', fr_content = b64_encode ''secret'', fr_size = 6\<rparr> \<and>
   map_of (snd (handleFileWrite witness_fs ''/'' [''/srv/data'']
     (Inr \<lparr>wp_path = ''/srv/data/d'', wp_content = b64_encode ''x'', wp_mode = 0, wp_create_dirs = False\<rparr>))) [''etc'', ''new'']
     = Some (FileN ''x'')"
  by (intro conjI) code_simp+

end
