(* ===== verification/Netip.thy ===== *)
theory Netip
  imports Prelude
begin

text \<open>
  \<open>net/netip\<close>, as far as the security handlers use it: addresses as 32- and 128-bit words (an IPv6
  address may carry a zone), their textual forms, and prefixes. A prefix of invalid length is
  \<open>-1\<close> bits, as \<open>Prefix.Bits\<close> reports it.
\<close>

unbundle bit_operations_syntax

datatype addr = V4 "32 word" | V6 "128 word" string

fun Is4 :: "addr \<Rightarrow> bool" where
  "Is4 (V4 _) = True"
| "Is4 (V6 _ _) = False"

fun BitLen :: "addr \<Rightarrow> nat" where
  "BitLen (V4 _) = 32"
| "BitLen (V6 _ _) = 128"

fun Zone :: "addr \<Rightarrow> string" where
  "Zone (V4 _) = []"
| "Zone (V6 _ z) = z"

fun withoutZone :: "addr \<Rightarrow> addr" where
  "withoutZone (V4 a) = V4 a"
| "withoutZone (V6 a _) = V6 a []"

definition is_4in6 :: "128 word \<Rightarrow> bool" where
  "is_4in6 a \<longleftrightarrow> drop_bit 32 a = 0xffff"

fun Unmap :: "addr \<Rightarrow> addr" where
  "Unmap (V4 a) = V4 a"
| "Unmap (V6 a z) = (if is_4in6 a then V4 (ucast a) else V6 a z)"

fun IsUnspecified :: "addr \<Rightarrow> bool" where
  "IsUnspecified (V4 a) = (a = 0)"
| "IsUnspecified (V6 a z) = (a = 0 \<and> z = [])"

fun IsLoopback :: "addr \<Rightarrow> bool" where
  "IsLoopback (V4 a) = (drop_bit 24 a = 127)"
| "IsLoopback (V6 a z) = (if is_4in6 a then drop_bit 24 (ucast a :: 32 word) = 127 else a = 1)"

fun IsMulticast :: "addr \<Rightarrow> bool" where
  "IsMulticast (V4 a) = (drop_bit 28 a = 0xe)"
| "IsMulticast (V6 a z) = (if is_4in6 a then drop_bit 28 (ucast a :: 32 word) = 0xe else drop_bit 120 a = 0xff)"

fun IsLinkLocalUnicast :: "addr \<Rightarrow> bool" where
  "IsLinkLocalUnicast (V4 a) = (drop_bit 16 a = 0xa9fe)"
| "IsLinkLocalUnicast (V6 a z) = (if is_4in6 a then drop_bit 16 (ucast a :: 32 word) = 0xa9fe else drop_bit 118 a = 0x3fa)"

subsection \<open>Text\<close>

definition ipv4_field :: "string \<Rightarrow> nat option" where
  "ipv4_field s =
     (if s = [] \<or> 3 < length s \<or> (1 < length s \<and> hd s = CHR ''0'') then None
      else (case digits_val 0 s of Some n \<Rightarrow> if n \<le> 255 then Some n else None | None \<Rightarrow> None))"

fun parseIPv4 :: "string \<Rightarrow> int option" where
  "parseIPv4 s =
     (case map ipv4_field (split_on CHR ''.'' s) of
        [Some a, Some b, Some c, Some d] \<Rightarrow> Some (((int a * 256 + int b) * 256 + int c) * 256 + int d)
      | _ \<Rightarrow> None)"

definition hex_val :: "char \<Rightarrow> int option" where
  "hex_val c =
     (let n = of_char c :: int in
      if is_digit c then Some (n - 48)
      else if 97 \<le> n \<and> n \<le> 102 then Some (n - 87)
      else if 65 \<le> n \<and> n \<le> 70 then Some (n - 55) else None)"

fun hex_group :: "int \<Rightarrow> string \<Rightarrow> int option" where
  "hex_group acc [] = Some acc"
| "hex_group acc (c # s) = (case hex_val c of None \<Rightarrow> None | Some v \<Rightarrow> hex_group (acc * 16 + v) s)"

text \<open>The 16-bit groups of one side of an address; a dotted quad may stand for the last two.\<close>

fun groups16 :: "bool \<Rightarrow> string list \<Rightarrow> int list option" where
  "groups16 quad [] = Some []"
| "groups16 quad [s] =
     (if quad \<and> CHR ''.'' \<in> set s
      then (case parseIPv4 s of None \<Rightarrow> None | Some v \<Rightarrow> Some [v div 65536, v mod 65536])
      else if s = [] \<or> 4 < length s then None
      else (case hex_group 0 s of None \<Rightarrow> None | Some v \<Rightarrow> Some [v]))"
| "groups16 quad (s # r) =
     (if s = [] \<or> 4 < length s then None
      else (case (hex_group 0 s, groups16 quad r) of (Some v, Some vs) \<Rightarrow> Some (v # vs) | _ \<Rightarrow> None))"

fun split_ellipsis :: "string \<Rightarrow> (string \<times> string) option" where
  "split_ellipsis (c # d # s) =
     (if c = CHR '':'' \<and> d = CHR '':'' then Some ([], s)
      else map_option (\<lambda>(a, b). (c # a, b)) (split_ellipsis (d # s)))"
| "split_ellipsis _ = None"

definition side :: "bool \<Rightarrow> string \<Rightarrow> int list option" where
  "side quad s = (if s = [] then Some [] else groups16 quad (split_on CHR '':'' s))"

definition parseIPv6_groups :: "string \<Rightarrow> int list option" where
  "parseIPv6_groups s =
     (case split_ellipsis s of
        None \<Rightarrow> (case groups16 True (split_on CHR '':'' s) of
                   Some gs \<Rightarrow> if length gs = 8 then Some gs else None
                 | None \<Rightarrow> None)
      | Some (l, r) \<Rightarrow>
          (case (side False l, side True r) of
             (Some a, Some b) \<Rightarrow>
               if length a + length b < 8 then Some (a @ replicate (8 - length a - length b) 0 @ b) else None
           | _ \<Rightarrow> None))"

definition parseIPv6 :: "string \<Rightarrow> addr option" where
  "parseIPv6 s =
     (let body = takeWhile (\<lambda>c. c \<noteq> CHR ''%'') s; z = drop (Suc (length body)) s
      in if length body < length s \<and> z = [] then None
         else (case parseIPv6_groups body of
             None \<Rightarrow> None
           | Some gs \<Rightarrow> Some (V6 (word_of_int (foldl (\<lambda>acc g. acc * 65536 + g) 0 gs)) z)))"

definition ParseAddr :: "string \<Rightarrow> addr option" where
  "ParseAddr s =
     (case find (\<lambda>c. c \<in> set ''.:%'') s of
        None \<Rightarrow> None
      | Some c \<Rightarrow>
          if c = CHR ''.'' then map_option (\<lambda>v. V4 (word_of_int v)) (parseIPv4 s)
          else if c = CHR '':'' then parseIPv6 s else None)"

record prefix_t =
  px_addr :: addr
  px_bits :: int

definition PrefixFrom :: "addr \<Rightarrow> int \<Rightarrow> prefix_t" where
  "PrefixFrom a bits =
     \<lparr>px_addr = withoutZone a, px_bits = (if 0 \<le> bits \<and> bits \<le> int (BitLen a) then bits else -1)\<rparr>"

definition bits_string_ok :: "string \<Rightarrow> bool" where
  "bits_string_ok b \<longleftrightarrow> \<not> (1 < length b \<and> (hd b = CHR ''0'' \<or> \<not> is_digit (hd b)))"

definition ParsePrefix :: "string \<Rightarrow> prefix_t option" where
  "ParsePrefix s =
     (if CHR ''/'' \<notin> set s then None
      else (let bitsStr = rev (takeWhile (\<lambda>c. c \<noteq> CHR ''/'') (rev s));
                addrStr = take (length s - length bitsStr - 1) s
            in case ParseAddr addrStr of
                 None \<Rightarrow> None
               | Some a \<Rightarrow>
                   if Zone a \<noteq> [] \<or> \<not> bits_string_ok bitsStr then None
                   else (case atoi bitsStr of
                       None \<Rightarrow> None
                     | Some n \<Rightarrow> if 0 \<le> n \<and> n \<le> int (BitLen a) then Some (PrefixFrom a n) else None)))"

text \<open>The zero prefix has an address that is neither IPv4 nor IPv6; masking an invalid prefix gives it.\<close>

fun mask_addr :: "nat \<Rightarrow> addr \<Rightarrow> addr" where
  "mask_addr n (V4 a) = V4 (push_bit (32 - n) (drop_bit (32 - n) a))"
| "mask_addr n (V6 a z) = V6 (push_bit (128 - n) (drop_bit (128 - n) a)) z"

definition Masked :: "prefix_t \<Rightarrow> prefix_t option" where
  "Masked p =
     (if px_bits p < 0 then None
      else Some (p\<lparr>px_addr := mask_addr (nat (px_bits p)) (px_addr p)\<rparr>))"

text \<open>The addresses of a prefix.\<close>

fun in_range :: "nat \<Rightarrow> addr \<Rightarrow> addr \<Rightarrow> bool" where
  "in_range n (V4 a) (V4 b) = (drop_bit (32 - n) b = drop_bit (32 - n) a)"
| "in_range n (V6 a _) (V6 b _) = (drop_bit (128 - n) b = drop_bit (128 - n) a)"
| "in_range n _ _ = False"

definition show_v4 :: "32 word \<Rightarrow> string" where
  "show_v4 a = join ''.'' (map (\<lambda>k. show_nat (unat (drop_bit k a) mod 256)) [24, 16, 8, 0])"

definition hex_digit :: "nat \<Rightarrow> char" where
  "hex_digit n = ''0123456789abcdef'' ! n"

fun show_hex :: "nat \<Rightarrow> string" where
  "show_hex n = (if n < 16 then [hex_digit n] else show_hex (n div 16) @ [hex_digit (n mod 16)])"

declare show_hex.simps [simp del]

definition groups_of :: "128 word \<Rightarrow> nat list" where
  "groups_of a = map (\<lambda>k. unat (drop_bit (16 * k) a) mod 65536) [7, 6, 5, 4, 3, 2, 1, 0]"

text \<open>The first longest run of at least two zero groups: its start and length.\<close>

definition zero_run :: "nat list \<Rightarrow> nat \<times> nat" where
  "zero_run gs =
     foldl (\<lambda>(s, l) i. let n = length (takeWhile (\<lambda>g. g = 0) (drop i gs)) in if l < n \<and> 2 \<le> n then (i, n) else (s, l))
       (0, 0) [0..<length gs]"

definition show_v6 :: "128 word \<Rightarrow> string" where
  "show_v6 a =
     (if is_4in6 a then ''::ffff:'' @ show_v4 (ucast a)
      else (let gs = groups_of a; (s, l) = zero_run gs
            in if l = 0 then join '':'' (map show_hex gs)
               else join '':'' (map show_hex (take s gs)) @ ''::'' @ join '':'' (map show_hex (drop (s + l) gs))))"

fun show_addr :: "addr \<Rightarrow> string" where
  "show_addr (V4 a) = show_v4 a"
| "show_addr (V6 a z) = show_v6 a @ (if z = [] then [] else ''%'' @ z)"

definition show_prefix :: "prefix_t \<Rightarrow> string" where
  "show_prefix p = (if px_bits p < 0 then ''invalid Prefix'' else show_addr (px_addr p) @ ''/'' @ itoa (px_bits p))"

subsection \<open>Ranges\<close>

lemma drop_bit_more:
  fixes a b :: "'a::len word"
  assumes "drop_bit k b = drop_bit k a" "k \<le> m"
  shows "drop_bit m b = drop_bit m a"
proof -
  have "drop_bit m x = drop_bit (m - k) (drop_bit k x)" for x :: "'a word"
    using assms(2) by (simp add: drop_bit_drop_bit)
  then show ?thesis using assms(1) by metis
qed

lemma drop_bit_masked:
  fixes a :: "'a::len word"
  shows "drop_bit k (push_bit k (drop_bit k a)) = drop_bit k a"
  by (rule bit_word_eqI) (auto simp: bit_drop_bit_eq bit_push_bit_iff dest: bit_imp_le_length)

end
