(* ===== verification/Protect.thy ===== *)
theory Protect
  imports Effects Netip
begin

text \<open>
  The security actions, \<open>internal/agent/protect_handlers.go\<close> with the embedded ranges of
  \<open>cloudflare_ips.go\<close>, and the port rules of \<open>firewall_handlers.go\<close>: validation of addresses,
  jails, durations and ports, and the handlers for ufw, firewalld, iptables, fail2ban, CrowdSec and
  the Cloudflare origin lock. The tools are commands of the host; fetching the published ranges is
  a parameter.
\<close>

definition originLockTag :: string where "originLockTag = ''serverkit-origin-lock''"
definition maxBanSeconds :: int where "maxBanSeconds = 30 * 24 * 3600"
definition defaultBanSecs :: int where "defaultBanSecs = 3600"

definition parseNetwork :: "string \<Rightarrow> int \<Rightarrow> int \<Rightarrow> herror + prefix_t" where
  "parseNetwork s0 minBitsV4 minBitsV6 =
     (let s = trim_space s0 in
      rbind (if CHR ''/'' \<in> set s
             then (case ParsePrefix s of None \<Rightarrow> Inl (Refused ''invalid CIDR'') | Some p \<Rightarrow> Inr p)
             else (case ParseAddr s of
                 None \<Rightarrow> Inl (Refused ''invalid IP address'')
               | Some a \<Rightarrow> Inr (PrefixFrom (Unmap a) (int (BitLen (Unmap a)))))) (\<lambda>p0.
        if Zone (px_addr p0) \<noteq> [] then Inl (Refused ''IPv6 zones are not allowed'')
        else (case Masked (PrefixFrom (Unmap (px_addr p0)) (px_bits p0)) of
            None \<Rightarrow> Inl (Refused ''range is too broad'')
          | Some p \<Rightarrow>
              if IsUnspecified (px_addr p) \<or> px_bits p = 0 then Inl (Refused ''refusing unspecified/any address'')
              else if px_bits p < (if Is4 (px_addr p) then minBitsV4 else minBitsV6)
              then Inl (Refused ''range is too broad'') else Inr p)))"

definition parseBanTarget :: "string \<Rightarrow> herror + prefix_t" where
  "parseBanTarget s =
     rbind (parseNetwork s 16 32) (\<lambda>p.
       let a = px_addr p in
       if IsLoopback a \<or> IsMulticast a \<or> IsLinkLocalUnicast a
       then Inl (Refused ''refusing to act on loopback/multicast/link-local address'') else Inr p)"

definition jail_char :: "char \<Rightarrow> bool" where
  "jail_char c \<longleftrightarrow> is_digit c \<or> c \<in> set ''_-'' \<or> c \<in> set ''abcdefghijklmnopqrstuvwxyzABCDEFGHIJKLMNOPQRSTUVWXYZ''"

definition parseJail :: "string \<Rightarrow> herror + string" where
  "parseJail s = (if s \<noteq> [] \<and> length s \<le> 40 \<and> list_all jail_char s then Inr s else Inl (Refused ''invalid jail name''))"

definition parseDuration :: "int \<Rightarrow> herror + int" where
  "parseDuration secs =
     (if secs = 0 then Inr defaultBanSecs
      else if secs < 1 \<or> maxBanSeconds < secs then Inl (Refused ''duration_seconds out of range'') else Inr secs)"

definition parsePortProto :: "int \<Rightarrow> string \<Rightarrow> herror + string" where
  "parsePortProto port proto0 =
     (if port < 1 \<or> 65535 < port then Inl (Refused ''invalid port'')
      else (let proto = to_lower (trim_space proto0); pr = (if proto = [] then ''tcp'' else proto)
            in if pr \<noteq> ''tcp'' \<and> pr \<noteq> ''udp'' then Inl (Refused ''invalid protocol'') else Inr pr))"

definition requireLinux :: "env \<Rightarrow> (herror, unit) act" where
  "requireLinux env = guard (env_linux env) (Refused ''this action is only supported on Linux agents'')"

definition requireTool :: "env \<Rightarrow> string \<Rightarrow> (herror, unit) act" where
  "requireTool env name = guard (env_path env name) (Refused (name @ '' is not installed on this host''))"

definition runTool :: "env \<Rightarrow> string \<Rightarrow> string list \<Rightarrow> (herror, string) act" where
  "runTool env name args =
     abind (run env (Run name args)) (\<lambda>r.
       let text = trim_space (rr_out r) in
       case rr_err r of None \<Rightarrow> ret text | Some e \<Rightarrow> throw (CommandFailed name e text))"

text \<open>\<open>decodeParams\<close>: no parameters at all leave the zero value.\<close>

definition decodeParams :: "'a \<Rightarrow> (herror + 'a) option \<Rightarrow> herror + 'a" where
  "decodeParams zero params = (case params of None \<Rightarrow> Inr zero | Some r \<Rightarrow> r)"

subsection \<open>Firewall\<close>

definition ufwActive :: "string \<Rightarrow> bool" where
  "ufwActive out = contains (to_lower out) ''status: active''"

definition handleFirewallStatus :: "env \<Rightarrow> (herror, string \<times> bool \<times> string) act" where
  "handleFirewallStatus env =
     abind (requireLinux env) (\<lambda>_.
       if env_path env ''ufw''
       then abind (runTool env ''ufw'' [''status'', ''verbose'']) (\<lambda>out. ret (''ufw'', ufwActive out, out))
       else if env_path env ''firewall-cmd''
       then abind (runTool env ''firewall-cmd'' [''--list-all'']) (\<lambda>out. ret (''firewalld'', True, out))
       else throw (Refused ''no supported firewall found (ufw / firewalld)''))"

record ip_rule =
  ir_IP :: string
  ir_Port :: int
  ir_Protocol :: string

definition ip_rule_zero :: ip_rule where
  "ip_rule_zero = \<lparr>ir_IP = [], ir_Port = 0, ir_Protocol = []\<rparr>"

definition single :: "prefix_t \<Rightarrow> bool" where
  "single p \<longleftrightarrow> px_bits p = int (BitLen (px_addr p))"

definition ipArg :: "prefix_t \<Rightarrow> string" where
  "ipArg p = (if single p then show_addr (px_addr p) else show_prefix p)"

definition firewallIP :: "env \<Rightarrow> (herror + ip_rule) option \<Rightarrow> bool \<Rightarrow> (herror, string \<times> bool) act" where
  "firewallIP env params allow =
     abind (lift (decodeParams ip_rule_zero params)) (\<lambda>p.
     abind (lift (if allow then parseNetwork (ir_IP p) 8 16 else parseBanTarget (ir_IP p))) (\<lambda>net.
     abind (requireLinux env) (\<lambda>_.
     abind (requireTool env ''ufw'') (\<lambda>_.
     abind (if ir_Port p \<noteq> 0
            then abind (lift (parsePortProto (ir_Port p) (ir_Protocol p))) (\<lambda>proto.
              ret [''to'', ''any'', ''port'', itoa (ir_Port p), ''proto'', proto])
            else ret []) (\<lambda>tl.
     abind (runTool env ''ufw'' ((if allow then [''allow'', ''from'', ipArg net]
            else [''insert'', ''1'', ''deny'', ''from'', ipArg net]) @ tl)) (\<lambda>_.
       ret (ipArg net, allow)))))))"

definition handleFirewallAllowIP :: "env \<Rightarrow> (herror + ip_rule) option \<Rightarrow> (herror, string \<times> bool) act" where
  "handleFirewallAllowIP env params = firewallIP env params True"

definition handleFirewallDenyIP :: "env \<Rightarrow> (herror + ip_rule) option \<Rightarrow> (herror, string \<times> bool) act" where
  "handleFirewallDenyIP env params = firewallIP env params False"

text \<open>A tool run with its own error text, as \<open>firewall_handlers.go\<close> does.\<close>

definition run_checked :: "env \<Rightarrow> string \<Rightarrow> string list \<Rightarrow> (herror, unit) act" where
  "run_checked env name args = abind (runTool env name args) (\<lambda>_. ret ())"

definition firewallPort :: "env \<Rightarrow> herror + int \<times> string \<Rightarrow> bool \<Rightarrow> (herror, string \<times> string) act" where
  "firewallPort env params allow =
     abind (lift params) (\<lambda>(port, protocol).
     abind (guard (1 \<le> port \<and> port \<le> 65535) (Refused ''invalid port'')) (\<lambda>_.
       let proto0 = to_lower (trim_space protocol);
           proto = (if proto0 \<noteq> ''tcp'' \<and> proto0 \<noteq> ''udp'' then ''udp'' else proto0);
           spec = itoa port @ ''/'' @ proto
       in abind (guard (env_linux env) (Refused ''firewall management is only supported on Linux agents'')) (\<lambda>_.
         if env_path env ''ufw''
         then abind (run_checked env ''ufw'' [if allow then ''allow'' else ''deny'', spec]) (\<lambda>_. ret (''ufw'', spec))
         else if env_path env ''firewall-cmd''
         then (let flag = (if allow then ''--add-port'' else ''--remove-port'') @ ''='' @ spec in
           abind (run_checked env ''firewall-cmd'' [flag]) (\<lambda>_.
           abind (run env (Run ''firewall-cmd'' [flag, ''--permanent''])) (\<lambda>_.
           abind (run env (Run ''firewall-cmd'' [''--reload''])) (\<lambda>_. ret (''firewalld'', spec)))))
         else if env_path env ''iptables''
         then abind (run_checked env ''iptables''
             [if allow then ''-I'' else ''-D'', ''INPUT'', ''-p'', proto, ''--dport'', itoa port, ''-j'', ''ACCEPT'']) (\<lambda>_.
           ret (''iptables'', spec))
         else throw (Refused ''no supported firewall found (ufw / firewalld / iptables)''))))"

definition handleFirewallAllowPort :: "env \<Rightarrow> herror + int \<times> string \<Rightarrow> (herror, string \<times> string) act" where
  "handleFirewallAllowPort env params = firewallPort env params True"

definition handleFirewallDenyPort :: "env \<Rightarrow> herror + int \<times> string \<Rightarrow> (herror, string \<times> string) act" where
  "handleFirewallDenyPort env params = firewallPort env params False"

subsection \<open>fail2ban and CrowdSec\<close>

definition handleFail2banStatus :: "env \<Rightarrow> (herror + string) option \<Rightarrow> (herror, string \<times> string) act" where
  "handleFail2banStatus env params =
     abind (lift (decodeParams [] params)) (\<lambda>jail.
     abind (if jail \<noteq> [] then abind (lift (parseJail jail)) (\<lambda>j. ret [''status'', j]) else ret [''status'']) (\<lambda>args.
     abind (requireLinux env) (\<lambda>_.
     abind (requireTool env ''fail2ban-client'') (\<lambda>_.
     abind (runTool env ''fail2ban-client'' args) (\<lambda>out. ret (jail, out))))))"

definition fail2banSet :: "env \<Rightarrow> (herror + string \<times> string) option \<Rightarrow> string \<Rightarrow> (herror, string \<times> string \<times> string) act" where
  "fail2banSet env params verb =
     abind (lift (decodeParams ([], []) params)) (\<lambda>(jail0, ip).
     abind (lift (parseJail jail0)) (\<lambda>jail.
     abind (lift (parseBanTarget ip)) (\<lambda>pre.
     abind (guard (single pre) (Refused ''fail2ban acts on single IP addresses, not ranges'')) (\<lambda>_.
     abind (requireLinux env) (\<lambda>_.
     abind (requireTool env ''fail2ban-client'') (\<lambda>_.
     abind (runTool env ''fail2ban-client'' [''set'', jail, verb, show_addr (px_addr pre)]) (\<lambda>out.
       ret (jail, show_addr (px_addr pre), out))))))))"

definition handleFail2banBan :: "env \<Rightarrow> (herror + string \<times> string) option \<Rightarrow> (herror, string \<times> string \<times> string) act" where
  "handleFail2banBan env params = fail2banSet env params ''banip''"

definition handleFail2banUnban :: "env \<Rightarrow> (herror + string \<times> string) option \<Rightarrow> (herror, string \<times> string \<times> string) act" where
  "handleFail2banUnban env params = fail2banSet env params ''unbanip''"

definition handleCrowdsecDecisionsList :: "env \<Rightarrow> (string \<Rightarrow> bool) \<Rightarrow> (herror, string) act" where
  "handleCrowdsecDecisionsList env json_valid =
     abind (requireLinux env) (\<lambda>_.
     abind (requireTool env ''cscli'') (\<lambda>_.
     abind (runTool env ''cscli'' [''decisions'', ''list'', ''-o'', ''json'']) (\<lambda>out.
       if out = [] \<or> out = ''null'' then ret ''[]''
       else if json_valid out then ret out
       else throw (Refused ''cscli returned non-JSON output''))))"

record crowdsec_params =
  cp_IP :: string
  cp_Duration :: int
  cp_Reason :: string

definition crowdsec_zero :: crowdsec_params where
  "crowdsec_zero = \<lparr>cp_IP = [], cp_Duration = 0, cp_Reason = []\<rparr>"

definition cscliTarget :: "prefix_t \<Rightarrow> string list" where
  "cscliTarget p = (if single p then [''--ip'', show_addr (px_addr p)] else [''--range'', show_prefix p])"

definition handleCrowdsecBan :: "env \<Rightarrow> (herror + crowdsec_params) option \<Rightarrow> (herror, string \<times> int \<times> string) act" where
  "handleCrowdsecBan env params =
     abind (lift (decodeParams crowdsec_zero params)) (\<lambda>p.
     abind (lift (parseBanTarget (cp_IP p))) (\<lambda>target.
     abind (lift (parseDuration (cp_Duration p))) (\<lambda>secs.
     abind (requireLinux env) (\<lambda>_.
     abind (requireTool env ''cscli'') (\<lambda>_.
     abind (runTool env ''cscli'' ([''decisions'', ''add''] @ cscliTarget target @
         [''--duration'', itoa secs @ ''s'', ''--reason'', ''serverkit ban''])) (\<lambda>out.
       ret (show_prefix target, secs, out)))))))"

definition handleCrowdsecUnban :: "env \<Rightarrow> (herror + crowdsec_params) option \<Rightarrow> (herror, string \<times> string) act" where
  "handleCrowdsecUnban env params =
     abind (lift (decodeParams crowdsec_zero params)) (\<lambda>p.
     abind (lift (parseBanTarget (cp_IP p))) (\<lambda>target.
     abind (requireLinux env) (\<lambda>_.
     abind (requireTool env ''cscli'') (\<lambda>_.
     abind (runTool env ''cscli'' ([''decisions'', ''delete''] @ cscliTarget target)) (\<lambda>out.
       ret (show_prefix target, out))))))"

subsection \<open>Cloudflare origin lock\<close>

record lock_params =
  lp_Ports :: "int list"
  lp_Refresh :: "bool option"

definition lock_zero :: lock_params where
  "lock_zero = \<lparr>lp_Ports = [], lp_Refresh = None\<rparr>"

definition originLockPorts :: "int list \<Rightarrow> herror + int list" where
  "originLockPorts ports =
     (if ports = [] then Inr [80, 443]
      else if 8 < length ports then Inl (Refused ''too many ports'')
      else (case find (\<lambda>p. p < 1 \<or> 65535 < p \<or> p = 22) ports of
          None \<Rightarrow> Inr ports
        | Some p \<Rightarrow> if p < 1 \<or> 65535 < p then Inl (Refused ''invalid port'')
                    else Inl (Refused ''refusing to lock port 22: SSH access is never touched'')))"

definition cloudflareFallbackV4 :: "string list" where
  "cloudflareFallbackV4 =
     [''173.245.48.0/20'', ''103.21.244.0/22'', ''103.22.200.0/22'', ''103.31.4.0/22'',
      ''141.101.64.0/18'', ''108.162.192.0/18'', ''190.93.240.0/20'', ''188.114.96.0/20'',
      ''197.234.240.0/22'', ''198.41.128.0/17'', ''162.158.0.0/15'', ''104.16.0.0/13'',
      ''104.24.0.0/14'', ''172.64.0.0/13'', ''131.0.72.0/22'']"

definition cloudflareFallbackV6 :: "string list" where
  "cloudflareFallbackV6 =
     [''2400:cb00::/32'', ''2606:4700::/32'', ''2803:f800::/32'', ''2405:b500::/32'',
      ''2405:8100::/32'', ''2a06:98c0::/29'', ''2c0f:f248::/32'']"

text \<open>\<open>None\<close> is the panic of \<open>MustParsePrefix\<close>.\<close>

fun must_parse_all :: "string list \<Rightarrow> prefix_t list option" where
  "must_parse_all [] = Some []"
| "must_parse_all (s # ss) =
     (case (ParsePrefix s, must_parse_all ss) of (Some p, Some ps) \<Rightarrow> Some (p # ps) | _ \<Rightarrow> None)"

fun parseCIDRLines_of :: "string list \<Rightarrow> prefix_t list option" where
  "parseCIDRLines_of [] = Some []"
| "parseCIDRLines_of (l0 # ls) =
     (let l = trim_space l0 in
      if l = [] then parseCIDRLines_of ls
      else (case ParsePrefix l of
          None \<Rightarrow> None
        | Some p \<Rightarrow>
            if px_bits p = 0 then None
            else (case (Masked p, parseCIDRLines_of ls) of (Some m, Some ps) \<Rightarrow> Some (m # ps) | _ \<Rightarrow> None)))"

definition parseCIDRLines :: "string \<Rightarrow> prefix_t list option" where
  "parseCIDRLines body = parseCIDRLines_of (split_on (CHR 0x0A) body)"

definition cloudflareV4URL :: string where "cloudflareV4URL = ''https://www.cloudflare.com/ips-v4''"
definition cloudflareV6URL :: string where "cloudflareV6URL = ''https://www.cloudflare.com/ips-v6''"

definition cloudflareRanges :: "(string \<Rightarrow> string option) \<Rightarrow> bool \<Rightarrow> (prefix_t list \<times> string) option" where
  "cloudflareRanges fetch refresh =
     (let live = (\<lambda>u. case fetch u of None \<Rightarrow> None
                   | Some body \<Rightarrow> (case parseCIDRLines body of Some (p # ps) \<Rightarrow> Some (p # ps) | _ \<Rightarrow> None))
      in case (if refresh then (case live cloudflareV4URL of None \<Rightarrow> None
                 | Some a \<Rightarrow> map_option (\<lambda>b. a @ b) (live cloudflareV6URL)) else None) of
           Some ps \<Rightarrow> Some (ps, ''cloudflare.com'')
         | None \<Rightarrow> map_option (\<lambda>ps. (ps, ''embedded'')) (must_parse_all (cloudflareFallbackV4 @ cloudflareFallbackV6)))"

definition originLockPreflight :: "env \<Rightarrow> (herror, string) act" where
  "originLockPreflight env =
     abind (requireLinux env) (\<lambda>_.
     abind (guard (env_path env ''ufw'') (Refused ''origin lock needs ufw, which is not installed'')) (\<lambda>_.
       runTool env ''ufw'' [''status'']))"

definition lockRuleArgs :: "prefix_t \<Rightarrow> int \<Rightarrow> string list" where
  "lockRuleArgs c port =
     [''allow'', ''from'', show_prefix c, ''to'', ''any'', ''port'', itoa port, ''proto'', ''tcp'', ''comment'', originLockTag]"

definition webAppProfiles :: "string list" where
  "webAppProfiles = [''Nginx Full'', ''Nginx HTTP'', ''Nginx HTTPS'', ''Apache Full'', ''Apache'', ''Apache Secure'']"

text \<open>Best-effort runs, counting the ones that succeed.\<close>

fun count_runs :: "env \<Rightarrow> string list list \<Rightarrow> (herror, nat) act" where
  "count_runs env [] = ret 0"
| "count_runs env (a # as) =
     abind (attempt (runTool env ''ufw'' a)) (\<lambda>r.
     abind (count_runs env as) (\<lambda>n. ret ((case r of Inl _ \<Rightarrow> 0 | Inr _ \<Rightarrow> 1) + n)))"

definition delete_args :: "string \<Rightarrow> string list" where
  "delete_args spec = [''--force'', ''delete'', ''allow'', spec]"

definition lock_deletes :: "int list \<Rightarrow> bool \<Rightarrow> string list list" where
  "lock_deletes ports web =
     concat (map (\<lambda>p. [delete_args (itoa p @ ''/tcp''), delete_args (itoa p)]) ports) @
     (if web then map delete_args webAppProfiles else [])"

definition lock_allows :: "prefix_t list \<Rightarrow> int list \<Rightarrow> string list list" where
  "lock_allows ranges ports = concat (map (\<lambda>c. map (lockRuleArgs c) ports) ranges)"

record lock_reply =
  lr_ports :: "int list"
  lr_ranges :: nat
  lr_source :: string
  lr_removed :: nat

definition handleOriginLockApply :: "env \<Rightarrow> (string \<Rightarrow> string option) \<Rightarrow> (herror + lock_params) option \<Rightarrow> (herror, lock_reply) act" where
  "handleOriginLockApply env fetch params =
     abind (lift (decodeParams lock_zero params)) (\<lambda>p.
     abind (lift (originLockPorts (lp_Ports p))) (\<lambda>ports.
     abind (originLockPreflight env) (\<lambda>status.
     abind (guard (ufwActive status) (Refused ''ufw is installed but inactive; refusing to apply origin lock'')) (\<lambda>_.
       case cloudflareRanges fetch (lp_Refresh p \<noteq> Some False) of
         None \<Rightarrow> throw (Refused ''panic: MustParsePrefix'')
       | Some (ranges, source) \<Rightarrow>
           abind (amap (\<lambda>as. runTool env ''ufw'' as) (lock_allows ranges ports)) (\<lambda>_.
           abind (count_runs env (lock_deletes ports (lp_Ports p = []))) (\<lambda>removed.
             ret \<lparr>lr_ports = ports, lr_ranges = length ranges, lr_source = source, lr_removed = removed\<rparr>))))))"

definition trim_quotes :: "string \<Rightarrow> string" where
  "trim_quotes s =
     (let q = (\<lambda>c. c = CHR 0x27 \<or> c = CHR 0x22) in rev (dropWhile q (rev (dropWhile q s))))"

definition lock_rule_of_line :: "string \<Rightarrow> string list option" where
  "lock_rule_of_line line =
     (if \<not> contains line originLockTag then None
      else (let f = fields_of (trim_space line) in
        if length f < 3 \<or> f ! 0 \<noteq> ''ufw'' \<or> f ! 1 \<noteq> ''allow'' then None
        else (let args = map trim_quotes (takeWhile (\<lambda>w. w \<noteq> ''comment'') (tl f)) in
          if length args = 9 \<and> args ! 0 = ''allow'' \<and> args ! 1 = ''from'' \<and> args ! 3 = ''to'' \<and> args ! 4 = ''any'' \<and>
             args ! 5 = ''port'' \<and> args ! 7 = ''proto'' \<and> args ! 8 = ''tcp'' \<and> ParsePrefix (args ! 2) \<noteq> None \<and>
             (case atoi (args ! 6) of None \<Rightarrow> False | Some n \<Rightarrow> 1 \<le> n \<and> n \<le> 65535)
          then Some args else None)))"

definition taggedLockRules :: "string \<Rightarrow> string list list" where
  "taggedLockRules out = List.map_filter lock_rule_of_line (split_on (CHR 0x0A) out)"

definition handleOriginLockRemove :: "env \<Rightarrow> (herror + lock_params) option \<Rightarrow> (herror, int list \<times> nat) act" where
  "handleOriginLockRemove env params =
     abind (lift (decodeParams lock_zero params)) (\<lambda>p.
     abind (lift (originLockPorts (lp_Ports p))) (\<lambda>ports.
     abind (originLockPreflight env) (\<lambda>_.
     abind (amap (\<lambda>port. runTool env ''ufw'' [''allow'', itoa port @ ''/tcp'']) ports) (\<lambda>_.
     abind (runTool env ''ufw'' [''show'', ''added'']) (\<lambda>added.
     abind (count_runs env (map (\<lambda>args. [''--force'', ''delete''] @ args) (taggedLockRules added))) (\<lambda>removed.
       ret (ports, removed)))))))"

record lock_status =
  ls_ufw_active :: bool
  ls_applied :: bool
  ls_rule_count :: nat
  ls_locked_ports :: "int list"      \<comment> \<open>in map order, which is unspecified\<close>

definition handleOriginLockStatus :: "env \<Rightarrow> (herror, lock_status) act" where
  "handleOriginLockStatus env =
     abind (originLockPreflight env) (\<lambda>status.
     abind (runTool env ''ufw'' [''show'', ''added'']) (\<lambda>added.
       let rules = taggedLockRules added in
       ret \<lparr>ls_ufw_active = ufwActive status, ls_applied = (rules \<noteq> []), ls_rule_count = length rules,
            ls_locked_ports = remdups (map (\<lambda>r. case atoi (r ! 6) of Some n \<Rightarrow> n | None \<Rightarrow> 0) rules)\<rparr>))"

subsection \<open>What may be banned\<close>

lemma mask_addr_zone [simp]: "Zone (mask_addr n a) = Zone a"
  by (cases a) auto

lemma parseNetwork_shape:
  assumes "parseNetwork s m4 m6 = Inr p"
  shows "\<exists>a. px_addr p = mask_addr (nat (px_bits p)) a \<and> Zone a = [] \<and> \<not> IsUnspecified (px_addr p) \<and>
    0 < px_bits p \<and> px_bits p \<le> int (BitLen (px_addr p)) \<and> (if Is4 (px_addr p) then m4 else m6) \<le> px_bits p"
proof -
  have bl: "BitLen (mask_addr n a) = BitLen a" for n a by (cases a) auto
  have bw: "BitLen (withoutZone a) = BitLen a" for a by (cases a) auto
  have zw: "Zone (withoutZone a) = []" for a by (cases a) auto
  obtain p0 :: prefix_t where p0: "Masked (PrefixFrom (Unmap (px_addr p0)) (px_bits p0)) = Some p"
      "\<not> IsUnspecified (px_addr p)" "px_bits p \<noteq> 0" "\<not> px_bits p < (if Is4 (px_addr p) then m4 else m6)"
  proof -
    obtain p0 :: prefix_t where "(if Zone (px_addr p0) \<noteq> [] then Inl (Refused ''IPv6 zones are not allowed'')
        else (case Masked (PrefixFrom (Unmap (px_addr p0)) (px_bits p0)) of
            None \<Rightarrow> Inl (Refused ''range is too broad'')
          | Some p \<Rightarrow>
              if IsUnspecified (px_addr p) \<or> px_bits p = 0 then Inl (Refused ''refusing unspecified/any address'')
              else if px_bits p < (if Is4 (px_addr p) then m4 else m6)
              then Inl (Refused ''range is too broad'') else Inr p)) = Inr p"
      using assms unfolding parseNetwork_def Let_def rbind_Inr_iff by (elim exE conjE) (rule that)
    then show ?thesis by (intro that [of p0]) (auto split: if_splits option.splits)
  qed
  let ?q = "PrefixFrom (Unmap (px_addr p0)) (px_bits p0)"
  have p: "p = ?q\<lparr>px_addr := mask_addr (nat (px_bits ?q)) (px_addr ?q)\<rparr>" "0 \<le> px_bits ?q"
    using p0(1) by (auto simp: Masked_def split: if_splits)
  have a: "Zone (px_addr ?q) = []" "px_bits ?q \<le> int (BitLen (px_addr ?q))"
    by (auto simp: PrefixFrom_def zw bw)
  show ?thesis
    by (rule exI [of _ "px_addr ?q"]) (use p a p0(2-4) bl in auto)
qed

lemma masked_zero:
  fixes a :: "'a::len word"
  assumes "a = push_bit k (drop_bit k a')" "drop_bit k a = drop_bit k 1" "a \<noteq> 0"
  shows "a = 1"
proof (cases "k = 0")
  case True
  then show ?thesis using assms(2) by simp
next
  case False
  then have "drop_bit k (1 :: 'a word) = 0" by (cases k) simp_all
  then have "drop_bit k a' = 0" using assms(1,2) drop_bit_masked [of k a'] by metis
  then show ?thesis using assms(1,3) by simp
qed

lemma ban_range:
  assumes "parseBanTarget s = Inr p" and "in_range (nat (px_bits p)) (px_addr p) b"
    and "\<forall>a z. b = V6 a z \<longrightarrow> \<not> is_4in6 a"
  shows "\<not> IsLoopback b \<and> \<not> IsMulticast b \<and> \<not> IsLinkLocalUnicast b"
proof -
  have pn: "parseNetwork s 16 32 = Inr p" and safe: "\<not> IsLoopback (px_addr p)" "\<not> IsMulticast (px_addr p)" "\<not> IsLinkLocalUnicast (px_addr p)"
    using assms(1) by (auto simp: parseBanTarget_def Let_def rbind_Inr_iff split: if_splits)
  obtain a where a: "px_addr p = mask_addr (nat (px_bits p)) a" "Zone a = []" "\<not> IsUnspecified (px_addr p)"
      "(if Is4 (px_addr p) then 16 else 32) \<le> px_bits p"
    using parseNetwork_shape [OF pn] by auto
  show ?thesis
  proof (cases "px_addr p")
    case (V4 w)
    then obtain v where b: "b = V4 v" "drop_bit (32 - nat (px_bits p)) v = drop_bit (32 - nat (px_bits p)) w"
      using assms(2) by (cases b) auto
    have k: "32 - nat (px_bits p) \<le> 16" using a(4) V4 by simp
    then have "drop_bit 24 v = drop_bit 24 w" "drop_bit 28 v = drop_bit 28 w" "drop_bit 16 v = drop_bit 16 w"
      using drop_bit_more [OF b(2)] by auto
    then show ?thesis using b safe V4 by simp
  next
    case (V6 w z)
    then obtain v y where b: "b = V6 v y" "drop_bit (128 - nat (px_bits p)) v = drop_bit (128 - nat (px_bits p)) w"
      using assms(2) by (cases b) auto
    have z: "z = []" using a(1,2) V6 by (metis Zone.simps(2) mask_addr_zone)
    have k: "128 - nat (px_bits p) \<le> 96" using a(4) V6 by simp
    have d: "drop_bit 120 v = drop_bit 120 w" "drop_bit 118 v = drop_bit 118 w"
      using drop_bit_more [OF b(2)] k by auto
    have n4: "\<not> is_4in6 v" using assms(3) b by blast
    have w4: "is_4in6 w \<Longrightarrow> drop_bit 120 w = 0 \<and> drop_bit 118 w = 0"
    proof -
      assume "is_4in6 w"
      then have "drop_bit (88 + 32) w = drop_bit 88 (0xffff :: 128 word)" "drop_bit (86 + 32) w = drop_bit 86 (0xffff :: 128 word)"
        unfolding is_4in6_def by (metis drop_bit_drop_bit)+
      then show ?thesis by simp
    qed
    have "v \<noteq> 1"
    proof
      assume "v = 1"
      obtain a' where "a = V6 a' z" using a(1) V6 by (cases a) auto
      then have "w = push_bit (128 - nat (px_bits p)) (drop_bit (128 - nat (px_bits p)) a')" using a(1) V6 by simp
      moreover have "w \<noteq> 0" using a(3) V6 z by simp
      ultimately have "w = 1" using masked_zero b(2) \<open>v = 1\<close> by metis
      then show False using safe(1) V6 by (simp add: is_4in6_def)
    qed
    moreover have "drop_bit 120 v \<noteq> 0xff" "drop_bit 118 v \<noteq> 0x3fa"
      using safe(2,3) V6 w4 d by (cases "is_4in6 w"; simp)+
    ultimately show ?thesis using b n4 by simp
  qed
qed

subsection \<open>Runs of ufw\<close>

lemma runTool_eq:
  "runTool env n as t = (case rr_err (env_run env t (Run n as)) of
     None \<Rightarrow> Inr (trim_space (rr_out (env_run env t (Run n as))))
   | Some e \<Rightarrow> Inl (CommandFailed n e (trim_space (rr_out (env_run env t (Run n as))))), t @ [Run n as])"
  by (simp add: runTool_def abind_def run_def Let_def ret_def throw_def split: option.split)

definition succeeds :: "env \<Rightarrow> trace \<Rightarrow> cmd \<Rightarrow> bool" where
  "succeeds env t c \<longleftrightarrow> rr_err (env_run env t c) = None"

lemma amap_runs:
  "amap (runTool env n) xs t = (r, t') \<Longrightarrow> \<exists>k \<le> length xs. t' = t @ map (Run n) (take k xs) \<and>
     (\<forall>ys. r = Inr ys \<longrightarrow> k = length xs \<and> (\<forall>i < length xs. succeeds env (t @ map (Run n) (take i xs)) (Run n (xs ! i))))"
proof (induction xs arbitrary: t r t')
  case Nil
  then show ?case by (simp add: ret_def)
next
  case (Cons x xs)
  show ?case
  proof (cases "rr_err (env_run env t (Run n x))")
    case (Some e)
    then have "t' = t @ [Run n x]" "\<exists>e. r = Inl e" using Cons.prems by (auto simp: abind_def runTool_eq)
    then show ?thesis by (intro exI [of _ 1]) auto
  next
    case None
    obtain r1 t1 where m: "amap (runTool env n) xs (t @ [Run n x]) = (r1, t1)" by (rule prod.exhaust)
    obtain y where "runTool env n x t = (Inr y, t @ [Run n x])" using None by (simp add: runTool_eq)
    then have r: "t' = t1" "(\<exists>ys. r = Inr ys) \<longleftrightarrow> (\<exists>ys. r1 = Inr ys)"
      using Cons.prems m by (auto simp: abind_def ret_def split: sum.splits)
    obtain k where k: "k \<le> length xs" "t1 = (t @ [Run n x]) @ map (Run n) (take k xs)"
        "\<forall>ys. r1 = Inr ys \<longrightarrow> k = length xs \<and> (\<forall>i < length xs. succeeds env ((t @ [Run n x]) @ map (Run n) (take i xs)) (Run n (xs ! i)))"
      using Cons.IH [OF m] by blast
    have "succeeds env (t @ map (Run n) (take i (x # xs))) (Run n ((x # xs) ! i))"
      if "r1 = Inr ys" "i < Suc (length xs)" for i ys
      using k(3) that None by (cases i) (auto simp: succeeds_def)
    then show ?thesis using k r by (intro exI [of _ "Suc k"]) auto
  qed
qed

lemma count_runs_trace: "\<exists>n. count_runs env as t = (Inr n, t @ map (Run ''ufw'') as)"
proof (induction as arbitrary: t)
  case (Cons a as)
  show ?case using Cons [of "t @ [Run ''ufw'' a]"]
    by (auto simp: abind_def attempt_def runTool_eq ret_def split: option.splits)
qed (simp add: ret_def)

lemma fallback_parses: "\<exists>ps. must_parse_all (cloudflareFallbackV4 @ cloudflareFallbackV6) = Some ps \<and> ps \<noteq> []"
proof -
  have "(case must_parse_all (cloudflareFallbackV4 @ cloudflareFallbackV6) of Some (p # ps) \<Rightarrow> True | _ \<Rightarrow> False) = True"
    by code_simp
  then show ?thesis by (auto split: option.splits list.splits)
qed

lemma ranges_some: "\<exists>ps src. cloudflareRanges fetch refresh = Some (ps, src) \<and> ps \<noteq> []"
  using fallback_parses
  by (auto simp: cloudflareRanges_def Let_def split: option.splits list.splits)

subsection \<open>Properties\<close>

text \<open>
  C18. A ban target is safe as a whole range: no address in an accepted prefix is loopback,
  link-local or multicast (IPv4-mapped addresses inside an IPv6 range aside), although only the
  network address is tested; the prefix is masked, without zone, at least /16 for IPv4 and /32 for
  IPv6, and never the unspecified address.
\<close>

theorem ban_target_range_safe:
  assumes "parseBanTarget s = Inr p"
  shows "(\<forall>b. in_range (nat (px_bits p)) (px_addr p) b \<and> (\<forall>a z. b = V6 a z \<longrightarrow> \<not> is_4in6 a) \<longrightarrow>
       \<not> IsLoopback b \<and> \<not> IsMulticast b \<and> \<not> IsLinkLocalUnicast b) \<and>
     (if Is4 (px_addr p) then 16 else 32) \<le> px_bits p \<and> px_bits p \<le> int (BitLen (px_addr p)) \<and>
     Zone (px_addr p) = [] \<and> \<not> IsUnspecified (px_addr p)"
proof -
  have "parseNetwork s 16 32 = Inr p"
    using assms by (auto simp: parseBanTarget_def Let_def rbind_Inr_iff split: if_splits)
  then show ?thesis using parseNetwork_shape [of s 16 32 p] ban_range [OF assms] by (metis mask_addr_zone)
qed

theorem ban_target_range_safe_witness:
  "\<exists>p. parseBanTarget ''10.1.2.3/24'' = Inr p \<and>
     (\<forall>b. in_range (nat (px_bits p)) (px_addr p) b \<and> (\<forall>a z. b = V6 a z \<longrightarrow> \<not> is_4in6 a) \<longrightarrow>
       \<not> IsLoopback b \<and> \<not> IsMulticast b \<and> \<not> IsLinkLocalUnicast b)"
proof -
  have p: "parseBanTarget ''10.1.2.3/24'' = Inr \<lparr>px_addr = V4 0x0a010200, px_bits = 24\<rparr>" by code_simp
  from ban_target_range_safe [OF p] p show ?thesis by blast
qed

text \<open>
  C20. The origin lock never cuts the site off: the handler runs \<open>ufw status\<close>, then allow rules
  and only then deletions. Any deletion was preceded by the allow rule of every range and every
  port, at least one range, each of which succeeded when it was run; and nothing is ever deleted
  for port 22.
\<close>

theorem origin_lock_allows_first:
  assumes "handleOriginLockApply env fetch params t = (r, t')"
  shows "\<exists>pre allows dels. t' = t @ pre @ map (Run ''ufw'') (allows @ dels) \<and> pre \<in> {[], [Run ''ufw'' [''status'']]} \<and>
     (\<forall>a \<in> set allows. hd a = ''allow'') \<and>
     (dels \<noteq> [] \<longrightarrow> (\<exists>ranges ports. ranges \<noteq> [] \<and> ports \<noteq> [] \<and> 22 \<notin> set ports \<and> allows = lock_allows ranges ports \<and>
        (\<forall>i < length allows. rr_err (env_run env (t @ pre @ map (Run ''ufw'') (take i allows)) (Run ''ufw'' (allows ! i))) = None) \<and>
        (\<exists>web. dels = lock_deletes ports web)))"
proof -
  let ?P = "\<lambda>t'. \<exists>pre allows dels. t' = t @ pre @ map (Run ''ufw'') (allows @ dels) \<and> pre \<in> {[], [Run ''ufw'' [''status'']]} \<and>
     (\<forall>a \<in> set allows. hd a = ''allow'') \<and>
     (dels \<noteq> [] \<longrightarrow> (\<exists>ranges ports. ranges \<noteq> [] \<and> ports \<noteq> [] \<and> 22 \<notin> set ports \<and> allows = lock_allows ranges ports \<and>
        (\<forall>i < length allows. rr_err (env_run env (t @ pre @ map (Run ''ufw'') (take i allows)) (Run ''ufw'' (allows ! i))) = None) \<and>
        (\<exists>web. dels = lock_deletes ports web)))"
  have none: "?P t" by (intro exI [of _ "[]"]) simp
  let ?st = "t @ [Run ''ufw'' [''status'']]"
  have status: "?P ?st" by (rule exI [of _ "[Run ''ufw'' [''status'']]"], intro exI [of _ "[]"]) simp
  have pre: "snd (originLockPreflight env t) \<in> {t, ?st} \<and>
      (\<forall>out. fst (originLockPreflight env t) = Inr out \<longrightarrow> snd (originLockPreflight env t) = ?st)"
    by (simp add: originLockPreflight_def requireLinux_def abind_def guard_def runTool_eq split: option.split)
  obtain p ports where pp: "decodeParams lock_zero params = Inr p" "originLockPorts (lp_Ports p) = Inr ports" if "t' \<noteq> t"
    using assms none by (auto simp: handleOriginLockApply_def abind_def lift_def split: sum.splits prod.splits)
  obtain ranges source where rs: "cloudflareRanges fetch (lp_Refresh p \<noteq> Some False) = Some (ranges, source)" "ranges \<noteq> []"
    using ranges_some by blast
  show ?thesis
  proof (cases "t' = t \<or> t' = ?st")
    case True
    then show ?thesis using none status by blast
  next
    case False
    then have "t' \<noteq> t" by blast
    note pp = pp [OF this]
    obtain out where o: "originLockPreflight env t = (Inr out, ?st)"
      using assms False pre
      by (cases "originLockPreflight env t") (auto simp: handleOriginLockApply_def abind_def lift_def pp split: sum.splits)
    have active: "ufwActive out"
      using assms False o by (auto simp: handleOriginLockApply_def abind_def lift_def guard_def pp split: if_splits)
    obtain r1 t1 where m: "amap (runTool env ''ufw'') (lock_allows ranges ports) ?st = (r1, t1)" by (rule prod.exhaust)
    obtain k where k: "t1 = ?st @ map (Run ''ufw'') (take k (lock_allows ranges ports))"
      "\<forall>ys. r1 = Inr ys \<longrightarrow> k = length (lock_allows ranges ports) \<and> (\<forall>i < length (lock_allows ranges ports).
         succeeds env (?st @ map (Run ''ufw'') (take i (lock_allows ranges ports))) (Run ''ufw'' (lock_allows ranges ports ! i)))"
      using amap_runs [OF m] by blast
    have allow: "\<forall>a \<in> set (lock_allows ranges ports). hd a = ''allow''"
      by (auto simp: lock_allows_def lockRuleArgs_def)
    show ?thesis
    proof (cases r1)
      case (Inl e)
      then have "t' = t1"
        using assms o active m by (simp add: handleOriginLockApply_def abind_def lift_def guard_def pp rs(1))
      then show ?thesis
        using k(1) allow by (intro exI [of _ "[Run ''ufw'' [''status'']]"] exI [of _ "take k (lock_allows ranges ports)"] exI [of _ "[]"])
          (auto dest: in_set_takeD)
    next
      case (Inr ys)
      define dels where "dels = lock_deletes ports (lp_Ports p = [])"
      obtain n where n: "count_runs env dels t1 = (Inr n, t1 @ map (Run ''ufw'') dels)" using count_runs_trace by blast
      then have "t' = t1 @ map (Run ''ufw'') dels"
        using assms o active m Inr by (simp add: handleOriginLockApply_def abind_def lift_def guard_def ret_def pp rs(1) dels_def)
      moreover have "ports \<noteq> []" "22 \<notin> set ports"
        using pp(2) by (auto simp: originLockPorts_def find_None_iff split: if_splits option.splits)
      ultimately show ?thesis
        using k Inr allow rs(2) dels_def
        by (intro exI [of _ "[Run ''ufw'' [''status'']]"] exI [of _ "lock_allows ranges ports"] exI [of _ dels])
          (auto simp: succeeds_def)
    qed
  qed
qed

theorem origin_lock_allows_first_witness:
  "\<exists>pre allows dels. snd (handleOriginLockApply \<lparr>env_linux = True, env_path = (\<lambda>_. True), env_run = (\<lambda>_ _. \<lparr>rr_out = ''Status: active'', rr_stderr = [], rr_err = None\<rparr>)\<rparr>
       (\<lambda>_. None) None []) = [] @ pre @ map (Run ''ufw'') (allows @ dels) \<and> (\<forall>a \<in> set allows. hd a = ''allow'')"
  using origin_lock_allows_first [OF prod.collapse [symmetric]] by blast

end
