(* ===== verification/Crypto.thy ===== *)
theory Crypto
  imports Prelude
begin

text \<open>
  The parts of the Go standard library that the agent signs with: \<open>crypto/sha256\<close>,
  \<open>crypto/hmac\<close> and \<open>encoding/hex\<close>, on byte strings. The definitions compute (they give the
  published digests), but nothing below them depends on how they are computed.
\<close>

unbundle bit_operations_syntax

subsection \<open>SHA-256\<close>

text \<open>
  The round constants are the leading 32 bits of the fractions of the cube roots of the first 64
  primes, the initial state those of the square roots of the first eight.
\<close>

type_synonym w32 = "32 word"

definition rotr :: "nat \<Rightarrow> w32 \<Rightarrow> w32" where
  "rotr n x = word_rotr n x"

definition sha_k :: "w32 list" where
  "sha_k =
     [1116352408, 1899447441, 3049323471, 3921009573, 961987163, 1508970993,
      2453635748, 2870763221, 3624381080, 310598401, 607225278, 1426881987,
      1925078388, 2162078206, 2614888103, 3248222580, 3835390401, 4022224774,
      264347078, 604807628, 770255983, 1249150122, 1555081692, 1996064986,
      2554220882, 2821834349, 2952996808, 3210313671, 3336571891, 3584528711,
      113926993, 338241895, 666307205, 773529912, 1294757372, 1396182291,
      1695183700, 1986661051, 2177026350, 2456956037, 2730485921, 2820302411,
      3259730800, 3345764771, 3516065817, 3600352804, 4094571909, 275423344,
      430227734, 506948616, 659060556, 883997877, 958139571, 1322822218,
      1537002063, 1747873779, 1955562222, 2024104815, 2227730452, 2361852424,
      2428436474, 2756734187, 3204031479, 3329325298]"

definition sha_init :: "w32 list" where
  "sha_init =
     [1779033703, 3144134277, 1013904242, 2773480762, 1359893119, 2600822924,
      528734635, 1541459225]"

text \<open>Big-endian bytes of a number, and words from bytes.\<close>

fun be_bytes :: "nat \<Rightarrow> nat \<Rightarrow> string" where
  "be_bytes 0 n = []"
| "be_bytes (Suc k) n = be_bytes k (n div 256) @ [char_of (n mod 256)]"

fun words_of :: "string \<Rightarrow> w32 list" where
  "words_of (a # b # c # d # cs) =
     word_of_nat (((of_char a * 256 + of_char b) * 256 + of_char c) * 256 + of_char d) # words_of cs"
| "words_of _ = []"

definition sha_pad :: "string \<Rightarrow> string" where
  "sha_pad m = m @ CHR 0x80 # replicate ((119 - length m mod 64) mod 64) (CHR 0x00) @ be_bytes 8 (8 * length m)"

fun sha_schedule :: "nat \<Rightarrow> w32 list \<Rightarrow> w32 list" where
  "sha_schedule 0 ws = ws"
| "sha_schedule (Suc n) ws =
     (let i = length ws; x = ws ! (i - 15); y = ws ! (i - 2);
          s0 = rotr 7 x XOR rotr 18 x XOR drop_bit 3 x;
          s1 = rotr 17 y XOR rotr 19 y XOR drop_bit 10 y
      in sha_schedule n (ws @ [ws ! (i - 16) + s0 + ws ! (i - 7) + s1]))"

fun sha_round :: "w32 list \<Rightarrow> w32 \<Rightarrow> w32 list" where
  "sha_round [a, b, c, d, e, f, g, h] kw =
     (let t1 = h + (rotr 6 e XOR rotr 11 e XOR rotr 25 e) + ((e AND f) XOR (NOT e AND g)) + kw;
          t2 = (rotr 2 a XOR rotr 13 a XOR rotr 22 a) + ((a AND b) XOR (a AND c) XOR (b AND c))
      in [t1 + t2, a, b, c, d + t1, e, f, g])"
| "sha_round s kw = s"

definition sha_block :: "w32 list \<Rightarrow> w32 list \<Rightarrow> w32 list" where
  "sha_block h ws = map2 (+) h (fold (\<lambda>kw s. sha_round s kw) (map2 (+) sha_k (sha_schedule 48 ws)) h)"

fun sha_blocks :: "nat \<Rightarrow> w32 list \<Rightarrow> w32 list \<Rightarrow> w32 list" where
  "sha_blocks 0 ws h = h"
| "sha_blocks (Suc n) ws h = sha_blocks n (drop 16 ws) (sha_block h (take 16 ws))"

definition sha256 :: "string \<Rightarrow> string" where
  "sha256 m =
     (let ws = words_of (sha_pad m)
      in concat (map (\<lambda>w. be_bytes 4 (unat w)) (sha_blocks (length ws div 16) ws sha_init)))"

subsection \<open>HMAC and hexadecimal\<close>

definition xor_pad :: "nat \<Rightarrow> string \<Rightarrow> string" where
  "xor_pad p k =
     map (\<lambda>c. char_of (of_char c XOR p :: nat)) (k @ replicate (64 - length k) (CHR 0x00))"

definition hmac_sha256 :: "string \<Rightarrow> string \<Rightarrow> string" where
  "hmac_sha256 key m =
     (let k = (if 64 < length key then sha256 key else key)
      in sha256 (xor_pad 0x5C k @ sha256 (xor_pad 0x36 k @ m)))"

definition hex_digit :: "nat \<Rightarrow> char" where
  "hex_digit d = ''0123456789abcdef'' ! d"

definition hex_encode :: "string \<Rightarrow> string" where
  "hex_encode s = concat (map (\<lambda>c. [hex_digit (of_char c div 16), hex_digit (of_char c mod 16)]) s)"

text \<open>\<open>hmac.New(sha256.New, key)\<close>, \<open>Write(message)\<close>, \<open>hex.EncodeToString(Sum(nil))\<close>.\<close>

definition hmac_hex :: "string \<Rightarrow> string \<Rightarrow> string" where
  "hmac_hex key m = hex_encode (hmac_sha256 key m)"

subsection \<open>Shape of the digests\<close>

lemma length_be_bytes [simp]: "length (be_bytes k n) = k"
  by (induction k arbitrary: n) simp_all

lemma length_sha_round [simp]: "length (sha_round s kw) = length s"
  by (cases "(s, kw)" rule: sha_round.cases) (simp_all add: Let_def)

lemma length_fold_sha_round: "length (fold (\<lambda>kw s. sha_round s kw) ks s) = length s"
  by (induction ks arbitrary: s) simp_all

lemma length_sha_block [simp]: "length (sha_block h ws) = length h"
  by (simp add: sha_block_def length_fold_sha_round)

lemma length_sha_blocks [simp]: "length (sha_blocks n ws h) = length h"
  by (induction n arbitrary: ws h) simp_all

lemma length_sha256: "length (sha256 m) = 32"
  by (simp add: sha256_def Let_def length_concat sum_list_triv comp_def sha_init_def)

lemma length_hex_encode: "length (hex_encode s) = 2 * length s"
  by (simp add: hex_encode_def length_concat sum_list_triv comp_def)

lemma length_hmac_hex: "length (hmac_hex k m) = 64"
  by (simp add: hmac_hex_def length_hex_encode hmac_sha256_def Let_def length_sha256)

lemma hmac_hex_not_empty [simp]: "hmac_hex k m \<noteq> []"
  using length_hmac_hex [of k m] by auto

lemma hex_encode_digits: "set (hex_encode s) \<subseteq> set ''0123456789abcdef''"
proof -
  have "set [hex_digit (of_char c div 16), hex_digit (of_char c mod 16)] \<subseteq> set ''0123456789abcdef''" for c
  proof -
    have d: "hex_digit n \<in> set ''0123456789abcdef''" if "n < 16" for n
      unfolding hex_digit_def by (rule nth_mem) (use that in simp)
    have "(of_char c :: nat) div 16 < 16" "(of_char c :: nat) mod 16 < 16"
      using nat_of_char_less_256 [of c] by (auto simp: div_less_iff_less_mult less_mult_imp_div_less)
    with d show ?thesis by simp
  qed
  then show ?thesis unfolding hex_encode_def set_concat set_map by blast
qed

end
