(* ===== verification/Auth.thy ===== *)
theory Auth
  imports Crypto
begin

text \<open>
  The authenticator, \<open>internal/auth/auth.go\<close>: the agent's credentials, the signatures computed from
  them, and the checks on what comes back. The read-write lock is not modelled (each method is one
  critical section); the clock is an argument, in milliseconds for message timestamps and in
  nanoseconds for session tokens.
\<close>

record authenticator =
  au_agentID :: string
  au_apiKey :: string
  au_apiSecret :: string
  au_level :: string

definition New :: "string \<Rightarrow> string \<Rightarrow> string \<Rightarrow> authenticator" where
  "New agentID apiKey apiSecret =
     \<lparr>au_agentID = agentID, au_apiKey = apiKey, au_apiSecret = apiSecret, au_level = []\<rparr>"

definition SetPermissionLevel :: "string \<Rightarrow> authenticator \<Rightarrow> authenticator" where
  "SetPermissionLevel l a = a\<lparr>au_level := l\<rparr>"

definition UpdateCredentials :: "string \<Rightarrow> string \<Rightarrow> authenticator \<Rightarrow> authenticator" where
  "UpdateCredentials apiKey apiSecret a = a\<lparr>au_apiKey := apiKey, au_apiSecret := apiSecret\<rparr>"

definition computeHMAC :: "authenticator \<Rightarrow> string \<Rightarrow> string" where
  "computeHMAC a message = hmac_hex (au_apiSecret a) message"

definition SignMessage :: "authenticator \<Rightarrow> int \<Rightarrow> string" where
  "SignMessage a timestamp = computeHMAC a (au_agentID a @ '':'' @ itoa timestamp)"

definition SignMessageWithNonce :: "authenticator \<Rightarrow> int \<Rightarrow> string \<Rightarrow> string" where
  "SignMessageWithNonce a timestamp nonce =
     computeHMAC a (au_agentID a @ '':'' @ itoa timestamp @ '':'' @ nonce)"

definition SignCommand :: "authenticator \<Rightarrow> string \<Rightarrow> string \<Rightarrow> int \<Rightarrow> string" where
  "SignCommand a commandID action timestamp =
     computeHMAC a (commandID @ '':'' @ action @ '':'' @ itoa timestamp)"

definition VerifySignature :: "authenticator \<Rightarrow> string \<Rightarrow> string \<Rightarrow> bool" where
  "VerifySignature a message signature \<longleftrightarrow> computeHMAC a message = signature"

text \<open>All the arithmetic is on \<open>int64\<close>; negating the least value gives it back.\<close>

definition VerifyTimestamp :: "int \<Rightarrow> int \<Rightarrow> int \<Rightarrow> bool" where
  "VerifyTimestamp now timestamp maxAgeSeconds =
     (let diff = int64 (now - timestamp);
          diff = (if diff < 0 then int64 (- diff) else diff)
      in diff \<le> int64 (maxAgeSeconds * 1000))"

definition GetAPIKeyPrefix :: "authenticator \<Rightarrow> string" where
  "GetAPIKeyPrefix a = (if length (au_apiKey a) < 12 then au_apiKey a else take 12 (au_apiKey a))"

text \<open>The nonce: sixteen random bytes, or two clock readings when the random source fails.\<close>

definition GenerateNonce :: "string option \<Rightarrow> int \<Rightarrow> int \<Rightarrow> string" where
  "GenerateNonce random now_ns now_ms =
     (case random of
        None \<Rightarrow> itoa now_ns @ ''-'' @ itoa now_ms
      | Some b \<Rightarrow> hex_encode b)"

record session_token =
  tok_Token :: string
  tok_ExpiresAt :: int

definition IsExpired :: "int \<Rightarrow> session_token \<Rightarrow> bool" where
  "IsExpired now s \<longleftrightarrow> tok_ExpiresAt s < now"

definition IsExpiringSoon :: "int \<Rightarrow> int \<Rightarrow> session_token \<Rightarrow> bool" where
  "IsExpiringSoon now within s \<longleftrightarrow> tok_ExpiresAt s < now + within"

subsection \<open>Signatures\<close>

lemma VerifySignature_own: "VerifySignature a m (computeHMAC a m)"
  by (simp add: VerifySignature_def)

lemma signature_not_empty: "VerifySignature a m s \<Longrightarrow> s \<noteq> []"
  by (auto simp: VerifySignature_def computeHMAC_def)

lemma GetAPIKeyPrefix_take: "GetAPIKeyPrefix a = take 12 (au_apiKey a)"
  by (simp add: GetAPIKeyPrefix_def)

lemma UpdateCredentials_simps [simp]:
  "au_apiKey (UpdateCredentials k s a) = k" "au_apiSecret (UpdateCredentials k s a) = s"
  "au_agentID (UpdateCredentials k s a) = au_agentID a" "au_level (UpdateCredentials k s a) = au_level a"
  by (simp_all add: UpdateCredentials_def)

lemma IsExpired_expiring: "0 \<le> within \<Longrightarrow> IsExpired now s \<Longrightarrow> IsExpiringSoon now within s"
  by (simp add: IsExpired_def IsExpiringSoon_def)

text \<open>
  What a signed message says is recovered from the signed text only if no part can move across a
  separator: the timestamp has no colon, so the texts of two nonce-signed messages of one agent
  agree only if the messages do.
\<close>

lemma append_colon_inject:
  assumes "CHR '':'' \<notin> set a" "CHR '':'' \<notin> set b" "a @ '':'' @ x = b @ '':'' @ y"
  shows "a = b \<and> x = y"
  using assms
proof (induction a arbitrary: b)
  case Nil
  then show ?case by (cases b) auto
next
  case (Cons c a)
  then show ?case by (cases b) auto
qed

lemma signed_text_inject:
  assumes "ident @ '':'' @ itoa ts @ '':'' @ nonce = ident @ '':'' @ itoa ts' @ '':'' @ nonce'"
  shows "ts = ts' \<and> nonce = nonce'"
  using append_colon_inject [OF itoa_no_colon itoa_no_colon, of ts nonce ts' nonce'] assms
  by (simp add: itoa_inject)

subsection \<open>The timestamp window\<close>

lemma int64_mod: "int64 x = (x + 2 ^ 63) mod 2 ^ 64 - 2 ^ 63"
  unfolding int64_def by (subst int_word_sint) simp

lemma int64_wrap_up:
  assumes "2 ^ 63 \<le> x" "x < 2 ^ 63 + 2 ^ 64"
  shows "int64 x = x - 2 ^ 64"
proof -
  have "(x + 2 ^ 63) mod 2 ^ 64 = (x + 2 ^ 63 - 2 ^ 64) mod 2 ^ 64" by (rule minus_mod_self2 [symmetric])
  also have "\<dots> = x + 2 ^ 63 - 2 ^ 64" using assms by (intro mod_pos_pos_trivial) auto
  finally show ?thesis by (simp add: int64_mod)
qed

lemma int64_least: "int64 (2 ^ 63) = - (2 ^ 63)"
  by (rule trans [OF int64_wrap_up]) simp_all

text \<open>
  \<open>VerifyTimestamp\<close> accepts exactly the timestamps within \<open>maxAgeSeconds\<close> of the clock, on
  either side, and one more: the one \<open>2^63\<close> milliseconds back, whose distance wraps to the least
  \<open>int64\<close> and is still negative after it has been negated.
\<close>

theorem timestamp_window:
  assumes "0 \<le> now" "now < 2 ^ 62" "- (2 ^ 63) \<le> ts" "ts < 2 ^ 63" "0 \<le> age" "age < 2 ^ 50"
  shows "VerifyTimestamp now ts age \<longleftrightarrow> \<bar>now - ts\<bar> \<le> age * 1000 \<or> ts = now - 2 ^ 63"
proof -
  have age: "int64 (age * 1000) = age * 1000" using assms by (intro int64_id) auto
  consider "now - ts < 2 ^ 63" | "now - ts = 2 ^ 63" | "2 ^ 63 < now - ts" by linarith
  then show ?thesis
  proof cases
    case 1
    then have "int64 (now - ts) = now - ts" "int64 (- (now - ts)) = - (now - ts) \<or> 0 \<le> now - ts"
      using assms by (auto intro!: int64_id)
    then show ?thesis using assms 1 by (auto simp: VerifyTimestamp_def Let_def age)
  next
    case 2
    then have "int64 (now - ts) = - (2 ^ 63)" by (simp only: int64_least)
    moreover have "int64 (- (- (2 ^ 63))) = - (2 ^ 63)" by (simp only: minus_minus int64_least)
    ultimately show ?thesis using assms 2 by (simp add: VerifyTimestamp_def Let_def age)
  next
    case 3
    then have w: "int64 (now - ts) = now - ts - 2 ^ 64" using assms by (intro int64_wrap_up) auto
    have n: "int64 (2 ^ 64 - (now - ts)) = 2 ^ 64 - (now - ts)"
      using assms 3 by (intro int64_id) auto
    from w n show ?thesis using assms 3 by (auto simp: VerifyTimestamp_def Let_def age)
  qed
qed

theorem timestamp_window_witness:
  "VerifyTimestamp 1700000000000 (1700000000000 - 2 ^ 63) 60 \<and>
   VerifyTimestamp 1700000000000 1700000060000 60 \<and> \<not> VerifyTimestamp 1700000000000 1700000060001 60"
  using timestamp_window [of 1700000000000 "1700000000000 - 2 ^ 63" 60]
    timestamp_window [of 1700000000000 1700000060000 60]
    timestamp_window [of 1700000000000 1700000060001 60] by simp

end
