(* ===== verification/Agent.thy ===== *)
theory Agent
  imports Auth Events Jobs Permissions Exec
begin

text \<open>
  The agent of \<open>internal/agent/agent.go\<close>: its state, how \<open>New\<close> builds it from the configuration,
  the handler table of \<open>registerHandlers\<close> and which loops \<open>Run\<close> starts. A handler is the name of
  the Go method that serves the action. The clients the agent only holds on to (Docker, metrics,
  terminal) are whether they exist.
\<close>

type_synonym meth = string
type_synonym channel = string

subsection \<open>Configuration and state\<close>

record agent_config =
  cfg_agent_id :: string
  cfg_api_key :: string
  cfg_api_secret :: string
  cfg_docker :: bool
  cfg_metrics :: bool
  cfg_metrics_interval :: int   \<comment> \<open>nanoseconds\<close>
  cfg_exec :: bool
  cfg_file_access :: bool
  cfg_ipc :: bool
  cfg_security :: security_config
  cfg_max_concurrent :: int

text \<open>What the agent hands to its transport.\<close>

datatype outmsg =
    SendCommandResult string bool string string int   \<comment> \<open>command id, success, data, error, duration\<close>
  | SendError string string
  | SendStream channel Jobs.event
  | SendMetrics channel
  | SendAck credential_update_ack

text \<open>
  A goroutine of the command pool: it holds a slot, and has either not looked at its command yet
  (the outcome of decoding it) or is inside the handler, called with this deadline.
\<close>

datatype worker =
    Spawned "command_message option"
  | Executing command_message meth int

text \<open>
  Contexts of subscriptions are numbered; \<open>ag_live\<close> are those that are not cancelled, each with the
  channel its goroutine streams. The last three fields record what happened, for the statements:
  the messages handed to the transport, the commands accepted from it and the handlers called.
\<close>

record agent =
  ag_cfg :: agent_config
  ag_auth :: authenticator
  ag_docker :: bool
  ag_metrics :: bool
  ag_terminal :: bool
  ag_reporter :: bool
  ag_ipc :: bool
  ag_level :: level
  ag_events :: store
  ag_jobs :: registry
  ag_handlers :: "action \<rightharpoonup> meth"
  ag_subscriptions :: "channel \<rightharpoonup> nat"
  ag_live :: "(nat \<times> channel) list"
  ag_next_ctx :: nat
  ag_slots :: nat
  ag_workers :: "(nat \<times> worker) list"
  ag_next_worker :: nat
  ag_stopped :: bool
  ag_restart :: bool      \<comment> \<open>the one-slot channel \<open>restartCh\<close> is full\<close>
  ag_sent :: "outmsg list"
  ag_received :: "command_message list"
  ag_called :: "(command_message \<times> meth \<times> int) list"

subsection \<open>The handler table\<close>

definition docker_handlers :: "(action \<times> meth) list" where
  "docker_handlers =
     [(ActionDockerContainerList, ''handleDockerContainerList''),
      (ActionDockerContainerInspect, ''handleDockerContainerInspect''),
      (ActionDockerContainerCreate, ''handleDockerContainerCreate''),
      (ActionDockerContainerStart, ''handleDockerContainerStart''),
      (ActionDockerContainerStop, ''handleDockerContainerStop''),
      (ActionDockerContainerRestart, ''handleDockerContainerRestart''),
      (ActionDockerContainerRemove, ''handleDockerContainerRemove''),
      (ActionDockerContainerStats, ''handleDockerContainerStats''),
      (ActionDockerContainerLogs, ''handleDockerContainerLogs''),
      (ActionDockerContainerExec, ''handleDockerContainerExec''),
      (ActionDockerImageList, ''handleDockerImageList''),
      (ActionDockerImagePull, ''handleDockerImagePull''),
      (ActionDockerImageRemove, ''handleDockerImageRemove''),
      (ActionDockerImageBuild, ''handleDockerImageBuild''),
      (ActionDockerVolumeList, ''handleDockerVolumeList''),
      (ActionDockerVolumeCreate, ''handleDockerVolumeCreate''),
      (ActionDockerVolumeRemove, ''handleDockerVolumeRemove''),
      (ActionDockerNetworkList, ''handleDockerNetworkList''),
      (ActionDockerNetworkCreate, ''handleDockerNetworkCreate''),
      (ActionDockerNetworkRemove, ''handleDockerNetworkRemove''),
      (ActionDockerComposeList, ''handleDockerComposeList''),
      (ActionDockerComposePs, ''handleDockerComposePs''),
      (ActionDockerComposeUp, ''handleDockerComposeUp''),
      (ActionDockerComposeDown, ''handleDockerComposeDown''),
      (ActionDockerComposeLogs, ''handleDockerComposeLogs''),
      (ActionDockerComposeRestart, ''handleDockerComposeRestart''),
      (ActionDockerComposePull, ''handleDockerComposePull'')]"

definition metrics_handlers :: "(action \<times> meth) list" where
  "metrics_handlers =
     [(ActionSystemMetrics, ''handleSystemMetrics''), (ActionSystemInfo, ''handleSystemInfo''),
      (ActionSystemProcesses, ''handleSystemProcesses'')]"

definition file_handlers :: "(action \<times> meth) list" where
  "file_handlers =
     [(ActionFileRead, ''handleFileRead''), (ActionFileWrite, ''handleFileWrite''),
      (ActionFileList, ''handleFileList'')]"

definition terminal_handlers :: "(action \<times> meth) list" where
  "terminal_handlers =
     [(ActionTerminalCreate, ''handleTerminalCreate''),
      (ActionTerminalInput, ''handleTerminalInput''),
      (ActionTerminalResize, ''handleTerminalResize''),
      (ActionTerminalClose, ''handleTerminalClose'')]"

definition base_handlers :: "(action \<times> meth) list" where
  "base_handlers =
     [(ActionCronStatus, ''handleCronStatus''), (ActionCronList, ''handleCronList''),
      (ActionCronAdd, ''handleCronAdd''), (ActionCronRemove, ''handleCronRemove''),
      (ActionCronToggle, ''handleCronToggle''), (ActionCronUpdate, ''handleCronUpdate''),
      (ActionCloudflaredStatus, ''handleCloudflaredStatus''),
      (ActionCloudflaredLogin, ''handleCloudflaredLogin''),
      (ActionCloudflaredTunnelList, ''handleCloudflaredTunnelList''),
      (ActionCloudflaredTunnelCreate, ''handleCloudflaredTunnelCreate''),
      (ActionCloudflaredTunnelRoute, ''handleCloudflaredTunnelRoute''),
      (ActionCloudflaredTunnelDelete, ''handleCloudflaredTunnelDelete''),
      (ActionWireguardKeygen, ''handleWireguardKeygen''),
      (ActionWireguardInterfaceUp, ''handleWireguardInterfaceUp''),
      (ActionWireguardInterfaceDown, ''handleWireguardInterfaceDown''),
      (ActionWireguardPeerSet, ''handleWireguardPeerSet''),
      (ActionWireguardPeerRemove, ''handleWireguardPeerRemove''),
      (ActionWireguardStatus, ''handleWireguardStatus''),
      (ActionWireguardForward, ''handleWireguardForward''),
      (ActionWireguardUnforward, ''handleWireguardUnforward''),
      (ActionFirewallAllowPort, ''handleFirewallAllowPort''),
      (ActionFirewallDenyPort, ''handleFirewallDenyPort''),
      (ActionSSHKeysAdd, ''handleSSHKeysAdd''), (ActionSSHKeysRemove, ''handleSSHKeysRemove''),
      (ActionSSHKeysList, ''handleSSHKeysList''),
      (ActionPackagesInstall, ''handlePackagesInstall''),
      (ActionPackagesRemove, ''handlePackagesRemove''),
      (ActionPackagesListInstalled, ''handlePackagesListInstalled''),
      (ActionPackagesUpdateCache, ''handlePackagesUpdateCache''),
      (ActionPackagesInstallAsync, ''handlePackagesInstallAsync''),
      (ActionPackagesUpgrade, ''handlePackagesUpgrade''),
      (ActionPackagesSearch, ''handlePackagesSearch''),
      (ActionPackagesInfo, ''handlePackagesInfo''),
      (ActionSystemdStatus, ''handleSystemdStatus''),
      (ActionSystemdStart, ''handleSystemdStart''), (ActionSystemdStop, ''handleSystemdStop''),
      (ActionSystemdRestart, ''handleSystemdRestart''),
      (ActionSystemdEnable, ''handleSystemdEnable''),
      (ActionSystemdDisable, ''handleSystemdDisable''),
      (ActionSystemdDaemonReload, ''handleSystemdDaemonReload''),
      (ActionSystemdListUnits, ''handleSystemdListUnits''),
      (ActionSystemdLogs, ''handleSystemdLogs''),
      (ActionSystemdLogsFollow, ''handleSystemdLogsFollow''),
      (ActionDoctorProbe, ''handleDoctorProbe'')]"

definition exec_handlers :: "(action \<times> meth) list" where
  "exec_handlers =
     [(ActionSystemExec, ''handleSystemExec'')]"

definition agent_handlers :: "(action \<times> meth) list" where
  "agent_handlers =
     [(ActionAgentUpdate, ''handleAgentUpdate''),
      (ActionAgentRecapabilities, ''handleAgentRecapabilities''),
      (ActionSurveyRead, ''handleSurveyRead''), (ActionRuntimesList, ''handleRuntimesList''),
      (ActionRuntimesPyenvBootstrap, ''handleRuntimesPyenvBootstrap''),
      (ActionRuntimesPythonInstalled, ''handleRuntimesPythonInstalled''),
      (ActionRuntimesPythonAvailable, ''handleRuntimesPythonAvailable''),
      (ActionRuntimesPythonInstall, ''handleRuntimesPythonInstall''),
      (ActionRuntimesPythonUninstall, ''handleRuntimesPythonUninstall''),
      (ActionRuntimesPythonSetGlobal, ''handleRuntimesPythonSetGlobal''),
      (ActionRuntimesPythonSetLocal, ''handleRuntimesPythonSetLocal''),
      (ActionRuntimesPythonCurrent, ''handleRuntimesPythonCurrent''),
      (ActionGUICapabilities, ''HandleCapabilities''),
      (ActionGUIScreenshot, ''HandleScreenshot''),
      (ActionFirewallStatus, ''handleFirewallStatus''),
      (ActionFirewallAllowIP, ''handleFirewallAllowIP''),
      (ActionFirewallDenyIP, ''handleFirewallDenyIP''),
      (ActionFail2banStatus, ''handleFail2banStatus''),
      (ActionFail2banBan, ''handleFail2banBan''), (ActionFail2banUnban, ''handleFail2banUnban''),
      (ActionCrowdsecDecisionsList, ''handleCrowdsecDecisionsList''),
      (ActionCrowdsecBan, ''handleCrowdsecBan''), (ActionCrowdsecUnban, ''handleCrowdsecUnban''),
      (ActionCloudflareOriginLockStatus, ''handleOriginLockStatus''),
      (ActionCloudflareOriginLockApply, ''handleOriginLockApply''),
      (ActionCloudflareOriginLockRemove, ''handleOriginLockRemove'')]"

definition assign :: "('k \<times> 'v) list \<Rightarrow> ('k \<rightharpoonup> 'v) \<Rightarrow> ('k \<rightharpoonup> 'v)" where
  "assign xs m = fold (\<lambda>(k, v) m. m(k \<mapsto> v)) xs m"

text \<open>Everything the features install, before the permission level is applied.\<close>

definition all_handlers :: "agent \<Rightarrow> action \<rightharpoonup> meth" where
  "all_handlers a =
     (let on = (\<lambda>b xs m. if b then assign xs m else m)
      in on True agent_handlers
          (on (cfg_exec (ag_cfg a)) exec_handlers
           (on True base_handlers
            (on (ag_terminal a) terminal_handlers
             (on (cfg_file_access (ag_cfg a)) file_handlers
              (on (ag_metrics a) metrics_handlers
               (on (ag_docker a) docker_handlers (ag_handlers a))))))))"

definition registerHandlers :: "agent \<Rightarrow> agent" where
  "registerHandlers a =
     a\<lparr>ag_handlers := (\<lambda>action. if Allowed (ag_level a) action then all_handlers a action else None)\<rparr>"

definition cmdPoolSize :: "agent_config \<Rightarrow> nat" where
  "cmdPoolSize cfg = (if 0 < cfg_max_concurrent cfg then nat (cfg_max_concurrent cfg) else 8)"

text \<open>
  \<open>New\<close>: \<open>level\<close> is what \<open>cfg.PermissionLevel()\<close> returned, \<open>docker_ok\<close> whether the Docker client could
  be made, \<open>path\<close> and \<open>file\<close> the file of the activity log and what it holds.
\<close>

definition blank_agent :: "agent_config \<Rightarrow> level \<Rightarrow> bool \<Rightarrow> string \<Rightarrow> Events.event list option \<Rightarrow> agent" where
  "blank_agent cfg lvl docker_ok path file =
     \<lparr>ag_cfg = cfg,
      ag_auth = SetPermissionLevel lvl (Auth.New (cfg_agent_id cfg) (cfg_api_key cfg) (cfg_api_secret cfg)),
      ag_docker = (cfg_docker cfg \<and> lvl = Full \<and> docker_ok),
      ag_metrics = cfg_metrics cfg,
      ag_terminal = (cfg_exec cfg \<and> lvl = Full),
      ag_reporter = (lvl = Monitor),
      ag_ipc = cfg_ipc cfg,
      ag_level = lvl,
      ag_events = NewStore 200 path file,
      ag_jobs = NewRegistry 64,
      ag_handlers = Map.empty,
      ag_subscriptions = Map.empty, ag_live = [], ag_next_ctx = 0,
      ag_slots = cmdPoolSize cfg, ag_workers = [], ag_next_worker = 0,
      ag_stopped = False, ag_restart = False,
      ag_sent = [], ag_received = [], ag_called = []\<rparr>"

definition New :: "agent_config \<Rightarrow> permission_error + level \<Rightarrow> bool \<Rightarrow> string \<Rightarrow> Events.event list option \<Rightarrow> permission_error + agent" where
  "New cfg level docker_ok path file =
     rbind level (\<lambda>lvl. Inr (registerHandlers (blank_agent cfg lvl docker_ok path file)))"

text \<open>The goroutines that \<open>Run\<close> starts, after the IPC server.\<close>

datatype loop = LIpc | LReporter | LTransport | LHeartbeat | LDiscovery | LSampler | LConnectionWatcher

definition run_loops :: "agent \<Rightarrow> loop list" where
  "run_loops a =
     (if ag_ipc a then [LIpc] else []) @
     (if ag_level a = Monitor then [LReporter] else [LTransport, LHeartbeat, LDiscovery]) @
     [LSampler] @
     (if ag_level a \<noteq> Monitor then [LConnectionWatcher] else [])"

text \<open>\<open>Restart\<close>: a non-blocking send on the one-slot channel.\<close>

definition Restart :: "agent \<Rightarrow> bool \<times> agent" where
  "Restart a = (if ag_restart a then (False, a) else (True, a\<lparr>ag_restart := True\<rparr>))"

subsection \<open>What the table holds\<close>

lemma assign_Some: "assign xs m k = Some v \<Longrightarrow> (k, v) \<in> set xs \<or> m k = Some v"
proof (induction xs arbitrary: m)
  case (Cons x xs)
  then show ?case by (cases x) (fastforce simp: assign_def split: if_splits)
qed (simp add: assign_def)

lemma assign_dom: "dom (assign xs m) = fst ` set xs \<union> dom m"
proof (induction xs arbitrary: m)
  case (Cons x xs)
  have "assign (x # xs) m = assign xs (m(fst x \<mapsto> snd x))" by (simp add: assign_def case_prod_beta)
  then show ?case using Cons by auto
qed (simp add: assign_def)

subsection \<open>A new agent\<close>

text \<open>The rows that the features and the level leave in the table.\<close>

definition offered :: "agent_config \<Rightarrow> level \<Rightarrow> (action \<times> meth) set" where
  "offered cfg lvl =
     set base_handlers \<union> set agent_handlers \<union>
     (if cfg_docker cfg \<and> lvl = Full then set docker_handlers else {}) \<union>
     (if cfg_metrics cfg then set metrics_handlers else {}) \<union>
     (if cfg_file_access cfg then set file_handlers else {}) \<union>
     (if cfg_exec cfg \<and> lvl = Full then set terminal_handlers else {}) \<union>
     (if cfg_exec cfg then set exec_handlers else {})"

lemma registerHandlers_simps [simp]:
  "ag_cfg (registerHandlers a) = ag_cfg a" "ag_auth (registerHandlers a) = ag_auth a"
  "ag_docker (registerHandlers a) = ag_docker a" "ag_metrics (registerHandlers a) = ag_metrics a"
  "ag_terminal (registerHandlers a) = ag_terminal a" "ag_ipc (registerHandlers a) = ag_ipc a"
  "ag_level (registerHandlers a) = ag_level a" "ag_events (registerHandlers a) = ag_events a"
  "ag_subscriptions (registerHandlers a) = ag_subscriptions a" "ag_live (registerHandlers a) = ag_live a"
  "ag_slots (registerHandlers a) = ag_slots a" "ag_workers (registerHandlers a) = ag_workers a"
  "ag_sent (registerHandlers a) = ag_sent a" "ag_received (registerHandlers a) = ag_received a"
  "ag_called (registerHandlers a) = ag_called a"
  by (simp_all add: registerHandlers_def)

lemma blank_agent_simps [simp]:
  "ag_cfg (blank_agent cfg lvl ok p f) = cfg"
  "ag_auth (blank_agent cfg lvl ok p f) = SetPermissionLevel lvl (Auth.New (cfg_agent_id cfg) (cfg_api_key cfg) (cfg_api_secret cfg))"
  "ag_docker (blank_agent cfg lvl ok p f) = (cfg_docker cfg \<and> lvl = Full \<and> ok)"
  "ag_metrics (blank_agent cfg lvl ok p f) = cfg_metrics cfg"
  "ag_terminal (blank_agent cfg lvl ok p f) = (cfg_exec cfg \<and> lvl = Full)"
  "ag_ipc (blank_agent cfg lvl ok p f) = cfg_ipc cfg" "ag_level (blank_agent cfg lvl ok p f) = lvl"
  "ag_events (blank_agent cfg lvl ok p f) = NewStore 200 p f" "ag_handlers (blank_agent cfg lvl ok p f) = Map.empty"
  "ag_subscriptions (blank_agent cfg lvl ok p f) = Map.empty" "ag_live (blank_agent cfg lvl ok p f) = []"
  "ag_slots (blank_agent cfg lvl ok p f) = cmdPoolSize cfg" "ag_workers (blank_agent cfg lvl ok p f) = []"
  "ag_sent (blank_agent cfg lvl ok p f) = []" "ag_received (blank_agent cfg lvl ok p f) = []"
  "ag_called (blank_agent cfg lvl ok p f) = []"
  by (simp_all add: blank_agent_def)

lemma New_Inr:
  assumes "New cfg level docker_ok path file = Inr a"
  obtains lvl where "level = Inr lvl" "a = registerHandlers (blank_agent cfg lvl docker_ok path file)"
  using assms that by (cases level) (simp_all add: New_def rbind_def)

lemma registerHandlers_Some:
  assumes "ag_handlers (registerHandlers b) action = Some m" "ag_handlers b = Map.empty"
  shows "Allowed (ag_level b) action"
    "(action, m) \<in> set base_handlers \<or> (action, m) \<in> set agent_handlers \<or> ag_docker b \<and> (action, m) \<in> set docker_handlers \<or>
     ag_metrics b \<and> (action, m) \<in> set metrics_handlers \<or>
     cfg_file_access (ag_cfg b) \<and> (action, m) \<in> set file_handlers \<or>
     ag_terminal b \<and> (action, m) \<in> set terminal_handlers \<or>
     cfg_exec (ag_cfg b) \<and> (action, m) \<in> set exec_handlers"
proof -
  have a: "Allowed (ag_level b) action" "all_handlers b action = Some m"
    using assms(1) by (auto simp: registerHandlers_def split: if_splits)
  show "Allowed (ag_level b) action" by (rule a(1))
  have on: "(if c then assign xs m' else m') k = Some v \<Longrightarrow> c \<and> (k, v) \<in> set xs \<or> m' k = Some v"
    for c xs and m' :: "action \<rightharpoonup> meth" and k v
    using assign_Some [of xs m' k v] by (auto split: if_splits)
  have on': "assign xs m' k = Some v \<Longrightarrow> (k, v) \<in> set xs \<or> m' k = Some v"
    for xs and m' :: "action \<rightharpoonup> meth" and k v by (rule assign_Some)
  show "(action, m) \<in> set base_handlers \<or> (action, m) \<in> set agent_handlers \<or> ag_docker b \<and> (action, m) \<in> set docker_handlers \<or>
     ag_metrics b \<and> (action, m) \<in> set metrics_handlers \<or>
     cfg_file_access (ag_cfg b) \<and> (action, m) \<in> set file_handlers \<or>
     ag_terminal b \<and> (action, m) \<in> set terminal_handlers \<or>
     cfg_exec (ag_cfg b) \<and> (action, m) \<in> set exec_handlers"
    using a(2) unfolding all_handlers_def Let_def if_True
    by (elim on on' [THEN disjE] on [THEN disjE]) (simp_all add: assms(2))
qed

lemma New_handlers:
  assumes "New cfg level docker_ok path file = Inr a" "ag_handlers a action = Some m"
  shows "Allowed (ag_level a) action \<and> (action, m) \<in> offered cfg (ag_level a)"
proof -
  obtain lvl where a: "a = registerHandlers (blank_agent cfg lvl docker_ok path file)"
    using New_Inr [OF assms(1)] by blast
  from registerHandlers_Some [OF assms(2) [unfolded a]] show ?thesis
    by (simp add: a offered_def) blast
qed

end
