(* ===== verification/Dispatch.thy ===== *)
theory Dispatch
  imports Agent
begin

text \<open>
  What \<open>internal/agent/agent.go\<close> does with a message of the panel: the command pool and its workers,
  the permission gate, subscriptions, credential rotation, and cleanup. The pool runs handlers
  concurrently, so the agent is a transition system: the read loop takes one message at a time
  (\<open>handleMessage\<close>), and a worker looks at its command and later leaves the handler, at any time
  and in any order. A step that panics has no successor: a metrics stream whose configured interval is
  not positive ends the process there (\<open>streamData\<close>), and the lemmas of \<open>AgentSafety\<close> show that the
  dispatcher itself does not panic. What a handler does is in the theories of the handlers; a panic
  inside one is not modelled.
\<close>

subsection \<open>Inputs\<close>

text \<open>
  The payload of a message as the four decoders see it (\<open>None\<close>: \<open>json.Unmarshal\<close> failed), and what
  the step learns from outside: the clock, whether the activity log could be written, whether the
  transport takes a message, and how saving the credentials ended.
\<close>

record payload =
  as_command :: "command_message option"
  as_subscribe :: "subscribe_message option"
  as_unsubscribe :: "unsubscribe_message option"
  as_credential :: "credential_update option"

record inputs =
  in_now :: int
  in_write_ok :: bool
  in_send_ok :: "outmsg \<Rightarrow> bool"
  in_save_err :: "string option"

definition emit :: "outmsg list \<Rightarrow> agent \<Rightarrow> agent" where
  "emit ms a = a\<lparr>ag_sent := ag_sent a @ ms\<rparr>"

definition note_event :: "inputs \<Rightarrow> string \<Rightarrow> string \<Rightarrow> string \<Rightarrow> (string \<times> string) list \<Rightarrow> agent \<Rightarrow> agent option" where
  "note_event i kind sev msg meta a =
     map_option (\<lambda>(_, s). a\<lparr>ag_events := s\<rparr>)
       (Append kind sev msg meta (in_now i) (in_write_ok i) (ag_events a))"

fun rejection_text :: "permission_error \<Rightarrow> string" where
  "rejection_text (NotPermitted action need lvl) =
     ''action '' @ action @ '' requires permission level '' @ need @ ''; this agent is configured as '' @ lvl"
| "rejection_text (UnknownLevel s) =
     ''unknown permission level '' @ s @ '' (want monitor, protect or full)''"

definition reject :: "inputs \<Rightarrow> string \<Rightarrow> string \<Rightarrow> string \<Rightarrow> agent \<Rightarrow> agent option" where
  "reject i kind what err a =
     note_event i ''info'' ''warn'' err [(''kind'', kind), (''target'', what), (''level'', ag_level a)] a"

subsection \<open>Commands\<close>

definition millisecond :: int where "millisecond = 1000000"

definition command_timeout :: "security_config \<Rightarrow> int \<Rightarrow> int" where
  "command_timeout sec t =
     (let maxTimeout = resolveMaxExecTimeout (Some sec);
          cmdTimeout = int64 (t * millisecond)
      in if cmdTimeout \<le> 0 \<or> maxTimeout < cmdTimeout then maxTimeout else cmdTimeout)"

text \<open>
  \<open>handleCommand\<close> up to the call of the handler: the answer it sends at once, if it sends one, or the
  handler it calls with its deadline. Nothing is sent for a command that does not decode.
\<close>

datatype verdict = Dropped | Answered | Call command_message meth int

definition handleCommand :: "inputs \<Rightarrow> command_message option \<Rightarrow> agent \<Rightarrow> (verdict \<times> agent) option" where
  "handleCommand i d a =
     (case d of
        None \<Rightarrow> Some (Dropped, a)
      | Some cmd \<Rightarrow>
          (case Check (ag_level a) (cm_action cmd) of
             Inl e \<Rightarrow>
               map_option (\<lambda>a'. (Answered, emit [SendCommandResult (msg_id cmd) False [] (rejection_text e) 0] a'))
                 (reject i ''command'' (cm_action cmd) (rejection_text e) a)
           | Inr _ \<Rightarrow>
               (case ag_handlers a (cm_action cmd) of
                  None \<Rightarrow>
                    Some (Answered, emit [SendCommandResult (msg_id cmd) False [] (''unknown action: '' @ cm_action cmd) 0] a)
                | Some m \<Rightarrow>
                    (let t = command_timeout (cfg_security (ag_cfg a)) (cm_timeout cmd)
                     in Some (Call cmd m t, a\<lparr>ag_called := ag_called a @ [(cmd, m, t)]\<rparr>)))))"

text \<open>After the handler: \<open>result\<close> is its error text or its encoded result.\<close>

definition commandResult :: "command_message \<Rightarrow> string + string \<Rightarrow> int \<Rightarrow> outmsg" where
  "commandResult cmd result duration =
     (case result of
        Inl err \<Rightarrow> SendCommandResult (msg_id cmd) False [] err duration
      | Inr data \<Rightarrow> SendCommandResult (msg_id cmd) True data [] duration)"

text \<open>
  \<open>submitCommand\<close>: take a slot and start a worker, or answer \<open>agent busy\<close>. \<open>ag_received\<close> notes
  every command that decodes.
\<close>

definition submitCommand :: "payload \<Rightarrow> agent \<Rightarrow> agent" where
  "submitCommand p a =
     (let a = a\<lparr>ag_received := ag_received a @ (case as_command p of None \<Rightarrow> [] | Some c \<Rightarrow> [c])\<rparr>
      in if length (ag_workers a) < ag_slots a
         then a\<lparr>ag_workers := ag_workers a @ [(ag_next_worker a, Spawned (as_command p))],
                ag_next_worker := Suc (ag_next_worker a)\<rparr>
         else (case as_command p of
                 None \<Rightarrow> a
               | Some cmd \<Rightarrow>
                   emit [SendCommandResult (msg_id cmd) False []
                           ''agent busy: too many concurrent commands, retry later'' 0] a))"

text \<open>A worker that looks at its command, and one whose handler has returned.\<close>

definition set_worker :: "nat \<Rightarrow> worker \<Rightarrow> agent \<Rightarrow> agent" where
  "set_worker w st a = a\<lparr>ag_workers := map (\<lambda>(v, s). if v = w then (v, st) else (v, s)) (ag_workers a)\<rparr>"

definition free_slot :: "nat \<Rightarrow> agent \<Rightarrow> agent" where
  "free_slot w a = a\<lparr>ag_workers := filter (\<lambda>(v, s). v \<noteq> w) (ag_workers a)\<rparr>"

definition worker_begin :: "inputs \<Rightarrow> nat \<Rightarrow> command_message option \<Rightarrow> agent \<Rightarrow> agent option" where
  "worker_begin i w d a =
     map_option (\<lambda>(v, a'). case v of Call cmd m t \<Rightarrow> set_worker w (Executing cmd m t) a' | _ \<Rightarrow> free_slot w a')
       (handleCommand i d a)"

definition worker_end :: "nat \<Rightarrow> command_message \<Rightarrow> string + string \<Rightarrow> int \<Rightarrow> agent \<Rightarrow> agent" where
  "worker_end w cmd result duration a = free_slot w (emit [commandResult cmd result duration] a)"

subsection \<open>Subscriptions\<close>

definition cancel_ctx :: "nat \<Rightarrow> (nat \<times> channel) list \<Rightarrow> (nat \<times> channel) list" where
  "cancel_ctx c live = filter (\<lambda>(d, ch). d \<noteq> c) live"

primrec replay_events :: "(outmsg \<Rightarrow> bool) \<Rightarrow> channel \<Rightarrow> Jobs.event list \<Rightarrow> outmsg list" where
  "replay_events ok ch [] = []"
| "replay_events ok ch (ev # evs) =
     SendStream ch ev # (if ok (SendStream ch ev) then replay_events ok ch evs else [])"

definition handleSubscribe :: "inputs \<Rightarrow> payload \<Rightarrow> agent \<Rightarrow> agent option" where
  "handleSubscribe i p a =
     (case as_subscribe p of
        None \<Rightarrow> Some a
      | Some sub \<Rightarrow>
          (let ch = sub_channel sub in
           if \<not> ChannelAllowed (ag_level a) ch
           then (let err = ''subscription '' @ ch @ '' requires permission level full; this agent is configured as '' @ ag_level a
                 in map_option (emit [SendError ''permission_denied'' err]) (reject i ''subscribe'' ch err a))
           else
             (let replayed = (case LookupByChannel ch (ag_jobs a) of
                                None \<Rightarrow> [] | Some j \<Rightarrow> replay_events (in_send_ok i) ch (Replay j));
                  ctx = ag_next_ctx a;
                  live = (case ag_subscriptions a ch of None \<Rightarrow> ag_live a | Some c \<Rightarrow> cancel_ctx c (ag_live a))
              in Some (emit replayed
                   (a\<lparr>ag_next_ctx := Suc ctx, ag_subscriptions := (ag_subscriptions a)(ch \<mapsto> ctx),
                      ag_live := live @ [(ctx, ch)]\<rparr>)))))"

definition handleUnsubscribe :: "payload \<Rightarrow> agent \<Rightarrow> agent" where
  "handleUnsubscribe p a =
     (case as_unsubscribe p of
        None \<Rightarrow> a
      | Some u \<Rightarrow>
          (case ag_subscriptions a (unsub_channel u) of
             None \<Rightarrow> a
           | Some c \<Rightarrow>
               a\<lparr>ag_live := cancel_ctx c (ag_live a),
                 ag_subscriptions := (ag_subscriptions a)(unsub_channel u := None)\<rparr>))"

text \<open>
  What the goroutine of a live context does next: \<open>streamMetrics\<close> makes its ticker, which panics for
  an interval that is not positive, and then sends at a tick if it could collect. Other channels
  stream nothing.
\<close>

definition streamData :: "channel \<Rightarrow> bool \<Rightarrow> agent \<Rightarrow> agent option" where
  "streamData ch collect_ok a =
     (if ch = ChannelMetrics
      then (if cfg_metrics_interval (ag_cfg a) \<le> 0 then None
            else Some (if ag_metrics a \<and> collect_ok then emit [SendMetrics ch] a else a))
      else Some a)"

lemma streamData_cases:
  assumes "streamData ch collect_ok a = Some a'"
  obtains "a' = a" | "a' = emit [SendMetrics ch] a"
  using assms by (auto simp: streamData_def split: if_splits)

subsection \<open>Credential rotation\<close>

definition rotation_payload :: "string \<Rightarrow> credential_update \<Rightarrow> string" where
  "rotation_payload agent_id msg =
     cu_rotation_id msg @ '':'' @ agent_id @ '':'' @ cu_api_key msg @ '':'' @ cu_api_secret msg"

definition verifyCredentialRotation :: "agent \<Rightarrow> credential_update \<Rightarrow> string + unit" where
  "verifyCredentialRotation a msg =
     (if cu_rotation_id msg = [] \<or> cu_api_key msg = [] \<or> cu_api_secret msg = []
      then Inl ''rotation message missing required fields''
      else if cu_hmac_sig msg = [] then Inl ''rotation message missing hmac signature''
      else if au_apiSecret (ag_auth a) = [] then Inl ''agent has no current secret; refusing to rotate''
      else if cu_hmac_sig msg \<noteq> hmac_hex (au_apiSecret (ag_auth a)) (rotation_payload (cfg_agent_id (ag_cfg a)) msg)
      then Inl ''hmac signature mismatch''
      else Inr ())"

definition saveCredentials :: "inputs \<Rightarrow> string \<Rightarrow> string \<Rightarrow> agent \<Rightarrow> string option \<times> agent" where
  "saveCredentials i apiKey apiSecret a =
     (in_save_err i, a\<lparr>ag_cfg := (ag_cfg a)\<lparr>cfg_api_key := apiKey, cfg_api_secret := apiSecret\<rparr>\<rparr>)"

definition handleCredentialUpdate :: "inputs \<Rightarrow> payload \<Rightarrow> agent \<Rightarrow> agent option" where
  "handleCredentialUpdate i p a =
     (case as_credential p of
        None \<Rightarrow> Some a
      | Some msg \<Rightarrow>
          (case verifyCredentialRotation a msg of
             Inl err \<Rightarrow>
               map_option
                 (emit [SendAck \<lparr>ack_rotation_id = cu_rotation_id msg, ack_success = False, ack_error = err\<rparr>])
                 (note_event i ''auth_failed'' ''warn'' (''Credential rotation rejected: '' @ err)
                    [(''rotation_id'', cu_rotation_id msg)] a)
           | Inr _ \<Rightarrow>
               (let a1 = a\<lparr>ag_auth := UpdateCredentials (cu_api_key msg) (cu_api_secret msg) (ag_auth a)\<rparr>;
                    (err, a2) = saveCredentials i (cu_api_key msg) (cu_api_secret msg) a1
                in Some (emit [SendAck \<lparr>ack_rotation_id = cu_rotation_id msg, ack_success = (err = None),
                     ack_error = (case err of None \<Rightarrow> [] | Some e \<Rightarrow> e)\<rparr>] a2))))"

subsection \<open>Messages, shutdown and the transition system\<close>

definition handleMessage :: "inputs \<Rightarrow> message_type \<Rightarrow> payload \<Rightarrow> agent \<Rightarrow> agent option" where
  "handleMessage i ty p a =
     (if ty = TypeCommand then Some (submitCommand p a)
      else if ty = TypeSubscribe then handleSubscribe i p a
      else if ty = TypeUnsubscribe then Some (handleUnsubscribe p a)
      else if ty = TypeCredentialUpdate then handleCredentialUpdate i p a
      else Some a)"

text \<open>\<open>cleanup\<close>, with the workers that had not ended when the ten seconds were over still there.\<close>

definition cleanup :: "agent \<Rightarrow> agent" where
  "cleanup a = a\<lparr>ag_live := [], ag_subscriptions := Map.empty, ag_stopped := True\<rparr>"

text \<open>
  Handlers also register jobs and other loops write to the activity log; both at any time and with
  any content.
\<close>

inductive step :: "agent \<Rightarrow> agent \<Rightarrow> bool" where
  receive: "\<not> ag_stopped a \<Longrightarrow> handleMessage i ty p a = Some a' \<Longrightarrow> step a a'"
| start: "map_of (ag_workers a) w = Some (Spawned d) \<Longrightarrow> worker_begin i w d a = Some a' \<Longrightarrow> step a a'"
| finish: "map_of (ag_workers a) w = Some (Executing cmd m t) \<Longrightarrow> step a (worker_end w cmd result duration a)"
| tick: "(c, ch) \<in> set (ag_live a) \<Longrightarrow> streamData ch collect_ok a = Some a' \<Longrightarrow> step a a'"
| restart: "step a (snd (Restart a))"
| jobs: "step a (a\<lparr>ag_jobs := r\<rparr>)"
| noted: "note_event i kind sev msg meta a = Some a' \<Longrightarrow> step a a'"
| stop: "step a (cleanup a)"

inductive reachable :: "agent \<Rightarrow> agent \<Rightarrow> bool" for a0 :: agent where
  initial: "reachable a0 a0"
| more: "reachable a0 a \<Longrightarrow> step a a' \<Longrightarrow> reachable a0 a'"

subsection \<open>What a step does\<close>

inductive_cases stepE: "step a a'"

lemma emit_simps [simp]:
  "ag_sent (emit ms a) = ag_sent a @ ms" "ag_cfg (emit ms a) = ag_cfg a" "ag_auth (emit ms a) = ag_auth a"
  "ag_level (emit ms a) = ag_level a" "ag_events (emit ms a) = ag_events a" "ag_jobs (emit ms a) = ag_jobs a"
  "ag_handlers (emit ms a) = ag_handlers a" "ag_subscriptions (emit ms a) = ag_subscriptions a"
  "ag_live (emit ms a) = ag_live a" "ag_next_ctx (emit ms a) = ag_next_ctx a" "ag_slots (emit ms a) = ag_slots a"
  "ag_workers (emit ms a) = ag_workers a" "ag_next_worker (emit ms a) = ag_next_worker a"
  "ag_stopped (emit ms a) = ag_stopped a" "ag_received (emit ms a) = ag_received a"
  "ag_called (emit ms a) = ag_called a" "ag_metrics (emit ms a) = ag_metrics a"
  by (simp_all add: emit_def)

lemma note_event_frame:
  "note_event i kind sev msg meta a = Some a' \<Longrightarrow> \<exists>s. a' = a\<lparr>ag_events := s\<rparr>"
  by (auto simp: note_event_def)

lemma note_event_works:
  assumes "store_bounded (ag_events a)"
  shows "\<exists>s. note_event i kind sev msg meta a = Some (a\<lparr>ag_events := s\<rparr>) \<and> store_bounded s"
  using Append_bounded [OF assms] by (fastforce simp: note_event_def)

text \<open>The outcomes of the three handlers that can refuse.\<close>

lemma handleCommand_cases:
  assumes "handleCommand i d a = Some (v, a')"
  obtains (dropped) "d = None" "v = Dropped" "a' = a"
    | (answered) cmd err s where "d = Some cmd" "v = Answered"
        "a' = emit [SendCommandResult (msg_id cmd) False [] err 0] (a\<lparr>ag_events := s\<rparr>)"
    | (call) cmd m where "d = Some cmd" "Allowed (ag_level a) (cm_action cmd)"
        "ag_handlers a (cm_action cmd) = Some m"
        "v = Call cmd m (command_timeout (cfg_security (ag_cfg a)) (cm_timeout cmd))"
        "a' = a\<lparr>ag_called := ag_called a @ [(cmd, m, command_timeout (cfg_security (ag_cfg a)) (cm_timeout cmd))]\<rparr>"
proof (cases d)
  case None
  then show ?thesis using assms dropped by (simp add: handleCommand_def)
next
  case (Some cmd)
  show ?thesis
  proof (cases "Check (ag_level a) (cm_action cmd)")
    case (Inl e)
    then show ?thesis
      using assms Some answered note_event_frame by (fastforce simp: handleCommand_def reject_def)
  next
    case (Inr u)
    then have allowed: "Allowed (ag_level a) (cm_action cmd)" by (simp add: Check_Inr_iff)
    show ?thesis
    proof (cases "ag_handlers a (cm_action cmd)")
      case None
      then have "a' = emit [SendCommandResult (msg_id cmd) False [] (''unknown action: '' @ cm_action cmd) 0]
          (a\<lparr>ag_events := ag_events a\<rparr>)" "v = Answered"
        using assms Some Inr by (simp_all add: handleCommand_def)
      then show ?thesis using answered Some by blast
    next
      case (Some m)
      with allowed call [OF \<open>d = Some cmd\<close>] show ?thesis
        using assms Inr \<open>d = Some cmd\<close> by (simp add: handleCommand_def Let_def)
    qed
  qed
qed

lemma handleSubscribe_cases:
  assumes "handleSubscribe i p a = Some a'"
  obtains (unparsed) "a' = a"
    | (denied) err s where "a' = emit [SendError ''permission_denied'' err] (a\<lparr>ag_events := s\<rparr>)"
    | (installed) ch evs where "ChannelAllowed (ag_level a) ch"
        "a' = emit (map (SendStream ch) evs)
           (a\<lparr>ag_next_ctx := Suc (ag_next_ctx a),
              ag_subscriptions := (ag_subscriptions a)(ch \<mapsto> ag_next_ctx a),
              ag_live := (case ag_subscriptions a ch of None \<Rightarrow> ag_live a
                          | Some c \<Rightarrow> cancel_ctx c (ag_live a)) @ [(ag_next_ctx a, ch)]\<rparr>)"
proof (cases "as_subscribe p")
  case None
  then show ?thesis using assms unparsed by (simp add: handleSubscribe_def)
next
  case (Some sub)
  have replayed: "\<exists>es. replay_events ok ch evs = map (SendStream ch) es" for ok ch evs
  proof (induction evs)
    case (Cons e evs)
    then obtain es where "replay_events ok ch evs = map (SendStream ch) es" ..
    then have "replay_events ok ch (e # evs) = map (SendStream ch) (if ok (SendStream ch e) then e # es else [e])" by simp
    then show ?case by blast
  qed simp
  show ?thesis
  proof (cases "ChannelAllowed (ag_level a) (sub_channel sub)")
    case True
    obtain evs where "(case LookupByChannel (sub_channel sub) (ag_jobs a) of
          None \<Rightarrow> [] | Some j \<Rightarrow> replay_events (in_send_ok i) (sub_channel sub) (Replay j)) =
        map (SendStream (sub_channel sub)) evs"
    proof (cases "LookupByChannel (sub_channel sub) (ag_jobs a)")
      case None
      then show ?thesis using that [of "[]"] by simp
    next
      case (Some j)
      then show ?thesis using replayed [of "in_send_ok i" "sub_channel sub" "Replay j"] that by auto
    qed
    then show ?thesis
      using assms Some True installed [of "sub_channel sub" evs] by (simp add: handleSubscribe_def Let_def)
  next
    case False
    then show ?thesis
      using assms Some denied note_event_frame by (fastforce simp: handleSubscribe_def Let_def reject_def)
  qed
qed

lemma handleCredentialUpdate_cases:
  assumes "handleCredentialUpdate i p a = Some a'"
  obtains (unparsed) "as_credential p = None" "a' = a"
    | (rejected) msg err s where "as_credential p = Some msg" "verifyCredentialRotation a msg = Inl err"
        "a' = emit [SendAck \<lparr>ack_rotation_id = cu_rotation_id msg, ack_success = False, ack_error = err\<rparr>]
           (a\<lparr>ag_events := s\<rparr>)"
    | (rotated) msg where "as_credential p = Some msg" "verifyCredentialRotation a msg = Inr ()"
        "a' = emit [SendAck \<lparr>ack_rotation_id = cu_rotation_id msg, ack_success = (in_save_err i = None),
             ack_error = (case in_save_err i of None \<Rightarrow> [] | Some e \<Rightarrow> e)\<rparr>]
           (a\<lparr>ag_auth := UpdateCredentials (cu_api_key msg) (cu_api_secret msg) (ag_auth a),
              ag_cfg := (ag_cfg a)\<lparr>cfg_api_key := cu_api_key msg, cfg_api_secret := cu_api_secret msg\<rparr>\<rparr>)"
proof (cases "as_credential p")
  case None
  then show ?thesis using assms unparsed by (simp add: handleCredentialUpdate_def)
next
  case (Some msg)
  show ?thesis
  proof (cases "verifyCredentialRotation a msg")
    case (Inl err)
    then show ?thesis
      using assms Some rejected note_event_frame by (fastforce simp: handleCredentialUpdate_def)
  next
    case (Inr u)
    then show ?thesis
      using assms Some rotated [of msg]
      by (simp add: handleCredentialUpdate_def saveCredentials_def Let_def)
  qed
qed

lemma handleMessage_cases:
  assumes "handleMessage i ty p a = Some a'"
  obtains (command) "a' = submitCommand p a"
    | (subscribe) "handleSubscribe i p a = Some a'"
    | (unsubscribe) "a' = handleUnsubscribe p a"
    | (credential) "handleCredentialUpdate i p a = Some a'" "ty = TypeCredentialUpdate"
    | (other) "a' = a"
proof -
  let ?h = "handleMessage i ty p a"
  have "?h = Some (submitCommand p a) \<or> ?h = handleSubscribe i p a \<or> ?h = Some (handleUnsubscribe p a) \<or>
      ?h = handleCredentialUpdate i p a \<and> ty = TypeCredentialUpdate \<or> ?h = Some a"
    unfolding handleMessage_def by presburger
  with assms that show ?thesis by (metis option.inject)
qed

lemma worker_begin_cases:
  assumes "worker_begin i w d a = Some a'"
  obtains (ended) "d = None" "a' = free_slot w a"
    | (answered) cmd err s where "d = Some cmd"
        "a' = free_slot w (emit [SendCommandResult (msg_id cmd) False [] err 0] (a\<lparr>ag_events := s\<rparr>))"
    | (call) cmd m t where "d = Some cmd" "Allowed (ag_level a) (cm_action cmd)"
        "ag_handlers a (cm_action cmd) = Some m"
        "t = command_timeout (cfg_security (ag_cfg a)) (cm_timeout cmd)"
        "a' = set_worker w (Executing cmd m t) (a\<lparr>ag_called := ag_called a @ [(cmd, m, t)]\<rparr>)"
proof -
  obtain v b where vb: "handleCommand i d a = Some (v, b)"
      "a' = (case v of Call cmd m t \<Rightarrow> set_worker w (Executing cmd m t) b | _ \<Rightarrow> free_slot w b)"
    using assms by (auto simp: worker_begin_def)
  from vb(1) show ?thesis
  proof (cases rule: handleCommand_cases)
    case dropped
    with vb(2) ended show ?thesis by simp
  next
    case (answered cmd err s)
    with vb(2) that(2) [of cmd err s] show ?thesis by simp
  next
    case (call cmd m)
    with vb(2) that(3) [of cmd m] show ?thesis by simp
  qed
qed

subsection \<open>What never changes\<close>

definition frame :: "agent \<Rightarrow> agent \<Rightarrow> bool" where
  "frame a b \<longleftrightarrow> ag_level b = ag_level a \<and> ag_handlers b = ag_handlers a \<and> ag_slots b = ag_slots a \<and>
     ag_metrics b = ag_metrics a \<and> cfg_security (ag_cfg b) = cfg_security (ag_cfg a) \<and>
     cfg_agent_id (ag_cfg b) = cfg_agent_id (ag_cfg a)"

lemma submitCommand_frame: "frame a (submitCommand p a)"
  by (simp add: frame_def submitCommand_def Let_def split: option.split)

lemma handleUnsubscribe_frame: "frame a (handleUnsubscribe p a)"
  by (simp add: frame_def handleUnsubscribe_def split: option.split)

lemma worker_simps [simp]:
  "ag_level (free_slot w a) = ag_level a" "ag_handlers (free_slot w a) = ag_handlers a"
  "ag_slots (free_slot w a) = ag_slots a" "ag_metrics (free_slot w a) = ag_metrics a"
  "ag_cfg (free_slot w a) = ag_cfg a" "ag_called (free_slot w a) = ag_called a"
  "ag_sent (free_slot w a) = ag_sent a" "ag_received (free_slot w a) = ag_received a"
  "ag_live (free_slot w a) = ag_live a" "ag_subscriptions (free_slot w a) = ag_subscriptions a"
  "ag_next_ctx (free_slot w a) = ag_next_ctx a" "ag_next_worker (free_slot w a) = ag_next_worker a"
  "ag_auth (free_slot w a) = ag_auth a" "ag_events (free_slot w a) = ag_events a"
  "ag_level (set_worker w st a) = ag_level a" "ag_handlers (set_worker w st a) = ag_handlers a"
  "ag_slots (set_worker w st a) = ag_slots a" "ag_metrics (set_worker w st a) = ag_metrics a"
  "ag_cfg (set_worker w st a) = ag_cfg a" "ag_called (set_worker w st a) = ag_called a"
  "ag_sent (set_worker w st a) = ag_sent a" "ag_received (set_worker w st a) = ag_received a"
  "ag_live (set_worker w st a) = ag_live a" "ag_subscriptions (set_worker w st a) = ag_subscriptions a"
  "ag_next_ctx (set_worker w st a) = ag_next_ctx a" "ag_next_worker (set_worker w st a) = ag_next_worker a"
  "ag_auth (set_worker w st a) = ag_auth a" "ag_events (set_worker w st a) = ag_events a"
  by (simp_all add: free_slot_def set_worker_def)

lemma step_frame:
  assumes "step a a'"
  shows "frame a a'"
  using assms
proof (cases rule: step.cases)
  case (receive i ty p)
  from receive(2) show ?thesis
  proof (cases rule: handleMessage_cases)
    case subscribe
    then show ?thesis by (cases rule: handleSubscribe_cases) (simp_all add: frame_def)
  next
    case credential
    then show ?thesis by (cases rule: handleCredentialUpdate_cases) (simp_all add: frame_def)
  qed (simp_all add: submitCommand_frame handleUnsubscribe_frame, simp add: frame_def)
next
  case (start w d i)
  from start(2) show ?thesis by (cases rule: worker_begin_cases) (simp_all add: frame_def)
next
  case (noted i kind sev msg meta)
  then show ?thesis using note_event_frame by (fastforce simp: frame_def)
next
  case (tick c ch collect_ok)
  from tick(2) show ?thesis by (cases rule: streamData_cases) (simp_all add: frame_def)
qed (simp_all add: frame_def worker_end_def Restart_def cleanup_def)

lemma reachable_frame: "reachable a0 a \<Longrightarrow> frame a0 a"
  by (induction rule: reachable.induct) (auto simp: frame_def dest: step_frame)

subsection \<open>Only permitted handlers are called\<close>

lemma command_timeout_bounds:
  "0 < command_timeout sec t \<and> command_timeout sec t \<le> resolveMaxExecTimeout (Some sec)"
proof -
  have "0 < resolveMaxExecTimeout (Some sec)"
    by (simp add: resolveMaxExecTimeout_def defaultMaxExecTimeout_def second_def)
  then show ?thesis by (simp add: command_timeout_def Let_def)
qed

definition called_ok :: "agent \<Rightarrow> bool" where
  "called_ok a \<longleftrightarrow> (\<forall>(cmd, m, t) \<in> set (ag_called a).
     Allowed (ag_level a) (cm_action cmd) \<and> ag_handlers a (cm_action cmd) = Some m \<and>
     0 < t \<and> t \<le> resolveMaxExecTimeout (Some (cfg_security (ag_cfg a))))"

lemma step_called:
  assumes "step a a'"
  obtains "ag_called a' = ag_called a"
    | cmd m where "Allowed (ag_level a) (cm_action cmd)" "ag_handlers a (cm_action cmd) = Some m"
        "ag_called a' = ag_called a @ [(cmd, m, command_timeout (cfg_security (ag_cfg a)) (cm_timeout cmd))]"
  using assms
proof (cases rule: step.cases)
  case (receive i ty p)
  from receive(2) have "ag_called a' = ag_called a"
  proof (cases rule: handleMessage_cases)
    case subscribe
    then show ?thesis by (cases rule: handleSubscribe_cases) simp_all
  next
    case credential
    then show ?thesis by (cases rule: handleCredentialUpdate_cases) simp_all
  qed (simp_all add: submitCommand_def handleUnsubscribe_def Let_def split: option.split)
  then show ?thesis by (rule that(1))
next
  case (start w d i)
  from start(2) show ?thesis
  proof (cases rule: worker_begin_cases)
    case (call cmd m t)
    then show ?thesis using that(2) [of cmd m] by simp
  qed (simp_all add: that(1))
next
  case (noted i kind sev msg meta)
  then show ?thesis using note_event_frame that(1) by fastforce
next
  case (tick c ch collect_ok)
  from tick(2) show ?thesis by (cases rule: streamData_cases) (simp_all add: that(1))
qed (simp_all add: that(1) worker_end_def Restart_def cleanup_def)

lemma step_called_ok:
  assumes "called_ok a" "step a a'"
  shows "called_ok a'"
  using assms(2) step_frame [OF assms(2)] command_timeout_bounds assms(1)
  by (cases rule: step_called) (auto simp: called_ok_def frame_def)

lemma reachable_called_ok: "reachable a0 a \<Longrightarrow> called_ok a0 \<Longrightarrow> called_ok a"
  by (induction rule: reachable.induct) (auto intro: step_called_ok)

end
