(* ===== verification/AgentSafety.thy ===== *)
theory AgentSafety
  imports Dispatch
begin

text \<open>
  The invariants of the agent as a transition system: the pool is bounded and every command is
  accounted for, successes and streams are covered by a call and by the level, subscriptions and live
  streams agree, the two copies of the credentials agree, and the dispatcher does not panic. A new agent satisfies
  all of them.
\<close>

subsection \<open>The command pool\<close>

lemma workers_split:
  assumes "map_of ws w = Some st" "distinct (map fst ws)"
  obtains xs ys where "ws = xs @ (w, st) # ys" "w \<notin> fst ` set xs" "w \<notin> fst ` set ys"
proof -
  obtain xs ys where "ws = xs @ (w, st) # ys"
    using map_of_SomeD [OF assms(1)] by (meson split_list)
  with assms(2) that show ?thesis by auto
qed

lemma map_keep: "w \<notin> fst ` set xs \<Longrightarrow> map (\<lambda>(v, s). if v = w then (v, st) else (v, s)) xs = xs"
  by (induction xs) auto

lemma filter_keep: "w \<notin> fst ` set xs \<Longrightarrow> filter (\<lambda>(v, s). v \<noteq> w) xs = xs"
  by (induction xs) auto

lemma set_worker_at:
  "ag_workers a = xs @ (w, st0) # ys \<Longrightarrow> w \<notin> fst ` set xs \<Longrightarrow> w \<notin> fst ` set ys \<Longrightarrow>
   ag_workers (set_worker w st a) = xs @ (w, st) # ys"
  by (simp add: set_worker_def map_keep)

lemma free_slot_at:
  "ag_workers a = xs @ (w, st0) # ys \<Longrightarrow> w \<notin> fst ` set xs \<Longrightarrow> w \<notin> fst ` set ys \<Longrightarrow>
   ag_workers (free_slot w a) = xs @ ys"
  by (simp add: free_slot_def filter_keep)

text \<open>Commands with an id: received, answered, and in the hands of a worker.\<close>

definition received :: "string \<Rightarrow> agent \<Rightarrow> nat" where
  "received i a = length (filter (\<lambda>c. msg_id c = i) (ag_received a))"

fun answers :: "string \<Rightarrow> outmsg \<Rightarrow> bool" where
  "answers i (SendCommandResult c ok d e t) = (c = i)"
| "answers i _ = False"

definition answered :: "string \<Rightarrow> agent \<Rightarrow> nat" where
  "answered i a = length (filter (answers i) (ag_sent a))"

fun works_on :: "string \<Rightarrow> worker \<Rightarrow> bool" where
  "works_on i (Spawned None) = False"
| "works_on i (Spawned (Some c)) = (msg_id c = i)"
| "works_on i (Executing c m t) = (msg_id c = i)"

definition working :: "string \<Rightarrow> agent \<Rightarrow> nat" where
  "working i a = length (filter (works_on i \<circ> snd) (ag_workers a))"

definition pool_ok :: "agent \<Rightarrow> bool" where
  "pool_ok a \<longleftrightarrow> length (ag_workers a) \<le> ag_slots a \<and> distinct (map fst (ag_workers a)) \<and>
     (\<forall>w \<in> fst ` set (ag_workers a). w < ag_next_worker a) \<and>
     (\<forall>i. received i a = answered i a + working i a)"

text \<open>A step that leaves workers, received commands and answers alone.\<close>

definition same_pool :: "agent \<Rightarrow> agent \<Rightarrow> bool" where
  "same_pool a b \<longleftrightarrow> ag_workers b = ag_workers a \<and> ag_received b = ag_received a \<and>
     ag_slots b = ag_slots a \<and> ag_next_worker b = ag_next_worker a \<and>
     (\<forall>i. filter (answers i) (ag_sent b) = filter (answers i) (ag_sent a))"

lemma same_pool_ok: "pool_ok a \<Longrightarrow> same_pool a b \<Longrightarrow> pool_ok b"
  by (simp add: pool_ok_def same_pool_def received_def answered_def working_def)

lemma no_answers_stream [simp]: "filter (answers i) (map (SendStream ch) evs) = []"
  by (induction evs) simp_all

lemma submitCommand_pool:
  assumes "pool_ok a"
  shows "pool_ok (submitCommand p a)"
proof (cases "length (ag_workers a) < ag_slots a")
  case True
  with assms show ?thesis
    by (cases "as_command p")
      (auto simp: submitCommand_def pool_ok_def received_def answered_def working_def Let_def less_Suc_eq)
next
  case False
  with assms show ?thesis
    by (cases "as_command p")
      (auto simp: submitCommand_def pool_ok_def received_def answered_def working_def Let_def)
qed

lemma handleMessage_pool:
  assumes "pool_ok a" "handleMessage i ty p a = Some a'"
  shows "pool_ok a'"
  using assms(2)
proof (cases rule: handleMessage_cases)
  case command
  then show ?thesis using assms(1) submitCommand_pool by simp
next
  case subscribe
  then have "same_pool a a'" by (cases rule: handleSubscribe_cases) (simp_all add: same_pool_def)
  then show ?thesis using assms(1) same_pool_ok by blast
next
  case unsubscribe
  then have "same_pool a a'" by (simp add: same_pool_def handleUnsubscribe_def split: option.split)
  then show ?thesis using assms(1) same_pool_ok by blast
next
  case credential
  then have "same_pool a a'" by (cases rule: handleCredentialUpdate_cases) (simp_all add: same_pool_def)
  then show ?thesis using assms(1) same_pool_ok by blast
qed (use assms in simp)

lemma worker_begin_pool:
  assumes "pool_ok a" "map_of (ag_workers a) w = Some (Spawned d)" "worker_begin i w d a = Some a'"
  shows "pool_ok a'"
proof -
  obtain xs ys where ws: "ag_workers a = xs @ (w, Spawned d) # ys" "w \<notin> fst ` set xs" "w \<notin> fst ` set ys"
    using workers_split assms(1,2) unfolding pool_ok_def by metis
  from assms(3) show ?thesis
  proof (cases rule: worker_begin_cases)
    case ended
    then show ?thesis using assms(1) free_slot_at [OF ws] ws(1)
      by (auto simp: pool_ok_def received_def answered_def working_def)
  next
    case (answered cmd err s)
    let ?b = "emit [SendCommandResult (msg_id cmd) False [] err 0] (a\<lparr>ag_events := s\<rparr>)"
    have "ag_workers (free_slot w ?b) = xs @ ys" by (rule free_slot_at [OF _ ws(2,3)]) (simp add: ws(1))
    then show ?thesis using assms(1) answered ws(1)
      by (auto simp: pool_ok_def received_def answered_def working_def)
  next
    case (call cmd m t)
    let ?b = "a\<lparr>ag_called := ag_called a @ [(cmd, m, t)]\<rparr>"
    have "ag_workers (set_worker w (Executing cmd m t) ?b) = xs @ (w, Executing cmd m t) # ys"
      by (rule set_worker_at [OF _ ws(2,3)]) (simp add: ws(1))
    then show ?thesis using assms(1) call ws(1)
      by (auto simp: pool_ok_def received_def answered_def working_def)
  qed
qed

lemma worker_end_pool:
  assumes "pool_ok a" "map_of (ag_workers a) w = Some (Executing cmd m t)"
  shows "pool_ok (worker_end w cmd result duration a)"
proof -
  obtain xs ys where ws: "ag_workers a = xs @ (w, Executing cmd m t) # ys" "w \<notin> fst ` set xs" "w \<notin> fst ` set ys"
    using workers_split assms unfolding pool_ok_def by metis
  let ?b = "emit [commandResult cmd result duration] a"
  have "ag_workers (free_slot w ?b) = xs @ ys" by (rule free_slot_at [OF _ ws(2,3)]) (simp add: ws(1))
  moreover have "filter (answers i) [commandResult cmd result duration] =
      (if msg_id cmd = i then [commandResult cmd result duration] else [])" for i
    by (simp add: commandResult_def split: sum.split)
  ultimately show ?thesis using assms(1) ws(1)
    by (auto simp: worker_end_def pool_ok_def received_def answered_def working_def)
qed

lemma step_pool:
  assumes "pool_ok a" "step a a'"
  shows "pool_ok a'"
  using assms(2)
proof (cases rule: step.cases)
  case (receive i ty p)
  then show ?thesis using handleMessage_pool assms(1) by blast
next
  case (start w d i)
  then show ?thesis using worker_begin_pool assms(1) by blast
next
  case (finish w cmd m t result duration)
  then show ?thesis using worker_end_pool assms(1) by blast
next
  case (noted i kind sev msg meta)
  then have "same_pool a a'" using note_event_frame by (fastforce simp: same_pool_def)
  then show ?thesis using assms(1) same_pool_ok by blast
next
  case (tick c ch collect_ok)
  from tick(2) have "same_pool a a'" by (cases rule: streamData_cases) (simp_all add: same_pool_def)
  then show ?thesis using assms(1) same_pool_ok by blast
qed (use assms(1) in \<open>auto simp: Restart_def cleanup_def same_pool_def intro!: same_pool_ok [OF assms(1)]\<close>)

lemma reachable_pool: "reachable a0 a \<Longrightarrow> pool_ok a0 \<Longrightarrow> pool_ok a"
  by (induction rule: reachable.induct) (auto intro: step_pool)

subsection \<open>Successes and streams\<close>

fun sent_fine :: "level \<Rightarrow> (command_message \<times> meth \<times> int) list \<Rightarrow> outmsg \<Rightarrow> bool" where
  "sent_fine lvl called (SendCommandResult i ok d e t) = (ok \<longrightarrow> (\<exists>(cmd, m, t) \<in> set called. msg_id cmd = i))"
| "sent_fine lvl called (SendStream ch ev) = ChannelAllowed lvl ch"
| "sent_fine lvl called (SendMetrics ch) = ChannelAllowed lvl ch"
| "sent_fine lvl called _ = True"

fun worker_fine :: "(command_message \<times> meth \<times> int) list \<Rightarrow> worker \<Rightarrow> bool" where
  "worker_fine called (Executing cmd m t) = ((cmd, m, t) \<in> set called)"
| "worker_fine called (Spawned d) = True"

definition traffic_ok :: "agent \<Rightarrow> bool" where
  "traffic_ok a \<longleftrightarrow> (\<forall>ms \<in> set (ag_sent a). sent_fine (ag_level a) (ag_called a) ms) \<and>
     (\<forall>(w, st) \<in> set (ag_workers a). worker_fine (ag_called a) st) \<and>
     (\<forall>(c, ch) \<in> set (ag_live a). ChannelAllowed (ag_level a) ch)"

lemma sent_fine_more: "sent_fine lvl called ms \<Longrightarrow> sent_fine lvl (called @ cs) ms"
  by (cases ms) auto

lemma worker_fine_more: "worker_fine called st \<Longrightarrow> worker_fine (called @ cs) st"
  by (cases st) auto

lemma free_slot_workers: "set (ag_workers (free_slot w a)) \<subseteq> set (ag_workers a)"
  by (auto simp: free_slot_def)

lemma set_worker_workers: "set (ag_workers (set_worker w st a)) \<subseteq> insert (w, st) (set (ag_workers a))"
  by (auto simp: set_worker_def split: if_splits)

lemma cancel_ctx_set: "set (cancel_ctx c live) \<subseteq> set live"
  by (auto simp: cancel_ctx_def)

lemma traffic_frame:
  assumes "traffic_ok a" "ag_level b = ag_level a" "ag_called b = ag_called a"
    "set (ag_workers b) \<subseteq> set (ag_workers a)" "set (ag_live b) \<subseteq> set (ag_live a)"
    "\<forall>ms \<in> set (ag_sent b). ms \<in> set (ag_sent a) \<or> sent_fine (ag_level a) (ag_called a) ms"
  shows "traffic_ok b"
  using assms unfolding traffic_ok_def by (simp add: subset_iff) blast

lemma handleMessage_traffic:
  assumes "traffic_ok a" "handleMessage i ty p a = Some a'"
  shows "traffic_ok a'"
  using assms(2)
proof (cases rule: handleMessage_cases)
  case command
  then show ?thesis using assms(1)
    by (cases "as_command p") (auto simp: submitCommand_def traffic_ok_def Let_def)
next
  case subscribe
  then show ?thesis
  proof (cases rule: handleSubscribe_cases)
    case (installed ch evs)
    have "set (case ag_subscriptions a ch of None \<Rightarrow> ag_live a | Some c \<Rightarrow> cancel_ctx c (ag_live a)) \<subseteq> set (ag_live a)"
      by (simp add: cancel_ctx_set split: option.split)
    with installed assms(1) show ?thesis unfolding traffic_ok_def by (auto split: option.splits)
  qed (use assms(1) in \<open>auto simp: traffic_ok_def\<close>)
next
  case unsubscribe
  then show ?thesis using assms(1) cancel_ctx_set
    by (auto simp: handleUnsubscribe_def traffic_ok_def split: option.splits) blast+
next
  case credential
  then show ?thesis by (cases rule: handleCredentialUpdate_cases) (use assms(1) in \<open>auto simp: traffic_ok_def\<close>)
qed (use assms in simp)

lemma worker_begin_traffic:
  assumes "traffic_ok a" "worker_begin i w d a = Some a'"
  shows "traffic_ok a'"
  using assms(2)
proof (cases rule: worker_begin_cases)
  case ended
  then show ?thesis using assms(1) free_slot_workers by (intro traffic_frame [OF assms(1)]) auto
next
  case (answered cmd err s)
  let ?b = "emit [SendCommandResult (msg_id cmd) False [] err 0] (a\<lparr>ag_events := s\<rparr>)"
  show ?thesis using answered free_slot_workers [of w ?b] by (intro traffic_frame [OF assms(1)]) auto
next
  case (call cmd m t)
  let ?cs = "ag_called a @ [(cmd, m, t)]"
  have a': "ag_called a' = ?cs" "ag_level a' = ag_level a" "ag_sent a' = ag_sent a" "ag_live a' = ag_live a"
    using call(5) by simp_all
  have ws: "set (ag_workers a') \<subseteq> insert (w, Executing cmd m t) (set (ag_workers a))"
    using set_worker_workers [of w "Executing cmd m t" "a\<lparr>ag_called := ?cs\<rparr>"] call(5) by simp
  have "worker_fine ?cs st" if "(v, st) \<in> set (ag_workers a')" for v st
  proof (cases "(v, st) \<in> set (ag_workers a)")
    case True
    then show ?thesis using assms(1) worker_fine_more unfolding traffic_ok_def by blast
  next
    case False
    then show ?thesis using that ws by auto
  qed
  moreover have "sent_fine (ag_level a) ?cs ms" if "ms \<in> set (ag_sent a)" for ms
    using that assms(1) sent_fine_more unfolding traffic_ok_def by blast
  ultimately show ?thesis using assms(1) unfolding traffic_ok_def a' by blast
qed

lemma worker_end_traffic:
  assumes "traffic_ok a" "map_of (ag_workers a) w = Some (Executing cmd m t)"
  shows "traffic_ok (worker_end w cmd result duration a)"
proof -
  let ?b = "emit [commandResult cmd result duration] a"
  have "(w, Executing cmd m t) \<in> set (ag_workers a)" using assms(2) by (rule map_of_SomeD)
  with assms(1) have "(cmd, m, t) \<in> set (ag_called a)" unfolding traffic_ok_def by fastforce
  then have "sent_fine (ag_level a) (ag_called a) (commandResult cmd result duration)"
    by (auto simp: commandResult_def split: sum.split)
  then show ?thesis unfolding worker_end_def using free_slot_workers [of w ?b]
    by (intro traffic_frame [OF assms(1)]) auto
qed

lemma step_traffic:
  assumes "traffic_ok a" "step a a'"
  shows "traffic_ok a'"
  using assms(2)
proof (cases rule: step.cases)
  case (receive i ty p)
  then show ?thesis using handleMessage_traffic assms(1) by blast
next
  case (start w d i)
  then show ?thesis using worker_begin_traffic assms(1) by blast
next
  case (finish w cmd m t result duration)
  then show ?thesis using worker_end_traffic assms(1) by blast
next
  case (tick c ch collect_ok)
  then have "ChannelAllowed (ag_level a) ch" using assms(1) by (auto simp: traffic_ok_def)
  with tick show ?thesis by (elim streamData_cases; intro traffic_frame [OF assms(1)]) auto
next
  case (noted i kind sev msg meta)
  then show ?thesis using note_event_frame assms(1) by (fastforce intro: traffic_frame)
qed (use assms(1) in \<open>auto simp: Restart_def cleanup_def traffic_ok_def\<close>)

lemma reachable_traffic: "reachable a0 a \<Longrightarrow> traffic_ok a0 \<Longrightarrow> traffic_ok a"
  by (induction rule: reachable.induct) (auto intro: step_traffic)

subsection \<open>Subscriptions\<close>

text \<open>The live streams are exactly the registered ones, one for each channel.\<close>

definition subs_ok :: "agent \<Rightarrow> bool" where
  "subs_ok a \<longleftrightarrow> distinct (map fst (ag_live a)) \<and> (\<forall>p \<in> set (ag_live a). fst p < ag_next_ctx a) \<and>
     (\<forall>ch c. ag_subscriptions a ch = Some c \<longleftrightarrow> (c, ch) \<in> set (ag_live a))"

lemma subs_frame:
  "subs_ok a \<Longrightarrow> ag_live b = ag_live a \<Longrightarrow> ag_next_ctx b = ag_next_ctx a \<Longrightarrow>
   ag_subscriptions b = ag_subscriptions a \<Longrightarrow> subs_ok b"
  by (simp add: subs_ok_def)

lemma cancel_ctx_member: "(d, ch) \<in> set (cancel_ctx c live) \<longleftrightarrow> (d, ch) \<in> set live \<and> d \<noteq> c"
  by (auto simp: cancel_ctx_def)

lemma cancel_ctx_distinct: "distinct (map fst live) \<Longrightarrow> distinct (map fst (cancel_ctx c live))"
  unfolding cancel_ctx_def by (induction live) auto

lemma live_ctx_unique:
  "distinct (map fst live) \<Longrightarrow> (c, ch) \<in> set live \<Longrightarrow> (c, ch') \<in> set live \<Longrightarrow> ch = ch'"
  by (metis eq_key_imp_eq_value)

lemma subscribe_subs:
  assumes "subs_ok a"
    "ag_live b = (case ag_subscriptions a ch of None \<Rightarrow> ag_live a | Some c \<Rightarrow> cancel_ctx c (ag_live a)) @ [(ag_next_ctx a, ch)]"
    "ag_next_ctx b = Suc (ag_next_ctx a)" "ag_subscriptions b = (ag_subscriptions a)(ch \<mapsto> ag_next_ctx a)"
  shows "subs_ok b"
proof -
  let ?kept = "case ag_subscriptions a ch of None \<Rightarrow> ag_live a | Some c \<Rightarrow> cancel_ctx c (ag_live a)"
  have d: "distinct (map fst (ag_live a))" and lt: "\<forall>p \<in> set (ag_live a). fst p < ag_next_ctx a"
    and iff: "\<And>k c. ag_subscriptions a k = Some c \<longleftrightarrow> (c, k) \<in> set (ag_live a)"
    using assms(1) by (auto simp: subs_ok_def)
  have kept: "(c, k) \<in> set ?kept \<longleftrightarrow> (c, k) \<in> set (ag_live a) \<and> k \<noteq> ch" for c k
  proof (cases "ag_subscriptions a ch")
    case None
    then have "(c, ch) \<notin> set (ag_live a)" using iff [of ch c] by simp
    then show ?thesis using None by auto
  next
    case (Some c0)
    then have c0: "(c0, ch) \<in> set (ag_live a)" by (simp add: iff)
    have "(c, k) \<in> set (ag_live a) \<Longrightarrow> c \<noteq> c0 \<longleftrightarrow> k \<noteq> ch"
      using live_ctx_unique [OF d c0] iff Some by (metis option.inject)
    then show ?thesis using Some by (auto simp: cancel_ctx_member)
  qed
  have "set ?kept \<subseteq> set (ag_live a)" by (simp add: cancel_ctx_set split: option.split)
  then have new: "ag_next_ctx a \<notin> fst ` set ?kept" and lt': "\<forall>p \<in> set ?kept. fst p < ag_next_ctx a"
    using lt by fastforce+
  have "distinct (map fst ?kept)" using d by (simp add: cancel_ctx_distinct split: option.split)
  then have "distinct (map fst (ag_live b))" using new assms(2) by simp
  moreover have "\<forall>p \<in> set (ag_live b). fst p < ag_next_ctx b"
    using lt' assms(2,3) by (auto simp: less_Suc_eq simp del: option.case)
  moreover have "ag_subscriptions b k = Some c \<longleftrightarrow> (c, k) \<in> set (ag_live b)" for k c
    unfolding assms(2,4) set_append by (cases "k = ch") (auto simp: kept iff)
  ultimately show ?thesis by (simp add: subs_ok_def)
qed

lemma unsubscribe_subs:
  assumes "subs_ok a"
  shows "subs_ok (handleUnsubscribe p a)"
proof (cases "as_unsubscribe p")
  case None
  then show ?thesis using assms by (simp add: handleUnsubscribe_def)
next
  case (Some u)
  show ?thesis
  proof (cases "ag_subscriptions a (unsub_channel u)")
    case None
    then show ?thesis using assms Some by (simp add: handleUnsubscribe_def)
  next
    case sub: (Some c)
    have d: "distinct (map fst (ag_live a))" and iff: "\<And>k c. ag_subscriptions a k = Some c \<longleftrightarrow> (c, k) \<in> set (ag_live a)"
      using assms by (auto simp: subs_ok_def)
    have "(c, unsub_channel u) \<in> set (ag_live a)" using sub iff by simp
    then have same: "(e, k) \<in> set (ag_live a) \<Longrightarrow> e \<noteq> c \<longleftrightarrow> k \<noteq> unsub_channel u" for e k
      using live_ctx_unique [OF d] iff sub by (metis option.inject)
    have "handleUnsubscribe p a = a\<lparr>ag_live := cancel_ctx c (ag_live a),
        ag_subscriptions := (ag_subscriptions a)(unsub_channel u := None)\<rparr>"
      using Some sub by (simp add: handleUnsubscribe_def)
    moreover have "\<forall>q \<in> set (cancel_ctx c (ag_live a)). fst q < ag_next_ctx a"
      using assms cancel_ctx_set [of c "ag_live a"] by (auto simp: subs_ok_def)
    moreover have "((ag_subscriptions a)(unsub_channel u := None)) k = Some e \<longleftrightarrow>
        (e, k) \<in> set (cancel_ctx c (ag_live a))" for k e
      using same iff [of k e] by (auto simp: cancel_ctx_member)
    ultimately show ?thesis using cancel_ctx_distinct [OF d] by (simp add: subs_ok_def)
  qed
qed

lemma step_subs:
  assumes "subs_ok a" "step a a'"
  shows "subs_ok a'"
  using assms(2)
proof (cases rule: step.cases)
  case (receive i ty p)
  from receive(2) show ?thesis
  proof (cases rule: handleMessage_cases)
    case command
    then show ?thesis
      by (intro subs_frame [OF assms(1)]) (simp_all add: submitCommand_def Let_def split: option.split)
  next
    case subscribe
    then show ?thesis
    proof (cases rule: handleSubscribe_cases)
      case (installed ch evs)
      then show ?thesis by (intro subscribe_subs [OF assms(1), of _ ch]) simp_all
    qed (use assms(1) in \<open>auto intro: subs_frame\<close>)
  next
    case unsubscribe
    then show ?thesis using unsubscribe_subs [OF assms(1)] by simp
  next
    case credential
    then show ?thesis
      by (cases rule: handleCredentialUpdate_cases) (use assms(1) in \<open>auto intro: subs_frame\<close>)
  qed (use assms(1) in simp)
next
  case (start w d i)
  from start(2) show ?thesis
    by (cases rule: worker_begin_cases) (auto intro: subs_frame [OF assms(1)])
next
  case (noted i kind sev msg meta)
  then show ?thesis using note_event_frame assms(1) by (fastforce intro: subs_frame)
next
  case stop
  then show ?thesis by (simp add: cleanup_def subs_ok_def)
next
  case (tick c ch collect_ok)
  from tick(2) show ?thesis by (cases rule: streamData_cases) (use assms(1) in \<open>auto intro: subs_frame\<close>)
qed (use assms(1) in \<open>auto simp: worker_end_def Restart_def intro: subs_frame\<close>)

lemma reachable_subs: "reachable a0 a \<Longrightarrow> subs_ok a0 \<Longrightarrow> subs_ok a"
  by (induction rule: reachable.induct) (auto intro: step_subs)

subsection \<open>Credentials\<close>

definition creds :: "agent \<Rightarrow> string \<times> string" where
  "creds a = (au_apiKey (ag_auth a), au_apiSecret (ag_auth a))"

lemma handleMessage_creds:
  assumes "handleMessage i ty p a = Some a'" "ag_auth a' \<noteq> ag_auth a \<or> ag_cfg a' \<noteq> ag_cfg a"
  obtains msg where "ty = TypeCredentialUpdate" "as_credential p = Some msg" "verifyCredentialRotation a msg = Inr ()"
    "ag_auth a' = UpdateCredentials (cu_api_key msg) (cu_api_secret msg) (ag_auth a)"
    "ag_cfg a' = (ag_cfg a)\<lparr>cfg_api_key := cu_api_key msg, cfg_api_secret := cu_api_secret msg\<rparr>"
    "ag_sent a' = ag_sent a @ [SendAck \<lparr>ack_rotation_id = cu_rotation_id msg, ack_success = (in_save_err i = None),
       ack_error = (case in_save_err i of None \<Rightarrow> [] | Some e \<Rightarrow> e)\<rparr>]"
  using assms(1)
proof (cases rule: handleMessage_cases)
  case command
  then show ?thesis using assms(2) by (simp add: submitCommand_def Let_def split: option.splits if_splits)
next
  case subscribe
  then show ?thesis by (cases rule: handleSubscribe_cases) (use assms(2) in simp_all)
next
  case unsubscribe
  then show ?thesis using assms(2) by (simp add: handleUnsubscribe_def split: option.splits)
next
  case credential
  then show ?thesis
  proof (cases rule: handleCredentialUpdate_cases)
    case (rotated msg)
    then show ?thesis using that [of msg] credential(2) by simp
  qed (use assms(2) in simp_all)
qed (use assms(2) in simp)

lemma step_creds:
  assumes "step a a'"
  obtains (same) "ag_auth a' = ag_auth a" "ag_cfg a' = ag_cfg a"
    | (rotated) i ty p where "handleMessage i ty p a = Some a'" "ag_auth a' \<noteq> ag_auth a \<or> ag_cfg a' \<noteq> ag_cfg a"
  using assms
proof (cases rule: step.cases)
  case (receive i ty p)
  then show ?thesis using same rotated by blast
next
  case (start w d i)
  from start(2) show ?thesis by (cases rule: worker_begin_cases) (simp_all add: same)
next
  case (noted i kind sev msg meta)
  then show ?thesis using note_event_frame same by fastforce
next
  case (tick c ch collect_ok)
  from tick(2) show ?thesis by (cases rule: streamData_cases) (simp_all add: same)
qed (simp_all add: same worker_end_def Restart_def cleanup_def)

text \<open>What a message makes the agent send: a success only for a rotation that is signed.\<close>

fun reply_ok :: "agent \<Rightarrow> payload \<Rightarrow> outmsg \<Rightarrow> bool" where
  "reply_ok a p (SendAck ack) =
     (ack_success ack \<longrightarrow> (\<exists>msg. as_credential p = Some msg \<and> verifyCredentialRotation a msg = Inr ()))"
| "reply_ok a p (SendCommandResult i ok d e t) = (\<not> ok)"
| "reply_ok a p (SendStream ch ev) = ChannelAllowed (ag_level a) ch"
| "reply_ok a p (SendError c e) = True"
| "reply_ok a p (SendMetrics ch) = False"

lemma handleMessage_replies:
  assumes "handleMessage i ty p a = Some a'"
  obtains replies where "ag_sent a' = ag_sent a @ replies" "\<And>ms. ms \<in> set replies \<Longrightarrow> reply_ok a p ms"
  using assms
proof (cases rule: handleMessage_cases)
  case command
  obtain rs where "ag_sent a' = ag_sent a @ rs" "\<forall>ms \<in> set rs. reply_ok a p ms"
    using command by (fastforce simp: submitCommand_def Let_def split: option.splits if_splits)
  then show ?thesis using that by blast
next
  case subscribe
  then show ?thesis by (cases rule: handleSubscribe_cases) (auto intro!: that)
next
  case unsubscribe
  then show ?thesis using that [of "[]"] by (simp add: handleUnsubscribe_def split: option.splits)
next
  case credential
  from credential(1) show ?thesis
  proof (cases rule: handleCredentialUpdate_cases)
    case unparsed
    then show ?thesis using that [of "[]"] by simp
  next
    case (rejected msg err s)
    then show ?thesis
      using that [of "[SendAck \<lparr>ack_rotation_id = cu_rotation_id msg, ack_success = False, ack_error = err\<rparr>]"] by simp
  next
    case (rotated msg)
    then show ?thesis by (auto intro!: that)
  qed
next
  case other
  then show ?thesis using that [of "[]"] by simp
qed

definition creds_sync :: "agent \<Rightarrow> bool" where
  "creds_sync a \<longleftrightarrow> creds a = (cfg_api_key (ag_cfg a), cfg_api_secret (ag_cfg a))"

lemma step_creds_sync:
  assumes "creds_sync a" "step a a'"
  shows "creds_sync a'"
  using assms(2)
proof (cases rule: step_creds)
  case same
  then show ?thesis using assms(1) by (simp add: creds_sync_def creds_def)
next
  case (rotated i ty p)
  obtain msg :: credential_update
    where "ag_auth a' = UpdateCredentials (cu_api_key msg) (cu_api_secret msg) (ag_auth a)"
      "ag_cfg a' = (ag_cfg a)\<lparr>cfg_api_key := cu_api_key msg, cfg_api_secret := cu_api_secret msg\<rparr>"
    by (rule handleMessage_creds [OF rotated]) (rule that; assumption)
  then show ?thesis by (simp add: creds_sync_def creds_def)
qed

lemma reachable_creds_sync: "reachable a0 a \<Longrightarrow> creds_sync a0 \<Longrightarrow> creds_sync a"
  by (induction rule: reachable.induct) (auto intro: step_creds_sync)

lemma verifyCredentialRotation_ok:
  "verifyCredentialRotation a msg = Inr () \<longleftrightarrow>
     cu_rotation_id msg \<noteq> [] \<and> cu_api_key msg \<noteq> [] \<and> cu_api_secret msg \<noteq> [] \<and> au_apiSecret (ag_auth a) \<noteq> [] \<and>
     cu_hmac_sig msg = hmac_hex (au_apiSecret (ag_auth a)) (rotation_payload (cfg_agent_id (ag_cfg a)) msg)"
proof -
  obtain h where h: "h = hmac_hex (au_apiSecret (ag_auth a)) (rotation_payload (cfg_agent_id (ag_cfg a)) msg)" "h \<noteq> []"
    by simp
  show ?thesis
    unfolding verifyCredentialRotation_def h(1) [symmetric] using h(2)
    by (cases "cu_rotation_id msg = []"; cases "cu_api_key msg = []"; cases "cu_api_secret msg = []";
        cases "au_apiSecret (ag_auth a) = []"; cases "cu_hmac_sig msg = h"; simp)
qed

subsection \<open>The dispatcher does not panic\<close>

text \<open>
  The read loop and the look of a worker at its command always have a result, because the activity log
  keeps its bound. The two other ways an agent may panic are not of this kind: a metrics stream with an
  interval that is not positive, and a handler.
\<close>

lemma note_event_bounded:
  assumes "note_event i kind sev msg meta a = Some a'" "store_bounded (ag_events a)"
  shows "store_bounded (ag_events a')"
proof -
  obtain s where "note_event i kind sev msg meta a = Some (a\<lparr>ag_events := s\<rparr>)" "store_bounded s"
    using note_event_works [OF assms(2)] by blast
  then show ?thesis using assms(1) by simp
qed

lemma handleCommand_bounded:
  assumes "store_bounded (ag_events a)"
  shows "\<exists>v a'. handleCommand i d a = Some (v, a') \<and> store_bounded (ag_events a')"
proof (cases d)
  case None
  then show ?thesis using assms by (simp add: handleCommand_def)
next
  case (Some cmd)
  show ?thesis
  proof (cases "Check (ag_level a) (cm_action cmd)")
    case (Inl e)
    obtain b where b: "reject i ''command'' (cm_action cmd) (rejection_text e) a = Some b"
      using note_event_works [OF assms] unfolding reject_def by blast
    then have "store_bounded (ag_events b)" using note_event_bounded assms unfolding reject_def by blast
    then show ?thesis using Some Inl b by (simp add: handleCommand_def)
  next
    case (Inr u)
    then show ?thesis using Some assms by (simp add: handleCommand_def Let_def split: option.split)
  qed
qed

lemma handleSubscribe_bounded:
  assumes "store_bounded (ag_events a)"
  shows "\<exists>a'. handleSubscribe i p a = Some a' \<and> store_bounded (ag_events a')"
proof (cases "as_subscribe p")
  case None
  then show ?thesis using assms by (simp add: handleSubscribe_def)
next
  case (Some sub)
  define err where "err = ''subscription '' @ sub_channel sub @
    '' requires permission level full; this agent is configured as '' @ ag_level a"
  obtain b where b: "reject i ''subscribe'' (sub_channel sub) err a = Some b"
    using note_event_works [OF assms] unfolding reject_def by blast
  then have "store_bounded (ag_events b)" using note_event_bounded assms unfolding reject_def by blast
  moreover have "handleSubscribe i p a =
      (if \<not> ChannelAllowed (ag_level a) (sub_channel sub) then Some (emit [SendError ''permission_denied'' err] b)
       else handleSubscribe i p a)"
    using b unfolding handleSubscribe_def Some option.case Let_def err_def by simp
  moreover have "\<exists>a'. handleSubscribe i p a = Some a' \<and> ag_events a' = ag_events a"
    if "ChannelAllowed (ag_level a) (sub_channel sub)"
    using that unfolding handleSubscribe_def Some option.case Let_def by simp
  ultimately show ?thesis using assms by (cases "ChannelAllowed (ag_level a) (sub_channel sub)") auto
qed

lemma handleCredentialUpdate_bounded:
  assumes "store_bounded (ag_events a)"
  shows "\<exists>a'. handleCredentialUpdate i p a = Some a' \<and> store_bounded (ag_events a')"
proof (cases "as_credential p")
  case None
  then show ?thesis using assms by (simp add: handleCredentialUpdate_def)
next
  case (Some msg)
  show ?thesis
  proof (cases "verifyCredentialRotation a msg")
    case (Inl err)
    obtain b where b: "note_event i ''auth_failed'' ''warn'' (''Credential rotation rejected: '' @ err)
        [(''rotation_id'', cu_rotation_id msg)] a = Some b"
      using note_event_works [OF assms] by blast
    then have "store_bounded (ag_events b)" using note_event_bounded assms by blast
    then show ?thesis using Some Inl b by (simp add: handleCredentialUpdate_def)
  next
    case (Inr u)
    then show ?thesis using Some assms by (simp add: handleCredentialUpdate_def saveCredentials_def Let_def)
  qed
qed

lemma handleMessage_bounded:
  assumes "store_bounded (ag_events a)"
  shows "\<exists>a'. handleMessage i ty p a = Some a' \<and> store_bounded (ag_events a')"
proof -
  have "store_bounded (ag_events (submitCommand p a))" "store_bounded (ag_events (handleUnsubscribe p a))"
    using assms by (simp_all add: submitCommand_def handleUnsubscribe_def Let_def split: option.split)
  moreover have pick: "Q x \<Longrightarrow> Q y \<Longrightarrow> Q (if b then x else y)" for Q :: "agent option \<Rightarrow> bool" and b x y
    by simp
  ultimately show ?thesis
    unfolding handleMessage_def
    using assms handleSubscribe_bounded [OF assms, of i p] handleCredentialUpdate_bounded [OF assms, of i p]
    by (intro pick [where Q = "\<lambda>r. \<exists>a'. r = Some a' \<and> store_bounded (ag_events a')"]) simp_all
qed

lemma worker_begin_bounded:
  assumes "store_bounded (ag_events a)"
  shows "\<exists>a'. worker_begin i w d a = Some a' \<and> store_bounded (ag_events a')"
proof -
  obtain v b where "handleCommand i d a = Some (v, b)" "store_bounded (ag_events b)"
    using handleCommand_bounded [OF assms] by blast
  then show ?thesis by (cases v) (simp_all add: worker_begin_def)
qed

lemma step_bounded:
  assumes "store_bounded (ag_events a)" "step a a'"
  shows "store_bounded (ag_events a')"
  using assms(2)
proof (cases rule: step.cases)
  case (receive i ty p)
  then show ?thesis using handleMessage_bounded [OF assms(1), of i ty p] by simp
next
  case (start w d i)
  then show ?thesis using worker_begin_bounded [OF assms(1), of i w d] by simp
next
  case (noted i kind sev msg meta)
  then show ?thesis using note_event_bounded assms(1) by blast
next
  case (tick c ch collect_ok)
  from tick(2) show ?thesis by (cases rule: streamData_cases) (use assms(1) in simp_all)
qed (use assms(1) in \<open>simp_all add: worker_end_def Restart_def cleanup_def\<close>)

lemma reachable_bounded: "reachable a0 a \<Longrightarrow> store_bounded (ag_events a0) \<Longrightarrow> store_bounded (ag_events a)"
  by (induction rule: reachable.induct) (auto intro: step_bounded)

subsection \<open>A new agent satisfies the invariants\<close>

lemma New_invariants:
  assumes "New cfg level docker_ok path file = Inr a"
  shows "called_ok a" "pool_ok a" "traffic_ok a" "subs_ok a" "creds_sync a" "store_bounded (ag_events a)"
proof -
  obtain lvl where "a = registerHandlers (blank_agent cfg lvl docker_ok path file)"
    using New_Inr [OF assms] by blast
  then show "called_ok a" "pool_ok a" "traffic_ok a" "subs_ok a" "creds_sync a" "store_bounded (ag_events a)"
    by (simp_all add: called_ok_def pool_ok_def received_def answered_def working_def traffic_ok_def
        subs_ok_def creds_sync_def creds_def SetPermissionLevel_def Auth.New_def NewStore_bounded)
qed

lemma New_config:
  assumes "New cfg level docker_ok path file = Inr a"
  shows "ag_cfg a = cfg" "ag_slots a = cmdPoolSize cfg" "level = Inr (ag_level a)"
proof -
  obtain lvl where "level = Inr lvl" "a = registerHandlers (blank_agent cfg lvl docker_ok path file)"
    using New_Inr [OF assms] by blast
  then show "ag_cfg a = cfg" "ag_slots a = cmdPoolSize cfg" "level = Inr (ag_level a)" by simp_all
qed

end
