(* ===== verification/AgentProperties.thy ===== *)
theory AgentProperties
  imports AgentSafety
begin

text \<open>
  What the invariants of \<open>AgentSafety\<close> say of an agent that \<open>New\<close> built, with an example run of a
  protect-level agent that the witnesses share.
\<close>

subsection \<open>An example run\<close>

definition demo_config :: agent_config where
  "demo_config = \<lparr>cfg_agent_id = ''agent-1'', cfg_api_key = ''key-1'', cfg_api_secret = ''secret-1'',
     cfg_docker = False, cfg_metrics = True, cfg_metrics_interval = 10 * second, cfg_exec = False, cfg_file_access = False, cfg_ipc = False,
     cfg_security = \<lparr>sec_AllowedPaths = [], sec_BlockedCommands = [], sec_MaxExecTimeout = 0\<rparr>,
     cfg_max_concurrent = 1\<rparr>"

definition demo :: "level \<Rightarrow> agent" where
  "demo l = registerHandlers (blank_agent demo_config l False [] None)"

definition demo_inputs :: inputs where
  "demo_inputs = \<lparr>in_now = 0, in_write_ok = True, in_send_ok = (\<lambda>_. True), in_save_err = Some ''disk full''\<rparr>"

definition demo_command :: command_message where
  "demo_command = \<lparr>msg_type = TypeCommand, msg_id = ''c1'', msg_timestamp = 0, msg_signature = [],
     cm_action = ActionFirewallStatus, cm_params = ''{}'', cm_timeout = 5000\<rparr>"

definition demo_rotation :: credential_update where
  "demo_rotation = \<lparr>msg_type = TypeCredentialUpdate, msg_id = ''m1'', msg_timestamp = 0, msg_signature = [],
     cu_rotation_id = ''r1'', cu_api_key = ''key-2'', cu_api_secret = ''secret-2'',
     cu_hmac_sig = hmac_hex ''secret-1'' ''r1:agent-1:key-2:secret-2''\<rparr>"

definition demo_payload :: payload where
  "demo_payload = \<lparr>as_command = Some demo_command,
     as_subscribe = Some \<lparr>msg_type = TypeSubscribe, msg_id = ''s1'', msg_timestamp = 0, msg_signature = [],
       sub_channel = ChannelMetrics\<rparr>,
     as_unsubscribe = None, as_credential = Some demo_rotation\<rparr>"

lemma New_demo: "New demo_config (Inr l) False [] None = Inr (demo l)"
  by (simp add: New_def demo_def)

lemma demo_simps [simp]:
  "ag_cfg (demo l) = demo_config" "ag_level (demo l) = l" "ag_workers (demo l) = []" "ag_slots (demo l) = 1"
  "ag_subscriptions (demo l) = Map.empty" "ag_live (demo l) = []" "ag_sent (demo l) = []" "ag_called (demo l) = []"
  "ag_received (demo l) = []" "\<not> ag_stopped (demo l)" "ag_next_worker (demo l) = 0" "ag_next_ctx (demo l) = 0"
  "au_apiSecret (ag_auth (demo l)) = ''secret-1''" "au_apiKey (ag_auth (demo l)) = ''key-1''"
  by (simp_all add: demo_def registerHandlers_def blank_agent_def cmdPoolSize_def demo_config_def SetPermissionLevel_def
      Auth.New_def)

lemma demo_handler: "ag_handlers (demo Protect) ActionFirewallStatus = Some ''handleFirewallStatus''"
  by (simp add: demo_def registerHandlers_def all_handlers_def blank_agent_def demo_config_def
      assign_def base_handlers_def agent_handlers_def metrics_handlers_def protectActions_def)

definition demo1 :: agent where "demo1 = submitCommand demo_payload (demo Protect)"
definition demo_timeout :: int where
  "demo_timeout = command_timeout (cfg_security demo_config) (cm_timeout demo_command)"
definition demo2 :: agent where
  "demo2 = set_worker 0 (Executing demo_command ''handleFirewallStatus'' demo_timeout)
     (demo1\<lparr>ag_called := [(demo_command, ''handleFirewallStatus'', demo_timeout)]\<rparr>)"
definition demo3 :: agent where "demo3 = worker_end 0 demo_command (Inr ''{}'') 7 demo2"

lemma demo1_simps [simp]:
  "ag_workers demo1 = [(0, Spawned (Some demo_command))]" "ag_level demo1 = Protect"
  "ag_handlers demo1 = ag_handlers (demo Protect)" "ag_cfg demo1 = demo_config" "ag_called demo1 = []"
  "ag_sent demo1 = []" "ag_received demo1 = [demo_command]" "ag_subscriptions demo1 = Map.empty"
  "ag_live demo1 = []" "ag_stopped demo1 = False" "ag_next_ctx demo1 = 0" "ag_auth demo1 = ag_auth (demo Protect)"
  by (simp_all add: demo1_def submitCommand_def demo_payload_def Let_def)

lemma demo2_simps [simp]:
  "ag_workers demo2 = [(0, Executing demo_command ''handleFirewallStatus'' demo_timeout)]"
  "ag_called demo2 = [(demo_command, ''handleFirewallStatus'', demo_timeout)]"
  "ag_sent demo2 = []" "ag_received demo2 = [demo_command]" "ag_level demo2 = Protect"
  "ag_stopped demo2 = False" "ag_subscriptions demo2 = Map.empty" "ag_live demo2 = []" "ag_next_ctx demo2 = 0"
  "ag_auth demo2 = ag_auth (demo Protect)" "ag_cfg demo2 = demo_config"
  by (simp_all add: demo2_def set_worker_def)

lemma demo1_reachable: "reachable (demo Protect) demo1"
proof -
  have "step (demo Protect) demo1"
    by (rule step.receive [of _ undefined TypeCommand demo_payload]) (simp_all add: handleMessage_def demo1_def)
  then show ?thesis by (rule reachable.more [OF reachable.initial])
qed

lemma demo2_reachable: "reachable (demo Protect) demo2"
proof -
  have "cm_action demo_command = ActionFirewallStatus" by (simp add: demo_command_def)
  moreover have "Check Protect ActionFirewallStatus = Inr ()" by (simp add: Check_def protectActions_def)
  ultimately have "handleCommand demo_inputs (Some demo_command) demo1 =
      Some (Call demo_command ''handleFirewallStatus'' demo_timeout,
        demo1\<lparr>ag_called := [(demo_command, ''handleFirewallStatus'', demo_timeout)]\<rparr>)"
    unfolding handleCommand_def option.case Let_def by (simp add: demo_handler demo_timeout_def)
  then have "worker_begin demo_inputs 0 (Some demo_command) demo1 = Some demo2"
    by (simp add: worker_begin_def demo2_def)
  then have "step demo1 demo2" by (intro step.start [of demo1 0]) simp_all
  then show ?thesis by (rule reachable.more [OF demo1_reachable])
qed

lemma demo3_simps [simp]:
  "ag_workers demo3 = []" "ag_sent demo3 = [SendCommandResult ''c1'' True ''{}'' [] 7]"
  "ag_called demo3 = [(demo_command, ''handleFirewallStatus'', demo_timeout)]" "ag_received demo3 = [demo_command]"
  by (simp_all add: demo3_def worker_end_def free_slot_def commandResult_def demo_command_def)

lemma demo3_reachable: "reachable (demo Protect) demo3"
  unfolding demo3_def by (rule reachable.more [OF demo2_reachable step.finish]) simp

subsection \<open>The properties\<close>

text \<open>
  C1. Whatever the panel sends and however the workers interleave, a handler is only ever called for
  an action that the configured level allows, with the method that the enabled features register
  for it, and with a deadline that is positive and at most the configured maximum.
\<close>

theorem only_permitted_called:
  assumes "New cfg level docker_ok path file = Inr a0" "reachable a0 a" "(cmd, m, t) \<in> set (ag_called a)"
  shows "Allowed (ag_level a0) (cm_action cmd) \<and> (cm_action cmd, m) \<in> offered cfg (ag_level a0) \<and>
     0 < t \<and> t \<le> resolveMaxExecTimeout (Some (cfg_security cfg))"
proof -
  have "called_ok a" using reachable_called_ok [OF assms(2)] New_invariants [OF assms(1)] by blast
  then have c: "Allowed (ag_level a) (cm_action cmd)" "ag_handlers a (cm_action cmd) = Some m" "0 < t"
      "t \<le> resolveMaxExecTimeout (Some (cfg_security (ag_cfg a)))"
    using assms(3) by (auto simp: called_ok_def)
  moreover have "frame a0 a" by (rule reachable_frame [OF assms(2)])
  ultimately show ?thesis
    using New_handlers [OF assms(1), of "cm_action cmd" m] New_config [OF assms(1)] by (simp add: frame_def)
qed

theorem only_permitted_called_witness:
  "Allowed Protect ActionFirewallStatus \<and>
   (ActionFirewallStatus, ''handleFirewallStatus'') \<in> offered demo_config Protect \<and> 0 < demo_timeout"
  using only_permitted_called [OF New_demo demo2_reachable, of demo_command "''handleFirewallStatus''" demo_timeout]
  by (simp add: demo_command_def)

text \<open>
  C2. An agent at level monitor is inert. It starts no loop but the reporter, the sampler and the local
  console, so none that reads commands; and even if messages reached it: its table has no handler and
  none is ever called, so that no job is started and no terminal opened, which only handlers do; no
  subscription is kept and no stream is live; every command result it sends is a failure, and it
  sends no stream event and no metrics. The one success it may report is a credential rotation, and only
  in reply to a message that carries a rotation signed with its current secret.
\<close>

theorem monitor_is_inert:
  assumes "New cfg (Inr Monitor) docker_ok path file = Inr a0" "reachable a0 a"
  shows "set (run_loops a0) \<subseteq> {LIpc, LReporter, LSampler} \<and>
     ag_handlers a = Map.empty \<and> ag_called a = [] \<and> ag_live a = [] \<and> ag_subscriptions a = Map.empty \<and>
     (\<forall>ms \<in> set (ag_sent a). case ms of SendCommandResult i ok d e t \<Rightarrow> \<not> ok
        | SendStream ch ev \<Rightarrow> False | SendMetrics ch \<Rightarrow> False | SendError c e \<Rightarrow> True | SendAck ack \<Rightarrow> True) \<and>
     (\<forall>i ty p a'. handleMessage i ty p a = Some a' \<longrightarrow>
        (\<forall>ack. SendAck ack \<in> set (drop (length (ag_sent a)) (ag_sent a')) \<and> ack_success ack \<longrightarrow>
           (\<exists>msg. as_credential p = Some msg \<and> verifyCredentialRotation a msg = Inr ())))"
proof -
  have lvl: "ag_level a = Monitor" "ag_level a0 = Monitor" "ag_handlers a = ag_handlers a0"
    using New_config(3) [OF assms(1)] reachable_frame [OF assms(2)] by (simp_all add: frame_def)
  have "ag_handlers a0 action = None" for action
    using New_handlers [OF assms(1), of action] lvl(2) by (cases "ag_handlers a0 action") auto
  then have table: "ag_handlers a = Map.empty" using lvl(3) by (simp add: fun_eq_iff)
  have called: "ag_called a = []"
  proof (rule ccontr)
    assume "ag_called a \<noteq> []"
    then obtain cmd m t where "(cmd, m, t) \<in> set (ag_called a)" by (metis last_in_set prod_cases3)
    moreover have "called_ok a" using reachable_called_ok [OF assms(2)] New_invariants [OF assms(1)] by blast
    ultimately show False using table by (auto simp: called_ok_def)
  qed
  have t: "traffic_ok a" "subs_ok a"
    using reachable_traffic [OF assms(2)] reachable_subs [OF assms(2)] New_invariants [OF assms(1)] by blast+
  have no: "\<not> ChannelAllowed Monitor ch" for ch by (simp add: ChannelAllowed_def)
  have live: "ag_live a = []"
  proof (rule ccontr)
    assume "ag_live a \<noteq> []"
    then obtain c ch where "(c, ch) \<in> set (ag_live a)" by (metis last_in_set prod.exhaust)
    then show False using t(1) no lvl(1) unfolding traffic_ok_def by fastforce
  qed
  have "ag_subscriptions a ch = None" for ch
    using t(2) live unfolding subs_ok_def by (metis empty_iff list.set(1) not_None_eq)
  then have subs: "ag_subscriptions a = Map.empty" by (simp add: fun_eq_iff)
  have sent: "case ms of SendCommandResult i ok d e t \<Rightarrow> \<not> ok
        | SendStream ch ev \<Rightarrow> False | SendMetrics ch \<Rightarrow> False | SendError c e \<Rightarrow> True | SendAck ack \<Rightarrow> True"
    if "ms \<in> set (ag_sent a)" for ms
  proof -
    have "sent_fine Monitor [] ms" using that t(1) lvl(1) called by (simp add: traffic_ok_def)
    then show ?thesis using no by (cases ms) simp_all
  qed
  have reply: "\<exists>msg. as_credential p = Some msg \<and> verifyCredentialRotation a msg = Inr ()"
    if "handleMessage i ty p a = Some a'" "SendAck ack \<in> set (drop (length (ag_sent a)) (ag_sent a'))" "ack_success ack"
    for i ty p a' ack
    by (rule handleMessage_replies [OF that(1)]) (use that(2,3) in fastforce)
  have "set (run_loops a0) \<subseteq> {LIpc, LReporter, LSampler}" using lvl(2) by (auto simp: run_loops_def)
  then show ?thesis using table called live subs sent reply by blast
qed

theorem monitor_is_inert_witness:
  "set (run_loops (demo Monitor)) \<subseteq> {LIpc, LReporter, LSampler} \<and> ag_called (submitCommand demo_payload (demo Monitor)) = []"
proof -
  have "step (demo Monitor) (submitCommand demo_payload (demo Monitor))"
    by (rule step.receive [of _ undefined TypeCommand demo_payload]) (simp_all add: handleMessage_def)
  then have "reachable (demo Monitor) (submitCommand demo_payload (demo Monitor))"
    by (rule reachable.more [OF reachable.initial])
  with monitor_is_inert [OF New_demo] show ?thesis by blast
qed

text \<open>
  C5. The pool is bounded and every command is answered once: at any moment at most
  \<open>cmdPoolSize\<close> workers run, and for every id the commands received with it are those answered and
  those a worker still holds. So when the workers are done each decodable command has had exactly one
  result, be it a refusal, \<open>agent busy\<close> or the handler's.
\<close>

theorem pool_bounded_one_answer:
  assumes "New cfg level docker_ok path file = Inr a0" "reachable a0 a"
  shows "length (ag_workers a) \<le> cmdPoolSize cfg \<and> 0 < cmdPoolSize cfg \<and>
     received i a = answered i a + working i a"
proof -
  have "pool_ok a" using reachable_pool [OF assms(2)] New_invariants [OF assms(1)] by blast
  moreover have "ag_slots a = cmdPoolSize cfg"
    using reachable_frame [OF assms(2)] New_config [OF assms(1)] by (simp add: frame_def)
  ultimately show ?thesis by (auto simp: pool_ok_def cmdPoolSize_def)
qed

theorem pool_bounded_one_answer_witness:
  "length (ag_workers demo2) \<le> cmdPoolSize demo_config \<and> received ''c1'' demo3 = 1 \<and>
   received ''c1'' demo3 = answered ''c1'' demo3 + working ''c1'' demo3"
  using pool_bounded_one_answer [OF New_demo demo2_reachable]
    pool_bounded_one_answer [OF New_demo demo3_reachable, of "''c1''"]
  by (simp add: received_def demo_command_def)

text \<open>
  What leaves the agent: a command is reported successful only when a handler was called for a
  command with that id, and a stream event is only sent on a channel the level may read.
\<close>

theorem successes_and_streams:
  assumes "New cfg level docker_ok path file = Inr a0" "reachable a0 a"
  shows "(SendCommandResult i True d e t \<in> set (ag_sent a) \<longrightarrow>
      (\<exists>(cmd, m, timeout) \<in> set (ag_called a). msg_id cmd = i)) \<and>
    (SendStream ch ev \<in> set (ag_sent a) \<or> SendMetrics ch \<in> set (ag_sent a) \<longrightarrow> ChannelAllowed (ag_level a0) ch)"
proof -
  have "traffic_ok a" using reachable_traffic [OF assms(2)] New_invariants [OF assms(1)] by blast
  moreover have "ag_level a = ag_level a0" using reachable_frame [OF assms(2)] by (simp add: frame_def)
  ultimately show ?thesis unfolding traffic_ok_def by fastforce
qed

theorem successes_and_streams_witness:
  "SendCommandResult ''c1'' True ''{}'' [] 7 \<in> set (ag_sent demo3) \<and>
   (\<exists>(cmd, m, timeout) \<in> set (ag_called demo3). msg_id cmd = ''c1'')"
  using successes_and_streams [OF New_demo demo3_reachable, of "''c1''" "''{}''" "[]" 7] by simp

text \<open>
  C29. Subscriptions and streams agree: the live streaming contexts are exactly the registered
  subscriptions, so a channel has at most one, re-subscribing replaces it and unsubscribing ends it.
\<close>

theorem subscriptions_are_live:
  assumes "New cfg level docker_ok path file = Inr a0" "reachable a0 a"
  shows "distinct (map snd (ag_live a)) \<and> (\<forall>ch c. ag_subscriptions a ch = Some c \<longleftrightarrow> (c, ch) \<in> set (ag_live a))"
proof -
  have s: "subs_ok a" using reachable_subs [OF assms(2)] New_invariants [OF assms(1)] by blast
  then have "distinct (ag_live a)" by (simp add: subs_ok_def distinct_map)
  moreover have "inj_on snd (set (ag_live a))"
  proof (rule inj_onI)
    fix p q assume "p \<in> set (ag_live a)" "q \<in> set (ag_live a)" "snd p = snd q"
    then show "p = q" using s unfolding subs_ok_def by (metis option.inject prod.collapse)
  qed
  ultimately show ?thesis using s by (simp add: distinct_map subs_ok_def)
qed

theorem subscriptions_are_live_witness:
  "\<exists>a. handleSubscribe demo_inputs demo_payload (demo Protect) = Some a \<and> ag_live a = [(0, ChannelMetrics)] \<and>
     distinct (map snd (ag_live a)) \<and> ag_subscriptions a ChannelMetrics = Some 0"
proof -
  let ?a = "emit [] ((demo Protect)\<lparr>ag_next_ctx := 1, ag_subscriptions := [ChannelMetrics \<mapsto> 0], ag_live := [(0, ChannelMetrics)]\<rparr>)"
  have s: "handleSubscribe demo_inputs demo_payload (demo Protect) = Some ?a"
    by (simp add: handleSubscribe_def demo_payload_def ChannelAllowed_def LookupByChannel_def Let_def)
  then have "step (demo Protect) ?a"
    by (intro step.receive [of _ demo_inputs TypeSubscribe demo_payload]) (simp_all add: handleMessage_def)
  then have "reachable (demo Protect) ?a" by (rule reachable.more [OF reachable.initial])
  from subscriptions_are_live [OF New_demo this] s show ?thesis by auto
qed

text \<open>
  C6. Credentials change only by an authentic rotation. A step that changes the key or the secret the
  agent signs with is the handling of a message; and whenever handling a message changes them, the
  message received is a credential update, what it decodes to carries a valid HMAC under the secret the
  agent had before, which is not empty, over the rotation id, this agent's id and the new credentials,
  and exactly these credentials, neither of them empty, are then in use. In every reachable state the credentials the
  agent signs with are those of its configuration.
\<close>

theorem rotation_is_authentic:
  assumes "New cfg level docker_ok path file = Inr a0" "reachable a0 a"
  shows "(\<forall>a'. step a a' \<and> creds a' \<noteq> creds a \<longrightarrow> (\<exists>i ty p. handleMessage i ty p a = Some a')) \<and>
     (\<forall>i ty p a'. handleMessage i ty p a = Some a' \<and> creds a' \<noteq> creds a \<longrightarrow>
        ty = TypeCredentialUpdate \<and>
        (\<exists>msg. as_credential p = Some msg \<and>
           cu_hmac_sig msg = hmac_hex (au_apiSecret (ag_auth a)) (rotation_payload (cfg_agent_id cfg) msg) \<and>
           au_apiSecret (ag_auth a) \<noteq> [] \<and> cu_rotation_id msg \<noteq> [] \<and> cu_api_key msg \<noteq> [] \<and> cu_api_secret msg \<noteq> [] \<and>
           creds a' = (cu_api_key msg, cu_api_secret msg))) \<and>
     creds a = (cfg_api_key (ag_cfg a), cfg_api_secret (ag_cfg a))"
proof -
  have ident: "cfg_agent_id (ag_cfg a) = cfg_agent_id cfg"
    using reachable_frame [OF assms(2)] New_config [OF assms(1)] by (simp add: frame_def)
  have steps: "\<exists>i ty p. handleMessage i ty p a = Some a'" if "step a a'" "creds a' \<noteq> creds a" for a'
    using that(1)
  proof (cases rule: step_creds)
    case same
    then show ?thesis using that(2) by (simp add: creds_def)
  qed blast
  have message: "ty = TypeCredentialUpdate \<and> (\<exists>msg. as_credential p = Some msg \<and>
      cu_hmac_sig msg = hmac_hex (au_apiSecret (ag_auth a)) (rotation_payload (cfg_agent_id cfg) msg) \<and>
      au_apiSecret (ag_auth a) \<noteq> [] \<and> cu_rotation_id msg \<noteq> [] \<and> cu_api_key msg \<noteq> [] \<and> cu_api_secret msg \<noteq> [] \<and>
      creds a' = (cu_api_key msg, cu_api_secret msg))"
    if h: "handleMessage i ty p a = Some a'" "creds a' \<noteq> creds a" for i ty p a'
  proof -
    have "ag_auth a' \<noteq> ag_auth a \<or> ag_cfg a' \<noteq> ag_cfg a" using h(2) by (auto simp: creds_def)
    from handleMessage_creds [OF h(1) this] obtain msg :: credential_update where
        m: "ty = TypeCredentialUpdate" "as_credential p = Some msg" "verifyCredentialRotation a msg = Inr ()"
        "ag_auth a' = UpdateCredentials (cu_api_key msg) (cu_api_secret msg) (ag_auth a)"
      by metis
    from m(3) [unfolded verifyCredentialRotation_ok ident] show ?thesis
      using m by (simp add: creds_def UpdateCredentials_def)
  qed
  have "creds_sync a" using reachable_creds_sync [OF assms(2)] New_invariants [OF assms(1)] by blast
  then show ?thesis using steps message unfolding creds_sync_def by blast
qed

lemma demo_rotation_verified: "verifyCredentialRotation (demo Protect) demo_rotation = Inr ()"
  by (simp add: verifyCredentialRotation_ok demo_rotation_def rotation_payload_def demo_config_def)

definition demo_rotated :: agent where
  "demo_rotated = the (handleMessage demo_inputs TypeCredentialUpdate demo_payload (demo Protect))"

lemma demo_rotated_eq:
  "handleMessage demo_inputs TypeCredentialUpdate demo_payload (demo Protect) = Some demo_rotated"
  "creds demo_rotated = (''key-2'', ''secret-2'')"
  by (simp_all add: demo_rotated_def handleMessage_def handleCredentialUpdate_def demo_payload_def
      demo_rotation_verified saveCredentials_def Let_def creds_def) (simp_all add: demo_rotation_def)

theorem rotation_is_authentic_witness:
  "creds demo_rotated \<noteq> creds (demo Protect) \<and>
   cu_hmac_sig demo_rotation = hmac_hex ''secret-1'' (rotation_payload ''agent-1'' demo_rotation)"
proof -
  have ne: "creds demo_rotated \<noteq> creds (demo Protect)"
    by (simp add: demo_rotated_eq) (simp add: creds_def)
  obtain msg :: credential_update where "as_credential demo_payload = Some msg"
      "cu_hmac_sig msg = hmac_hex (au_apiSecret (ag_auth (demo Protect))) (rotation_payload (cfg_agent_id demo_config) msg)"
    using rotation_is_authentic [OF New_demo reachable.initial, of Protect] demo_rotated_eq(1) ne by metis
  moreover have "as_credential demo_payload = Some demo_rotation" "cfg_agent_id demo_config = ''agent-1''"
    by (simp_all add: demo_payload_def demo_config_def)
  ultimately have "cu_hmac_sig demo_rotation = hmac_hex ''secret-1'' (rotation_payload ''agent-1'' demo_rotation)"
    by (simp only: option.inject demo_simps)
  with ne show ?thesis by blast
qed

text \<open>
  When the new credentials cannot be saved the rotation is reported as failed, but the agent has
  already switched to them: it signs with the new secret while the panel is told that the old one
  stays. The signed text does not separate its parts either: with a colon in the key or the secret,
  one signature covers two different pairs of credentials.
\<close>

theorem rotation_failed_save_switches:
  assumes "as_credential p = Some msg" "verifyCredentialRotation a msg = Inr ()" "in_save_err i = Some e"
  shows "\<exists>a'. handleCredentialUpdate i p a = Some a' \<and>
      last (ag_sent a') = SendAck \<lparr>ack_rotation_id = cu_rotation_id msg, ack_success = False, ack_error = e\<rparr> \<and>
      creds a' = (cu_api_key msg, cu_api_secret msg) \<and>
      rotation_payload ident (msg\<lparr>cu_api_key := k @ '':'' @ x, cu_api_secret := y\<rparr>) =
      rotation_payload ident (msg\<lparr>cu_api_key := k, cu_api_secret := x @ '':'' @ y\<rparr>)"
  using assms by (simp add: handleCredentialUpdate_def saveCredentials_def Let_def creds_def rotation_payload_def)

theorem rotation_failed_save_switches_witness:
  "\<exists>a'. handleCredentialUpdate demo_inputs demo_payload (demo Protect) = Some a' \<and>
      last (ag_sent a') = SendAck \<lparr>ack_rotation_id = ''r1'', ack_success = False, ack_error = ''disk full''\<rparr> \<and>
      creds a' = (''key-2'', ''secret-2'')"
proof -
  have "as_credential demo_payload = Some demo_rotation" "in_save_err demo_inputs = Some ''disk full''"
    by (simp_all add: demo_payload_def demo_inputs_def)
  then obtain a' where "handleCredentialUpdate demo_inputs demo_payload (demo Protect) = Some a'"
      "last (ag_sent a') = SendAck \<lparr>ack_rotation_id = cu_rotation_id demo_rotation, ack_success = False, ack_error = ''disk full''\<rparr>"
      "creds a' = (cu_api_key demo_rotation, cu_api_secret demo_rotation)"
    using rotation_failed_save_switches [OF _ demo_rotation_verified] by blast
  then show ?thesis by (intro exI [of _ a']) (simp add: demo_rotation_def)
qed

text \<open>
  The dispatcher itself does not panic: in every reachable state each handler of the read loop and the
  look of each worker at its command have a result, whatever the message says and whichever sends, saves
  and log writes fail.
\<close>

lemma dispatch_has_result:
  assumes "New cfg level docker_ok path file = Inr a0" "reachable a0 a"
  shows "handleMessage i ty p a \<noteq> None \<and> worker_begin i w d a \<noteq> None \<and>
     length (st_events (ag_events a)) \<le> st_cap (ag_events a)"
proof -
  have b: "store_bounded (ag_events a)" using reachable_bounded [OF assms(2)] New_invariants [OF assms(1)] by blast
  show ?thesis
    using handleMessage_bounded [OF b, of i ty p] worker_begin_bounded [OF b, of i w d] b
    by (auto simp: store_bounded_def)
qed

end
