(* ===== verification/Transport.thy ===== *)
theory Transport
  imports Prelude
begin

text \<open>
  The transport manager, \<open>internal/transport/manager.go\<close>: WebSocket first, polling as the fallback
  once the WebSocket proves unusable or unstable. The select loop of \<open>Run\<close> is a step function over
  what its channels deliver; the backends are what they report at that moment.
\<close>

datatype backend = WS | Poll

definition Mode :: "backend \<Rightarrow> string" where
  "Mode b = (case b of WS \<Rightarrow> ''ws'' | Poll \<Rightarrow> ''poll'')"

text \<open>What the primary reports when it is asked.\<close>

record ws_report =
  rep_connected :: bool
  rep_ever :: bool
  rep_lastErr :: "string option"

datatype phase =
    Watching     \<comment> \<open>inside the loop of \<open>Run\<close>, the WebSocket client running\<close>
  | FallenBack   \<comment> \<open>inside \<open>runFallback\<close>\<close>
  | Returned     \<comment> \<open>\<open>Run\<close> has returned\<close>

record manager =
  mg_active :: backend
  mg_mode :: string
  mg_phase :: phase
  mg_deadline :: bool          \<comment> \<open>the upgrade deadline can still fire\<close>
  mg_wasConnected :: bool
  mg_drops :: "int list"       \<comment> \<open>\<open>disconnectTimes\<close>, in nanoseconds\<close>

definition NewManager :: manager where
  "NewManager = \<lparr>mg_active = WS, mg_mode = Mode WS, mg_phase = Watching, mg_deadline = True,
     mg_wasConnected = False, mg_drops = []\<rparr>"

definition minute :: int where "minute = 60 * 1000000000"
definition wsFlapWindow :: int where "wsFlapWindow = 10 * minute"
definition wsFlapThreshold :: nat where "wsFlapThreshold = 3"
definition upgradeDeadline :: int where "upgradeDeadline = 30 * 1000000000"

definition isTunnelIncompat :: "string option \<Rightarrow> bool" where
  "isTunnelIncompat err =
     (case err of
        None \<Rightarrow> False
      | Some msg \<Rightarrow> contains msg ''RSV1 set'' \<or> contains msg ''engine.io handshake failed'' \<or>
          contains msg ''websocket: close 1006'')"

text \<open>\<open>runFallback\<close> up to the point where the polling client runs.\<close>

definition runFallback :: "manager \<Rightarrow> manager" where
  "runFallback m = m\<lparr>mg_active := Poll, mg_mode := Mode Poll, mg_phase := FallenBack\<rparr>"

text \<open>The channels of the select, the deliveries with their data.\<close>

datatype event =
    CtxDone
  | WsExited                   \<comment> \<open>\<open>wsDone\<close>, the context still alive\<close>
  | Deadline ws_report
  | Check ws_report
  | Tick int ws_report         \<comment> \<open>the stability ticker, with its time\<close>
  | FallbackExited

definition deadline_step :: "ws_report \<Rightarrow> manager \<Rightarrow> manager" where
  "deadline_step r m =
     (let m = m\<lparr>mg_deadline := False\<rparr>
      in if \<not> rep_ever r \<and> isTunnelIncompat (rep_lastErr r) then runFallback m else m)"

definition check_step :: "ws_report \<Rightarrow> manager \<Rightarrow> manager" where
  "check_step r m =
     (if \<not> rep_ever r
      then (if isTunnelIncompat (rep_lastErr r) then runFallback m else m)
      else m\<lparr>mg_deadline := False\<rparr>)"

definition stability_step :: "int \<Rightarrow> ws_report \<Rightarrow> manager \<Rightarrow> manager" where
  "stability_step now r m =
     (let isConn = rep_connected r
      in if \<not> isConn \<and> mg_wasConnected m
         then (let cutoff = now - wsFlapWindow;
                   kept = filter (\<lambda>t. cutoff < t) (mg_drops m @ [now]);
                   m = m\<lparr>mg_drops := kept\<rparr>
               in if wsFlapThreshold \<le> length kept then runFallback m else m\<lparr>mg_wasConnected := isConn\<rparr>)
         else m\<lparr>mg_wasConnected := isConn\<rparr>)"

definition Run :: "event \<Rightarrow> manager \<Rightarrow> manager" where
  "Run e m =
     (case mg_phase m of
        Watching \<Rightarrow>
          (case e of
             CtxDone \<Rightarrow> m\<lparr>mg_phase := Returned\<rparr>
           | WsExited \<Rightarrow> runFallback m
           | Deadline r \<Rightarrow> if mg_deadline m then deadline_step r m else m
           | Check r \<Rightarrow> check_step r m
           | Tick now r \<Rightarrow> stability_step now r m
           | FallbackExited \<Rightarrow> m)
      | FallenBack \<Rightarrow> (case e of FallbackExited \<Rightarrow> m\<lparr>mg_phase := Returned\<rparr> | _ \<Rightarrow> m)
      | Returned \<Rightarrow> m)"

definition run_events :: "event list \<Rightarrow> manager \<Rightarrow> manager" where
  "run_events es m = fold Run es m"

text \<open>Every call of the agent goes to the active backend.\<close>

definition delegate :: "(backend \<Rightarrow> 'r) \<Rightarrow> manager \<Rightarrow> 'r" where
  "delegate f m = f (mg_active m)"

subsection \<open>Falling back is permanent\<close>

definition mode_ok :: "manager \<Rightarrow> bool" where
  "mode_ok m \<longleftrightarrow> mg_mode m = Mode (mg_active m) \<and> (mg_active m = WS \<or> mg_phase m \<noteq> Watching) \<and>
     (mg_phase m = FallenBack \<longrightarrow> mg_active m = Poll)"

lemma runFallback_simps [simp]:
  "mg_active (runFallback m) = Poll" "mg_mode (runFallback m) = Mode Poll" "mg_phase (runFallback m) = FallenBack"
  "mg_deadline (runFallback m) = mg_deadline m" "mg_drops (runFallback m) = mg_drops m"
  "mg_wasConnected (runFallback m) = mg_wasConnected m"
  by (simp_all add: runFallback_def)

lemma mode_ok_fallback: "mode_ok (runFallback m)"
  by (simp add: mode_ok_def)

lemma Run_mode_ok: "mode_ok m \<Longrightarrow> mode_ok (Run e m)"
  by (cases e; cases "mg_phase m")
    (simp_all add: Run_def mode_ok_fallback deadline_step_def check_step_def stability_step_def Let_def,
      simp_all add: mode_ok_def)

lemma run_events_mode_ok: "mode_ok m \<Longrightarrow> mode_ok (run_events es m)"
  unfolding run_events_def by (induction es arbitrary: m) (simp_all add: Run_mode_ok)

lemma Run_poll_stays: "mode_ok m \<Longrightarrow> mg_active m = Poll \<Longrightarrow> mg_active (Run e m) = Poll"
  by (cases e; cases "mg_phase m") (auto simp: Run_def mode_ok_def)

lemma run_events_poll_stays: "mode_ok m \<Longrightarrow> mg_active m = Poll \<Longrightarrow> mg_active (run_events es m) = Poll"
  unfolding run_events_def by (induction es arbitrary: m) (simp_all add: Run_poll_stays Run_mode_ok)

lemma run_events_append: "run_events (xs @ ys) m = run_events ys (run_events xs m)"
  by (simp add: run_events_def)

subsection \<open>The flap detector against its specification\<close>

text \<open>
  The specification looks at the whole history of samples: the moments at which a connection that
  was up at the previous sample is down, and whether some three consecutive ones of them lie within
  one window.
\<close>

fun drop_times :: "bool \<Rightarrow> (int \<times> ws_report) list \<Rightarrow> int list" where
  "drop_times was [] = []"
| "drop_times was ((t, r) # rest) =
     (if was \<and> \<not> rep_connected r then t # drop_times (rep_connected r) rest
      else drop_times (rep_connected r) rest)"

definition unstable :: "int list \<Rightarrow> bool" where
  "unstable ds \<longleftrightarrow> (\<exists>i. i + 2 < length ds \<and> ds ! (i + 2) - ds ! i < wsFlapWindow)"

text \<open>What the detector keeps of a history of drops: those within the window of the last one.\<close>

definition recent :: "int list \<Rightarrow> int list" where
  "recent ds = (if ds = [] then [] else filter (\<lambda>t. last ds - wsFlapWindow < t) ds)"

lemma wsFlapWindow_pos [simp]: "0 < wsFlapWindow"
  by (simp add: wsFlapWindow_def minute_def)

lemma recent_snoc:
  assumes "sorted_wrt (<) (ds @ [now])"
  shows "filter (\<lambda>t. now - wsFlapWindow < t) (recent ds @ [now]) = recent (ds @ [now])"
proof (cases "ds = []")
  case False
  then have "last ds < now" using assms by (simp add: sorted_wrt_append)
  then show ?thesis using False by (auto simp: recent_def intro: filter_cong)
qed (simp add: recent_def wsFlapWindow_def minute_def)

lemma filter_gt_sorted:
  fixes xs :: "int list"
  assumes "sorted_wrt (<) xs" "k < length xs" "c < xs ! k"
  shows "length xs - k \<le> length (filter ((<) c) xs)"
proof -
  have "\<forall>x \<in> set (drop k xs). c < x"
  proof
    fix x assume "x \<in> set (drop k xs)"
    then obtain j where j: "j < length xs - k" "x = xs ! (k + j)" by (auto simp: in_set_conv_nth)
    then have "xs ! k \<le> x"
      using assms(1,2) by (cases "j = 0") (auto simp: sorted_wrt_iff_nth_less less_imp_le)
    then show "c < x" using assms(3) by simp
  qed
  then have "filter ((<) c) (drop k xs) = drop k xs" by (simp add: filter_id_conv)
  moreover have "filter ((<) c) xs = filter ((<) c) (take k xs) @ filter ((<) c) (drop k xs)"
    by (metis append_take_drop_id filter_append)
  ultimately show ?thesis by simp
qed

lemma filter_le_sorted:
  fixes xs :: "int list"
  assumes "sorted_wrt (<) xs" "k < length xs" "xs ! k \<le> c"
  shows "length (filter ((<) c) xs) < length xs - k"
proof -
  have "\<not> c < x" if x: "x \<in> set (take (Suc k) xs)" for x
  proof -
    obtain j where "j < length (take (Suc k) xs)" "x = take (Suc k) xs ! j"
      using x unfolding in_set_conv_nth by blast
    then have j: "j \<le> k" "x = xs ! j" by simp_all
    then have "x \<le> xs ! k"
      using assms(1,2) by (cases "j = k") (auto simp: sorted_wrt_iff_nth_less less_imp_le)
    then show ?thesis using assms(3) by simp
  qed
  then have "filter ((<) c) (take (Suc k) xs) = []" by (simp add: filter_empty_conv)
  moreover have "filter ((<) c) xs = filter ((<) c) (take (Suc k) xs) @ filter ((<) c) (drop (Suc k) xs)"
    by (metis append_take_drop_id filter_append)
  ultimately have "length (filter ((<) c) xs) \<le> length (drop (Suc k) xs)"
    by (metis append_Nil length_filter_le)
  then show ?thesis using assms(2) by simp
qed

lemma recent_three:
  assumes "sorted_wrt (<) (ds @ [now])"
  shows "3 \<le> length (recent (ds @ [now])) \<longleftrightarrow> 2 \<le> length ds \<and> now - ds ! (length ds - 2) < wsFlapWindow"
proof (cases "2 \<le> length ds")
  case True
  let ?xs = "ds @ [now]" and ?k = "length ds - 2" and ?c = "now - wsFlapWindow"
  have r: "recent ?xs = filter ((<) ?c) ?xs" by (simp add: recent_def)
  have k: "?k < length ?xs" "length ?xs - ?k = 3" "?xs ! ?k = ds ! ?k" using True by (auto simp: nth_append)
  show ?thesis
  proof (cases "?c < ds ! ?k")
    case True
    then have "3 \<le> length (filter ((<) ?c) ?xs)"
      using filter_gt_sorted [OF assms k(1), of ?c] k(2,3) by simp
    then show ?thesis using True r \<open>2 \<le> length ds\<close> by simp
  next
    case False
    then have "length (filter ((<) ?c) ?xs) < 3"
      using filter_le_sorted [OF assms k(1), of ?c] k(2,3) by simp
    then show ?thesis using False r by simp
  qed
next
  case False
  have "length (recent (ds @ [now])) \<le> length (ds @ [now])"
    by (simp add: recent_def del: filter_append length_append)
  also have "\<dots> < 3" using False by simp
  finally show ?thesis using False by simp
qed

lemma unstable_append: "unstable xs \<Longrightarrow> unstable (xs @ ys)"
  unfolding unstable_def by (elim exE, rule_tac x = i in exI) (auto simp: nth_append)

lemma unstable_snoc:
  "unstable (ds @ [now]) \<longleftrightarrow> unstable ds \<or> 2 \<le> length ds \<and> now - ds ! (length ds - 2) < wsFlapWindow"
proof
  assume "unstable (ds @ [now])"
  then obtain i where i: "i + 2 < Suc (length ds)" "(ds @ [now]) ! (i + 2) - (ds @ [now]) ! i < wsFlapWindow"
    by (auto simp: unstable_def)
  show "unstable ds \<or> 2 \<le> length ds \<and> now - ds ! (length ds - 2) < wsFlapWindow"
  proof (cases "i + 2 < length ds")
    case True
    then show ?thesis using i by (auto simp: unstable_def nth_append)
  next
    case False
    then have n: "i + 2 = length ds" using i(1) by simp
    then have "(ds @ [now]) ! (i + 2) = now" "(ds @ [now]) ! i = ds ! i" "i = length ds - 2"
      by (simp_all add: nth_append)
    then show ?thesis using i(2) n by simp
  qed
next
  assume "unstable ds \<or> 2 \<le> length ds \<and> now - ds ! (length ds - 2) < wsFlapWindow"
  then show "unstable (ds @ [now])"
  proof
    assume "unstable ds"
    then obtain i where "i + 2 < length ds" "ds ! (i + 2) - ds ! i < wsFlapWindow" by (auto simp: unstable_def)
    then show ?thesis unfolding unstable_def by (intro exI [of _ i]) (simp add: nth_append)
  next
    assume "2 \<le> length ds \<and> now - ds ! (length ds - 2) < wsFlapWindow"
    then obtain k where k: "length ds = k + 2" "now - ds ! k < wsFlapWindow"
      by (metis add.commute add_diff_cancel_right' le_add_diff_inverse)
    then have "(ds @ [now]) ! (k + 2) = now" "(ds @ [now]) ! k = ds ! k" by (simp_all add: nth_append)
    then show ?thesis unfolding unstable_def using k by (intro exI [of _ k]) simp
  qed
qed

text \<open>The samples alone, as the loop sees them while the WebSocket runs.\<close>

definition ticks :: "(int \<times> ws_report) list \<Rightarrow> event list" where
  "ticks samples = map (\<lambda>(t, r). Tick t r) samples"

lemma run_ticks:
  assumes "mg_phase m = Watching" "mg_drops m = recent ds" "\<not> unstable ds" "mg_active m = WS"
    "sorted_wrt (<) (ds @ map fst samples)"
  shows "mg_active (run_events (ticks samples) m) = Poll \<longleftrightarrow> unstable (ds @ drop_times (mg_wasConnected m) samples)"
  using assms
proof (induction samples arbitrary: m ds)
  case Nil
  then show ?case by (simp add: run_events_def ticks_def)
next
  case (Cons x rest)
  obtain t r where x: "x = (t, r)" by (rule prod.exhaust)
  have step: "run_events (ticks (x # rest)) m = run_events (ticks rest) (stability_step t r m)"
    using Cons.prems(1) by (simp add: run_events_def ticks_def x Run_def)
  show ?case
  proof (cases "mg_wasConnected m \<and> \<not> rep_connected r")
    case False
    let ?m = "stability_step t r m"
    have m: "?m = m\<lparr>mg_wasConnected := rep_connected r\<rparr>"
      using False by (auto simp: stability_step_def Let_def)
    have "sorted_wrt (<) (ds @ map fst rest)" using Cons.prems(5) by (simp add: x sorted_wrt_append)
    then have "mg_active (run_events (ticks rest) ?m) = Poll \<longleftrightarrow> unstable (ds @ drop_times (rep_connected r) rest)"
      using Cons.IH [of ?m ds] Cons.prems by (simp add: m)
    then show ?thesis unfolding step using False by (auto simp: x)
  next
    case True
    have s: "sorted_wrt (<) (ds @ [t])" "sorted_wrt (<) ((ds @ [t]) @ map fst rest)"
      using Cons.prems(5) by (simp_all add: x sorted_wrt_append)
    have kept: "filter (\<lambda>u. t - wsFlapWindow < u) (mg_drops m @ [t]) = recent (ds @ [t])"
      using recent_snoc [OF s(1)] Cons.prems(2) by simp
    have drops: "drop_times (mg_wasConnected m) (x # rest) = t # drop_times (rep_connected r) rest"
      using True by (simp add: x)
    show ?thesis
    proof (cases "3 \<le> length (recent (ds @ [t]))")
      case fall: True
      then have u: "unstable (ds @ [t])" using recent_three [OF s(1)] unstable_snoc by blast
      have "stability_step t r m = runFallback (m\<lparr>mg_drops := recent (ds @ [t])\<rparr>)"
        unfolding stability_step_def Let_def wsFlapThreshold_def kept using True fall by simp
      then have "mg_active (run_events (ticks (x # rest)) m) = Poll"
        unfolding step by (simp add: run_events_poll_stays mode_ok_fallback)
      then show ?thesis using unstable_append [OF u, of "drop_times (rep_connected r) rest"] drops by simp
    next
      case stay: False
      let ?m = "m\<lparr>mg_drops := recent (ds @ [t]), mg_wasConnected := rep_connected r\<rparr>"
      have "stability_step t r m = ?m"
        unfolding stability_step_def Let_def wsFlapThreshold_def kept using True stay by simp
      moreover have "\<not> unstable (ds @ [t])" using stay Cons.prems(3) recent_three [OF s(1)] unstable_snoc by blast
      ultimately show ?thesis
        unfolding step drops using Cons.IH [of ?m "ds @ [t]"] Cons.prems s(2) by simp
    qed
  qed
qed

text \<open>
  C31. The flap detector implements its specification: fed with the samples of the stability ticker in
  increasing time, the manager ends on polling exactly when some three consecutive disconnects of the
  whole history lie within ten minutes, although it only keeps the recent ones.
\<close>

theorem flap_detection_exact:
  assumes "sorted_wrt (<) (map fst samples)"
  shows "mg_active (run_events (ticks samples) NewManager) = Poll \<longleftrightarrow> unstable (drop_times False samples)"
  using run_ticks [of NewManager "[]" samples] assms
  by (simp add: NewManager_def recent_def unstable_def)

theorem flap_detection_exact_witness:
  "mg_active (run_events (ticks
     [(1, \<lparr>rep_connected = True, rep_ever = True, rep_lastErr = None\<rparr>),
      (2, \<lparr>rep_connected = False, rep_ever = True, rep_lastErr = None\<rparr>)]) NewManager) = WS"
proof -
  let ?s = "[(1, \<lparr>rep_connected = True, rep_ever = True, rep_lastErr = None\<rparr>),
      (2, \<lparr>rep_connected = False, rep_ever = True, rep_lastErr = None\<rparr>)]"
  have "mg_active (run_events (ticks ?s) NewManager) \<noteq> Poll"
    using flap_detection_exact [of ?s] by (simp add: unstable_def)
  then show ?thesis by (cases "mg_active (run_events (ticks ?s) NewManager)") simp_all
qed

text \<open>
  Falling back is permanent and visible: whatever happens afterwards the active backend and the
  reported mode stay polling, so every send goes there; before it, everything goes to the WebSocket.
  And a WebSocket that has once connected is never given up for a tunnel error.
\<close>

theorem fallback_is_permanent:
  "(mg_active (run_events es NewManager) = Poll \<longrightarrow>
     mg_active (run_events (es @ later) NewManager) = Poll \<and> mg_mode (run_events (es @ later) NewManager) = ''poll'') \<and>
   mg_mode (run_events es NewManager) = Mode (delegate id (run_events es NewManager)) \<and>
   (mg_phase (run_events es NewManager) = Watching \<and> rep_ever r \<longrightarrow>
     mg_active (run_events (es @ [Check r, Deadline r]) NewManager) = WS)"
proof -
  let ?m = "run_events es NewManager"
  have ok: "mode_ok ?m" by (rule run_events_mode_ok) (simp add: mode_ok_def NewManager_def)
  have "mg_active (run_events later ?m) = Poll" if "mg_active ?m = Poll"
    using run_events_poll_stays [OF ok that] .
  moreover have "mg_mode (run_events later ?m) = Mode (mg_active (run_events later ?m))"
    using run_events_mode_ok [OF ok] by (simp add: mode_ok_def)
  moreover have "mg_active (run_events [Check r, Deadline r] ?m) = WS" if "mg_phase ?m = Watching" "rep_ever r"
    using that ok by (simp add: run_events_def Run_def check_step_def deadline_step_def mode_ok_def)
  ultimately show ?thesis
    using ok by (auto simp: run_events_append mode_ok_def delegate_def Mode_def)
qed

theorem fallback_is_permanent_witness:
  "mg_active (run_events ([WsExited] @ [Deadline \<lparr>rep_connected = True, rep_ever = True, rep_lastErr = None\<rparr>, CtxDone]) NewManager) = Poll"
  using fallback_is_permanent [of "[WsExited]" "[Deadline \<lparr>rep_connected = True, rep_ever = True, rep_lastErr = None\<rparr>, CtxDone]"]
  by (simp add: run_events_def Run_def NewManager_def)

end
