(* ===== verification/WsClient.thy ===== *)
theory WsClient
  imports Complex_Main Auth Transport
begin

text \<open>
  The Socket.IO client, \<open>internal/ws/client.go\<close>: the frames it exchanges with the panel, the
  handshake, the reconnect delays, and the connection as a state machine with its send queue. What
  the socket delivers is a list of reads; decoding JSON is the argument \<open>reader\<close>. The delays are
  exact rationals, where the code multiplies in floating point.
\<close>

subsection \<open>Reconnect delays\<close>

definition second :: int where "second = 1000000000"

definition truncate_rat :: "rat \<Rightarrow> int" where
  "truncate_rat x = (if 0 \<le> x then \<lfloor>x\<rfloor> else \<lceil>x\<rceil>)"

definition backoff_base :: "int \<Rightarrow> int \<Rightarrow> int \<Rightarrow> int" where
  "backoff_base attempt base maxd =
     (let base = (if base \<le> 0 then second else base);
          shift = attempt - 1;
          d = (if shift < 0 then base
               else if shift < 32 \<and> base \<le> maxd div 2 ^ nat shift then int64 (base * 2 ^ nat shift)
               else maxd)
      in if maxd < d then maxd else d)"

definition nextBackoff :: "int \<Rightarrow> int \<Rightarrow> int \<Rightarrow> rat \<Rightarrow> int" where
  "nextBackoff attempt base maxd rnd =
     truncate_rat (of_int (backoff_base attempt base maxd) * (8 / 10 + 4 / 10 * rnd))"

lemma backoff_base_eq:
  assumes "0 < base" "base \<le> maxd" "maxd < 2 ^ 63" "1 \<le> attempt"
  shows "backoff_base attempt base maxd =
     (if attempt \<le> 32 then min maxd (base * 2 ^ nat (attempt - 1)) else maxd)"
proof -
  let ?p = "2 ^ nat (attempt - 1) :: int"
  have fits: "base \<le> maxd div ?p \<longleftrightarrow> base * ?p \<le> maxd"
  proof
    assume "base \<le> maxd div ?p"
    then have "base * ?p \<le> maxd div ?p * ?p" by (intro mult_right_mono) simp_all
    also have "\<dots> \<le> maxd" by (simp add: minus_mod_eq_div_mult [symmetric])
    finally show "base * ?p \<le> maxd" .
  next
    assume "base * ?p \<le> maxd"
    then have "base * ?p div ?p \<le> maxd div ?p" by (intro zdiv_mono1) simp_all
    then show "base \<le> maxd div ?p" by simp
  qed
  have small: "int64 (base * ?p) = base * ?p" if "base * ?p \<le> maxd"
  proof (rule int64_id)
    have "0 \<le> base * ?p" using assms(1) by simp
    then show "- (2 ^ 63) \<le> base * ?p" by (rule order_trans [rotated]) simp
    show "base * ?p < 2 ^ 63" using that assms(3) by linarith
  qed
  show ?thesis
    using assms fits small by (auto simp: backoff_base_def Let_def min_def)
qed

text \<open>
  The reconnect delay doubles from the configured interval up to the configured maximum and is
  then scattered by at most a fifth: for attempts \<open>1\<close> to \<open>32\<close> it is within twenty per cent of
  \<open>min max (base * 2 ^ (attempt - 1))\<close>, and of the maximum afterwards, so it never overflows, is never
  shorter than four fifths of the interval and never longer than six fifths of the maximum.
\<close>

theorem backoff_bounds:
  assumes "0 < base" "base \<le> maxd" "maxd < 2 ^ 63" "1 \<le> attempt" "0 \<le> rnd" "rnd < 1"
  shows "let d = (if attempt \<le> 32 then min maxd (base * 2 ^ nat (attempt - 1)) else maxd);
             r = nextBackoff attempt base maxd rnd
         in 4 * d \<le> 5 * (r + 1) - 1 \<and> 5 * r \<le> 6 * d \<and> 4 * base \<le> 5 * (r + 1) - 1 \<and> 5 * r \<le> 6 * maxd"
proof -
  define d where "d = (if attempt \<le> 32 then min maxd (base * 2 ^ nat (attempt - 1)) else maxd)"
  have d: "base \<le> d" "d \<le> maxd" using assms by (auto simp: d_def mult_le_cancel_left1)
  define x where "x = of_int d * (8 / 10 + 4 / 10 * rnd)"
  have pos: "0 \<le> (of_int d :: rat)" using d(1) assms(1) by simp
  have factor: "4 / 5 \<le> 8 / 10 + 4 / 10 * rnd" "8 / 10 + 4 / 10 * rnd \<le> 6 / 5" using assms(5,6) by simp_all
  have x: "of_int d * (4 / 5) \<le> x" "x \<le> of_int d * (6 / 5)"
    unfolding x_def using mult_left_mono [OF factor(1) pos] mult_left_mono [OF factor(2) pos] by simp_all
  have x0: "0 \<le> x" using x(1) pos by simp
  have "nextBackoff attempt base maxd rnd = \<lfloor>x\<rfloor>"
    using x0 unfolding nextBackoff_def truncate_rat_def backoff_base_eq [OF assms(1-4)] x_def d_def by simp
  moreover have "of_int (4 * d) < of_int (5 * (\<lfloor>x\<rfloor> + 1)) + (0 :: rat)"
    using x(1) floor_correct [of x] by simp
  then have "4 * d < 5 * (\<lfloor>x\<rfloor> + 1)" by (simp only: add_0_right of_int_less_iff)
  moreover have "of_int (5 * \<lfloor>x\<rfloor>) \<le> (of_int (6 * d) :: rat)"
    unfolding of_int_mult of_int_numeral using x(2) of_int_floor_le [of x] by linarith
  then have "5 * \<lfloor>x\<rfloor> \<le> 6 * d" by (simp only: of_int_le_iff)
  ultimately show ?thesis using d by (simp add: d_def [symmetric] Let_def)
qed

theorem backoff_bounds_witness:
  "nextBackoff 3 1000 60000 0 \<le> 4800 \<and> 3200 \<le> nextBackoff 3 1000 60000 0 \<and> nextBackoff 40 1000 60000 (1 / 2) \<le> 72000"
  using backoff_bounds [of 1000 60000 3 0] backoff_bounds [of 1000 60000 40 "1 / 2"] by (simp add: Let_def)

subsection \<open>Frames\<close>

definition namespace :: string where "namespace = ''/agent''"

text \<open>
  Decoding JSON: an array into its raw elements, a string, the data of \<open>auth_ok\<close> (token and expiry
  in milliseconds) and of \<open>auth_fail\<close> (the error, empty if it does not decode), the data of the
  Engine.IO OPEN packet (ping interval and timeout in milliseconds), and the type of an outgoing
  message.
\<close>

record reader =
  rd_array :: "string \<Rightarrow> string list option"
  rd_string :: "string \<Rightarrow> string option"
  rd_auth_ok :: "string \<Rightarrow> (string \<times> int) option"
  rd_auth_fail :: "string \<Rightarrow> string"
  rd_open :: "string \<Rightarrow> (int \<times> int) option"
  rd_type :: "string \<Rightarrow> string option"

definition emitEvent :: "string \<Rightarrow> string \<Rightarrow> string" where
  "emitEvent ev data = ''42'' @ namespace @ '',['' @ [CHR 0x22] @ ev @ [CHR 0x22] @ '','' @ data @ '']''"

datatype parse_error = NotAnEvent | BadArray | EmptyArray | BadName

text \<open>The event name and its data; the data may be absent.\<close>

definition parseEvent :: "reader \<Rightarrow> string \<Rightarrow> parse_error + string \<times> string option" where
  "parseEvent rd msg =
     (let pre = ''42'' @ namespace @ '','' in
      if \<not> prefix pre msg then Inl NotAnEvent
      else (case rd_array rd (drop (length pre) msg) of
              None \<Rightarrow> Inl BadArray
            | Some [] \<Rightarrow> Inl EmptyArray
            | Some (nm # rest) \<Rightarrow>
                (case rd_string rd nm of
                   None \<Rightarrow> Inl BadName
                 | Some ev \<Rightarrow> Inr (ev, case rest of [] \<Rightarrow> None | d # _ \<Rightarrow> Some d))))"

subsection \<open>The handshake\<close>

text \<open>
  A read is a text message or fails. Each part of the handshake takes the reads it needs; the
  result is its error or what it learned, and what it wrote.
\<close>

datatype ws_error =
    BadURL string
  | DialFailed string
  | OpenFailed
  | NamespaceFailed string
  | AuthFailed string

fun handleEngineIOOpen :: "reader \<Rightarrow> string option \<Rightarrow> ws_error + int \<times> int" where
  "handleEngineIOOpen rd None = Inl OpenFailed"
| "handleEngineIOOpen rd (Some msg) =
     (if length msg < 2 \<or> hd msg \<noteq> CHR ''0'' then Inl OpenFailed
      else (case rd_open rd (tl msg) of
              None \<Rightarrow> Inl OpenFailed
            | Some (i, t) \<Rightarrow> Inr (int64 (i * 1000000), int64 (t * 1000000))))"

fun connectNamespace :: "string option \<Rightarrow> ws_error + unit" where
  "connectNamespace None = Inl (NamespaceFailed ''failed to read CONNECT ack'')"
| "connectNamespace (Some msg) =
     (if prefix (''44'' @ namespace @ '','') msg then Inl (NamespaceFailed ''namespace connection rejected'')
      else if \<not> prefix (''40'' @ namespace @ '','') msg then Inl (NamespaceFailed ''unexpected namespace response'')
      else Inr ())"

text \<open>
  The loop of \<open>authenticate\<close>, after the auth event was sent: the session with the reads left for the
  loops, and the pongs sent.
\<close>

fun authenticate :: "reader \<Rightarrow> string option list \<Rightarrow>
    (ws_error + session_token \<times> string option list) \<times> string list" where
  "authenticate rd [] = (Inl (AuthFailed ''failed to read auth response''), [])"
| "authenticate rd (None # reads) = (Inl (AuthFailed ''failed to read auth response''), [])"
| "authenticate rd (Some msg # reads) =
     (if msg = ''2'' then (case authenticate rd reads of (r, pongs) \<Rightarrow> (r, ''3'' # pongs))
      else (case parseEvent rd msg of
          Inl _ \<Rightarrow> authenticate rd reads
        | Inr (ev, data) \<Rightarrow>
            if ev = ''auth_ok''
            then (case rd_auth_ok rd (case data of None \<Rightarrow> [] | Some d \<Rightarrow> d) of
                    None \<Rightarrow> (Inl (AuthFailed ''failed to parse auth_ok''), [])
                  | Some (tok, expires) \<Rightarrow> (Inr (\<lparr>tok_Token = tok, tok_ExpiresAt = expires * 1000000\<rparr>, reads), []))
            else if ev = ''auth_fail''
            then (Inl (AuthFailed (''authentication rejected: '' @ rd_auth_fail rd (case data of None \<Rightarrow> [] | Some d \<Rightarrow> d))), [])
            else authenticate rd reads))"

text \<open>The auth event itself: the fields of its object in the order the code writes them.\<close>

definition auth_event :: "authenticator \<Rightarrow> int \<Rightarrow> string \<Rightarrow> (string \<times> string) list" where
  "auth_event a timestamp nonce =
     [(''type'', ''auth''), (''agent_id'', au_agentID a), (''api_key_prefix'', GetAPIKeyPrefix a),
      (''nonce'', nonce), (''timestamp'', itoa timestamp), (''signature'', SignMessageWithNonce a timestamp nonce)] @
     (if au_level a \<noteq> [] then [(''permission_level'', au_level a)] else [])"

lemma authenticate_Inr:
  "authenticate rd reads = (Inr (s, post), pongs) \<Longrightarrow>
   \<exists>pre msg data tok expires. reads = pre @ Some msg # post \<and>
     parseEvent rd msg = Inr (''auth_ok'', data) \<and>
     rd_auth_ok rd (case data of None \<Rightarrow> [] | Some d \<Rightarrow> d) = Some (tok, expires) \<and>
     s = \<lparr>tok_Token = tok, tok_ExpiresAt = expires * 1000000\<rparr> \<and> pongs = replicate (count_list pre (Some ''2'')) ''3'' \<and>
     (\<forall>m d. Some m \<in> set pre \<longrightarrow> m = ''2'' \<or> parseEvent rd m \<noteq> Inr (''auth_fail'', d)) \<and> None \<notin> set pre"
proof (induction reads arbitrary: pongs)
  case Nil
  then show ?case by simp
next
  case (Cons r reads)
  show ?case
  proof (cases r)
    case None
    then show ?thesis using Cons.prems by simp
  next
    case (Some msg)
    have skip: ?thesis if rec: "authenticate rd reads = (Inr (s, post), pongs')"
      and pongs: "pongs = (if msg = ''2'' then [''3''] else []) @ pongs'"
      and fine: "msg = ''2'' \<or> (\<forall>d. parseEvent rd msg \<noteq> Inr (''auth_fail'', d))" for pongs'
    proof -
      obtain pre m data tok expires where IH: "reads = pre @ Some m # post"
          "parseEvent rd m = Inr (''auth_ok'', data)"
          "rd_auth_ok rd (case data of None \<Rightarrow> [] | Some d \<Rightarrow> d) = Some (tok, expires)"
          "s = \<lparr>tok_Token = tok, tok_ExpiresAt = expires * 1000000\<rparr>"
          "pongs' = replicate (count_list pre (Some ''2'')) ''3''"
          "\<forall>m d. Some m \<in> set pre \<longrightarrow> m = ''2'' \<or> parseEvent rd m \<noteq> Inr (''auth_fail'', d)" "None \<notin> set pre"
        using Cons.IH [OF rec] by (elim exE conjE) (rule that)
      then show ?thesis using Some pongs fine
        by (intro exI [of _ "r # pre"] exI [of _ m] exI [of _ data] exI [of _ tok] exI [of _ expires]) auto
    qed
    show ?thesis
    proof (cases "msg = ''2''")
      case True
      then obtain pongs' where "authenticate rd reads = (Inr (s, post), pongs')" "pongs = ''3'' # pongs'"
        using Cons.prems Some by (auto split: prod.splits)
      then show ?thesis using skip True by simp
    next
      case no_ping: False
      show ?thesis
      proof (cases "parseEvent rd msg")
        case (Inl e)
        then show ?thesis using Cons.prems Some no_ping skip by simp
      next
        case (Inr p)
        obtain ev data where p: "p = (ev, data)" by (rule prod.exhaust)
        show ?thesis
        proof (cases "ev = ''auth_ok''")
          case True
          then obtain tok expires where
              "rd_auth_ok rd (case data of None \<Rightarrow> [] | Some d \<Rightarrow> d) = Some (tok, expires)"
              "s = \<lparr>tok_Token = tok, tok_ExpiresAt = expires * 1000000\<rparr>" "post = reads" "pongs = []"
            using Cons.prems Some no_ping Inr p by (auto split: option.splits)
          then show ?thesis using Some Inr p True
            by (intro exI [of _ "[]"] exI [of _ msg] exI [of _ data] exI [of _ tok] exI [of _ expires]) simp
        next
          case not_ok: False
          then have "ev \<noteq> ''auth_fail''" "authenticate rd reads = (Inr (s, post), pongs)"
            using Cons.prems Some no_ping Inr p by (auto split: if_splits)
          then show ?thesis using skip no_ping Inr p by simp
        qed
      qed
    qed
  qed
qed

subsection \<open>The connection and its queue\<close>

text \<open>
  The client between the steps that other goroutines can see. \<open>Connect\<close> marks the client connected
  once the namespace is, before it authenticates; the loops run only after it has returned; when one
  of them ends the client is first marked as not connected and then, the others having ended, its
  queue is drained. \<open>Send\<close> looks at the mark under the lock and queues its message after it has
  released it: \<open>w_sends\<close> are the sends in between. Each connection has a number, and a message carries
  the number of the connection that its \<open>Send\<close> saw; a queued one also whether it was late, that is
  whether that connection had ended before it was queued; a written one also the number of the connection
  it was written on. These are a record of what happened, as are \<open>w_attempts\<close>, the attempts for which
  \<open>handleReconnect\<close> computed a delay.
\<close>

datatype ws_phase = Disconnected | Authenticating | Looping | Draining

record ws_client =
  w_phase :: ws_phase
  w_connected :: bool
  w_everConnected :: bool
  w_lastErr :: "ws_error option"
  w_session :: "session_token option"
  w_sends :: "(nat \<times> string) list"                        \<comment> \<open>seen connected on, the message\<close>
  w_sendCh :: "(nat \<times> bool \<times> string) list"               \<comment> \<open>seen connected on, late, the message\<close>
  w_reconnectCount :: nat
  w_number :: nat
  w_written :: "(nat \<times> nat \<times> bool \<times> string) list"        \<comment> \<open>written on, seen connected on, late, the frame\<close>
  w_attempts :: "nat list"

definition NewClient :: ws_client where
  "NewClient = \<lparr>w_phase = Disconnected, w_connected = False, w_everConnected = False, w_lastErr = None,
     w_session = None, w_sends = [], w_sendCh = [], w_reconnectCount = 0, w_number = 0, w_written = [], w_attempts = []\<rparr>"

datatype send_result = Queued | NotConnected | MarshalFailed | ChannelFull

definition sendChCap :: nat where "sendChCap = 100"

text \<open>The first half of \<open>Send\<close>: an error, or the message waits to be queued.\<close>

definition check_send :: "string option \<Rightarrow> ws_client \<Rightarrow> send_result option \<times> ws_client" where
  "check_send msg c =
     (if \<not> w_connected c then (Some NotConnected, c)
      else (case msg of
              None \<Rightarrow> (Some MarshalFailed, c)
            | Some data \<Rightarrow> (None, c\<lparr>w_sends := w_sends c @ [(w_number c, data)]\<rparr>)))"

text \<open>The second half, of the \<open>i\<close>-th of those that wait.\<close>

definition queue_send :: "nat \<Rightarrow> ws_client \<Rightarrow> send_result \<times> ws_client" where
  "queue_send i c =
     (case w_sends c ! i of
        (seen, data) \<Rightarrow>
          (let c' = c\<lparr>w_sends := take i (w_sends c) @ drop (Suc i) (w_sends c)\<rparr>
           in if length (w_sendCh c) < sendChCap
              then (Queued, c'\<lparr>w_sendCh := w_sendCh c @ [(seen, \<not> (w_connected c \<and> w_number c = seen), data)]\<rparr>)
              else (ChannelFull, c')))"

text \<open>\<open>Send\<close> when nothing comes in between.\<close>

definition Send :: "string option \<Rightarrow> ws_client \<Rightarrow> send_result \<times> ws_client" where
  "Send msg c =
     (case check_send msg c of
        (Some e, c1) \<Rightarrow> (e, c1)
      | (None, c1) \<Rightarrow> queue_send (length (w_sends c)) c1)"

definition drainSendCh :: "ws_client \<Rightarrow> ws_client" where
  "drainSendCh c = c\<lparr>w_sendCh := []\<rparr>"

definition handleReconnect :: "ws_client \<Rightarrow> ws_client" where
  "handleReconnect c =
     c\<lparr>w_reconnectCount := Suc (w_reconnectCount c), w_attempts := w_attempts c @ [Suc (w_reconnectCount c)]\<rparr>"

text \<open>One message of the write loop: the event frame, or nothing when the message does not decode.\<close>

definition writeLoop :: "reader \<Rightarrow> ws_client \<Rightarrow> ws_client" where
  "writeLoop rd c =
     (case w_sendCh c of
        [] \<Rightarrow> c
      | (seen, late, msg) # rest \<Rightarrow>
          (let c = c\<lparr>w_sendCh := rest\<rparr>
           in case rd_type rd msg of
                None \<Rightarrow> c
              | Some ty \<Rightarrow> c\<lparr>w_written := w_written c @ [(w_number c, seen, late, emitEvent ty msg)]\<rparr>))"

datatype ws_event =
    ConnectFailed ws_error                      \<comment> \<open>dial, OPEN packet or namespace\<close>
  | NamespaceUp
  | AuthDone "ws_error + session_token"
  | LoopEnded
  | QueueDrained
  | WriteNext
  | SendChecked "string option"
  | SendQueued nat

definition ws_step :: "reader \<Rightarrow> ws_event \<Rightarrow> ws_client \<Rightarrow> ws_client" where
  "ws_step rd e c =
     (case e of
        ConnectFailed err \<Rightarrow>
          if w_phase c = Disconnected then handleReconnect (c\<lparr>w_lastErr := Some err\<rparr>) else c
      | NamespaceUp \<Rightarrow>
          if w_phase c = Disconnected
          then c\<lparr>w_phase := Authenticating, w_connected := True, w_reconnectCount := 0, w_number := Suc (w_number c)\<rparr>
          else c
      | AuthDone r \<Rightarrow>
          if w_phase c = Authenticating
          then (case r of
                  Inr s \<Rightarrow> c\<lparr>w_phase := Looping, w_session := Some s, w_everConnected := True, w_lastErr := None\<rparr>
                | Inl err \<Rightarrow>
                    handleReconnect (c\<lparr>w_phase := Disconnected, w_connected := False, w_lastErr := Some err\<rparr>))
          else c
      | LoopEnded \<Rightarrow> if w_phase c = Looping then c\<lparr>w_phase := Draining, w_connected := False\<rparr> else c
      | QueueDrained \<Rightarrow>
          if w_phase c = Draining then handleReconnect (drainSendCh (c\<lparr>w_phase := Disconnected\<rparr>)) else c
      | WriteNext \<Rightarrow> if w_phase c = Looping \<or> w_phase c = Draining then writeLoop rd c else c
      | SendChecked msg \<Rightarrow> snd (check_send msg c)
      | SendQueued i \<Rightarrow> if i < length (w_sends c) then snd (queue_send i c) else c)"

definition ws_run :: "reader \<Rightarrow> ws_event list \<Rightarrow> ws_client \<Rightarrow> ws_client" where
  "ws_run rd es c = fold (ws_step rd) es c"

subsection \<open>What is written, and where it was queued\<close>


lemma handleReconnect_simps [simp]:
  "w_phase (handleReconnect c) = w_phase c" "w_connected (handleReconnect c) = w_connected c"
  "w_sendCh (handleReconnect c) = w_sendCh c" "w_number (handleReconnect c) = w_number c" "w_sends (handleReconnect c) = w_sends c"
  "w_written (handleReconnect c) = w_written c" "w_everConnected (handleReconnect c) = w_everConnected c"
  by (simp_all add: handleReconnect_def)













text \<open>
  A message that is queued late, after the queue was drained, is written on the next connection: the
  drain does not keep every frame of a dead connection off the next one.
\<close>

lemma late_frame_crosses:
  assumes "rd_type rd msg = Some ty"
  shows "w_written (ws_run rd [NamespaceUp, AuthDone (Inr s), SendChecked (Some msg), LoopEnded, QueueDrained, SendQueued 0,
     NamespaceUp, AuthDone (Inr s), WriteNext] NewClient) = [(2, 1, True, emitEvent ty msg)]"
  using assms
  by (simp add: ws_run_def ws_step_def NewClient_def check_send_def queue_send_def drainSendCh_def handleReconnect_def
      writeLoop_def sendChCap_def Let_def)

text \<open>
  A rejected authentication breaks both promises of the reconnect: a message queued while the
  client waited for the panel's answer survives the rejection and is written on the next connection,
  and the attempt counter is cleared before the panel has answered, so however often the panel
  rejects the agent, every delay is that of the first attempt and never backs off.
\<close>

theorem rejected_auth_breaks_reconnect:
  assumes "rd_type rd msg = Some ty"
  shows "w_written (ws_run rd [NamespaceUp, SendChecked (Some msg), SendQueued 0, AuthDone (Inl err), NamespaceUp,
       AuthDone (Inr s), WriteNext] NewClient) = [(2, 1, False, emitEvent ty msg)] \<and>
     w_attempts (ws_run rd (concat (replicate n [NamespaceUp, AuthDone (Inl err)])) NewClient) = replicate n 1"
proof -
  have cycle: "w_attempts (ws_run rd (concat (replicate n [NamespaceUp, AuthDone (Inl err)])) c) = w_attempts c @ replicate n 1 "
    if "w_phase c = Disconnected" for c n
    using that
  proof (induction n arbitrary: c)
    case 0
    then show ?case by (simp add: ws_run_def)
  next
    case (Suc n)
    let ?c = "ws_step rd (AuthDone (Inl err)) (ws_step rd NamespaceUp c)"
    have "w_phase ?c = Disconnected" "w_attempts ?c = w_attempts c @ [1]"
      using Suc.prems by (simp_all add: ws_step_def handleReconnect_def)
    with Suc.IH [of ?c] show ?case by (simp add: ws_run_def)
  qed
  have "w_written (ws_run rd [NamespaceUp, SendChecked (Some msg), SendQueued 0, AuthDone (Inl err), NamespaceUp,
       AuthDone (Inr s), WriteNext] NewClient) = [(2, 1, False, emitEvent ty msg)]"
    using assms by (simp add: ws_run_def ws_step_def NewClient_def check_send_def queue_send_def Let_def handleReconnect_def writeLoop_def sendChCap_def)
  with cycle [of NewClient] show ?thesis by (simp add: NewClient_def)
qed

theorem rejected_auth_breaks_reconnect_witness:
  "w_attempts (ws_run \<lparr>rd_array = (\<lambda>_. None), rd_string = (\<lambda>_. None), rd_auth_ok = (\<lambda>_. None),
       rd_auth_fail = (\<lambda>_. []), rd_open = (\<lambda>_. None), rd_type = (\<lambda>_. Some ''heartbeat'')\<rparr>
     (concat (replicate 3 [NamespaceUp, AuthDone (Inl (AuthFailed ''bad signature''))])) NewClient) = [1, 1, 1]"
  using rejected_auth_breaks_reconnect [of "\<lparr>rd_array = (\<lambda>_. None), rd_string = (\<lambda>_. None), rd_auth_ok = (\<lambda>_. None),
       rd_auth_fail = (\<lambda>_. []), rd_open = (\<lambda>_. None), rd_type = (\<lambda>_. Some ''heartbeat'')\<rparr>" "''{}''" "''heartbeat''"
     "AuthFailed ''bad signature''" undefined 3]
  by (simp add: numeral_3_eq_3)

end
