(* ===== verification/PollClient.thy ===== *)
theory PollClient
  imports Auth Protocol
begin

text \<open>
  The long-poll client, \<open>internal/transport/poll/client.go\<close>. A request is its path, the session token
  it carries and its body; what the panel answers is the argument of the operation that asked. JSON
  values stay opaque; decoding an answer is part of the answer.
\<close>

subsection \<open>Requests and answers\<close>

datatype 'a answer =
    NoAnswer string                     \<comment> \<open>\<open>http.Do\<close> failed\<close>
  | Answer int string "'a option"       \<comment> \<open>status, body, and the body decoded into what was asked for\<close>

datatype poll_error = ErrAuth | NoSession | Failed string

definition error_text :: "poll_error \<Rightarrow> string" where
  "error_text e =
     (case e of ErrAuth \<Rightarrow> ''session unauthorized'' | NoSession \<Rightarrow> ''no session'' | Failed s \<Rightarrow> s)"

definition isAuthError :: "poll_error \<Rightarrow> bool" where
  "isAuthError e \<longleftrightarrow> e = ErrAuth \<or> contains (error_text e) ''session unauthorized''"

definition postJSON :: "'a answer \<Rightarrow> poll_error + 'a" where
  "postJSON r =
     (case r of
        NoAnswer e \<Rightarrow> Inl (Failed e)
      | Answer status body decoded \<Rightarrow>
          if status = 401 then Inl ErrAuth
          else if 400 \<le> status then Inl (Failed (''HTTP '' @ itoa status @ '': '' @ take 1024 body))
          else (case decoded of None \<Rightarrow> Inl (Failed ''decode'') | Some x \<Rightarrow> Inr x))"

record connect_response =
  co_success :: bool
  co_token :: string
  co_error :: string

record request =
  rq_path :: string
  rq_token :: string
  rq_body :: "(string \<times> string) list"     \<comment> \<open>the fields of the object, their values encoded\<close>

subsection \<open>State\<close>

record poll_client =
  pl_session :: "session_token option"
  pl_connected :: bool
  pl_hbMetrics :: "string option"
  pl_level :: string                   \<comment> \<open>the permission level inside the buffered metrics\<close>
  pl_checks :: string                  \<comment> \<open>the service checks inside them\<close>
  pl_sysInfo :: "string option"
  pl_caps :: "string option"
  pl_backoff :: int

definition NewClient :: poll_client where
  "NewClient = \<lparr>pl_session = None, pl_connected = False, pl_hbMetrics = None, pl_level = [], pl_checks = [],
     pl_sysInfo = None, pl_caps = None, pl_backoff = 0\<rparr>"

definition second :: int where "second = 1000000000"
definition hour :: int where "hour = 3600 * second"
definition backoffMax :: int where "backoffMax = 30 * second"

definition token_of :: "poll_client \<Rightarrow> string" where
  "token_of c = (case pl_session c of None \<Rightarrow> [] | Some s \<Rightarrow> tok_Token s)"

definition connect_request :: "authenticator \<Rightarrow> int \<Rightarrow> string \<Rightarrow> request" where
  "connect_request a timestamp nonce =
     \<lparr>rq_path = ''/api/v1/agent/connect'', rq_token = [],
      rq_body = [(''agent_id'', au_agentID a), (''api_key_prefix'', GetAPIKeyPrefix a),
        (''signature'', SignMessageWithNonce a timestamp nonce), (''timestamp'', itoa timestamp), (''nonce'', nonce)] @
        (if au_level a \<noteq> [] then [(''permission_level'', au_level a)] else [])\<rparr>"

definition connect :: "int \<Rightarrow> connect_response answer \<Rightarrow> poll_client \<Rightarrow> (poll_error + unit) \<times> poll_client" where
  "connect now r c =
     (case postJSON r of
        Inl e \<Rightarrow> (Inl e, c)
      | Inr resp \<Rightarrow>
          if \<not> co_success resp then (Inl (Failed (''auth rejected: '' @ co_error resp)), c)
          else (Inr (), c\<lparr>pl_session := Some \<lparr>tok_Token = co_token resp, tok_ExpiresAt = now + hour\<rparr>,
                         pl_connected := True\<rparr>))"

definition disconnect :: "poll_client \<Rightarrow> request option \<times> poll_client" where
  "disconnect c =
     (if token_of c = [] then (None, c)
      else (Some \<lparr>rq_path = ''/api/v1/agent/disconnect'', rq_token = token_of c, rq_body = []\<rparr>, c\<lparr>pl_connected := False\<rparr>))"

definition poll_request :: "poll_client \<Rightarrow> request" where
  "poll_request c =
     \<lparr>rq_path = ''/api/v1/agent/poll'', rq_token = token_of c,
      rq_body = (case pl_hbMetrics c of None \<Rightarrow> []
          | Some m \<Rightarrow> [(''metrics'', m), (''permission_level'', pl_level c), (''service_checks'', pl_checks c)]) @
        (case pl_sysInfo c of None \<Rightarrow> [] | Some i \<Rightarrow> [(''system_info'', i)]) @
        (case pl_caps c of None \<Rightarrow> [] | Some k \<Rightarrow> [(''capabilities'', k)])\<rparr>"

text \<open>\<open>pollOnce\<close>: the commands are handed to the handler in order, as messages of type command.\<close>

definition pollOnce :: "string list answer \<Rightarrow> poll_client \<Rightarrow>
    (poll_error + (message_type \<times> string) list) \<times> poll_client" where
  "pollOnce r c =
     (if token_of c = [] then (Inl NoSession, c)
      else (case postJSON r of
              Inl e \<Rightarrow> (Inl e, c)
            | Inr cmds \<Rightarrow> (Inr (map (\<lambda>p. (TypeCommand, p)) cmds), c\<lparr>pl_connected := True\<rparr>)))"

subsection \<open>The operations of the transport\<close>

definition SendHeartbeat :: "string \<Rightarrow> string \<Rightarrow> string \<Rightarrow> poll_client \<Rightarrow> poll_client" where
  "SendHeartbeat metrics level checks c =
     c\<lparr>pl_hbMetrics := Some metrics, pl_level := level, pl_checks := checks\<rparr>"

definition SendCommandResult :: "string \<Rightarrow> bool \<Rightarrow> string \<Rightarrow> string \<Rightarrow> int \<Rightarrow> poll_client \<Rightarrow> request" where
  "SendCommandResult commandID success data errMsg ms c =
     \<lparr>rq_path = ''/api/v1/agent/result'', rq_token = token_of c,
      rq_body = [(''command_id'', commandID), (''success'', if success then ''true'' else ''false''),
        (''data'', data), (''error'', errMsg), (''duration'', itoa ms)]\<rparr>"

text \<open>The messages \<open>Send\<close> tells apart: the last ones are dropped.\<close>

datatype outgoing =
    MapSystemInfo string
  | TypedSystemInfo "string option"     \<comment> \<open>the encoded info, if it encodes\<close>
  | TypedCapabilities "string option"   \<comment> \<open>encoded, without the envelope\<close>
  | OtherMessage

definition Send :: "outgoing \<Rightarrow> poll_client \<Rightarrow> bool \<times> poll_client" where
  "Send m c =
     (case m of
        MapSystemInfo i \<Rightarrow> (True, c\<lparr>pl_sysInfo := Some i\<rparr>)
      | TypedSystemInfo None \<Rightarrow> (False, c)
      | TypedSystemInfo (Some i) \<Rightarrow> (True, c\<lparr>pl_sysInfo := Some i\<rparr>)
      | TypedCapabilities None \<Rightarrow> (False, c)
      | TypedCapabilities (Some k) \<Rightarrow> (True, c\<lparr>pl_caps := Some k\<rparr>)
      | OtherMessage \<Rightarrow> (True, c))"

definition SendStream :: "string \<Rightarrow> poll_client \<Rightarrow> bool \<times> poll_client" where
  "SendStream ch c = (True, c)"

definition SendError :: "string \<Rightarrow> string \<Rightarrow> poll_client \<Rightarrow> bool \<times> poll_client" where
  "SendError code details c = (True, c)"

subsection \<open>The loop\<close>

text \<open>
  One round of the loop of \<open>Run\<close>: the delay it sleeps if the poll failed, and the commands it handed
  over. \<open>reauth\<close> is the answer to the connect request it sends after an authentication error.
\<close>

definition poll_round :: "int \<Rightarrow> string list answer \<Rightarrow> connect_response answer \<Rightarrow> poll_client \<Rightarrow>
    int option \<times> (message_type \<times> string) list \<times> poll_client" where
  "poll_round now r reauth c =
     (case pollOnce r c of
        (Inr cmds, c') \<Rightarrow> (None, cmds, c'\<lparr>pl_backoff := second\<rparr>)
      | (Inl e, c') \<Rightarrow>
          (let delay = pl_backoff c';
               c' = c'\<lparr>pl_connected := False, pl_backoff := (if delay < backoffMax then int64 (delay * 2) else delay)\<rparr>
           in if isAuthError e
              then (case connect now reauth c' of
                      (Inl _, c'') \<Rightarrow> (Some delay, [], c'')
                    | (Inr _, c'') \<Rightarrow> (Some delay, [], c''\<lparr>pl_backoff := second\<rparr>))
              else (Some delay, [], c')))"

fun poll_rounds :: "(int \<times> string list answer \<times> connect_response answer) list \<Rightarrow> poll_client \<Rightarrow>
    int list \<times> (message_type \<times> string) list \<times> poll_client" where
  "poll_rounds [] c = ([], [], c)"
| "poll_rounds ((now, r, reauth) # rest) c =
     (let (delay, cmds, c1) = poll_round now r reauth c;
          (delays, cmds', c2) = poll_rounds rest c1
      in ((case delay of None \<Rightarrow> [] | Some d \<Rightarrow> [d]) @ delays, cmds @ cmds', c2))"

text \<open>\<open>Run\<close>: a connect request that fails ends it at once.\<close>

definition Run :: "int \<Rightarrow> connect_response answer \<Rightarrow> (int \<times> string list answer \<times> connect_response answer) list \<Rightarrow>
    poll_client \<Rightarrow> poll_error + int list \<times> (message_type \<times> string) list \<times> poll_client" where
  "Run now first rounds c =
     (case connect now first c of
        (Inl e, _) \<Rightarrow> Inl e
      | (Inr _, c1) \<Rightarrow> Inr (poll_rounds rounds (c1\<lparr>pl_backoff := second\<rparr>)))"

subsection \<open>Delays\<close>

definition backoff_ok :: "int \<Rightarrow> bool" where
  "backoff_ok b \<longleftrightarrow> (\<exists>k \<le> 5. b = 2 ^ k * second)"

lemma backoff_ok_second: "backoff_ok second"
  unfolding backoff_ok_def by (rule exI [of _ 0]) simp

lemma backoff_ok_next:
  assumes "backoff_ok b"
  shows "backoff_ok (if b < backoffMax then int64 (b * 2) else b)"
proof -
  obtain k where k: "k \<le> 5" "b = 2 ^ k * second" using assms by (auto simp: backoff_ok_def)
  show ?thesis
  proof (cases "b < backoffMax")
    case True
    have "k \<le> 4"
    proof (rule ccontr)
      assume "\<not> k \<le> 4"
      then have "k = 5" using k(1) by simp
      then show False using True k(2) by (simp add: backoffMax_def second_def)
    qed
    have "b * 2 < 2 ^ 63" "0 \<le> b" using True k by (simp_all add: backoffMax_def second_def)
    then have "int64 (b * 2) = b * 2" by (intro int64_id) linarith+
    then have "int64 (b * 2) = 2 ^ Suc k * second" using k(2) by simp
    moreover have "backoff_ok (2 ^ Suc k * second)" unfolding backoff_ok_def using \<open>k \<le> 4\<close> by (intro exI [of _ "Suc k"]) simp
    ultimately show ?thesis using True by simp
  next
    case False
    then show ?thesis using assms by simp
  qed
qed

lemma backoff_ok_le: "backoff_ok b \<Longrightarrow> 0 < b \<and> b \<le> 32 * second"
proof -
  assume "backoff_ok b"
  then obtain k where k: "k \<le> 5" "b = 2 ^ k * second" by (auto simp: backoff_ok_def)
  have "(2 :: int) ^ k \<le> 2 ^ 5" using k(1) by (intro power_increasing) simp_all
  then show ?thesis using k(2) by (simp add: second_def)
qed

subsection \<open>What a run delivers\<close>

fun good_connect :: "connect_response answer \<Rightarrow> bool" where
  "good_connect (NoAnswer e) = True"
| "good_connect (Answer st b None) = True"
| "good_connect (Answer st b (Some r)) = (co_token r \<noteq> [])"

text \<open>The commands that the panel put into its answers, in order.\<close>

definition commands_in :: "string list answer \<Rightarrow> string list" where
  "commands_in r = (case postJSON r of Inl _ \<Rightarrow> [] | Inr cmds \<Rightarrow> cmds)"

lemma postJSON_Inr: "postJSON r = Inr x \<Longrightarrow> \<exists>st b. r = Answer st b (Some x)"
  by (auto simp: postJSON_def split: answer.splits option.splits if_splits)

lemma connect_keeps_token:
  assumes "good_connect r" "connect now r c = (res, c')"
  shows "(is_ok res \<longrightarrow> token_of c' \<noteq> []) \<and> (token_of c \<noteq> [] \<longrightarrow> token_of c' \<noteq> []) \<and> pl_backoff c' = pl_backoff c"
proof (cases "postJSON r")
  case (Inl e)
  then show ?thesis using assms by (auto simp: connect_def)
next
  case (Inr resp)
  then have "co_token resp \<noteq> []" using assms(1) postJSON_Inr by fastforce
  then show ?thesis using assms(2) Inr by (auto simp: connect_def token_of_def split: if_splits)
qed

lemma poll_round_spec:
  assumes "token_of c \<noteq> []" "backoff_ok (pl_backoff c)" "good_connect reauth"
    "poll_round now r reauth c = (delay, cmds, c')"
  shows "token_of c' \<noteq> [] \<and> backoff_ok (pl_backoff c') \<and> cmds = map (Pair TypeCommand) (commands_in r) \<and>
     (\<forall>d. delay = Some d \<longrightarrow> d = pl_backoff c)"
proof (cases "postJSON r")
  case (Inr cs)
  then have "pollOnce r c = (Inr (map (\<lambda>p. (TypeCommand, p)) cs), c\<lparr>pl_connected := True\<rparr>)"
    using assms(1) by (simp add: pollOnce_def)
  then show ?thesis
    using assms Inr by (auto simp: poll_round_def commands_in_def token_of_def backoff_ok_second)
next
  case (Inl e)
  let ?c = "c\<lparr>pl_connected := False, pl_backoff := (if pl_backoff c < backoffMax then int64 (pl_backoff c * 2) else pl_backoff c)\<rparr>"
  have once: "pollOnce r c = (Inl e, c)" using assms(1) Inl by (simp add: pollOnce_def)
  have c: "token_of ?c \<noteq> []" "backoff_ok (pl_backoff ?c)"
    using assms(1) backoff_ok_next [OF assms(2)] by (simp_all add: token_of_def)
  obtain res c2 where k: "connect now reauth ?c = (res, c2)" by (rule prod.exhaust)
  have k2: "token_of c2 \<noteq> []" "pl_backoff c2 = pl_backoff ?c"
    using connect_keeps_token [OF assms(3) k] c(1) by blast+
  show ?thesis
  proof (cases "isAuthError e")
    case False
    then have "poll_round now r reauth c = (Some (pl_backoff c), [], ?c)"
      by (simp add: poll_round_def once Let_def)
    then show ?thesis using assms(4) c Inl by (simp add: commands_in_def)
  next
    case True
    then have "poll_round now r reauth c =
        (Some (pl_backoff c), [], case res of Inl _ \<Rightarrow> c2 | Inr _ \<Rightarrow> c2\<lparr>pl_backoff := second\<rparr>)"
      unfolding poll_round_def once prod.case sum.case Let_def using k by (simp split: sum.split)
    then show ?thesis
      using assms(4) c k2 Inl by (auto simp: commands_in_def token_of_def backoff_ok_second split: sum.splits)
  qed
qed

lemma poll_rounds_spec:
  assumes "token_of c \<noteq> []" "backoff_ok (pl_backoff c)" "\<forall>(now, r, reauth) \<in> set rounds. good_connect reauth"
    "poll_rounds rounds c = (delays, cmds, c')"
  shows "cmds = map (Pair TypeCommand) (concat (map (\<lambda>(now, r, reauth). commands_in r) rounds)) \<and>
     (\<forall>d \<in> set delays. backoff_ok d)"
  using assms
proof (induction rounds arbitrary: c delays cmds c')
  case (Cons x rest)
  obtain now r reauth where x: "x = (now, r, reauth)" by (rule prod_cases3)
  obtain delay cs c1 where r1: "poll_round now r reauth c = (delay, cs, c1)" by (rule prod_cases3)
  obtain ds cs2 c2 where r2: "poll_rounds rest c1 = (ds, cs2, c2)" by (rule prod_cases3)
  have g: "good_connect reauth" "\<forall>(now, r, reauth) \<in> set rest. good_connect reauth" using Cons.prems(3) x by auto
  have h: "token_of c1 \<noteq> []" "backoff_ok (pl_backoff c1)" "cs = map (Pair TypeCommand) (commands_in r)"
      "\<forall>d. delay = Some d \<longrightarrow> d = pl_backoff c"
    using poll_round_spec [OF Cons.prems(1,2) g(1) r1] by blast+
  from Cons.IH [OF h(1,2) g(2) r2] show ?case
    using Cons.prems(2,4) h(3,4) by (auto simp: x r1 r2 Let_def split: option.splits)
qed simp

text \<open>
  C34. A polling run hands every command that the panel puts into a good answer to the handler, once and
  in order, and nothing else; and between two requests it never sleeps for anything but one, two,
  four, ... up to thirty-two seconds, however often the panel fails or asks for a new session.
\<close>

theorem poll_run_delivers:
  assumes "Run now first rounds c = Inr (delays, cmds, c')"
    "good_connect first" "\<forall>(now, r, reauth) \<in> set rounds. good_connect reauth"
  shows "cmds = map (Pair TypeCommand) (concat (map (\<lambda>(now, r, reauth). commands_in r) rounds)) \<and>
     (\<forall>d \<in> set delays. d \<in> (\<lambda>k. 2 ^ k * second) ` {..5} \<and> d \<le> 32 * second)"
proof -
  obtain res c1 where k: "connect now first c = (res, c1)" by (rule prod.exhaust)
  with assms(1) obtain u where res: "res = Inr u" and r: "poll_rounds rounds (c1\<lparr>pl_backoff := second\<rparr>) = (delays, cmds, c')"
    by (auto simp: Run_def split: sum.splits)
  have "token_of (c1\<lparr>pl_backoff := second\<rparr>) \<noteq> []"
    using connect_keeps_token [OF assms(2) k] res by (simp add: token_of_def)
  from poll_rounds_spec [OF this _ assms(3) r] show ?thesis
    using backoff_ok_le by (auto simp: backoff_ok_second) (auto simp: backoff_ok_def)
qed

theorem poll_run_delivers_witness:
  "\<exists>delays c'. Run 0 (Answer 200 [] (Some \<lparr>co_success = True, co_token = ''t'', co_error = []\<rparr>))
       [(1, Answer 200 [] (Some [''a'', ''b'']), NoAnswer []), (2, NoAnswer ''reset'', NoAnswer []),
        (3, Answer 200 [] (Some [''c'']), NoAnswer [])] NewClient =
       Inr (delays, [(TypeCommand, ''a''), (TypeCommand, ''b''), (TypeCommand, ''c'')], c') \<and>
     list_all (\<lambda>d. d \<le> 32 * second) delays"
proof -
  let ?first = "Answer 200 [] (Some \<lparr>co_success = True, co_token = ''t'', co_error = []\<rparr>) :: connect_response answer"
  let ?rounds = "[(1, Answer 200 [] (Some [''a'', ''b'']), NoAnswer []), (2, NoAnswer ''reset'', NoAnswer []),
        (3, Answer 200 [] (Some [''c'']), NoAnswer [])] :: (int \<times> string list answer \<times> connect_response answer) list"
  obtain delays cmds c' where r: "Run 0 ?first ?rounds NewClient = Inr (delays, cmds, c')"
    by (simp add: Run_def connect_def postJSON_def) (metis prod_cases3)
  have "cmds = map (Pair TypeCommand) (concat (map (\<lambda>(now, r, reauth). commands_in r) ?rounds)) \<and>
      (\<forall>d \<in> set delays. d \<in> (\<lambda>k. 2 ^ k * second) ` {..5} \<and> d \<le> 32 * second)"
    by (rule poll_run_delivers [OF r]) simp_all
  moreover have "map (Pair TypeCommand) (concat (map (\<lambda>(now, r, reauth). commands_in r) ?rounds)) =
      [(TypeCommand, ''a''), (TypeCommand, ''b''), (TypeCommand, ''c'')]"
    by (simp add: commands_in_def postJSON_def)
  ultimately show ?thesis using r by (simp add: list_all_iff)
qed

text \<open>
  Three gaps of the polling transport: if the very first connect request fails, \<open>Run\<close> returns
  whatever the panel would answer later, so an agent that has just fallen back from the WebSocket is
  offline until it is restarted; the sixth delay in a row is thirty-two seconds although the maximum
  is thirty; and a message that is neither system info nor capabilities, such as the acknowledgement
  of a credential rotation, is dropped and reported as sent.
\<close>

theorem poll_gaps:
  assumes "postJSON first = Inl e"
  shows "Run now first rounds c = Inl e \<and>
     fst (poll_rounds (replicate 6 (now, NoAnswer [], NoAnswer [])) (c\<lparr>pl_session := Some \<lparr>tok_Token = ''t'', tok_ExpiresAt = x\<rparr>, pl_backoff := second\<rparr>)) =
       map (\<lambda>k. k * second) [1, 2, 4, 8, 16, 32] \<and> backoffMax < 32 * second \<and>
     Send OtherMessage c = (True, c)"
  using assms
  by (simp add: Run_def connect_def Send_def backoffMax_def second_def poll_round_def pollOnce_def token_of_def
      postJSON_def isAuthError_def error_text_def Let_def int64_id contains_def eval_nat_numeral)

theorem poll_gaps_witness:
  "Run 0 (NoAnswer ''connection refused'') [(1, Answer 200 [] (Some []), NoAnswer [])] NewClient =
     Inl (Failed ''connection refused'') \<and> Send OtherMessage NewClient = (True, NewClient)"
  using poll_gaps [where c = NewClient, of "NoAnswer ''connection refused''" "Failed ''connection refused''" 0
      "[(1, Answer 200 [] (Some []), NoAnswer [])]"]
  by (simp add: postJSON_def)

end
