(* ===== verification/Updater.thy ===== *)
theory Updater
  imports Crypto Paths "HOL-Library.AList"
begin

text \<open>
  Self-updates, \<open>internal/updater/updater.go\<close> and \<open>checker.go\<close>: which URLs are fetched, the checksum
  that must match before anything is unpacked, and the replacement of the running binary. What the
  network and the archive reader give back are arguments; the file system of the installation is a
  map from paths to contents together with the outcome of each system call.
\<close>

record version_info =
  vi_UpdateAvailable :: bool
  vi_CurrentVersion :: string
  vi_LatestVersion :: string
  vi_DownloadURL :: string
  vi_ChecksumsURL :: string

text \<open>The platform the binary was built for and whether \<open>SERVERKIT_INSECURE_TLS\<close> is \<open>true\<close>.\<close>

record platform =
  pf_GOOS :: string
  pf_GOARCH :: string
  pf_insecure :: bool
  pf_systemd :: bool       \<comment> \<open>\<open>/run/systemd/system\<close> exists\<close>

datatype update_error = UpdateError string

subsection \<open>URLs\<close>

fun replace_first :: "string \<Rightarrow> string \<Rightarrow> string \<Rightarrow> string" where
  "replace_first old new [] = (if old = [] then new else [])"
| "replace_first old new (c # s) =
     (if prefix old (c # s) then new @ drop (length old) (c # s) else c # replace_first old new s)"

definition server_url :: "string \<Rightarrow> string" where
  "server_url url =
     (let u = replace_first ''wss://'' ''https://'' url;
          u = replace_first ''ws://'' ''http://'' u;
          u = trim_suffix u ''/agent/ws''
      in trim_suffix u ''/agent'')"

definition requireSecureURL :: "platform \<Rightarrow> string \<Rightarrow> update_error + unit" where
  "requireSecureURL pf raw =
     (if prefix ''https://'' (to_lower raw) then Inr ()
      else if pf_insecure pf then Inr ()
      else Inl (UpdateError (''refusing non-HTTPS update URL: '' @ raw)))"

subsection \<open>Checksums\<close>

text \<open>
  The map from names to hashes: a later line for the same name replaces the earlier one. Go iterates
  over a map in no fixed order; \<open>order\<close> is the order of this iteration.
\<close>

definition parse_checksums :: "string \<Rightarrow> (string \<times> string) list" where
  "parse_checksums body =
     fold (\<lambda>line m. case fields_of line of h # n # _ \<Rightarrow> AList.update n h m | _ \<Rightarrow> m) (split_on (CHR 0x0A) body) []"

definition matchChecksum :: "platform \<Rightarrow> ((string \<times> string) list \<Rightarrow> (string \<times> string) list) \<Rightarrow> string \<Rightarrow> string \<Rightarrow>
    update_error + unit" where
  "matchChecksum pf order actualHash body =
     (let checksums = parse_checksums body in
      if checksums = [] then Inl (UpdateError ''checksums file contained no usable entries'')
      else (let expected = (case find (\<lambda>(nm, h). contains nm (pf_GOOS pf) \<and> contains nm (pf_GOARCH pf)) (order checksums) of
                              None \<Rightarrow> [] | Some (nm, h) \<Rightarrow> h)
            in if expected = []
               then Inl (UpdateError (''no checksum entry for '' @ pf_GOOS pf @ ''/'' @ pf_GOARCH pf @ '' in checksums file''))
               else if to_lower actualHash \<noteq> to_lower expected
               then Inl (UpdateError (''checksum mismatch: expected '' @ expected @ '', got '' @ actualHash))
               else Inr ()))"

text \<open>A GET: refused or broken, or a status and a body.\<close>

type_synonym fetched = "string + int \<times> string"

definition verifyChecksum :: "platform \<Rightarrow> ((string \<times> string) list \<Rightarrow> (string \<times> string) list) \<Rightarrow> string \<Rightarrow> string \<Rightarrow> fetched \<Rightarrow>
    update_error + unit" where
  "verifyChecksum pf order archive checksumsURL sums =
     rbind (requireSecureURL pf checksumsURL) (\<lambda>_.
       case sums of
         Inl e \<Rightarrow> Inl (UpdateError e)
       | Inr (status, body) \<Rightarrow>
           if status \<noteq> 200 then Inl (UpdateError (''failed to fetch checksums: status '' @ itoa status))
           else matchChecksum pf order (hex_encode (sha256 archive)) body)"

subsection \<open>The archive\<close>

text \<open>
  The entries a tar reader yields: regular or not, their name, their content if it could be read, or
  an error. The last regular entry whose name contains \<open>serverkit-agent\<close> wins.
\<close>

datatype tar_item = TarEntry bool string "string option" | TarBroken string

fun extractTarGz :: "tar_item list \<Rightarrow> string option \<Rightarrow> update_error + string" where
  "extractTarGz [] found =
     (case found of None \<Rightarrow> Inl (UpdateError ''agent binary not found in archive'') | Some b \<Rightarrow> Inr b)"
| "extractTarGz (TarBroken e # items) found = Inl (UpdateError e)"
| "extractTarGz (TarEntry regular nm content # items) found =
     (if regular \<and> contains nm ''serverkit-agent''
      then (case content of None \<Rightarrow> Inl (UpdateError ''read'') | Some b \<Rightarrow> extractTarGz items (Some b))
      else extractTarGz items found)"

text \<open>Downloading: the new binary, or why not. \<open>untar\<close> is gzip and tar.\<close>

definition DownloadUpdate :: "platform \<Rightarrow> ((string \<times> string) list \<Rightarrow> (string \<times> string) list) \<Rightarrow> (string \<Rightarrow> tar_item list) \<Rightarrow>
    version_info \<Rightarrow> fetched \<Rightarrow> fetched \<Rightarrow> update_error + string" where
  "DownloadUpdate pf order untar info file sums =
     (if vi_DownloadURL info = [] then Inl (UpdateError ''no download URL available'')
      else rbind (requireSecureURL pf (vi_DownloadURL info)) (\<lambda>_.
        case file of
          Inl e \<Rightarrow> Inl (UpdateError e)
        | Inr (status, archive) \<Rightarrow>
            if status \<noteq> 200 then Inl (UpdateError (''download failed with status: '' @ itoa status))
            else if vi_ChecksumsURL info = [] then Inl (UpdateError ''refusing to install update: no checksums URL provided'')
            else rbind (verifyChecksum pf order archive (vi_ChecksumsURL info) sums) (\<lambda>_.
              extractTarGz (untar archive) None)))"

subsection \<open>Installation\<close>

type_synonym files = "string \<rightharpoonup> string"

text \<open>What the system calls of an installation answer.\<close>

record install_outcome =
  io_remove_ok :: bool                \<comment> \<open>removing an older backup\<close>
  io_backup_ok :: bool                \<comment> \<open>renaming the binary to the backup\<close>
  io_copied :: "string + string"      \<comment> \<open>\<open>Inl\<close>: the copy failed with this much written\<close>
  io_create_ok :: bool                \<comment> \<open>the target could be created at all\<close>
  io_chmod_ok :: bool
  io_restore_ok :: bool               \<comment> \<open>renaming the backup back\<close>

definition rename_file :: "string \<Rightarrow> string \<Rightarrow> files \<Rightarrow> files" where
  "rename_file old new fs = (case fs old of None \<Rightarrow> fs | Some x \<Rightarrow> (fs(old := None))(new \<mapsto> x))"

text \<open>\<open>installUnix\<close> up to the restart.\<close>

definition swap_binary :: "install_outcome \<Rightarrow> string \<Rightarrow> string \<Rightarrow> files \<Rightarrow> (update_error + unit) \<times> files" where
  "swap_binary io current new_binary fs =
     (let backup = current @ ''.backup'';
          fs0 = (if io_remove_ok io then fs(backup := None) else fs);
          restore = (\<lambda>fs. if io_restore_ok io then rename_file backup current fs else fs)
      in if \<not> io_backup_ok io \<or> fs0 current = None then (Inl (UpdateError ''failed to backup current binary''), fs0)
         else (let fs1 = rename_file current backup fs0 in
               if \<not> io_create_ok io then (Inl (UpdateError ''failed to copy new binary''), restore fs1)
               else (case io_copied io of
                       Inl part \<Rightarrow> (Inl (UpdateError ''failed to copy new binary''), restore (fs1(current \<mapsto> part)))
                     | Inr _ \<Rightarrow>
                         (let fs2 = fs1(current \<mapsto> new_binary)
                          in if \<not> io_chmod_ok io then (Inl (UpdateError ''failed to set permissions''), restore fs2)
                             else (Inr (), fs2)))))"

lemma swap_binary_outcome:
  assumes "fs current = Some old" "swap_binary io current new_binary fs = (r, fs')"
  shows "r = Inr () \<Longrightarrow> fs' current = Some new_binary \<and> fs' (current @ ''.backup'') = Some old"
    and "r = Inl e \<Longrightarrow> fs' current = Some old \<or> \<not> io_restore_ok io \<and> fs' (current @ ''.backup'') = Some old"
    and "r = Inl e \<Longrightarrow> e \<noteq> UpdateError ''failed to start new process''"
    and "p \<noteq> current \<Longrightarrow> p \<noteq> current @ ''.backup'' \<Longrightarrow> fs' p = fs p"
proof -
  have ne: "current \<noteq> current @ ''.backup''" by simp
  show "r = Inr () \<Longrightarrow> fs' current = Some new_binary \<and> fs' (current @ ''.backup'') = Some old"
    "r = Inl e \<Longrightarrow> fs' current = Some old \<or> \<not> io_restore_ok io \<and> fs' (current @ ''.backup'') = Some old"
    "r = Inl e \<Longrightarrow> e \<noteq> UpdateError ''failed to start new process''"
    "p \<noteq> current \<Longrightarrow> p \<noteq> current @ ''.backup'' \<Longrightarrow> fs' p = fs p"
    using ne assms by (auto simp: swap_binary_def Let_def rename_file_def split: if_splits sum.splits)
qed

subsection \<open>The periodic check\<close>

record checker =
  ck_lastCheck :: int
  ck_latestVersion :: string
  ck_updatePending :: bool

text \<open>\<open>checkAndNotify\<close>: the new state, and the update it sets out to install.\<close>

definition checkAndNotify :: "bool \<Rightarrow> int \<Rightarrow> update_error + version_info \<Rightarrow> checker \<Rightarrow> checker \<times> version_info option" where
  "checkAndNotify auto_install now result c =
     (let c = c\<lparr>ck_lastCheck := now\<rparr> in
      case result of
        Inl e \<Rightarrow> (c, None)
      | Inr info \<Rightarrow>
          if \<not> vi_UpdateAvailable info then (c\<lparr>ck_updatePending := False\<rparr>, None)
          else (c\<lparr>ck_latestVersion := vi_LatestVersion info, ck_updatePending := True\<rparr>,
                if auto_install then Some info else None))"

subsection \<open>Fail-closed\<close>

lemma parse_checksums_sound:
  "(nm, h) \<in> set (parse_checksums body) \<Longrightarrow>
   \<exists>line rest. line \<in> set (split_on (CHR 0x0A) body) \<and> fields_of line = h # nm # rest"
proof -
  let ?f = "\<lambda>line m. case fields_of line of h # n # _ \<Rightarrow> AList.update n h m | _ \<Rightarrow> m"
  have "\<forall>(nm, h) \<in> set (fold ?f ls m). (nm, h) \<in> set m \<or> (\<exists>line \<in> set ls. \<exists>rest. fields_of line = h # nm # rest)" for ls m
  proof (induction ls arbitrary: m)
    case (Cons l ls)
    have upd: "(a, b) \<in> set (AList.update n v m) \<Longrightarrow> (a, b) \<in> set m \<or> (a, b) = (n, v)"
      for a b n v and m :: "(string \<times> string) list" by (induction m) (auto split: if_splits)
    have "\<forall>(nm, h) \<in> set (?f l m). (nm, h) \<in> set m \<or> (\<exists>rest. fields_of l = h # nm # rest)"
      by (auto split: list.splits dest: upd)
    then show ?case using Cons [of "?f l m"] by fastforce
  qed simp
  then show "(nm, h) \<in> set (parse_checksums body) \<Longrightarrow> ?thesis"
    unfolding parse_checksums_def by fastforce
qed

lemma requireSecureURL_ok: "requireSecureURL pf raw = Inr () \<longleftrightarrow> prefix ''https://'' (to_lower raw) \<or> pf_insecure pf"
  by (simp add: requireSecureURL_def)

lemma matchChecksum_ok:
  assumes "matchChecksum pf order actual body = Inr ()" "\<And>xs. set (order xs) = set xs"
  obtains line nm h rest where "line \<in> set (split_on (CHR 0x0A) body)" "fields_of line = h # nm # rest"
    "contains nm (pf_GOOS pf)" "contains nm (pf_GOARCH pf)" "h \<noteq> []" "to_lower actual = to_lower h"
proof -
  let ?P = "\<lambda>(nm, h). contains nm (pf_GOOS pf) \<and> contains nm (pf_GOARCH pf)"
  obtain nm h where f: "find ?P (order (parse_checksums body)) = Some (nm, h)" "h \<noteq> []" "to_lower actual = to_lower h"
    using assms(1) by (auto simp: matchChecksum_def Let_def split: if_splits option.splits prod.splits)
  then have "(nm, h) \<in> set (parse_checksums body)" "?P (nm, h)"
    using find_Some_in [OF f(1)] assms(2) by auto
  then show ?thesis using that parse_checksums_sound f(2,3) by fastforce
qed

lemma extractTarGz_sound:
  "extractTarGz items found = Inr b \<Longrightarrow>
   found = Some b \<or> (\<exists>nm. TarEntry True nm (Some b) \<in> set items \<and> contains nm ''serverkit-agent'')"
  by (induction items found rule: extractTarGz.induct) (auto split: option.splits if_splits)

text \<open>
  Updates fail closed: a binary is only handed on for installation when both URLs are HTTPS (or the
  operator switched that off), both downloads answered 200, and the checksums file has a line for a
  name with this operating system and architecture whose hash is the SHA-256 of the very archive that
  was downloaded; and the binary is a regular entry of that archive named for the agent. This holds
  for every order in which the map of checksums is iterated.
\<close>

theorem update_fails_closed:
  assumes "DownloadUpdate pf order untar info dl sums = Inr binary" "\<And>xs. set (order xs) = set xs"
  shows "\<exists>archive body line h nm rest. dl = Inr (200, archive) \<and> sums = Inr (200, body) \<and>
     (pf_insecure pf \<or> prefix ''https://'' (to_lower (vi_DownloadURL info)) \<and> prefix ''https://'' (to_lower (vi_ChecksumsURL info))) \<and>
     line \<in> set (split_on (CHR 0x0A) body) \<and> fields_of line = h # nm # rest \<and>
     contains nm (pf_GOOS pf) \<and> contains nm (pf_GOARCH pf) \<and> to_lower (hex_encode (sha256 archive)) = to_lower h \<and>
     (\<exists>en. TarEntry True en (Some binary) \<in> set (untar archive) \<and> contains en ''serverkit-agent'')"
proof -
  have url: "requireSecureURL pf (vi_DownloadURL info) = Inr ()" and have_url: "vi_DownloadURL info \<noteq> []"
    using assms(1) unfolding DownloadUpdate_def
    by (cases "requireSecureURL pf (vi_DownloadURL info)"; simp split: if_splits)+
  then obtain status archive where fl: "dl = Inr (status, archive)"
    using assms(1) have_url unfolding DownloadUpdate_def by (cases dl) auto
  then have st: "status = 200" using assms(1) url have_url by (auto simp: DownloadUpdate_def split: if_splits)
  then have rest: "rbind (verifyChecksum pf order archive (vi_ChecksumsURL info) sums) (\<lambda>_. extractTarGz (untar archive) None) = Inr binary"
    using assms(1) url have_url fl by (simp add: DownloadUpdate_def split: if_splits)
  then have v: "verifyChecksum pf order archive (vi_ChecksumsURL info) sums = Inr ()"
    by (cases "verifyChecksum pf order archive (vi_ChecksumsURL info) sums") simp_all
  with rest have ex: "extractTarGz (untar archive) None = Inr binary" by simp
  have url2: "requireSecureURL pf (vi_ChecksumsURL info) = Inr ()"
    using v unfolding verifyChecksum_def by (cases "requireSecureURL pf (vi_ChecksumsURL info)") simp_all
  then obtain st2 body where sums: "sums = Inr (st2, body)"
    using v unfolding verifyChecksum_def by (cases sums) auto
  then have st2: "st2 = 200" "matchChecksum pf order (hex_encode (sha256 archive)) body = Inr ()"
    using v url2 by (auto simp: verifyChecksum_def split: if_splits)
  obtain line nm h rest where "line \<in> set (split_on (CHR 0x0A) body)" "fields_of line = h # nm # rest"
      "contains nm (pf_GOOS pf)" "contains nm (pf_GOARCH pf)" "to_lower (hex_encode (sha256 archive)) = to_lower h"
    by (rule matchChecksum_ok [OF st2(2) assms(2)]) (rule that; assumption)
  moreover have "pf_insecure pf \<or> prefix ''https://'' (to_lower (vi_DownloadURL info)) \<and> prefix ''https://'' (to_lower (vi_ChecksumsURL info))"
    using url url2 by (auto simp: requireSecureURL_ok)
  ultimately show ?thesis using fl st sums st2(1) extractTarGz_sound [OF ex] by blast
qed

definition demo_platform :: platform where
  "demo_platform = \<lparr>pf_GOOS = ''linux'', pf_GOARCH = ''amd64'', pf_insecure = False, pf_systemd = True\<rparr>"

definition demo_info :: version_info where
  "demo_info = \<lparr>vi_UpdateAvailable = True, vi_CurrentVersion = ''1'', vi_LatestVersion = ''2'',
     vi_DownloadURL = ''HTTPS://x/a'', vi_ChecksumsURL = ''https://x/s''\<rparr>"

lemma space_not_hex: "list_all (\<lambda>w. hd w \<notin> set ''0123456789abcdef'') space_encodings"
  by code_simp

lemma nospace_hex: "nospace (hex_encode s)"
  using space_not_hex hex_encode_digits [of s] by (intro nospace_chars) (auto simp only: list_all_iff)

lemma demo_https: "prefix ''https://'' (to_lower (vi_DownloadURL demo_info))" "prefix ''https://'' (to_lower (vi_ChecksumsURL demo_info))"
  by code_simp+

theorem update_fails_closed_witness:
  "let h = hex_encode (sha256 ''archive'') in
     DownloadUpdate demo_platform id (\<lambda>_. [TarEntry True ''serverkit-agent'' (Some ''new'')]) demo_info
       (Inr (200, ''archive'')) (Inr (200, h @ '' agent-linux-amd64'')) = Inr ''new'' \<and>
     (\<exists>line g nm rest. line \<in> set (split_on (CHR 0x0A) (h @ '' agent-linux-amd64'')) \<and> fields_of line = g # nm # rest \<and>
       to_lower h = to_lower g)"
proof -
  define h where "h = hex_encode (sha256 ''archive'')"
  let ?body = "h @ '' agent-linux-amd64''"
  have ns: "nospace h" "h \<noteq> []"
    using nospace_hex length_hex_encode [of "sha256 ''archive''"] length_sha256 [of "''archive''"] by (auto simp: h_def)
  have "fields_of ''agent-linux-amd64'' = [''agent-linux-amd64'']" by code_simp
  then have f: "fields_of ?body = [h, ''agent-linux-amd64'']" using fields_word [OF ns, of "''agent-linux-amd64''"] by simp
  have sp: "split_on (CHR 0x0A) ?body = [?body]"
    using nospace_no_newline [OF ns(1)] by (intro split_on_id) simp
  have pc: "parse_checksums ?body = [(''agent-linux-amd64'', h)]" by (simp add: parse_checksums_def sp f)
  have m: "matchChecksum demo_platform id h ?body = Inr ()"
    unfolding matchChecksum_def Let_def pc by (simp add: demo_platform_def ns(2))
  have u: "requireSecureURL demo_platform (vi_DownloadURL demo_info) = Inr ()"
      "requireSecureURL demo_platform (vi_ChecksumsURL demo_info) = Inr ()"
      "vi_DownloadURL demo_info \<noteq> []" "vi_ChecksumsURL demo_info \<noteq> []"
    using demo_https by (simp_all only: requireSecureURL_ok) (simp_all add: demo_info_def)
  have d: "DownloadUpdate demo_platform id (\<lambda>_. [TarEntry True ''serverkit-agent'' (Some ''new'')]) demo_info
       (Inr (200, ''archive'')) (Inr (200, ?body)) = Inr ''new''"
    using m u by (simp add: DownloadUpdate_def verifyChecksum_def h_def)
  from update_fails_closed [OF d] have "\<exists>line g nm rest. line \<in> set (split_on (CHR 0x0A) ?body) \<and> fields_of line = g # nm # rest \<and>
       to_lower h = to_lower g"
    unfolding h_def by (simp, blast)
  with d show ?thesis unfolding Let_def h_def [symmetric] by blast
qed

text \<open>
  Matching the architecture by substring: an agent built for \<open>arm\<close> also accepts the entry for
  \<open>arm64\<close>, and which of the two it compares with depends on the order in which the map is iterated.
\<close>

lemma arm_matches_arm64:
  assumes "pf_GOOS pf = ''linux''" "pf_GOARCH pf = ''arm''"
  shows "matchChecksum pf id ''aa'' (''bb  agent-linux-arm64'' @ [CHR 0x0A] @ ''aa  agent-linux-arm'') =
       Inl (UpdateError ''checksum mismatch: expected bb, got aa'') \<and>
     matchChecksum pf rev ''aa'' (''bb  agent-linux-arm64'' @ [CHR 0x0A] @ ''aa  agent-linux-arm'') = Inr ()"
proof -
  have "parse_checksums (''bb  agent-linux-arm64'' @ [CHR 0x0A] @ ''aa  agent-linux-arm'') =
      [(''agent-linux-arm64'', ''bb''), (''agent-linux-arm'', ''aa'')]"
    by code_simp
  moreover have "to_lower ''aa'' \<noteq> to_lower ''bb''" by code_simp
  ultimately show ?thesis using assms by (simp add: matchChecksum_def Let_def del: to_lower.simps)
qed

end
