(* ===== verification/Job_Tasks.thy ===== *)
theory Job_Tasks
  imports Jobs
begin

text \<open>
  The contract between a goroutine that runs a job and the job it reports on: whatever state it runs
  in, its body pushes one \<open>done\<close> event, and pushes it last. What follows for the job, for the
  subscriber who was there and for the one who comes late, is proved once for every such body.
\<close>

definition is_done :: "event \<Rightarrow> bool" where
  "is_done e \<longleftrightarrow> je_phase e = PhaseDone"

definition ends_done :: "event list \<Rightarrow> bool" where
  "ends_done evs \<longleftrightarrow> evs \<noteq> [] \<and> is_done (last evs) \<and> list_all (\<lambda>e. \<not> is_done e) (butlast evs)"

lemma ends_done_snoc [simp]: "ends_done (evs @ [e]) \<longleftrightarrow> is_done e \<and> list_all (\<lambda>e. \<not> is_done e) evs"
  by (auto simp: ends_done_def)

lemma ends_done_single [simp]: "ends_done [e] \<longleftrightarrow> is_done e"
  using ends_done_snoc [of "[]" e] by simp

lemma ends_done_Cons [simp]:
  "ends_done (e # evs) \<longleftrightarrow> (if evs = [] then is_done e else \<not> is_done e \<and> ends_done evs)"
  by (auto simp: ends_done_def)

lemma ends_done_append: "list_all (\<lambda>e. \<not> is_done e) xs \<Longrightarrow> ends_done ys \<Longrightarrow> ends_done (xs @ ys)"
  by (auto simp: ends_done_def butlast_append)

lemma ends_done_Nil [simp]: "\<not> ends_done []"
  by (simp add: ends_done_def)

lemma ends_done_one: "ends_done evs \<Longrightarrow> filter is_done evs = [last evs]"
  by (cases evs rule: rev_cases) (simp_all add: list_all_iff filter_empty_conv)

text \<open>What a job's events are worth to its subscribers: one outcome, at the end, for the early and the late.\<close>

definition job_ends :: "event list \<Rightarrow> bool" where
  "job_ends evs \<longleftrightarrow> filter is_done evs = [last evs] \<and>
     (\<forall>i bufferCap. \<exists>j. push_events True evs (new_job i bufferCap) = Some (j, map (Pair (''job:'' @ i)) evs) \<and>
        HasTerminated j \<and> Replay j \<noteq> [] \<and> last (Replay j) = last evs)"

locale job_task =
  fixes body :: "'s \<Rightarrow> event list \<times> 's"
  assumes body_ends: "ends_done (fst (body s))"
begin

lemma one_done: "filter is_done (fst (body s)) = [last (fst (body s))]"
  by (rule ends_done_one [OF body_ends])

text \<open>The live subscriber gets every event in order; the job has terminated.\<close>

lemma live:
  "\<exists>j. push_events True (fst (body s)) (new_job i bufferCap) = Some (j, map (Pair (''job:'' @ i)) (fst (body s))) \<and>
     HasTerminated j"
proof -
  obtain j out where p: "push_events True (fst (body s)) (new_job i bufferCap) = Some (j, out)"
      "job_done j \<longleftrightarrow> job_done (new_job i bufferCap) \<or> (\<exists>ev \<in> set (fst (body s)). je_phase ev = PhaseDone)"
      "out = map (\<lambda>ev. (job_Channel (new_job i bufferCap), ev)) (fst (body s))"
    using push_events_ok [OF new_job_ok, of True "fst (body s)" i bufferCap] by auto
  have "last (fst (body s)) \<in> set (fst (body s))" "is_done (last (fst (body s)))"
    using body_ends [of s] by (auto simp: ends_done_def)
  then have "job_done j" using p(2) unfolding is_done_def by blast
  moreover have "job_Channel (new_job i bufferCap) = ''job:'' @ i" by (simp add: new_job_def Let_def ChannelJob_def)
  ultimately show ?thesis using p by (simp add: HasTerminated_def)
qed

text \<open>A late subscriber's replay always ends with the outcome, however much of the log was dropped.\<close>

lemma late:
  assumes "push_events True (fst (body s)) (new_job i bufferCap) = Some (j, out)"
  shows "Replay j \<noteq> [] \<and> last (Replay j) = last (fst (body s)) \<and> is_done (last (Replay j))"
proof -
  have c: "0 < job_cap (new_job i bufferCap)" "Replay (new_job i bufferCap) = []"
    using new_job_ok [of i bufferCap] by (simp_all add: ring_ok_def Replay_def new_job_def Let_def)
  have ne: "fst (body s) \<noteq> []" "is_done (last (fst (body s)))" using body_ends [of s] by (auto simp: ends_done_def)
  have "Replay j = last_n (job_cap (new_job i bufferCap)) (fst (body s))"
    using push_events_ok [OF new_job_ok, of True "fst (body s)" i bufferCap] assms c(2) by auto
  moreover have "length (fst (body s)) - job_cap (new_job i bufferCap) < length (fst (body s))"
    using c(1) ne by (cases "fst (body s)") simp_all
  ultimately show ?thesis using ne by (simp add: last_n_def last_drop)
qed

lemma ends: "job_ends (fst (body s))"
proof -
  have "\<exists>j. push_events True (fst (body s)) (new_job i bufferCap) = Some (j, map (Pair (''job:'' @ i)) (fst (body s))) \<and>
      HasTerminated j \<and> Replay j \<noteq> [] \<and> last (Replay j) = last (fst (body s))" for i bufferCap
    using live [of s i bufferCap] late by blast
  then show ?thesis unfolding job_ends_def by (intro conjI allI one_done)
qed

end

end
