(* ===== verification/Packages.thy ===== *)
theory Packages
  imports Exec Job_Tasks "HOL-Library.Multiset"
begin

text \<open>
  Package management: the \<open>packages:*\<close> part of \<open>internal/agent/workflow_handlers.go\<close> and
  \<open>internal/agent/package_handlers.go\<close>. A handler gets the outcome of decoding its parameters and
  returns the object it answers with; a handler that starts a job also returns the registry with the
  job in it and the body of the goroutine. Where the code takes \<open>CombinedOutput\<close>, \<open>rr_out\<close> is that.
\<close>

subsection \<open>The package managers\<close>

record packageManager =
  pm_bin :: string
  pm_install :: "string list"
  pm_remove :: "string list"
  pm_list :: "string list"
  pm_listBin :: string
  pm_queryFlag :: string

definition listCommand :: "packageManager \<Rightarrow> string \<times> string list" where
  "listCommand pm = (if pm_listBin pm \<noteq> [] then (pm_listBin pm, pm_list pm) else (pm_bin pm, pm_list pm))"

definition list_format :: string where
  "list_format = ''-f=${Package}'' @ [CHR 0x09] @ ''${Version}'' @ [CHR 0x0A]"

definition status_format :: string where "status_format = ''-f=${Status}''"

definition candidates :: "packageManager list" where
  "candidates =
     [\<lparr>pm_bin = ''apt-get'', pm_install = [''install'', ''-y''], pm_remove = [''remove'', ''-y''],
       pm_list = [''-W'', list_format], pm_listBin = ''dpkg-query'', pm_queryFlag = ''dpkg''\<rparr>,
      \<lparr>pm_bin = ''dnf'', pm_install = [''install'', ''-y''], pm_remove = [''remove'', ''-y''],
       pm_list = [''list'', ''installed''], pm_listBin = [], pm_queryFlag = ''rpm''\<rparr>,
      \<lparr>pm_bin = ''yum'', pm_install = [''install'', ''-y''], pm_remove = [''remove'', ''-y''],
       pm_list = [''list'', ''installed''], pm_listBin = [], pm_queryFlag = ''rpm''\<rparr>,
      \<lparr>pm_bin = ''apk'', pm_install = [''add''], pm_remove = [''del''],
       pm_list = [''info''], pm_listBin = [], pm_queryFlag = ''apk''\<rparr>,
      \<lparr>pm_bin = ''pacman'', pm_install = [''-S'', ''--noconfirm''], pm_remove = [''-R'', ''--noconfirm''],
       pm_list = [''-Q''], pm_listBin = [], pm_queryFlag = ''pacman''\<rparr>,
      \<lparr>pm_bin = ''zypper'', pm_install = [''install'', ''-y''], pm_remove = [''remove'', ''-y''],
       pm_list = [''se'', ''--installed-only''], pm_listBin = [], pm_queryFlag = ''rpm''\<rparr>]"

definition detectPackageManager :: "env \<Rightarrow> herror + packageManager" where
  "detectPackageManager env =
     (if \<not> env_linux env then Inl (Refused ''packages:* is Linux-only'')
      else (case find (\<lambda>pm. env_path env (pm_bin pm)) candidates of
              Some pm \<Rightarrow> Inr pm
            | None \<Rightarrow> Inl (Refused ''no recognised package manager on PATH'')))"

definition query_cmd :: "string \<Rightarrow> string \<Rightarrow> cmd option" where
  "query_cmd flag nm =
     (if flag = ''dpkg'' then Some (Run ''dpkg-query'' [''-W'', status_format, nm])
      else if flag = ''rpm'' then Some (Run ''rpm'' [''-q'', nm])
      else if flag = ''apk'' then Some (Run ''apk'' [''info'', ''-e'', nm])
      else if flag = ''pacman'' then Some (Run ''pacman'' [''-Q'', nm])
      else None)"

text \<open>Every caller discards the error of an unknown query flag, so it counts as not installed.\<close>

definition isInstalled :: "env \<Rightarrow> packageManager \<Rightarrow> string \<Rightarrow> ('e, bool) act" where
  "isInstalled env pm nm =
     (case query_cmd (pm_queryFlag pm) nm of
        None \<Rightarrow> ret False
      | Some c \<Rightarrow>
          abind (run env c) (\<lambda>r. ret (rr_err r = None \<and>
            (pm_queryFlag pm = ''dpkg'' \<longrightarrow> contains (rr_out r) ''install ok installed''))))"

definition package_meta :: string where
  "package_meta = '';&|$<>'' @ [CHR 0x60, CHR 0x0A, CHR 0x0D, CHR 0x22, CHR 0x27, CHR 0x5C]"

definition validatePackageName :: "string \<Rightarrow> herror + unit" where
  "validatePackageName nm =
     (let nm = trim_space nm in
      if nm = [] then Inl (Refused ''name is required'')
      else if contains_any nm package_meta then Inl (Refused ''invalid package name'')
      else Inr ())"

subsection \<open>Install, remove and list\<close>

record package_params =
  pp_name :: string
  pp_names :: "string list"
  pp_all :: bool
  pp_query :: string
  pp_limit :: int

text \<open>A manager call whose failure is the handler's: the error names the call and ends with its output.\<close>

definition manager_call :: "env \<Rightarrow> string \<Rightarrow> string list \<Rightarrow> (herror, run_result) act" where
  "manager_call env bin args =
     abind (run env (Run bin args)) (\<lambda>r.
       case rr_err r of
         None \<Rightarrow> ret r
       | Some e \<Rightarrow> throw (CommandFailed (join '' '' (bin # args)) e (truncate_out (rr_out r) 1024)))"

definition package_answer :: "packageManager \<Rightarrow> string \<Rightarrow> bool \<Rightarrow> string \<Rightarrow> (string \<times> json) list" where
  "package_answer pm nm installed action =
     [(''package'', JStr nm), (''installed'', JBool installed), (''action'', JStr action), (''manager'', JStr (pm_bin pm))]"

definition handlePackagesInstall :: "env \<Rightarrow> herror + package_params \<Rightarrow> (herror, json) act" where
  "handlePackagesInstall env params =
     abind (lift params) (\<lambda>p. let nm = pp_name p in
     abind (lift (validatePackageName nm)) (\<lambda>_.
     abind (lift (detectPackageManager env)) (\<lambda>pm.
     abind (isInstalled env pm nm) (\<lambda>installed.
       if installed then ret (JObj (package_answer pm nm True ''noop''))
       else abind (manager_call env (pm_bin pm) (pm_install pm @ [nm])) (\<lambda>r.
         ret (JObj (package_answer pm nm True ''installed'' @ [(''output'', JStr (truncate_out (rr_out r) 4096))])))))))"

definition handlePackagesRemove :: "env \<Rightarrow> herror + package_params \<Rightarrow> (herror, json) act" where
  "handlePackagesRemove env params =
     abind (lift params) (\<lambda>p. let nm = pp_name p in
     abind (lift (validatePackageName nm)) (\<lambda>_.
     abind (lift (detectPackageManager env)) (\<lambda>pm.
     abind (isInstalled env pm nm) (\<lambda>installed.
       if \<not> installed then ret (JObj (package_answer pm nm False ''noop''))
       else abind (manager_call env (pm_bin pm) (pm_remove pm @ [nm])) (\<lambda>r.
         ret (JObj (package_answer pm nm False ''removed'' @ [(''output'', JStr (truncate_out (rr_out r) 4096))])))))))"

definition handlePackagesListInstalled :: "env \<Rightarrow> (herror, json) act" where
  "handlePackagesListInstalled env =
     abind (lift (detectPackageManager env)) (\<lambda>pm. let (bin, args) = listCommand pm in
     abind (run env (Run bin args)) (\<lambda>r.
       case rr_err r of
         Some e \<Rightarrow> throw (CommandFailed (join '' '' (bin # args)) e [])
       | None \<Rightarrow> ret (JObj [(''manager'', JStr (pm_bin pm)), (''output'', JStr (truncate_out (rr_out r) (1024 * 256)))])))"

subsection \<open>Index, search and information\<close>

record extendedPackageManager =
  ext_bin :: string
  ext_updateCache :: "string list"
  ext_upgradeAll :: "string list"
  ext_upgradePkg :: "string list"
  ext_searchCmd :: "string list"
  ext_infoCmd :: "string list"

definition confold :: string where "confold = ''Dpkg::Options::=--force-confold''"

definition extendedFor :: "packageManager \<Rightarrow> extendedPackageManager option" where
  "extendedFor pm =
     (if pm_bin pm = ''apt-get''
      then Some \<lparr>ext_bin = ''apt-get'', ext_updateCache = [''update''],
        ext_upgradeAll = [''upgrade'', ''-y'', ''-o'', confold],
        ext_upgradePkg = [''install'', ''--only-upgrade'', ''-y'', ''-o'', confold],
        ext_searchCmd = [''search''], ext_infoCmd = [''show'']\<rparr>
      else if pm_bin pm = ''dnf'' \<or> pm_bin pm = ''yum''
      then Some \<lparr>ext_bin = pm_bin pm, ext_updateCache = [''check-update''], ext_upgradeAll = [''upgrade'', ''-y''],
        ext_upgradePkg = [''upgrade'', ''-y''], ext_searchCmd = [''search''], ext_infoCmd = [''info'']\<rparr>
      else if pm_bin pm = ''apk''
      then Some \<lparr>ext_bin = ''apk'', ext_updateCache = [''update''], ext_upgradeAll = [''upgrade''],
        ext_upgradePkg = [''upgrade''], ext_searchCmd = [''search'', ''-v''], ext_infoCmd = [''info'']\<rparr>
      else if pm_bin pm = ''pacman''
      then Some \<lparr>ext_bin = ''pacman'', ext_updateCache = [''-Sy''], ext_upgradeAll = [''-Syu'', ''--noconfirm''],
        ext_upgradePkg = [''-S'', ''--noconfirm''], ext_searchCmd = [''-Ss''], ext_infoCmd = [''-Si'']\<rparr>
      else if pm_bin pm = ''zypper''
      then Some \<lparr>ext_bin = ''zypper'', ext_updateCache = [''refresh''], ext_upgradeAll = [''update'', ''-y''],
        ext_upgradePkg = [''update'', ''-y''], ext_searchCmd = [''se''], ext_infoCmd = [''info'']\<rparr>
      else None)"

definition extended :: "packageManager \<Rightarrow> herror + extendedPackageManager" where
  "extended pm =
     (case extendedFor pm of None \<Rightarrow> Inl (Refused ''manager not supported'') | Some ext \<Rightarrow> Inr ext)"

definition isCheckUpdateExit100 :: "string \<Rightarrow> exec_error \<Rightarrow> bool" where
  "isCheckUpdateExit100 bin err \<longleftrightarrow> (bin = ''dnf'' \<or> bin = ''yum'') \<and> err = ExitStatus 100"

definition handlePackagesUpdateCache :: "env \<Rightarrow> sudo_mode \<Rightarrow> (herror, json) act" where
  "handlePackagesUpdateCache env mode =
     abind (lift (detectPackageManager env)) (\<lambda>pm.
     abind (lift (extended pm)) (\<lambda>ext.
     abind (lift (sudoCommandContext mode (Run (ext_bin ext) (ext_updateCache ext)))) (\<lambda>c.
     abind (run env c) (\<lambda>r.
       let tail = truncate_out (rr_out r) 4096;
           answer = ret (JObj [(''manager'', JStr (ext_bin ext)), (''output'', JStr tail)])
       in case rr_err r of
            None \<Rightarrow> answer
          | Some e \<Rightarrow>
              if isCheckUpdateExit100 (ext_bin ext) e then answer
              else if classifySudoError (rr_out r) then throw SudoRefused
              else throw (CommandFailed (join '' '' (ext_bin ext # ext_updateCache ext)) e tail)))))"

definition splitNonEmptyLines :: "string \<Rightarrow> string list" where
  "splitNonEmptyLines s =
     filter (\<lambda>ln. trim_space ln \<noteq> []) (map (trim_right_char (CHR 0x0D)) (split_on (CHR 0x0A) s))"

text \<open>A slice of strings as JSON: a nil one, which is what an empty result is, encodes as null.\<close>

definition strings_json :: "string list \<Rightarrow> json" where
  "strings_json xs = (if xs = [] then JNull else JArr (map JStr xs))"

definition handlePackagesSearch :: "env \<Rightarrow> herror + package_params \<Rightarrow> (herror, json) act" where
  "handlePackagesSearch env params =
     abind (lift params) (\<lambda>p. let q = trim_space (pp_query p) in
     abind (guard (q \<noteq> []) (Refused ''query is required'')) (\<lambda>_.
     abind (lift (validatePackageName q)) (\<lambda>_.
       let limit = (if pp_limit p \<le> 0 \<or> 500 < pp_limit p then 500 else pp_limit p) in
     abind (lift (detectPackageManager env)) (\<lambda>pm.
     abind (lift (extended pm)) (\<lambda>ext.
       let bin = (if pm_bin pm = ''apt-get'' then ''apt-cache'' else ext_bin ext);
           args = ext_searchCmd ext @ [q];
           answer = (\<lambda>r. ret (JObj [(''manager'', JStr (pm_bin pm)), (''query'', JStr q), (''limit'', JInt limit),
             (''results'', strings_json (take (nat limit) (splitNonEmptyLines (rr_out r))))])) in
     abind (run env (Run bin args)) (\<lambda>r.
       case rr_err r of
         Some e \<Rightarrow> if rr_out r = [] then throw (CommandFailed (join '' '' (bin # args)) e []) else answer r
       | None \<Rightarrow> answer r))))))"

definition handlePackagesInfo :: "env \<Rightarrow> herror + package_params \<Rightarrow> (herror, json) act" where
  "handlePackagesInfo env params =
     abind (lift params) (\<lambda>p. let nm = pp_name p in
     abind (lift (validatePackageName nm)) (\<lambda>_.
     abind (lift (detectPackageManager env)) (\<lambda>pm.
     abind (lift (extended pm)) (\<lambda>ext.
       let bin = (if pm_bin pm = ''apt-get'' then ''apt-cache'' else ext_bin ext);
           args = ext_infoCmd ext @ [nm];
           answer = (\<lambda>r. ret (JObj [(''manager'', JStr (pm_bin pm)), (''name'', JStr nm),
             (''output'', JStr (truncate_out (rr_out r) (16 * 1024)))])) in
     abind (run env (Run bin args)) (\<lambda>r.
       case rr_err r of
         Some e \<Rightarrow> if rr_out r = [] then throw (CommandFailed (join '' '' (bin # args)) e []) else answer r
       | None \<Rightarrow> answer r)))))"

subsection \<open>Streaming a command\<close>

text \<open>
  \<open>streamCmdOutput\<close>: two scanners put the lines of both outputs into a channel, in some order, and the
  batcher takes them from it, interrupted by its ticker. What the batcher receives of a command is
  given by the host, or \<open>None\<close> when the command cannot be started; a closed channel ends it.
\<close>

datatype delivery = Line string | Ticker

type_synonym start = "trace \<Rightarrow> cmd \<Rightarrow> delivery list option"

definition log_event :: "string list \<Rightarrow> event" where
  "log_event batch = zero_event\<lparr>je_phase := PhaseLog, je_lines := batch\<rparr>"

definition flush :: "string list \<Rightarrow> event list" where
  "flush batch = (if batch = [] then [] else [log_event batch])"

fun batcher :: "string list \<Rightarrow> delivery list \<Rightarrow> event list" where
  "batcher batch [] = flush batch"
| "batcher batch (Ticker # ds) = flush batch @ batcher [] ds"
| "batcher batch (Line ln # ds) =
     (let batch = batch @ [ln] in
      if 32 \<le> length batch then flush batch @ batcher [] ds else batcher batch ds)"

definition streamCmdOutput :: "env \<Rightarrow> start \<Rightarrow> cmd \<Rightarrow> trace \<Rightarrow> (event list \<times> exec_error option) option \<times> trace" where
  "streamCmdOutput env start c t =
     (case start t c of
        None \<Rightarrow> (None, t @ [c])
      | Some ds \<Rightarrow> (Some (batcher [] ds, rr_err (env_run env t c)), t @ [c]))"

fun exitCodeOf :: "exec_error \<Rightarrow> int" where
  "exitCodeOf (ExitStatus n) = n"
| "exitCodeOf NotStarted = -1"

text \<open>The text of an error is not modelled further than that it is not empty.\<close>

definition error_string :: "exec_error \<Rightarrow> string" where
  "error_string e = (case e of ExitStatus n \<Rightarrow> ''exit status '' @ itoa n | NotStarted \<Rightarrow> ''signal: killed'')"

subsection \<open>The jobs\<close>

definition done_event :: "int \<Rightarrow> string \<Rightarrow> (string \<times> json) list \<Rightarrow> event" where
  "done_event exit err extra =
     zero_event\<lparr>je_phase := PhaseDone, je_exit_code := Some exit, je_error := err, je_extra := extra\<rparr>"

definition message_event :: "string \<Rightarrow> string \<Rightarrow> event" where
  "message_event phase msg = zero_event\<lparr>je_phase := phase, je_message := msg\<rparr>"

definition sudo_required :: string where
  "sudo_required = ''sudo required: agent is running as a non-root user and passwordless sudo is not configured''"

text \<open>
  Running a command to its end on a job: the events pushed, and the exit code and error of its done
  event if it failed.
\<close>

definition run_on_job :: "env \<Rightarrow> start \<Rightarrow> sudo_mode \<Rightarrow> cmd \<Rightarrow> event list \<Rightarrow> trace \<Rightarrow>
    (event list \<times> (int \<times> string) option) \<times> trace" where
  "run_on_job env start mode c announce t =
     (case sudoCommandContext mode c of
        Inl _ \<Rightarrow> (([], Some (-1, sudo_required)), t)
      | Inr c' \<Rightarrow>
          (case streamCmdOutput env start c' t of
             (None, t') \<Rightarrow> ((announce, Some (-1, ''command could not be started'')), t')
           | (Some (logs, None), t') \<Rightarrow> ((announce @ logs, None), t')
           | (Some (logs, Some e), t') \<Rightarrow>
               ((announce @ logs, Some (if exitCodeOf e = 0 then -1 else exitCodeOf e, error_string e)), t')))"

text \<open>A job that is one command: it says what it starts, and ends with how the command ended.\<close>

definition run_and_report :: "env \<Rightarrow> start \<Rightarrow> sudo_mode \<Rightarrow> cmd \<Rightarrow> string \<Rightarrow> (trace \<Rightarrow> (string \<times> json) list) \<Rightarrow> trace \<Rightarrow>
    event list \<times> trace" where
  "run_and_report env start mode c msg extra t =
     (case run_on_job env start mode c [message_event PhaseStart msg] t of
        ((evs, Some (code, err)), t') \<Rightarrow> (evs @ [done_event code err (extra t')], t')
      | ((evs, None), t') \<Rightarrow> (evs @ [done_event 0 [] (extra t')], t'))"

fun probe :: "env \<Rightarrow> packageManager \<Rightarrow> string list \<Rightarrow> trace \<Rightarrow> (string list \<times> string list) \<times> trace" where
  "probe env pm [] t = (([], []), t)"
| "probe env pm (n # ns) t =
     (case isInstalled env pm n t of
        (r, t1) \<Rightarrow>
          (case probe env pm ns t1 of
             ((missing, present), t2) \<Rightarrow>
               (if r = (Inr True :: unit + bool) then ((missing, n # present), t2) else ((n # missing, present), t2))))"

definition install_extra :: "packageManager \<Rightarrow> string list \<Rightarrow> (string \<times> json) list" where
  "install_extra pm xs =
     [(''manager'', JStr (pm_bin pm)), (''action'', JStr ''install''), (''installed'', strings_json xs)]"

definition runPackageInstallJob :: "env \<Rightarrow> start \<Rightarrow> sudo_mode \<Rightarrow> packageManager \<Rightarrow> string list \<Rightarrow> trace \<Rightarrow>
    event list \<times> trace" where
  "runPackageInstallJob env start mode pm names t =
     (let extra = install_extra pm
      in case probe env pm names t of
           ((toInstall, already), t1) \<Rightarrow>
             (let status = (if already = [] then []
                  else [message_event PhaseStatus (''already installed: '' @ join '', '' already)]) in
              if toInstall = [] then (status @ [done_event 0 [] (extra already)], t1)
              else (let start_ev = message_event PhaseStart (''installing '' @ itoa (int (length toInstall)) @
                          '' package(s) via '' @ pm_bin pm)
                    in case run_on_job env start mode (Run (pm_bin pm) (pm_install pm @ toInstall)) [] t1 of
                         ((evs, Some (code, err)), t2) \<Rightarrow>
                           (status @ [start_ev] @ evs @ [done_event code err (extra [])], t2)
                       | ((evs, None), t2) \<Rightarrow>
                           (status @ [start_ev] @ evs @ [done_event 0 [] (extra (already @ toInstall))], t2))))"

text \<open>The upgrade itself, after the index was refreshed where that is needed.\<close>

definition run_upgrade :: "env \<Rightarrow> start \<Rightarrow> sudo_mode \<Rightarrow> extendedPackageManager \<Rightarrow> string list \<Rightarrow> bool \<Rightarrow>
    (string \<times> json) list \<Rightarrow> trace \<Rightarrow> event list \<times> trace" where
  "run_upgrade env start mode ext names all extra t =
     (let args = (if all then ext_upgradeAll ext else ext_upgradePkg ext @ names)
      in run_and_report env start mode (Run (ext_bin ext) args) (ext_bin ext @ '' '' @ join '' '' args) (\<lambda>_. extra) t)"

definition upgrade_extra :: "packageManager \<Rightarrow> bool \<Rightarrow> (string \<times> json) list" where
  "upgrade_extra pm all = [(''manager'', JStr (pm_bin pm)), (''action'', JStr ''upgrade''), (''all'', JBool all)]"

definition runPackageUpgradeJob :: "env \<Rightarrow> start \<Rightarrow> sudo_mode \<Rightarrow> packageManager \<Rightarrow> extendedPackageManager \<Rightarrow>
    string list \<Rightarrow> bool \<Rightarrow> trace \<Rightarrow> event list \<times> trace" where
  "runPackageUpgradeJob env start mode pm ext names all t =
     (let extra = upgrade_extra pm all
      in if pm_bin pm = ''apt-get''
         then (case sudoCommandContext mode (Run (ext_bin ext) (ext_updateCache ext)) of
                 Inl _ \<Rightarrow> ([done_event (-1) sudo_required extra], t)
               | Inr c \<Rightarrow>
                   (case streamCmdOutput env start c t of
                      (None, t1) \<Rightarrow> ([done_event (-1) ''command could not be started'' extra], t1)
                    | (Some (logs, _), t1) \<Rightarrow>
                        (case run_upgrade env start mode ext names all extra t1 of (evs, t2) \<Rightarrow> (logs @ evs, t2))))
         else run_upgrade env start mode ext names all extra t)"

text \<open>The request: a single name is appended to the names, and each of them is validated.\<close>

definition install_names :: "package_params \<Rightarrow> string list" where
  "install_names p = (if pp_name p \<noteq> [] then pp_names p @ [pp_name p] else pp_names p)"

fun validate_all :: "string list \<Rightarrow> herror + unit" where
  "validate_all [] = Inr ()"
| "validate_all (n # ns) = rbind (validatePackageName n) (\<lambda>_. validate_all ns)"

definition normalize :: "package_params \<Rightarrow> herror + string list" where
  "normalize p = rbind (validate_all (install_names p)) (\<lambda>_. Inr (install_names p))"

definition job_answer :: "job \<Rightarrow> json" where
  "job_answer j = JObj [(''job_id'', JStr (job_ID j)), (''channel'', JStr (job_Channel j))]"

type_synonym job_body = "trace \<Rightarrow> event list \<times> trace"

definition handlePackagesInstallAsync :: "env \<Rightarrow> start \<Rightarrow> sudo_mode \<Rightarrow> string \<Rightarrow> registry \<Rightarrow> herror + package_params \<Rightarrow>
    (herror, json \<times> registry \<times> job_body) act" where
  "handlePackagesInstallAsync env start mode i reg params =
     abind (lift params) (\<lambda>p.
     abind (lift (normalize p)) (\<lambda>names.
     abind (guard (names \<noteq> []) (Refused ''at least one package name required'')) (\<lambda>_.
     abind (lift (detectPackageManager env)) (\<lambda>pm.
     abind (guard (mode \<noteq> SudoUnavailable) SudoRequired) (\<lambda>_.
       let (j, reg) = New i 200 reg in ret (job_answer j, reg, runPackageInstallJob env start mode pm names))))))"

definition handlePackagesUpgrade :: "env \<Rightarrow> start \<Rightarrow> sudo_mode \<Rightarrow> string \<Rightarrow> registry \<Rightarrow> herror + package_params \<Rightarrow>
    (herror, json \<times> registry \<times> job_body) act" where
  "handlePackagesUpgrade env start mode i reg params =
     abind (lift params) (\<lambda>p.
     abind (lift (normalize p)) (\<lambda>names.
     abind (guard (pp_all p \<or> names \<noteq> []) (Refused ''either names[] or all=true required'')) (\<lambda>_.
     abind (lift (detectPackageManager env)) (\<lambda>pm.
     abind (lift (extended pm)) (\<lambda>ext.
     abind (guard (mode \<noteq> SudoUnavailable) SudoRequired) (\<lambda>_.
       let (j, reg) = New i 200 reg
       in ret (job_answer j, reg, runPackageUpgradeJob env start mode pm ext names (pp_all p))))))))"

subsection \<open>The streamed log is the output\<close>

fun lines_of :: "delivery list \<Rightarrow> string list" where
  "lines_of [] = []"
| "lines_of (Line ln # ds) = ln # lines_of ds"
| "lines_of (Ticker # ds) = lines_of ds"

lemma flush_lines [simp]: "concat (map je_lines (flush batch)) = batch"
  by (simp add: flush_def log_event_def)

lemma batcher_lines: "concat (map je_lines (batcher batch ds)) = batch @ lines_of ds"
  by (induction batch ds rule: batcher.induct) (simp_all add: Let_def)

definition log_ok :: "event \<Rightarrow> bool" where
  "log_ok e \<longleftrightarrow> je_phase e = PhaseLog \<and> je_lines e \<noteq> [] \<and> length (je_lines e) \<le> 32"

lemma flush_ok: "length batch \<le> 32 \<Longrightarrow> list_all log_ok (flush batch)"
  by (simp add: flush_def log_event_def log_ok_def)

lemma batcher_ok: "length batch < 32 \<Longrightarrow> list_all log_ok (batcher batch ds)"
proof (induction batch ds rule: batcher.induct)
  case (3 batch ln ds)
  then show ?case by (auto simp: Let_def flush_ok)
qed (simp_all add: flush_ok)

subsection \<open>Jobs end once\<close>

lemma batcher_not_done: "list_all (\<lambda>e. \<not> is_done e) (batcher batch ds)"
  by (induction batch ds rule: batcher.induct) (simp_all add: Let_def flush_def log_event_def is_done_def)

lemma done_event_is_done [simp]: "is_done (done_event c e x)"
  by (simp add: done_event_def is_done_def)

lemma message_event_not_done [simp]: "ph \<noteq> PhaseDone \<Longrightarrow> \<not> is_done (message_event ph m)"
  by (simp add: message_event_def is_done_def)

lemma event_fields [simp]:
  "je_exit_code (done_event c e x) = Some c" "je_extra (done_event c e x) = x" "je_lines (done_event c e x) = []"
  "je_lines (message_event ph m) = []"
  by (simp_all add: done_event_def message_event_def zero_event_def)

lemma stream_not_done:
  "streamCmdOutput env start c t = (Some (logs, e), t') \<Longrightarrow> list_all (\<lambda>e. \<not> is_done e) logs"
  by (auto simp: streamCmdOutput_def batcher_not_done split: option.splits)

lemma run_on_job_not_done:
  "run_on_job env start mode c announce t = ((evs, r), t') \<Longrightarrow> list_all (\<lambda>e. \<not> is_done e) announce \<Longrightarrow>
     list_all (\<lambda>e. \<not> is_done e) evs"
  by (auto simp: run_on_job_def dest: stream_not_done split: sum.splits prod.splits option.splits)

lemma install_ends: "ends_done (fst (runPackageInstallJob env start mode pm names t))"
proof -
  obtain todo already t1 where p: "probe env pm names t = ((todo, already), t1)" by (metis prod.collapse)
  obtain evs r t2 where j: "run_on_job env start mode (Run (pm_bin pm) (pm_install pm @ todo)) [] t1 = ((evs, r), t2)"
    by (metis prod.collapse)
  have "list_all (\<lambda>e. \<not> is_done e) evs" using run_on_job_not_done [OF j] by simp
  then show ?thesis
    by (cases r) (auto simp: runPackageInstallJob_def Let_def p j)
qed

lemma report_ends: "ends_done (fst (run_and_report env start mode c msg extra t))"
proof -
  obtain evs r t2 where j: "run_on_job env start mode c [message_event PhaseStart msg] t = ((evs, r), t2)"
    by (metis prod.collapse)
  have "list_all (\<lambda>e. \<not> is_done e) evs" by (rule run_on_job_not_done [OF j]) simp
  then show ?thesis unfolding run_and_report_def j by (cases r) auto
qed

lemma report_trace: "snd (run_and_report env start mode c msg extra t) = snd (run_on_job env start mode c [message_event PhaseStart msg] t)"
  by (simp add: run_and_report_def split: prod.splits option.splits)

lemma run_upgrade_ends: "ends_done (fst (run_upgrade env start mode ext names all extra t))"
  unfolding run_upgrade_def Let_def by (rule report_ends)

lemma upgrade_ends: "ends_done (fst (runPackageUpgradeJob env start mode pm ext names all t))"
  unfolding runPackageUpgradeJob_def Let_def
  using run_upgrade_ends [of env start mode ext names all "upgrade_extra pm all"]
  by (auto split: sum.splits prod.splits option.splits intro!: ends_done_append dest: stream_not_done)
    (metis fst_conv)+

interpretation install_job: job_task "runPackageInstallJob env start mode pm names"
  for env start mode pm names
  by unfold_locales (rule install_ends)

interpretation upgrade_job: job_task "runPackageUpgradeJob env start mode pm ext names all"
  for env start mode pm ext names all
  by unfold_locales (rule upgrade_ends)

subsection \<open>What an installation runs\<close>

definition has_package :: "env \<Rightarrow> packageManager \<Rightarrow> trace \<Rightarrow> string \<Rightarrow> bool" where
  "has_package env pm t n \<longleftrightarrow> fst (isInstalled env pm n t) = (Inr True :: unit + bool)"

definition query_of :: "packageManager \<Rightarrow> string \<Rightarrow> cmd" where
  "query_of pm n = the (query_cmd (pm_queryFlag pm) n)"

fun missing :: "env \<Rightarrow> packageManager \<Rightarrow> trace \<Rightarrow> string list \<Rightarrow> string list" where
  "missing env pm t [] = []"
| "missing env pm t (n # ns) =
     (if has_package env pm t n then missing env pm (t @ [query_of pm n]) ns
      else n # missing env pm (t @ [query_of pm n]) ns)"

lemma candidates_query: "pm \<in> set candidates \<Longrightarrow> \<exists>c. query_cmd (pm_queryFlag pm) n = Some c"
  by (auto simp: candidates_def query_cmd_def)

lemma detect_candidate: "detectPackageManager env = Inr pm \<Longrightarrow> env_linux env \<and> pm \<in> set candidates \<and> env_path env (pm_bin pm)"
  by (auto simp: detectPackageManager_def dest: find_Some_in split: if_splits option.splits)

lemma isInstalled_trace: "pm \<in> set candidates \<Longrightarrow> snd (isInstalled env pm n t) = t @ [query_of pm n]"
  using candidates_query [of pm n] by (auto simp: isInstalled_def query_of_def abind_def run_def ret_def)

lemma probe_spec:
  assumes "pm \<in> set candidates"
  shows "\<exists>present. probe env pm ns t = ((missing env pm t ns, present), t @ map (query_of pm) ns) \<and>
    mset (present @ missing env pm t ns) = mset ns"
proof (induction ns arbitrary: t)
  case Nil
  then show ?case by simp
next
  case (Cons n ns)
  obtain present where p: "probe env pm ns (t @ [query_of pm n]) =
      ((missing env pm (t @ [query_of pm n]) ns, present), (t @ [query_of pm n]) @ map (query_of pm) ns)"
    "mset (present @ missing env pm (t @ [query_of pm n]) ns) = mset ns"
    using Cons.IH by blast
  have i: "isInstalled env pm n t = (fst (isInstalled env pm n t :: (unit + bool) \<times> trace), t @ [query_of pm n])"
    using isInstalled_trace [OF assms, of env n t] by (metis prod.collapse)
  show ?case
    using p by (subst probe.simps, subst i) (auto simp: has_package_def)
qed

lemma wrapped: "mode \<noteq> SudoUnavailable \<Longrightarrow> \<exists>c'. sudoCommandContext mode c = Inr c'"
  by (cases mode) simp_all

text \<open>The lines the job's one command printed, and whether it ran to a successful end.\<close>

definition printed :: "start \<Rightarrow> trace \<Rightarrow> cmd \<Rightarrow> string list" where
  "printed start t c = (case start t c of None \<Rightarrow> [] | Some ds \<Rightarrow> lines_of ds)"

definition succeeds :: "env \<Rightarrow> start \<Rightarrow> trace \<Rightarrow> cmd \<Rightarrow> bool" where
  "succeeds env start t c \<longleftrightarrow> start t c \<noteq> None \<and> rr_err (env_run env t c) = None"

lemma run_on_job_spec:
  assumes "sudoCommandContext mode c = Inr c'"
  shows "\<exists>evs r. run_on_job env start mode c [] t = ((evs, r), t @ [c']) \<and>
    concat (map je_lines evs) = printed start t c' \<and> (r = None \<longleftrightarrow> succeeds env start t c') \<and>
    (\<forall>code err. r = Some (code, err) \<longrightarrow> code \<noteq> 0)"
proof (cases "start t c'")
  case None
  then show ?thesis using assms by (simp add: run_on_job_def streamCmdOutput_def printed_def succeeds_def)
next
  case (Some ds)
  then show ?thesis
    using assms batcher_lines [of "[]" ds]
    by (cases "rr_err (env_run env t c')")
      (simp_all add: run_on_job_def streamCmdOutput_def printed_def succeeds_def)
qed

lemma install_shape:
  assumes "probe env pm names t = ((todo, present), t1)"
    "todo \<noteq> [] \<Longrightarrow> run_on_job env start mode (Run (pm_bin pm) (pm_install pm @ todo)) [] t1 = ((logs, r), t2)"
  shows "\<exists>pre. concat (map je_lines pre) = [] \<and> runPackageInstallJob env start mode pm names t =
     (if todo = [] then (pre @ [done_event 0 [] (install_extra pm present)], t1)
      else (case r of
              None \<Rightarrow> (pre @ logs @ [done_event 0 [] (install_extra pm (present @ todo))], t2)
            | Some (code, err) \<Rightarrow> (pre @ logs @ [done_event code err (install_extra pm [])], t2)))"
proof -
  let ?st = "if present = [] then [] else [message_event PhaseStatus (''already installed: '' @ join '', '' present)]"
  let ?say = "message_event PhaseStart (''installing '' @ itoa (int (length todo)) @ '' package(s) via '' @ pm_bin pm)"
  show ?thesis
  proof (cases "todo = []")
    case True
    then show ?thesis
      using assms(1) by (intro exI [of _ ?st]) (simp add: runPackageInstallJob_def install_extra_def Let_def)
  next
    case False
    then show ?thesis
      using assms by (intro exI [of _ "?st @ [?say]"])
        (simp add: runPackageInstallJob_def install_extra_def Let_def split: option.split)
  qed
qed

text \<open>
  C15. The installation job is idempotent and reports what happened: it asks the package database about
  each name, in order; if every package is there it runs nothing else, otherwise it runs one manager
  command, for exactly the packages that are missing. The lines of its log are the lines that command
  printed. Its last event, and no other, is the done event; its exit code is zero exactly if nothing
  was missing or the command succeeded, and then it lists every requested package.
\<close>

theorem install_job_contract:
  assumes "detectPackageManager env = Inr pm" "mode \<noteq> SudoUnavailable"
    "runPackageInstallJob env start mode pm names t = (evs, t')"
  shows "let todo = missing env pm t names; asked = t @ map (query_of pm) names in
     \<exists>c xs. sudoCommandContext mode (Run (pm_bin pm) (pm_install pm @ todo)) = Inr c \<and> mset xs = mset names \<and>
       t' = (if todo = [] then asked else asked @ [c]) \<and>
       concat (map je_lines evs) = (if todo = [] then [] else printed start asked c) \<and>
       filter is_done evs = [last evs] \<and>
       (je_exit_code (last evs) = Some 0 \<longleftrightarrow> todo = [] \<or> succeeds env start asked c) \<and>
       (je_exit_code (last evs) = Some 0 \<longrightarrow> (''installed'', strings_json xs) \<in> set (je_extra (last evs)))"
proof -
  let ?todo = "missing env pm t names"
  let ?asked = "t @ map (query_of pm) names"
  obtain present where p: "probe env pm names t = ((?todo, present), ?asked)" "mset (present @ ?todo) = mset names"
    using probe_spec detect_candidate [OF assms(1)] by blast
  obtain c where c: "sudoCommandContext mode (Run (pm_bin pm) (pm_install pm @ ?todo)) = Inr c"
    using wrapped [OF assms(2)] by blast
  obtain logs r where j: "run_on_job env start mode (Run (pm_bin pm) (pm_install pm @ ?todo)) [] ?asked = ((logs, r), ?asked @ [c])"
      "concat (map je_lines logs) = printed start ?asked c" "r = None \<longleftrightarrow> succeeds env start ?asked c"
      "\<forall>code err. r = Some (code, err) \<longrightarrow> code \<noteq> 0"
    using run_on_job_spec [OF c] by blast
  have done1: "filter is_done evs = [last evs]"
    using install_job.one_done [of env start mode pm names t] assms(3) by simp
  obtain pre where "concat (map je_lines pre) = []" "(evs, t') =
     (if ?todo = [] then (pre @ [done_event 0 [] (install_extra pm present)], ?asked)
      else (case r of
              None \<Rightarrow> (pre @ logs @ [done_event 0 [] (install_extra pm (present @ ?todo))], ?asked @ [c])
            | Some (code, err) \<Rightarrow> (pre @ logs @ [done_event code err (install_extra pm [])], ?asked @ [c])))"
    using install_shape [OF p(1) j(1)] assms(3) by auto
  then have "t' = (if ?todo = [] then ?asked else ?asked @ [c]) \<and>
      concat (map je_lines evs) = (if ?todo = [] then [] else printed start ?asked c) \<and>
      (je_exit_code (last evs) = Some 0 \<longleftrightarrow> ?todo = [] \<or> succeeds env start ?asked c) \<and>
      (je_exit_code (last evs) = Some 0 \<longrightarrow> (''installed'', strings_json (present @ ?todo)) \<in> set (je_extra (last evs)))"
    using j(2-4) by (cases "?todo = []"; cases r) (auto simp: install_extra_def)
  then show ?thesis
    unfolding Let_def by (intro exI [of _ c] exI [of _ "present @ ?todo"] conjI c p(2) done1) simp_all
qed

text \<open>A Debian host with nginx installed; whatever else is asked for is not, and apt-get succeeds.\<close>

definition demo_host :: env where
  "demo_host = \<lparr>env_linux = True, env_path = (\<lambda>b. b = ''apt-get''), env_run = (\<lambda>t c.
     if c = Run ''dpkg-query'' [''-W'', status_format, ''nginx'']
     then \<lparr>rr_out = ''install ok installed'', rr_stderr = [], rr_err = None\<rparr>
     else if cmd_name c = ''dpkg-query'' then \<lparr>rr_out = [], rr_stderr = [], rr_err = Some (ExitStatus 1)\<rparr>
     else \<lparr>rr_out = ''ok'', rr_stderr = [], rr_err = None\<rparr>)\<rparr>"

lemma demo_detect: "detectPackageManager demo_host = Inr (hd candidates)"
  by (simp add: detectPackageManager_def demo_host_def candidates_def)

lemma demo_missing: "missing demo_host (hd candidates) t [''nginx'', ''curl''] = [''curl'']"
proof -
  have "contains ''install ok installed'' ''install ok installed''" by code_simp
  then have "has_package demo_host (hd candidates) t ''nginx''" for t
    by (simp add: has_package_def isInstalled_def query_cmd_def demo_host_def candidates_def abind_def run_def ret_def)
  moreover have "\<not> has_package demo_host (hd candidates) t ''curl''" for t
    by (simp add: has_package_def isInstalled_def query_cmd_def demo_host_def candidates_def abind_def run_def ret_def)
  ultimately show ?thesis by simp
qed

theorem install_job_contract_witness:
  "let (evs, t') = runPackageInstallJob demo_host (\<lambda>_ _. Some [Line ''Setting up curl'']) SudoPasswordless (hd candidates)
       [''nginx'', ''curl''] []
   in last t' = Run ''sudo'' [''-n'', ''apt-get'', ''install'', ''-y'', ''curl''] \<and> length t' = 3 \<and>
     concat (map je_lines evs) = [''Setting up curl''] \<and> je_exit_code (last evs) = Some 0"
proof -
  let ?start = "\<lambda>_ _. Some [Line ''Setting up curl'']"
  obtain evs t' where j: "runPackageInstallJob demo_host ?start SudoPasswordless (hd candidates) [''nginx'', ''curl''] [] = (evs, t')"
    by (metis prod.collapse)
  have "succeeds demo_host ?start t (Run ''sudo'' args)" for t args
    by (simp add: succeeds_def demo_host_def)
  moreover have "pm_bin (hd candidates) = ''apt-get''" "pm_install (hd candidates) = [''install'', ''-y'']"
    by (simp_all add: candidates_def)
  ultimately show ?thesis
    using install_job_contract [OF demo_detect _ j] by (auto simp add: demo_missing j printed_def Let_def simp del: missing.simps)
qed

end
