(* ===== verification/Systemd.thy ===== *)
theory Systemd
  imports Packages
begin

text \<open>
  Unit control: the \<open>systemd:*\<close> part of \<open>internal/agent/workflow_handlers.go\<close> and
  \<open>internal/agent/systemd_handlers.go\<close>. What JSON a program printed decodes to is given by a
  decoder; a field of the journal is already the text that \<open>stringField\<close> makes of it.
\<close>

subsection \<open>Unit names and systemctl\<close>

definition validateUnitName :: "string \<Rightarrow> herror + unit" where
  "validateUnitName nm =
     (let nm = trim_space nm in
      if nm = [] then Inl (Refused ''unit is required'')
      else if contains_any nm (package_meta @ '' '') then Inl (Refused ''invalid unit name'')
      else Inr ())"

definition systemctlAvailable :: "env \<Rightarrow> herror + unit" where
  "systemctlAvailable env =
     (if \<not> env_linux env then Inl (Refused ''systemd:* is Linux-only'')
      else if \<not> env_path env ''systemctl'' then Inl (Refused ''systemctl not on PATH'')
      else Inr ())"

text \<open>\<open>runSystemctl\<close>, whose error both callers drop: what it printed.\<close>

definition runSystemctl :: "env \<Rightarrow> string list \<Rightarrow> (herror, string) act" where
  "runSystemctl env args = abind (run env (Run ''systemctl'' args)) (\<lambda>r. ret (trim_space (rr_out r)))"

text \<open>\<open>runSystemctlPrivileged\<close> with what it printed and how it ended.\<close>

definition runSystemctlPrivileged :: "env \<Rightarrow> sudo_mode \<Rightarrow> string list \<Rightarrow> (herror, string \<times> exec_error option) act" where
  "runSystemctlPrivileged env mode args =
     abind (lift (sudoCommandContext mode (Run ''systemctl'' args))) (\<lambda>c.
     abind (run env c) (\<lambda>r. ret (trim_space (rr_out r), rr_err r)))"

definition parseUnitParam :: "herror + string \<Rightarrow> herror + string" where
  "parseUnitParam params = rbind params (\<lambda>unit. rbind (validateUnitName unit) (\<lambda>_. Inr unit))"

definition handleSystemdStatus :: "env \<Rightarrow> herror + string \<Rightarrow> (herror, json) act" where
  "handleSystemdStatus env params =
     abind (lift (systemctlAvailable env)) (\<lambda>_.
     abind (lift (parseUnitParam params)) (\<lambda>unit.
     abind (runSystemctl env [''is-active'', unit]) (\<lambda>active.
     abind (runSystemctl env [''is-enabled'', unit]) (\<lambda>enabled.
       ret (JObj [(''unit'', JStr unit), (''active'', JStr active), (''enabled'', JStr enabled)])))))"

text \<open>The common part of the five handlers that change a unit; an escalation error has no output.\<close>

definition change_unit :: "env \<Rightarrow> sudo_mode \<Rightarrow> string \<Rightarrow> (string \<Rightarrow> json) \<Rightarrow> herror + string \<Rightarrow> (herror, json) act" where
  "change_unit env mode verb answer params =
     abind (lift (systemctlAvailable env)) (\<lambda>_.
     abind (lift (parseUnitParam params)) (\<lambda>unit.
     abind (runSystemctlPrivileged env mode [verb, unit]) (\<lambda>(out, err).
       case err of
         None \<Rightarrow> ret (answer unit)
       | Some e \<Rightarrow>
           if classifySudoError out then throw SudoRefused
           else throw (CommandFailed (''systemctl '' @ verb @ '' '' @ unit) e out))))"

definition unit_answer :: "string \<Rightarrow> string \<Rightarrow> json" where
  "unit_answer action unit = JObj [(''unit'', JStr unit), (''action'', JStr action)]"

definition handleSystemdStart :: "env \<Rightarrow> sudo_mode \<Rightarrow> herror + string \<Rightarrow> (herror, json) act" where
  "handleSystemdStart env mode = change_unit env mode ''start'' (unit_answer ''started'')"

definition handleSystemdStop :: "env \<Rightarrow> sudo_mode \<Rightarrow> herror + string \<Rightarrow> (herror, json) act" where
  "handleSystemdStop env mode = change_unit env mode ''stop'' (unit_answer ''stopped'')"

definition handleSystemdRestart :: "env \<Rightarrow> sudo_mode \<Rightarrow> herror + string \<Rightarrow> (herror, json) act" where
  "handleSystemdRestart env mode =
     change_unit env mode ''restart''
       (\<lambda>unit. JObj [(''restarted'', JBool True), (''unit'', JStr unit), (''action'', JStr ''restarted'')])"

definition handleSystemdEnable :: "env \<Rightarrow> sudo_mode \<Rightarrow> herror + string \<Rightarrow> (herror, json) act" where
  "handleSystemdEnable env mode = change_unit env mode ''enable'' (unit_answer ''enabled'')"

definition handleSystemdDisable :: "env \<Rightarrow> sudo_mode \<Rightarrow> herror + string \<Rightarrow> (herror, json) act" where
  "handleSystemdDisable env mode = change_unit env mode ''disable'' (unit_answer ''disabled'')"

definition handleSystemdDaemonReload :: "env \<Rightarrow> sudo_mode \<Rightarrow> (herror, json) act" where
  "handleSystemdDaemonReload env mode =
     abind (lift (systemctlAvailable env)) (\<lambda>_.
     abind (runSystemctlPrivileged env mode [''daemon-reload'']) (\<lambda>(out, err).
       case err of
         None \<Rightarrow> ret (JObj [(''action'', JStr ''daemon_reloaded''), (''output'', JStr out)])
       | Some e \<Rightarrow>
           if classifySudoError out then throw SudoRefused
           else throw (CommandFailed ''systemctl daemon-reload'' e out)))"

subsection \<open>Listing units\<close>

record systemctlUnit =
  su_Unit :: string
  su_Load :: string
  su_Active :: string
  su_Sub :: string
  su_Description :: string

text \<open>The bullet in front of a failed unit is three bytes.\<close>

definition bullet :: string where "bullet = [CHR 0xE2, CHR 0x97, CHR 0x8F]"

definition parsePlainListUnits :: "string \<Rightarrow> systemctlUnit list" where
  "parsePlainListUnits out =
     List.map_filter (\<lambda>line. let line = trim_space line in
         if line = [] \<or> prefix bullet line then None
         else (case fields_of line of
                 u # l # a # s # desc \<Rightarrow>
                   Some \<lparr>su_Unit = u, su_Load = l, su_Active = a, su_Sub = s, su_Description = join '' '' desc\<rparr>
               | _ \<Rightarrow> None))
       (split_on (CHR 0x0A) out)"

text \<open>What the agent remembers of whether systemctl prints JSON: probed once.\<close>

record systemd_state =
  sd_probed :: bool
  sd_JSON :: bool
  sd_advertised :: bool     \<comment> \<open>\<open>capabilities.SystemdJSON\<close>\<close>

definition detectSystemctlJSON :: "env \<Rightarrow> systemd_state \<Rightarrow> (herror, systemd_state) act" where
  "detectSystemctlJSON env st =
     (if sd_probed st then ret st
      else abind (run env (Run ''systemctl'' [''list-units'', ''--no-legend'', ''--no-pager'', ''--output=json'', ''--type=service'']))
             (\<lambda>r. let ok = (rr_err r = None) in ret (st\<lparr>sd_probed := True, sd_JSON := ok, sd_advertised := ok\<rparr>)))"

record list_params =
  lp_State :: string
  lp_Type :: string

definition list_args :: "list_params \<Rightarrow> string \<Rightarrow> string list" where
  "list_args p ty =
     [''list-units'', ''--all'', ''--no-legend'', ''--no-pager'', ''--type='' @ ty] @
     (if lp_State p \<noteq> [] then [''--state='' @ lp_State p] else [])"

definition list_plain :: "env \<Rightarrow> sudo_mode \<Rightarrow> string list \<Rightarrow> 's \<Rightarrow> (herror, (systemctlUnit list \<times> string) \<times> 's) act" where
  "list_plain env mode args st =
     abind (runSystemctlPrivileged env mode args) (\<lambda>(out, err).
       case err of
         None \<Rightarrow> ret ((parsePlainListUnits out, ''plain''), st)
       | Some e \<Rightarrow>
           if classifySudoError out then throw SudoRefused
           else throw (CommandFailed ''systemctl list-units'' e (truncate_out out 1024)))"

text \<open>Parameters that do not decode leave the zero values, or what was decoded before the error.\<close>

definition handleSystemdListUnits :: "env \<Rightarrow> sudo_mode \<Rightarrow> (string \<Rightarrow> systemctlUnit list option) \<Rightarrow> systemd_state \<Rightarrow> list_params \<Rightarrow>
    (herror, (systemctlUnit list \<times> string) \<times> systemd_state) act" where
  "handleSystemdListUnits env mode decode st p =
     abind (lift (systemctlAvailable env)) (\<lambda>_.
       let ty = (if lp_Type p = [] then ''service'' else lp_Type p); args = list_args p ty in
     abind (lift (validateUnitName ty)) (\<lambda>_.
     abind (lift (if lp_State p \<noteq> [] then validateUnitName (lp_State p) else Inr ())) (\<lambda>_.
     abind (detectSystemctlJSON env st) (\<lambda>st.
       let off = st\<lparr>sd_JSON := False, sd_advertised := False\<rparr> in
       if \<not> sd_JSON st then list_plain env mode args st
       else abind (attempt (runSystemctlPrivileged env mode (args @ [''--output=json'']))) (\<lambda>res.
         case res of
           Inl _ \<Rightarrow> list_plain env mode args off
         | Inr (out, err) \<Rightarrow>
             (case (if err = None then decode out else None) of
                Some units \<Rightarrow> ret ((units, ''json''), st)
              | None \<Rightarrow> list_plain env mode args off))))))"

subsection \<open>The journal\<close>

record log_entry =
  le_Time :: string
  le_Priority :: string
  le_PID :: string
  le_Message :: string

record log_params =
  lg_Unit :: string
  lg_Lines :: int

definition log_lines :: "int \<Rightarrow> int" where
  "log_lines n = (let n = (if n \<le> 0 then 200 else n) in if 5000 < n then 5000 else n)"

definition journal_entries :: "(string \<Rightarrow> log_entry option) \<Rightarrow> string \<Rightarrow> log_entry list" where
  "journal_entries decode out =
     List.map_filter decode (filter (\<lambda>l. l \<noteq> []) (map trim_space (split_on (CHR 0x0A) out)))"

definition handleSystemdLogs :: "env \<Rightarrow> sudo_mode \<Rightarrow> (string \<Rightarrow> log_entry option) \<Rightarrow> herror + log_params \<Rightarrow>
    (herror, string \<times> int \<times> log_entry list) act" where
  "handleSystemdLogs env mode decode params =
     abind (lift (systemctlAvailable env)) (\<lambda>_.
     abind (lift params) (\<lambda>p.
     abind (lift (validateUnitName (lg_Unit p))) (\<lambda>_.
       let n = log_lines (lg_Lines p) in
     abind (guard (env_path env ''journalctl'') (Refused ''journalctl not on PATH'')) (\<lambda>_.
     abind (lift (sudoCommandContext mode (Run ''journalctl'' [''-u'', lg_Unit p, ''--no-pager'', ''-n'', itoa n, ''-o'', ''json'']))) (\<lambda>c.
     abind (run env c) (\<lambda>r.
       case rr_err r of
         Some e \<Rightarrow>
           if classifySudoError (rr_out r) then throw SudoRefused
           else throw (CommandFailed (''journalctl -u '' @ lg_Unit p) e (truncate_out (rr_out r) 1024))
       | None \<Rightarrow> ret (lg_Unit p, n, journal_entries decode (rr_out r))))))))"

text \<open>
  Following the journal: a job that is over after an hour at the latest. \<open>deadline\<close> says whether that
  hour has passed when the command is reaped.
\<close>

definition runSystemdLogsFollowJob :: "env \<Rightarrow> start \<Rightarrow> sudo_mode \<Rightarrow> bool \<Rightarrow> string \<Rightarrow> trace \<Rightarrow> event list \<times> trace" where
  "runSystemdLogsFollowJob env start mode deadline unit t =
     (let extra = [(''unit'', JStr unit)];
          announce = message_event PhaseStart (''following journal for '' @ unit)
      in case sudoCommandContext mode (Run ''journalctl'' [''-fu'', unit, ''--no-pager'', ''-o'', ''short-iso'']) of
           Inl _ \<Rightarrow> ([done_event (-1) sudo_required extra], t)
         | Inr c \<Rightarrow>
             (case streamCmdOutput env start c t of
                (None, t') \<Rightarrow> ([announce, done_event (-1) ''command could not be started'' extra], t')
              | (Some (logs, None), t') \<Rightarrow> (announce # logs @ [done_event 0 [] extra], t')
              | (Some (logs, Some e), t') \<Rightarrow>
                  (announce # logs @ [done_event (exitCodeOf e) (if deadline then [] else error_string e) extra], t')))"

definition handleSystemdLogsFollow :: "env \<Rightarrow> start \<Rightarrow> sudo_mode \<Rightarrow> bool \<Rightarrow> string \<Rightarrow> registry \<Rightarrow> herror + string \<Rightarrow>
    (herror, json \<times> registry \<times> job_body) act" where
  "handleSystemdLogsFollow env start mode deadline i reg params =
     abind (lift (systemctlAvailable env)) (\<lambda>_.
     abind (lift (parseUnitParam params)) (\<lambda>unit.
     abind (guard (env_path env ''journalctl'') (Refused ''journalctl not on PATH'')) (\<lambda>_.
       let (j, reg) = New i 500 reg
       in ret (JObj [(''job_id'', JStr (job_ID j)), (''channel'', JStr (job_Channel j)), (''unit'', JStr unit)], reg,
               runSystemdLogsFollowJob env start mode deadline unit))))"

lemma follow_ends: "ends_done (fst (runSystemdLogsFollowJob env start mode deadline unit t))"
  unfolding runSystemdLogsFollowJob_def Let_def
  by (auto split: sum.splits prod.splits option.splits dest: stream_not_done)

interpretation follow_job: job_task "runSystemdLogsFollowJob env start mode deadline unit"
  for env start mode deadline unit
  by unfold_locales (rule follow_ends)

subsection \<open>What the panel can make these handlers run\<close>

text \<open>
  The entries of the agent's handler table, with what is left of each result: the body of the job it
  starts, if it starts one. The decoders, the job's id and the registry are the handlers' parameters.
\<close>

definition no_job :: "(herror, 'a) act \<Rightarrow> (herror, job_body option) act" where
  "no_job m = abind m (\<lambda>_. ret None)"

definition with_job :: "(herror, json \<times> registry \<times> job_body) act \<Rightarrow> (herror, job_body option) act" where
  "with_job m = abind m (\<lambda>(j, reg, body). ret (Some body))"

record panel_request =
  rq_package :: "herror + package_params"
  rq_unit :: "herror + string"
  rq_list :: list_params
  rq_log :: "herror + log_params"
  rq_job_id :: string
  rq_registry :: registry
  rq_start :: start
  rq_deadline :: bool
  rq_systemd :: systemd_state
  rq_units :: "string \<Rightarrow> systemctlUnit list option"
  rq_entry :: "string \<Rightarrow> log_entry option"

definition package_actions :: "env \<Rightarrow> sudo_mode \<Rightarrow> panel_request \<Rightarrow> (string \<times> (herror, job_body option) act) list" where
  "package_actions env mode q =
     [(''packages:install'', no_job (handlePackagesInstall env (rq_package q))),
      (''packages:remove'', no_job (handlePackagesRemove env (rq_package q))),
      (''packages:list_installed'', no_job (handlePackagesListInstalled env)),
      (''packages:update_cache'', no_job (handlePackagesUpdateCache env mode)),
      (''packages:search'', no_job (handlePackagesSearch env (rq_package q))),
      (''packages:info'', no_job (handlePackagesInfo env (rq_package q))),
      (''packages:install_async'',
        with_job (handlePackagesInstallAsync env (rq_start q) mode (rq_job_id q) (rq_registry q) (rq_package q))),
      (''packages:upgrade'',
        with_job (handlePackagesUpgrade env (rq_start q) mode (rq_job_id q) (rq_registry q) (rq_package q)))]"

definition systemd_actions :: "env \<Rightarrow> sudo_mode \<Rightarrow> panel_request \<Rightarrow> (string \<times> (herror, job_body option) act) list" where
  "systemd_actions env mode q =
     [(''systemd:status'', no_job (handleSystemdStatus env (rq_unit q))),
      (''systemd:start'', no_job (handleSystemdStart env mode (rq_unit q))),
      (''systemd:stop'', no_job (handleSystemdStop env mode (rq_unit q))),
      (''systemd:restart'', no_job (handleSystemdRestart env mode (rq_unit q))),
      (''systemd:enable'', no_job (handleSystemdEnable env mode (rq_unit q))),
      (''systemd:disable'', no_job (handleSystemdDisable env mode (rq_unit q))),
      (''systemd:daemon_reload'', no_job (handleSystemdDaemonReload env mode)),
      (''systemd:list_units'', no_job (handleSystemdListUnits env mode (rq_units q) (rq_systemd q) (rq_list q))),
      (''systemd:logs'', no_job (handleSystemdLogs env mode (rq_entry q) (rq_log q))),
      (''systemd:logs_follow'',
        with_job (handleSystemdLogsFollow env (rq_start q) mode (rq_deadline q) (rq_job_id q) (rq_registry q) (rq_unit q)))]"

definition word_ok :: "string \<Rightarrow> bool" where
  "word_ok a \<longleftrightarrow> trim_space a \<noteq> [] \<and> set (trim_space a) \<inter> set package_meta = {}"

definition arg_ok :: "string \<Rightarrow> bool" where
  "arg_ok a \<longleftrightarrow> a = list_format \<or> a = status_format \<or> word_ok a \<or>
     (\<exists>x. word_ok x \<and> (a = ''--type='' @ x \<or> a = ''--state='' @ x))"

definition tools :: "string list" where
  "tools = map pm_bin candidates @ [''dpkg-query'', ''rpm'', ''apt-cache'', ''systemctl'', ''journalctl'']"

definition tool_cmd :: "cmd \<Rightarrow> bool" where
  "tool_cmd c \<longleftrightarrow> (\<exists>n as. (c = Run n as \<or> c = sudo_wrap (Run n as)) \<and> n \<in> set tools \<and> list_all arg_ok as)"

lemma tool_cmd_Run: "n \<in> set tools \<Longrightarrow> list_all arg_ok as \<Longrightarrow> tool_cmd (Run n as)"
  unfolding tool_cmd_def by blast

lemma tool_cmd_wrapped: "sudoCommandContext mode c = Inr c' \<Longrightarrow> c = Run n as \<Longrightarrow> n \<in> set tools \<Longrightarrow> list_all arg_ok as \<Longrightarrow> tool_cmd c'"
  unfolding tool_cmd_def by (cases mode) auto

lemma word_ok_package: "validatePackageName a = Inr () \<Longrightarrow> word_ok a"
  by (auto simp: validatePackageName_def word_ok_def contains_any_iff Let_def split: if_splits)

lemma word_ok_unit: "validateUnitName a = Inr () \<Longrightarrow> word_ok a"
  by (auto simp: validateUnitName_def word_ok_def contains_any_iff Let_def split: if_splits)

lemma arg_ok_word: "word_ok a \<Longrightarrow> arg_ok a"
  by (simp add: arg_ok_def)

subsection \<open>Rules for the commands of a handler\<close>

lemma emits_step:
  "(\<And>x. r = Inr x \<Longrightarrow> emits P Q (f x)) \<Longrightarrow> emits P Q (abind (lift r) f)"
  "(b \<Longrightarrow> emits P Q (g ())) \<Longrightarrow> emits P Q (abind (guard b e) g)"
  "P c \<Longrightarrow> (\<And>x. emits P Q (h x)) \<Longrightarrow> emits P Q (abind (run env c) h)"
  by (rule emits_bind, rule emits_lift, assumption, blast) (rule emits_bind, rule emits_guard, assumption, blast,
    rule emits_bind, erule emits_run, blast)

lemma emits_any: "emits P (\<lambda>_. True) m \<Longrightarrow> (\<And>x. emits P Q (f x)) \<Longrightarrow> emits P Q (abind m f)"
  by (rule emits_bind [where R = "\<lambda>_. True"])

lemma emits_same:
  "emits P Q m \<Longrightarrow> (\<And>x. Q x \<Longrightarrow> emits P S (f x)) \<Longrightarrow> emits P S (abind m f)"
  by (rule emits_bind)

abbreviation tool_only :: "('e, 'a) act \<Rightarrow> bool" where
  "tool_only m \<equiv> emits tool_cmd (\<lambda>_. True) m"

lemma args_ok_words: "list_all word_ok as \<Longrightarrow> list_all arg_ok as"
  by (simp add: list_all_iff arg_ok_word)

lemma in_tools [simp]:
  "''dpkg-query'' \<in> set tools" "''rpm'' \<in> set tools" "''apt-cache'' \<in> set tools" "''systemctl'' \<in> set tools"
  "''journalctl'' \<in> set tools" "''apk'' \<in> set tools" "''pacman'' \<in> set tools"
  by (simp_all add: tools_def candidates_def)

lemma bin_in_tools: "pm \<in> set candidates \<Longrightarrow> pm_bin pm \<in> set tools"
  by (simp add: tools_def)

lemma extended_bin: "extendedFor pm = Some ext \<Longrightarrow> ext_bin ext = pm_bin pm"
  by (auto simp: extendedFor_def split: if_splits)

lemma fixed_words:
  "list_all word_ok [''install'', ''-y'', ''remove'', ''list'', ''installed'', ''add'', ''del'', ''info'', ''-S'', ''--noconfirm'', ''-R'', ''-Q'',
     ''se'', ''--installed-only'', ''-W'', ''-q'', ''-e'']"
  "list_all word_ok [''update'', ''upgrade'', ''-o'', confold, ''--only-upgrade'', ''search'', ''show'', ''check-update'', ''-v'', ''-Sy'',
     ''-Syu'', ''-Ss'', ''-Si'', ''refresh'']"
  "list_all word_ok [''is-active'', ''is-enabled'', ''start'', ''stop'', ''restart'', ''enable'', ''disable'', ''daemon-reload'', ''list-units'',
     ''--all'', ''--no-legend'', ''--no-pager'', ''--output=json'', ''--type=service'', ''-u'', ''-n'', ''json'', ''-fu'', ''short-iso'']"
  by code_simp+

lemmas fixed_simps [simp] = fixed_words [unfolded list.pred_inject]

lemma arg_ok_formats [simp]: "arg_ok list_format" "arg_ok status_format"
  by (simp_all add: arg_ok_def)

lemma manager_args:
  assumes "pm \<in> set candidates"
  shows "list_all arg_ok (pm_install pm)" "list_all arg_ok (pm_remove pm)" "list_all arg_ok (pm_list pm)"
  using assms arg_ok_word by (auto simp: candidates_def arg_ok_word)

lemma manager_list_bin: "pm \<in> set candidates \<Longrightarrow> fst (listCommand pm) \<in> set tools \<and> list_all arg_ok (snd (listCommand pm))"
  using manager_args(3) [of pm] by (auto simp: candidates_def listCommand_def tools_def)

lemma extended_args:
  assumes "extendedFor pm = Some ext"
  shows "list_all arg_ok (ext_updateCache ext)" "list_all arg_ok (ext_upgradeAll ext)" "list_all arg_ok (ext_upgradePkg ext)"
    "list_all arg_ok (ext_searchCmd ext)" "list_all arg_ok (ext_infoCmd ext)"
  using assms arg_ok_word by (auto simp: extendedFor_def arg_ok_word split: if_splits)

lemma emits_isInstalled: "word_ok nm \<Longrightarrow> tool_only (isInstalled env pm nm :: ('e, bool) act)"
  unfolding isInstalled_def
  by (auto intro!: emits_rules emits_step tool_cmd_Run split: option.split
      simp: query_cmd_def arg_ok_word split: if_splits)

lemma emits_manager_call:
  "bin \<in> set tools \<Longrightarrow> list_all arg_ok args \<Longrightarrow> tool_only (manager_call env bin args)"
  unfolding manager_call_def by (auto intro!: emits_rules emits_step tool_cmd_Run split: option.split)

lemma extended_Inr: "extended pm = Inr ext \<Longrightarrow> extendedFor pm = Some ext \<and> ext_bin ext = pm_bin pm"
  by (auto simp: extended_def dest: extended_bin split: option.splits)

lemmas tool_rules = emits_any [OF emits_isInstalled] emits_any [OF emits_manager_call] emits_step emits_rules tool_cmd_Run

lemmas tool_dests = detect_candidate word_ok_package word_ok_unit extended_Inr

lemmas tool_args = manager_args extended_args bin_in_tools arg_ok_word

lemma package_handlers_tool_only:
  "tool_only (handlePackagesInstall env params)" "tool_only (handlePackagesRemove env params)"
  "tool_only (handlePackagesListInstalled env)" "tool_only (handlePackagesUpdateCache env mode)"
  "tool_only (handlePackagesSearch env params)" "tool_only (handlePackagesInfo env params)"
proof -
  show "tool_only (handlePackagesInstall env params)" "tool_only (handlePackagesRemove env params)"
    unfolding handlePackagesInstall_def handlePackagesRemove_def Let_def
    by (auto intro!: tool_rules dest!: tool_dests simp: tool_args)
  show "tool_only (handlePackagesListInstalled env)"
    unfolding handlePackagesListInstalled_def case_prod_beta Let_def
    by (auto intro!: tool_rules dest!: tool_dests simp: manager_list_bin)
  show "tool_only (handlePackagesUpdateCache env mode)"
    unfolding handlePackagesUpdateCache_def Let_def
    by (auto intro!: tool_rules tool_cmd_wrapped dest!: tool_dests simp: tool_args)
  show "tool_only (handlePackagesSearch env params)" "tool_only (handlePackagesInfo env params)"
    unfolding handlePackagesSearch_def handlePackagesInfo_def Let_def
    by (auto intro!: tool_rules dest!: tool_dests simp: tool_args)
qed

lemma emits_privileged_systemctl:
  "list_all arg_ok args \<Longrightarrow> tool_only (runSystemctlPrivileged env mode args)"
  unfolding runSystemctlPrivileged_def by (auto intro!: tool_rules tool_cmd_wrapped)

lemma emits_systemctl: "list_all arg_ok args \<Longrightarrow> tool_only (runSystemctl env args)"
  unfolding runSystemctl_def by (auto intro!: tool_rules)

lemma emits_detectJSON: "tool_only (detectSystemctlJSON env st)"
  unfolding detectSystemctlJSON_def Let_def by (auto intro!: tool_rules simp: arg_ok_word)

lemma emits_attempted: "tool_only m \<Longrightarrow> (\<And>x. emits tool_cmd Q (f x)) \<Longrightarrow> emits tool_cmd Q (abind (attempt m) f)"
  by (rule emits_bind, erule emits_attempt) blast

lemmas unit_rules = emits_any [OF emits_privileged_systemctl] emits_any [OF emits_systemctl] emits_any [OF emits_detectJSON]
  emits_attempted emits_privileged_systemctl tool_rules

lemma parseUnitParam_Inr: "parseUnitParam params = Inr unit \<Longrightarrow> word_ok unit"
  by (auto simp: parseUnitParam_def rbind_Inr_iff dest: word_ok_unit)

lemma emits_change_unit: "word_ok verb \<Longrightarrow> tool_only (change_unit env mode verb answer params)"
  unfolding change_unit_def
  by (auto intro!: unit_rules dest!: parseUnitParam_Inr simp: arg_ok_word split: prod.split)

lemma meta_not_digit: "list_all (\<lambda>c. \<not> is_digit c) package_meta"
  by code_simp

lemma word_ok_lines: "word_ok (itoa (log_lines n))"
proof -
  have "0 \<le> log_lines n" by (simp add: log_lines_def Let_def)
  then have i: "itoa (log_lines n) = show_nat (nat (log_lines n))" by (simp add: itoa_def)
  have "trim_space (show_nat k) = show_nat k" for k
    by (intro nospace_trim nospace_digits) (simp add: show_nat_digits)
  then show ?thesis
    using meta_not_digit show_nat_digits unfolding word_ok_def i by (auto simp: list_all_iff)
qed

lemma list_args_ok:
  "word_ok ty \<Longrightarrow> lp_State p \<noteq> [] \<longrightarrow> word_ok (lp_State p) \<Longrightarrow> list_all arg_ok (list_args p ty)"
  unfolding list_args_def by (auto simp: arg_ok_word) (auto simp: arg_ok_def)

lemma emits_list_plain: "list_all arg_ok args \<Longrightarrow> tool_only (list_plain env mode args st)"
  unfolding list_plain_def by (auto intro!: unit_rules split: prod.split)

lemma unit_handlers_tool_only:
  "tool_only (handleSystemdStatus env params)" "tool_only (handleSystemdDaemonReload env mode)"
  "tool_only (handleSystemdListUnits env mode decode st lp)" "tool_only (handleSystemdLogs env mode entry lg)"
proof -
  show "tool_only (handleSystemdStatus env params)"
    unfolding handleSystemdStatus_def
    by (auto intro!: unit_rules dest!: parseUnitParam_Inr simp: arg_ok_word)
  show "tool_only (handleSystemdDaemonReload env mode)"
    unfolding handleSystemdDaemonReload_def
    by (auto intro!: unit_rules simp: arg_ok_word split: prod.split)
  show "tool_only (handleSystemdLogs env mode entry lg)"
    unfolding handleSystemdLogs_def Let_def
    by (auto intro!: unit_rules tool_cmd_wrapped dest!: tool_dests simp: arg_ok_word word_ok_lines)
  show "tool_only (handleSystemdListUnits env mode decode st lp)"
    unfolding handleSystemdListUnits_def Let_def
    by (auto intro!: unit_rules emits_list_plain list_args_ok dest!: tool_dests simp: arg_ok_word
        split: prod.split if_splits)
qed

text \<open>The bodies of the jobs.\<close>

definition tool_body :: "(trace \<Rightarrow> 'a \<times> trace) \<Rightarrow> bool" where
  "tool_body body \<longleftrightarrow> (\<forall>s. \<exists>cs. snd (body s) = s @ cs \<and> list_all tool_cmd cs)"

lemma run_on_job_tools:
  assumes "n \<in> set tools" "list_all arg_ok as"
  shows "tool_body (run_on_job env start mode (Run n as) announce)"
  unfolding tool_body_def
proof
  fix t
  show "\<exists>cs. snd (run_on_job env start mode (Run n as) announce t) = t @ cs \<and> list_all tool_cmd cs"
  proof (cases "sudoCommandContext mode (Run n as)")
    case (Inr c)
    then show ?thesis
      using tool_cmd_wrapped [OF Inr refl assms]
      by (auto simp: run_on_job_def streamCmdOutput_def split: option.splits)
  qed (simp add: run_on_job_def)
qed

lemma probe_tools:
  "pm \<in> set candidates \<Longrightarrow> list_all word_ok ns \<Longrightarrow> tool_body (probe env pm ns)"
  unfolding tool_body_def
proof
  fix t
  assume a: "pm \<in> set candidates" "list_all word_ok ns"
  have "snd (probe env pm ns t) = t @ map (query_of pm) ns"
    using probe_spec [OF a(1), of env ns t] by auto
  moreover have "tool_cmd (query_of pm n)" if n: "word_ok n" for n
  proof -
    have "\<exists>cs. snd (isInstalled env pm n [] :: (unit + bool) \<times> trace) = [] @ cs \<and> list_all tool_cmd cs"
      using emits_isInstalled [OF n, of env pm, where 'e = unit] unfolding emits_def by blast
    then show ?thesis using isInstalled_trace [OF a(1), of env n "[]", where 'a = unit] by simp
  qed
  ultimately show "\<exists>cs. snd (probe env pm ns t) = t @ cs \<and> list_all tool_cmd cs"
    using a(2) by (auto simp: list_all_iff)
qed

lemma tool_body_elim: "tool_body body \<Longrightarrow> body s = (r, s') \<Longrightarrow> \<exists>cs. s' = s @ cs \<and> list_all tool_cmd cs"
  unfolding tool_body_def by (metis snd_conv)

lemma missing_subset: "set (missing env pm t ns) \<subseteq> set ns"
  by (induction ns arbitrary: t) auto

lemma install_body:
  assumes "pm \<in> set candidates" "list_all word_ok ns"
  shows "tool_body (runPackageInstallJob env start mode pm ns)"
  unfolding tool_body_def
proof
  fix t
  obtain present where p: "probe env pm ns t = ((missing env pm t ns, present), t @ map (query_of pm) ns)"
    using probe_spec [OF assms(1)] by blast
  obtain logs r t2 where j: "run_on_job env start mode (Run (pm_bin pm) (pm_install pm @ missing env pm t ns)) []
      (t @ map (query_of pm) ns) = ((logs, r), t2)"
    by (metis prod.collapse)
  have q: "\<exists>cs. t @ map (query_of pm) ns = t @ cs \<and> list_all tool_cmd cs"
    using tool_body_elim [OF probe_tools [OF assms] p] by simp
  have "list_all arg_ok (pm_install pm @ missing env pm t ns)"
    using manager_args(1) [OF assms(1)] assms(2) missing_subset [of env pm t ns] by (auto simp: list_all_iff arg_ok_word)
  then have "\<exists>cs. t2 = (t @ map (query_of pm) ns) @ cs \<and> list_all tool_cmd cs"
    using tool_body_elim [OF run_on_job_tools [OF bin_in_tools [OF assms(1)]] j] by simp
  moreover have "snd (runPackageInstallJob env start mode pm ns t) \<in> {t @ map (query_of pm) ns, t2}"
    using install_shape [OF p j] by (auto split: if_splits option.splits)
  ultimately show "\<exists>cs. snd (runPackageInstallJob env start mode pm ns t) = t @ cs \<and> list_all tool_cmd cs"
    using q by (fastforce simp: list_all_append)
qed

lemma stream_tools:
  "sudoCommandContext mode (Run n as) = Inr c \<Longrightarrow> n \<in> set tools \<Longrightarrow> list_all arg_ok as \<Longrightarrow>
     streamCmdOutput env start c t = (r, t') \<Longrightarrow> \<exists>cs. t' = t @ cs \<and> list_all tool_cmd cs"
  using tool_cmd_wrapped [of mode "Run n as" c n as] by (auto simp: streamCmdOutput_def split: option.splits)

lemma run_upgrade_body:
  assumes "ext_bin ext \<in> set tools" "extendedFor pm = Some ext" "list_all word_ok ns"
  shows "tool_body (run_upgrade env start mode ext ns all extra)"
proof -
  let ?args = "if all then ext_upgradeAll ext else ext_upgradePkg ext @ ns"
  have "list_all arg_ok ?args"
    using extended_args [OF assms(2)] assms(3) by (auto simp: list_all_iff arg_ok_word)
  from run_on_job_tools [OF assms(1) this] show ?thesis
    unfolding tool_body_def run_upgrade_def Let_def report_trace by blast
qed

lemma upgrade_body:
  assumes "pm \<in> set candidates" "extendedFor pm = Some ext" "list_all word_ok ns"
  shows "tool_body (runPackageUpgradeJob env start mode pm ext ns all)"
proof -
  have b: "ext_bin ext \<in> set tools" using extended_bin [OF assms(2)] bin_in_tools [OF assms(1)] by simp
  note up = run_upgrade_body [OF b assms(2,3), of env start mode all "upgrade_extra pm all"]
  show ?thesis
    unfolding tool_body_def
  proof
    fix t
    show "\<exists>cs. snd (runPackageUpgradeJob env start mode pm ext ns all t) = t @ cs \<and> list_all tool_cmd cs"
    proof (cases "sudoCommandContext mode (Run (ext_bin ext) (ext_updateCache ext))")
      case (Inl x)
      then show ?thesis
        using up unfolding runPackageUpgradeJob_def Let_def tool_body_def by (cases "pm_bin pm = ''apt-get''") auto
    next
      case (Inr c)
      obtain r t1 where s: "streamCmdOutput env start c t = (r, t1)" by (metis prod.collapse)
      obtain cs where cs: "t1 = t @ cs" "list_all tool_cmd cs"
        using stream_tools [OF Inr b extended_args(1) [OF assms(2)] s] by blast
      obtain evs t2 where u: "run_upgrade env start mode ext ns all (upgrade_extra pm all) t1 = (evs, t2)" by (metis prod.collapse)
      obtain ds where ds: "t2 = t1 @ ds" "list_all tool_cmd ds" using tool_body_elim [OF up u] by blast
      have "snd (runPackageUpgradeJob env start mode pm ext ns all t) \<in>
          {t1, t2, snd (run_upgrade env start mode ext ns all (upgrade_extra pm all) t)}"
        unfolding runPackageUpgradeJob_def Let_def Inr sum.case s by (cases r) (auto simp: u)
      then show ?thesis
        using cs ds up unfolding tool_body_def by (elim insertE emptyE) (auto intro: exI [of _ "cs @ ds"])
    qed
  qed
qed

lemma follow_body: "word_ok unit \<Longrightarrow> tool_body (runSystemdLogsFollowJob env start mode deadline unit)"
  unfolding tool_body_def
proof
  fix t
  assume u: "word_ok unit"
  let ?args = "[''-fu'', unit, ''--no-pager'', ''-o'', ''short-iso'']"
  show "\<exists>cs. snd (runSystemdLogsFollowJob env start mode deadline unit t) = t @ cs \<and> list_all tool_cmd cs"
  proof (cases "sudoCommandContext mode (Run ''journalctl'' ?args)")
    case (Inl x)
    then show ?thesis by (simp add: runSystemdLogsFollowJob_def Let_def)
  next
    case (Inr c)
    obtain r t1 where s: "streamCmdOutput env start c t = (r, t1)" by (metis prod.collapse)
    have "snd (runSystemdLogsFollowJob env start mode deadline unit t) = t1"
      unfolding runSystemdLogsFollowJob_def Let_def Inr sum.case s
      by (auto split: option.split prod.split)
    then show ?thesis using stream_tools [OF Inr _ _ s] u by (auto simp: arg_ok_word)
  qed
qed

subsection \<open>The confinement theorem\<close>

definition job_ok :: "job_body option \<Rightarrow> bool" where
  "job_ok b \<longleftrightarrow> (\<forall>body. b = Some body \<longrightarrow> tool_body body \<and> (\<forall>s. ends_done (fst (body s))))"

lemma no_job_ok: "tool_only m \<Longrightarrow> emits tool_cmd job_ok (no_job m)"
  unfolding no_job_def by (rule emits_any) (auto intro: emits_rules simp: job_ok_def)

lemma with_job_ok:
  "emits tool_cmd (\<lambda>(j, reg, body). job_ok (Some body)) m \<Longrightarrow> emits tool_cmd job_ok (with_job m)"
  unfolding with_job_def by (erule emits_bind) (auto intro: emits_rules)

lemma validate_all_ok: "validate_all ns = Inr () \<Longrightarrow> list_all word_ok ns"
  by (induction ns) (auto simp: rbind_Inr_iff word_ok_package)

lemma normalize_ok: "normalize p = Inr ns \<Longrightarrow> list_all word_ok ns"
  by (auto simp: normalize_def rbind_Inr_iff dest: validate_all_ok)

lemma async_handlers_ok:
  "emits tool_cmd (\<lambda>(j, reg, body). job_ok (Some body)) (handlePackagesInstallAsync env start mode i reg params)"
  "emits tool_cmd (\<lambda>(j, reg, body). job_ok (Some body)) (handlePackagesUpgrade env start mode i reg params)"
  "emits tool_cmd (\<lambda>(j, reg, body). job_ok (Some body)) (handleSystemdLogsFollow env start mode deadline i reg unit)"
proof -
  show "emits tool_cmd (\<lambda>(j, reg, body). job_ok (Some body)) (handlePackagesInstallAsync env start mode i reg params)"
    unfolding handlePackagesInstallAsync_def case_prod_beta Let_def
    by (auto intro!: emits_step emits_ret dest!: tool_dests normalize_ok
        simp: job_ok_def install_body install_job.body_ends)
  show "emits tool_cmd (\<lambda>(j, reg, body). job_ok (Some body)) (handlePackagesUpgrade env start mode i reg params)"
    unfolding handlePackagesUpgrade_def case_prod_beta Let_def
    by (auto intro!: emits_step emits_ret dest!: tool_dests normalize_ok
        simp: job_ok_def upgrade_body upgrade_job.body_ends)
  show "emits tool_cmd (\<lambda>(j, reg, body). job_ok (Some body)) (handleSystemdLogsFollow env start mode deadline i reg unit)"
    unfolding handleSystemdLogsFollow_def case_prod_beta Let_def
    by (auto intro!: emits_step emits_ret dest!: parseUnitParam_Inr
        simp: job_ok_def follow_body follow_job.body_ends)
qed

lemma actions_ok:
  assumes "(action, h) \<in> set (package_actions env mode q @ systemd_actions env mode q)"
  shows "emits tool_cmd job_ok h"
proof -
  note change = emits_change_unit [THEN no_job_ok]
  note hs = package_handlers_tool_only [THEN no_job_ok] unit_handlers_tool_only [THEN no_job_ok] async_handlers_ok [THEN with_job_ok]
  have cs: "emits tool_cmd job_ok (no_job (handleSystemdStart env mode (rq_unit q)))"
    "emits tool_cmd job_ok (no_job (handleSystemdStop env mode (rq_unit q)))"
    "emits tool_cmd job_ok (no_job (handleSystemdRestart env mode (rq_unit q)))"
    "emits tool_cmd job_ok (no_job (handleSystemdEnable env mode (rq_unit q)))"
    "emits tool_cmd job_ok (no_job (handleSystemdDisable env mode (rq_unit q)))"
    unfolding handleSystemdStart_def handleSystemdStop_def handleSystemdRestart_def handleSystemdEnable_def handleSystemdDisable_def
    by (rule change, simp)+
  show ?thesis
    using assms unfolding package_actions_def systemd_actions_def
    by (simp only: append_Cons append_Nil set_simps insert_iff empty_iff prod.inject) (elim disjE conjE FalseE; simp only: hs cs)
qed

text \<open>
  C11. Whatever the panel sends to the package and unit actions, in whatever state: the only programs
  that are started, directly or through sudo, are the package managers, their query tools, systemctl
  and journalctl, none of them through a shell; and but for the two fixed format strings every
  argument is, once trimmed, a non-empty word without a shell metacharacter. The same holds for every
  job these actions start, and each of those reports exactly one done event, as its last.
\<close>

theorem panel_tools_confined:
  assumes "(action, h) \<in> set (package_actions env mode q @ systemd_actions env mode q)" "h t = (r, t')"
  shows "(\<exists>cs. t' = t @ cs \<and> list_all tool_cmd cs) \<and>
    (\<forall>body s evs s'. r = Inr (Some body) \<and> body s = (evs, s') \<longrightarrow>
       (\<exists>cs. s' = s @ cs \<and> list_all tool_cmd cs) \<and> filter is_done evs = [last evs])"
proof -
  obtain cs where "t' = t @ cs \<and> list_all tool_cmd cs"
    using emits_trace [OF actions_ok [OF assms(1)] assms(2)] by blast
  moreover have "job_ok b" if "r = Inr b" for b
    using actions_ok [OF assms(1)] assms(2) that unfolding emits_def by (metis fst_conv)
  ultimately show ?thesis
    unfolding job_ok_def using tool_body_elim ends_done_one by (metis fst_conv)
qed

definition demo_request :: panel_request where
  "demo_request = \<lparr>rq_package = Inr \<lparr>pp_name = ''curl'', pp_names = [], pp_all = False, pp_query = [], pp_limit = 0\<rparr>,
     rq_unit = Inr ''nginx.service'', rq_list = \<lparr>lp_State = [], lp_Type = []\<rparr>,
     rq_log = Inr \<lparr>lg_Unit = ''nginx'', lg_Lines = 0\<rparr>, rq_job_id = ''1'', rq_registry = NewRegistry 0,
     rq_start = (\<lambda>_ _. None), rq_deadline = False,
     rq_systemd = \<lparr>sd_probed = False, sd_JSON = False, sd_advertised = False\<rparr>,
     rq_units = (\<lambda>_. None), rq_entry = (\<lambda>_. None)\<rparr>"

lemma demo_install_trace:
  "snd (no_job (handlePackagesInstall demo_host (rq_package demo_request)) []) =
     [Run ''dpkg-query'' [''-W'', status_format, ''curl''], Run ''apt-get'' [''install'', ''-y'', ''curl'']]"
proof -
  have v: "validatePackageName ''curl'' = Inr ()" by code_simp
  have answers: "env_run demo_host t (Run ''dpkg-query'' [''-W'', status_format, ''curl'']) =
      \<lparr>rr_out = [], rr_stderr = [], rr_err = Some (ExitStatus 1)\<rparr>"
    "env_run demo_host t (Run ''apt-get'' args) = \<lparr>rr_out = ''ok'', rr_stderr = [], rr_err = None\<rparr>" for t args
    by (simp_all add: demo_host_def)
  have pm: "pm_bin (hd candidates) = ''apt-get''" "pm_install (hd candidates) = [''install'', ''-y'']"
      "pm_queryFlag (hd candidates) = ''dpkg''"
    by (simp_all add: candidates_def)
  show ?thesis
    by (simp add: v answers pm demo_detect no_job_def handlePackagesInstall_def manager_call_def isInstalled_def query_cmd_def
        abind_def lift_def ret_def run_def demo_request_def Let_def)
qed

theorem panel_tools_confined_witness:
  "list_all tool_cmd (snd (no_job (handlePackagesInstall demo_host (rq_package demo_request)) [])) \<and>
     length (snd (no_job (handlePackagesInstall demo_host (rq_package demo_request)) [])) = 2"
proof -
  let ?h = "no_job (handlePackagesInstall demo_host (rq_package demo_request))"
  obtain r t' where r: "?h [] = (r, t')" by (metis prod.collapse)
  have "(''packages:install'', ?h) \<in> set (package_actions demo_host SudoRoot demo_request @ systemd_actions demo_host SudoRoot demo_request)"
    by (simp add: package_actions_def)
  from panel_tools_confined [OF this r] show ?thesis using r demo_install_trace by auto
qed

text \<open>
  Neither validator looks at the first character: a name that starts with a dash is an option of the
  program it is handed to, and options of these programs run further programs.
\<close>

lemma option_names_pass:
  "validatePackageName ''-oDPkg::Pre-Invoke::=/tmp/x'' = Inr ()" "validateUnitName ''--host=root@x'' = Inr ()"
  by code_simp+

text \<open>
  And both trim before they look: a name with a line feed in front passes and is handed on as it came.
\<close>

lemma untrimmed_name_passes: "validatePackageName (CHR 0x0A # ''curl'') = Inr ()"
  by code_simp

end
