(* ===== verification/Servicecheck.thy ===== *)
theory Servicecheck
  imports Complex_Main Exec Protocol
begin

text \<open>
  Service checks, \<open>internal/servicecheck/servicecheck.go\<close>: what runs on the host and how it is doing.
  Percentages are rationals; what a connection attempt or a request to a target gives is the
  network's; deadlines are not run down, a timeout is one of the network's answers.
\<close>

subsection \<open>The network, addresses and deadlines\<close>

datatype dial_result = Connected | DialFailed | DialTimeout

datatype http_answer =
    BadURL                        \<comment> \<open>the target does not make a request\<close>
  | HttpFailed string             \<comment> \<open>the scheme; the request failed\<close>
  | HttpTimeout string
  | HttpStatus string int

record network =
  nt_dial :: "string \<Rightarrow> dial_result"
  nt_http :: "string \<Rightarrow> http_answer"

definition JoinHostPort :: "string \<Rightarrow> string \<Rightarrow> string" where
  "JoinHostPort host port = (if CHR '':'' \<in> set host then ''['' @ host @ '']:'' @ port else host @ '':'' @ port)"

text \<open>\<open>net.SplitHostPort\<close>: what is before and after the last colon, with brackets around the host.\<close>

fun last_colon :: "string \<Rightarrow> (string \<times> string) option" where
  "last_colon [] = None"
| "last_colon (c # s) =
     (case last_colon s of
        Some (a, b) \<Rightarrow> Some (c # a, b)
      | None \<Rightarrow> if c = CHR '':'' then Some ([], s) else None)"

lemma last_colon_append: "CHR '':'' \<notin> set b \<Longrightarrow> last_colon (a @ CHR '':'' # b) = Some (a, b)"
proof (induction a)
  case Nil
  then have "last_colon b = None" by (induction b) auto
  then show ?case by simp
qed simp

definition SplitHostPort :: "string \<Rightarrow> (string \<times> string) option" where
  "SplitHostPort hp =
     (case last_colon hp of
        None \<Rightarrow> None
      | Some (before, port) \<Rightarrow>
          (let (host, inner, tail) =
             (if hp \<noteq> [] \<and> hd hp = CHR ''[''
              then (let host = takeWhile (\<lambda>c. c \<noteq> CHR '']'') (tl hp); rest = drop (length host + 1) hp
                    in if rest \<noteq> [] \<and> tl rest = CHR '':'' # port \<and> CHR '':'' \<notin> set port then (Some host, tl hp, tl rest) else (None, [], []))
              else if CHR '':'' \<in> set before then (None, [], []) else (Some before, hp, hp))
           in case host of
                None \<Rightarrow> None
              | Some h \<Rightarrow> if CHR ''['' \<in> set inner \<or> CHR '']'' \<in> set tail then None else Some (h, port)))"

definition second :: int where "second = 1000000000"
definition DefaultTimeout :: int where "DefaultTimeout = 5 * second"
definition minTimeout :: int where "minTimeout = second"
definition maxTimeout :: int where "maxTimeout = 30 * second"

definition clampTimeout :: "int \<Rightarrow> int" where
  "clampTimeout d = (if d \<le> 0 then DefaultTimeout else min (max d minTimeout) maxTimeout)"

text \<open>The deadline of a configured check.\<close>

definition check_timeout :: "int \<Rightarrow> int \<Rightarrow> int" where
  "check_timeout base secs = clampTimeout (if 0 < secs then int64 (secs * second) else base)"

lemma clampTimeout_bounds: "second \<le> clampTimeout d \<and> clampTimeout d \<le> 30 * second"
  by (simp add: clampTimeout_def DefaultTimeout_def minTimeout_def maxTimeout_def second_def)

subsection \<open>Times\<close>

text \<open>
  \<open>Format(time.RFC3339)\<close> of a time in UTC, given in nanoseconds since 1970: the date of a day of the
  proleptic Gregorian calendar, counted from the first of March of year zero.
\<close>

definition civil :: "int \<Rightarrow> int \<times> int \<times> int" where
  "civil days =
     (let z = days + 719468; era = z div 146097; doe = z mod 146097;
          yoe = (doe - doe div 1460 + doe div 36524 - doe div 146096) div 365;
          doy = doe - (365 * yoe + yoe div 4 - yoe div 100);
          mp = (5 * doy + 2) div 153;
          d = doy - (153 * mp + 2) div 5 + 1;
          m = (if mp < 10 then mp + 3 else mp - 9);
          y = yoe + era * 400 + (if m \<le> 2 then 1 else 0)
      in (y, m, d))"

definition pad :: "nat \<Rightarrow> int \<Rightarrow> string" where
  "pad n k = replicate (n - length (itoa k)) (CHR ''0'') @ itoa k"

definition rfc3339 :: "int \<Rightarrow> string" where
  "rfc3339 ns =
     (let s = ns div second; (y, m, d) = civil (s div 86400); t = s mod 86400
      in pad 4 y @ ''-'' @ pad 2 m @ ''-'' @ pad 2 d @ ''T'' @
         pad 2 (t div 3600) @ '':'' @ pad 2 (t div 60 mod 60) @ '':'' @ pad 2 (t mod 60) @ ''Z'')"

lemma rfc3339_examples:
  "rfc3339 0 = ''1970-01-01T00:00:00Z''" "rfc3339 (951827696 * second) = ''2000-02-29T12:34:56Z''"
  "rfc3339 (1767225599 * second + 5) = ''2025-12-31T23:59:59Z''"
  by code_simp+

subsection \<open>Checks\<close>

text \<open>The clock is read once for a run, where the code reads it for each check.\<close>

definition StatusUp :: string where "StatusUp = ''up''"
definition StatusDown :: string where "StatusDown = ''down''"
definition StatusDegraded :: string where "StatusDegraded = ''degraded''"
definition StatusUnknown :: string where "StatusUnknown = ''unknown''"

definition webUnits :: "string list" where "webUnits = [''nginx'', ''apache2'', ''httpd'', ''caddy'']"

definition dbUnits :: "(string \<times> string) list" where
  "dbUnits = [(''mysql'', ''3306''), (''mysqld'', ''3306''), (''mariadb'', ''3306''), (''postgresql'', ''5432'')]"

record monitor_check =
  mc_Name :: string
  mc_Type :: string
  mc_Target :: string
  mc_TimeoutSeconds :: int

definition mk :: "int \<Rightarrow> string \<Rightarrow> string \<Rightarrow> string \<Rightarrow> string \<Rightarrow> service_check" where
  "mk now name kind status detail =
     \<lparr>sc_name = name, sc_kind = kind, sc_status = status, sc_detail = detail, sc_checked_at = rfc3339 now\<rparr>"

text \<open>\<open>%.1f\<close>: rounded to the nearest tenth, a tie to the even one.\<close>

definition round_even :: "rat \<Rightarrow> int" where
  "round_even x =
     (let f = \<lfloor>x\<rfloor>; d = x - of_int f
      in if d < 1 / 2 then f else if 1 / 2 < d then f + 1 else if even f then f else f + 1)"

definition tenths :: "rat \<Rightarrow> string" where
  "tenths x =
     (let n = round_even (\<bar>x\<bar> * 10) in (if x < 0 then ''-'' else []) @ itoa (n div 10) @ ''.'' @ itoa (n mod 10))"

definition threshold :: "int \<Rightarrow> string \<Rightarrow> string \<Rightarrow> rat \<Rightarrow> service_check" where
  "threshold now name kind pct =
     (let detail = tenths pct @ ''% used'' in
      if 98 \<le> pct then mk now name kind StatusDown detail
      else if 90 \<le> pct then mk now name kind StatusDegraded detail
      else mk now name kind StatusUp detail)"

record unitInfo =
  ui_id :: string
  ui_load :: string
  ui_active :: string

fun cut :: "char \<Rightarrow> string \<Rightarrow> (string \<times> string) option" where
  "cut sep [] = None"
| "cut sep (c # s) = (if c = sep then Some ([], s) else map_option (\<lambda>(k, v). (c # k, v)) (cut sep s))"

definition unit_line :: "string \<Rightarrow> unitInfo \<Rightarrow> unitInfo" where
  "unit_line line u =
     (case cut (CHR ''='') (trim_space line) of
        None \<Rightarrow> u
      | Some (k, v) \<Rightarrow>
          if k = ''Id'' then u\<lparr>ui_id := v\<rparr>
          else if k = ''LoadState'' then u\<lparr>ui_load := v\<rparr>
          else if k = ''ActiveState'' then u\<lparr>ui_active := v\<rparr>
          else u)"

definition show_cmd :: "string \<Rightarrow> cmd" where
  "show_cmd unit = Run ''systemctl'' [''show'', unit @ ''.service'', ''-p'', ''Id'', ''-p'', ''LoadState'', ''-p'', ''ActiveState'']"

definition unitState :: "env \<Rightarrow> string \<Rightarrow> ('e, unitInfo option) act" where
  "unitState env unit =
     abind (run env (show_cmd unit)) (\<lambda>r.
       ret (if rr_err r \<noteq> None \<and> rr_out r = [] then None
            else (let u = fold unit_line (split_on (CHR 0x0A) (rr_out r)) \<lparr>ui_id = [], ui_load = [], ui_active = []\<rparr>
                  in if ui_load u = ''loaded'' then Some u else None)))"

definition listening :: "network \<Rightarrow> string \<Rightarrow> bool" where
  "listening nt port \<longleftrightarrow> nt_dial nt (JoinHostPort ''127.0.0.1'' port) = Connected"

fun web_units :: "env \<Rightarrow> bool \<Rightarrow> int \<Rightarrow> string list \<Rightarrow> string list \<Rightarrow> ('e, service_check list) act" where
  "web_units env lis now seen [] = ret []"
| "web_units env lis now seen (unit # units) =
     abind (unitState env unit) (\<lambda>st.
       case st of
         None \<Rightarrow> web_units env lis now seen units
       | Some u \<Rightarrow>
           if ui_id u \<in> set seen then web_units env lis now seen units
           else abind (web_units env lis now (ui_id u # seen) units) (\<lambda>out.
             ret ((if ui_active u = ''active'' then mk now unit ''web'' StatusUp ''systemd unit active''
                   else if lis then mk now unit ''web'' StatusUp (''unit '' @ ui_active u @ '' but listening on 80/443'')
                   else mk now unit ''web'' StatusDown (''systemd unit '' @ ui_active u)) # out)))"

definition web :: "env \<Rightarrow> network \<Rightarrow> int \<Rightarrow> ('e, service_check list) act" where
  "web env nt now =
     (let lis = listening nt ''80'' \<or> listening nt ''443'' in
      abind (web_units env lis now [] webUnits) (\<lambda>out.
        ret (if out = [] \<and> lis then [mk now ''web'' ''web'' StatusUp ''listening on 80/443''] else out)))"

definition parsePHP :: "int \<Rightarrow> string \<Rightarrow> service_check list" where
  "parsePHP now raw =
     List.map_filter (\<lambda>line.
         case fields_of line of
           u # l # a # _ \<Rightarrow>
             if \<not> prefix ''php'' u \<or> \<not> suffix ''-fpm.service'' u \<or> l \<noteq> ''loaded'' then None
             else (let name = trim_suffix u ''.service'' in
                   Some (if a = ''active'' then mk now name ''php_fpm'' StatusUp ''systemd unit active''
                         else mk now name ''php_fpm'' StatusDown (''systemd unit '' @ a)))
         | _ \<Rightarrow> None)
       (split_on (CHR 0x0A) raw)"

definition php_cmd :: cmd where
  "php_cmd = Run ''systemctl'' [''list-units'', ''--type=service'', ''--all'', ''--no-legend'', ''--plain'', ''php*-fpm.service'']"

definition phpFPM :: "env \<Rightarrow> int \<Rightarrow> ('e, service_check list) act" where
  "phpFPM env now =
     abind (run env php_cmd) (\<lambda>r. ret (if rr_err r \<noteq> None \<and> rr_out r = [] then [] else parsePHP now (rr_out r)))"

fun database_units :: "env \<Rightarrow> network \<Rightarrow> int \<Rightarrow> string list \<Rightarrow> (string \<times> string) list \<Rightarrow> ('e, service_check list) act" where
  "database_units env nt now seen [] = ret []"
| "database_units env nt now seen ((unit, port) # units) =
     abind (unitState env unit) (\<lambda>st.
       case st of
         None \<Rightarrow> database_units env nt now seen units
       | Some u \<Rightarrow>
           if ui_id u \<in> set seen then database_units env nt now seen units
           else abind (database_units env nt now (ui_id u # seen) units) (\<lambda>out.
             ret ((if ui_active u \<noteq> ''active'' then mk now unit ''database'' StatusDown (''systemd unit '' @ ui_active u)
                   else if listening nt port
                   then mk now unit ''database'' StatusUp (''unit active, accepting connections on '' @ port)
                   else mk now unit ''database'' StatusDegraded (''unit active but port '' @ port @ '' refused connections'')) # out)))"

definition databases :: "env \<Rightarrow> network \<Rightarrow> int \<Rightarrow> ('e, service_check list) act" where
  "databases env nt now = database_units env nt now [] dbUnits"

subsection \<open>Configured checks\<close>

definition unit_char :: "char \<Rightarrow> bool" where
  "unit_char c \<longleftrightarrow> c \<in> set ''abcdefghijklmnopqrstuvwxyzABCDEFGHIJKLMNOPQRSTUVWXYZ0123456789._@-:''"

definition validUnit :: "string \<Rightarrow> bool" where
  "validUnit s \<longleftrightarrow> s \<noteq> [] \<and> length s \<le> 100 \<and> hd s \<noteq> CHR ''-'' \<and> list_all unit_char s"

definition httpCheck :: "network \<Rightarrow> int \<Rightarrow> string \<Rightarrow> string \<Rightarrow> service_check" where
  "httpCheck nt now name target =
     (let bad = mk now name ''custom'' StatusUnknown (''invalid http target '' @ target);
          http = (\<lambda>sch. sch = ''http'' \<or> sch = ''https'')
      in case nt_http nt target of
           BadURL \<Rightarrow> bad
         | HttpFailed sch \<Rightarrow> if http sch then mk now name ''custom'' StatusDown ''request failed'' else bad
         | HttpTimeout sch \<Rightarrow> if http sch then mk now name ''custom'' StatusDown ''timeout'' else bad
         | HttpStatus sch n \<Rightarrow>
             if \<not> http sch then bad
             else mk now name ''custom'' (if 400 \<le> n then StatusDown else StatusUp) (''HTTP '' @ itoa n))"

definition tcpCheck :: "network \<Rightarrow> int \<Rightarrow> string \<Rightarrow> string \<Rightarrow> service_check" where
  "tcpCheck nt now name target =
     (case SplitHostPort target of
        None \<Rightarrow> mk now name ''custom'' StatusUnknown (''invalid tcp target '' @ target)
      | Some (host, port) \<Rightarrow>
          (case nt_dial nt (JoinHostPort host port) of
             Connected \<Rightarrow> mk now name ''custom'' StatusUp ''tcp connect ok''
           | DialTimeout \<Rightarrow> mk now name ''custom'' StatusDown ''timeout''
           | DialFailed \<Rightarrow> mk now name ''custom'' StatusDown ''connect failed''))"

definition custom_check :: "env \<Rightarrow> network \<Rightarrow> int \<Rightarrow> monitor_check \<Rightarrow> ('e, service_check) act" where
  "custom_check env nt now ck =
     (let name = (if mc_Name ck = [] then mc_Target ck else mc_Name ck); ty = to_lower (mc_Type ck) in
      if ty = ''http'' then ret (httpCheck nt now name (mc_Target ck))
      else if ty = ''tcp'' then ret (tcpCheck nt now name (mc_Target ck))
      else if ty = ''systemd''
      then (if \<not> env_linux env \<or> \<not> validUnit (mc_Target ck)
            then ret (mk now name ''custom'' StatusUnknown ''unsupported systemd target'')
            else abind (unitState env (trim_suffix (mc_Target ck) ''.service'')) (\<lambda>st.
              ret (case st of
                     None \<Rightarrow> mk now name ''custom'' StatusUnknown ''unit not found''
                   | Some u \<Rightarrow>
                       if ui_active u = ''active'' then mk now name ''custom'' StatusUp ''systemd unit active''
                       else mk now name ''custom'' StatusDown (''systemd unit '' @ ui_active u))))
      else ret (mk now name ''custom'' StatusUnknown (''unknown check type '' @ mc_Type ck)))"

definition custom :: "env \<Rightarrow> network \<Rightarrow> int \<Rightarrow> monitor_check list \<Rightarrow> ('e, service_check list) act" where
  "custom env nt now cks = amap (custom_check env nt now) cks"

record resources =
  res_CPU :: rat
  res_Memory :: rat
  res_Disk :: rat

definition run_checks :: "env \<Rightarrow> network \<Rightarrow> int \<Rightarrow> monitor_check list \<Rightarrow> resources \<Rightarrow> ('e, service_check list) act" where
  "run_checks env nt now cks res =
     abind (if env_linux env
            then abind (web env nt now) (\<lambda>w. abind (phpFPM env now) (\<lambda>p. abind (databases env nt now) (\<lambda>d. ret (w @ p @ d))))
            else ret []) (\<lambda>services.
     abind (custom env nt now cks) (\<lambda>cs.
       ret (services @ [threshold now ''disk'' ''disk'' (res_Disk res), threshold now ''cpu'' ''cpu'' (res_CPU res),
              threshold now ''memory'' ''memory'' (res_Memory res)] @ cs)))"

subsection \<open>What the checks run and report\<close>

definition fixed_units :: "string list" where "fixed_units = webUnits @ map fst dbUnits"

definition monitor_cmd :: "monitor_check list \<Rightarrow> cmd \<Rightarrow> bool" where
  "monitor_cmd cks c \<longleftrightarrow> c = php_cmd \<or> (\<exists>u. c = show_cmd u \<and> (u \<in> set fixed_units \<or>
     (\<exists>ck \<in> set cks. validUnit (mc_Target ck) \<and> u = trim_suffix (mc_Target ck) ''.service'')))"

definition status_ok :: "service_check \<Rightarrow> bool" where
  "status_ok s \<longleftrightarrow> sc_status s \<in> {StatusUp, StatusDown, StatusDegraded, StatusUnknown}"

lemma mk_simps [simp]:
  "sc_name (mk now n k st d) = n" "sc_kind (mk now n k st d) = k"
  "status_ok (mk now n k StatusUp d)" "status_ok (mk now n k StatusDown d)"
  "status_ok (mk now n k StatusDegraded d)" "status_ok (mk now n k StatusUnknown d)"
  by (simp_all add: mk_def status_ok_def)

lemma threshold_ok [simp]: "status_ok (threshold now n k p)"
  by (simp add: threshold_def Let_def)

lemma emits_amap_all:
  assumes "\<And>x. x \<in> set xs \<Longrightarrow> emits P (Q x) (f x)"
  shows "emits P (\<lambda>ys. list_all2 Q xs ys) (amap f xs)"
  using assms
proof (induction xs)
  case (Cons x xs)
  show ?case
    unfolding amap.simps
    by (rule emits_bind [OF Cons.prems], simp, rule emits_bind [OF Cons.IH]) (auto intro: emits_ret simp: Cons.prems)
qed (simp add: emits_ret)

lemma emits_run_bind: "P c \<Longrightarrow> (\<And>r. emits P Q (f r)) \<Longrightarrow> emits P Q (abind (run env c) f)"
  by (rule emits_bind, erule emits_run) blast

lemma emits_unitState:
  "P (show_cmd unit) \<Longrightarrow> (\<And>st. emits P Q (f st)) \<Longrightarrow> emits P Q (abind (unitState env unit) f)"
  unfolding unitState_def by (rule emits_bind [where R = "\<lambda>_. True"]) (auto intro!: emits_run_bind emits_ret)

lemma emits_web_units:
  "list_all (\<lambda>u. P (show_cmd u)) us \<Longrightarrow> emits P (list_all status_ok) (web_units env lis now seen us)"
proof (induction us arbitrary: seen)
  case (Cons u us)
  then show ?case
    by (auto intro!: emits_unitState emits_case_option emits_if emits_bind [OF Cons.IH] emits_ret)
qed (simp add: emits_ret)

lemma emits_database_units:
  "list_all (\<lambda>(u, p). P (show_cmd u)) us \<Longrightarrow> emits P (list_all status_ok) (database_units env nt now seen us)"
proof (induction us arbitrary: seen)
  case (Cons up us)
  then show ?case
    by (cases up) (auto intro!: emits_unitState emits_case_option emits_if emits_bind [OF Cons.IH] emits_ret)
qed (simp add: emits_ret)

lemma emits_services:
  "emits (monitor_cmd cks) (list_all status_ok) (web env nt now)"
  "emits (monitor_cmd cks) (list_all status_ok) (phpFPM env now)"
  "emits (monitor_cmd cks) (list_all status_ok) (databases env nt now)"
proof -
  have show_ok: "monitor_cmd cks (show_cmd u)" if "u \<in> set fixed_units" for u
    using that unfolding monitor_cmd_def by blast
  show "emits (monitor_cmd cks) (list_all status_ok) (web env nt now)"
    unfolding web_def Let_def
    by (rule emits_bind [OF emits_web_units]) (auto simp: list_all_iff fixed_units_def intro!: show_ok emits_ret)
  show "emits (monitor_cmd cks) (list_all status_ok) (phpFPM env now)"
    unfolding phpFPM_def
    by (auto intro!: emits_run_bind emits_ret
        simp: monitor_cmd_def parsePHP_def list_all_iff List.map_filter_def Let_def split: list.splits if_splits)
  show "emits (monitor_cmd cks) (list_all status_ok) (databases env nt now)"
    unfolding databases_def
    by (rule emits_database_units) (simp add: list_all_iff case_prod_beta fixed_units_def show_ok)
qed

definition check_name :: "monitor_check \<Rightarrow> string" where
  "check_name ck = (if mc_Name ck = [] then mc_Target ck else mc_Name ck)"

lemma httpCheck_ok: "sc_name (httpCheck nt now n target) = n \<and> status_ok (httpCheck nt now n target)"
  unfolding httpCheck_def Let_def by (cases "nt_http nt target") (simp_all split: if_split)

lemma tcpCheck_ok: "sc_name (tcpCheck nt now n target) = n \<and> status_ok (tcpCheck nt now n target)"
  unfolding tcpCheck_def by (simp split: option.split dial_result.split prod.split)

lemma emits_custom:
  "emits (monitor_cmd cks) (list_all2 (\<lambda>ck s. sc_name s = check_name ck \<and> status_ok s) cks) (custom env nt now cks)"
  unfolding custom_def
proof (rule emits_amap_all)
  fix ck assume "ck \<in> set cks"
  then have "validUnit (mc_Target ck) \<Longrightarrow> monitor_cmd cks (show_cmd (trim_suffix (mc_Target ck) ''.service''))"
    unfolding monitor_cmd_def by blast
  then show "emits (monitor_cmd cks) (\<lambda>s. sc_name s = check_name ck \<and> status_ok s) (custom_check env nt now ck)"
    unfolding custom_check_def Let_def check_name_def [symmetric]
    by (intro emits_if emits_ret emits_unitState httpCheck_ok tcpCheck_ok) (simp_all split: option.split if_split)
qed

text \<open>A run of the checks: only queries, one check per configured one, the three resources before them.\<close>

lemma emits_run_checks:
  "emits (monitor_cmd cks)
     (\<lambda>out. list_all status_ok out \<and> (\<exists>services cs. out = services @ [threshold now ''disk'' ''disk'' (res_Disk res),
        threshold now ''cpu'' ''cpu'' (res_CPU res), threshold now ''memory'' ''memory'' (res_Memory res)] @ cs \<and>
        map sc_name cs = map check_name cks))
     (run_checks env nt now cks res)"
proof -
  have s: "emits (monitor_cmd cks) (list_all status_ok)
      (if env_linux env
       then abind (web env nt now) (\<lambda>w. abind (phpFPM env now) (\<lambda>p. abind (databases env nt now) (\<lambda>d. ret (w @ p @ d))))
       else ret [])"
    by (auto intro!: emits_bind [OF emits_services(1)] emits_bind [OF emits_services(2)] emits_bind [OF emits_services(3)] emits_ret)
  have names: "map sc_name cs = map check_name cks \<and> list_all status_ok cs"
    if "list_all2 (\<lambda>ck s. sc_name s = check_name ck \<and> status_ok s) cks cs" for cs
    using that by (induction rule: list_all2_induct) auto
  show ?thesis
    unfolding run_checks_def
    by (rule emits_bind [OF s], rule emits_bind [OF emits_custom], rule emits_ret) (use names in fastforce)
qed

end
