(* ===== verification/Report.thy ===== *)
theory Report
  imports Auth Servicecheck
begin

text \<open>
  Monitor mode, \<open>internal/transport/report/report.go\<close> with \<open>collectReport\<close> and the discovery responder
  of \<open>internal/agent/agent.go\<close>: an agent at level monitor posts signed reports and does nothing else.
  Encoding the report and decoding the reply are parameters, as are the clock, the nonces and what
  the panel answers. A zero time is \<open>None\<close>.
\<close>

subsection \<open>The reporter\<close>

definition minInterval :: int where "minInterval = 15 * second"
definition maxInterval :: int where "maxInterval = 3600 * second"

record metrics =
  me_CPUPercent :: rat
  me_MemoryPercent :: rat
  me_DiskPercent :: rat
  me_UptimeSeconds :: nat
  me_Load1 :: rat

record report_body =
  rb_AgentID :: string
  rb_AgentVersion :: string
  rb_PermissionLevel :: string
  rb_SentAt :: string
  rb_IntervalSeconds :: int
  rb_Metrics :: metrics
  rb_ServiceChecks :: "service_check list"

record reporter =
  rp_BaseURL :: string
  rp_AgentID :: string
  rp_Version :: string
  rp_Level :: string
  rp_Auth :: authenticator
  rp_Interval :: int
  rp_lastOK :: "int option"

definition clamp :: "int \<Rightarrow> int" where
  "clamp d = (if d < minInterval then minInterval else if maxInterval < d then maxInterval else d)"

definition new_reporter :: "string \<Rightarrow> string \<Rightarrow> string \<Rightarrow> authenticator \<Rightarrow> int \<Rightarrow> reporter" where
  "new_reporter baseURL version level a interval =
     \<lparr>rp_BaseURL = baseURL, rp_AgentID = au_agentID a, rp_Version = version, rp_Level = level, rp_Auth = a,
      rp_Interval = clamp (if interval \<le> 0 then 60 * second else interval), rp_lastOK = None\<rparr>"

definition Sign :: "string \<Rightarrow> string \<Rightarrow> string \<Rightarrow> string \<Rightarrow> string" where
  "Sign secret timestamp nonce body =
     hmac_hex secret (timestamp @ ''.'' @ nonce @ ''.'' @ hex_encode (sha256 body))"

definition IsConnected :: "int \<Rightarrow> reporter \<Rightarrow> bool" where
  "IsConnected now r \<longleftrightarrow> (case rp_lastOK r of None \<Rightarrow> False | Some t \<Rightarrow> now - t < 3 * rp_Interval r)"

record post =
  po_method :: string
  po_url :: string
  po_headers :: "(string \<times> string) list"
  po_body :: string

text \<open>An answer of the network: a failure, or the status, the \<open>Location\<close> (empty if none) and the body.\<close>

datatype reply = NoReply string | Reply int string string

datatype report_error = EncodeFailed | BadRequest | PostFailed string | Rejected int | NotAcknowledged

text \<open>
  How the body is encoded, which URLs make a request, how a \<open>Location\<close> is resolved against the URL
  of the request, and how a reply decodes (ok and interval).
\<close>

record codec =
  co_encode :: "report_body \<Rightarrow> string option"
  co_url_ok :: "string \<Rightarrow> bool"
  co_location :: "string \<Rightarrow> string \<Rightarrow> string option"
  co_reply :: "string \<Rightarrow> (bool \<times> int) option"

text \<open>Nothing stands in the way of a request: every report encodes and every URL is well formed.\<close>

definition makes_requests :: "codec \<Rightarrow> bool" where
  "makes_requests cd \<longleftrightarrow> (\<forall>b. co_encode cd b \<noteq> None) \<and> (\<forall>u. co_url_ok cd u)"

definition report_of :: "int \<Rightarrow> metrics \<times> service_check list \<Rightarrow> reporter \<Rightarrow> report_body" where
  "report_of now collected r =
     \<lparr>rb_AgentID = rp_AgentID r, rb_AgentVersion = rp_Version r, rb_PermissionLevel = rp_Level r,
      rb_SentAt = rfc3339 now, rb_IntervalSeconds = rp_Interval r div second,
      rb_Metrics = fst collected, rb_ServiceChecks = snd collected\<rparr>"

definition post_of :: "int \<Rightarrow> string \<Rightarrow> string \<Rightarrow> reporter \<Rightarrow> post" where
  "post_of now nonce body r =
     (let ts = itoa (now div second) in
      \<lparr>po_method = ''POST'', po_url = rp_BaseURL r @ ''/api/v1/agent/report'',
       po_headers = [(''Content-Type'', ''application/json''), (''User-Agent'', ''ServerKit-Agent-Report/'' @ rp_Version r),
         (''X-Agent-Key'', au_apiKey (rp_Auth r)), (''X-Timestamp'', ts), (''X-Nonce'', nonce),
         (''X-Signature'', Sign (au_apiSecret (rp_Auth r)) ts nonce body)],
       po_body = body\<rparr>)"

text \<open>
  \<open>http.Client.Do\<close> without a \<open>CheckRedirect\<close>: 301, 302 and 303 with a \<open>Location\<close> are followed by a
  \<open>GET\<close> without a body, 307 and 308 by the same method with the body of the first request, up to ten
  requests. The headers the caller set go along, also to another host: only \<open>Authorization\<close>, cookies
  and their kind are taken away there, none of which a report has. The \<open>i\<close>-th request gets the \<open>i\<close>-th
  answer.
\<close>

definition followed :: "int \<Rightarrow> bool" where
  "followed status \<longleftrightarrow> status \<in> {301, 302, 303, 307, 308}"

definition next_request :: "int \<Rightarrow> string \<Rightarrow> string \<Rightarrow> post \<Rightarrow> post" where
  "next_request status url body q =
     (if status \<in> {307, 308} then q\<lparr>po_url := url, po_body := body\<rparr>
      else q\<lparr>po_method := ''GET'', po_url := url, po_body := []\<rparr>)"

fun follow :: "codec \<Rightarrow> (nat \<Rightarrow> reply) \<Rightarrow> string \<Rightarrow> nat \<Rightarrow> nat \<Rightarrow> post \<Rightarrow> post list \<times> reply" where
  "follow cd answers body left i q =
     (case answers i of
        NoReply e \<Rightarrow> ([q], NoReply e)
      | Reply status loc raw \<Rightarrow>
          if \<not> followed status \<or> loc = [] then ([q], Reply status loc raw)
          else (case co_location cd (po_url q) loc of
                  None \<Rightarrow> ([q], NoReply ''failed to parse Location header'')
                | Some url \<Rightarrow>
                    (case left of
                       0 \<Rightarrow> ([q], NoReply ''stopped after 10 redirects'')
                     | Suc l \<Rightarrow>
                         (case follow cd answers body l (Suc i) (next_request status url body q) of
                            (qs, final) \<Rightarrow> (q # qs, final)))))"

declare follow.simps [simp del]

definition Do :: "codec \<Rightarrow> (nat \<Rightarrow> reply) \<Rightarrow> post \<Rightarrow> post list \<times> reply" where
  "Do cd answers q = follow cd answers (po_body q) 9 0 q"

definition adopt_reply :: "codec \<Rightarrow> int \<Rightarrow> reply \<Rightarrow> reporter \<Rightarrow> (report_error + unit) \<times> reporter" where
  "adopt_reply cd now answer r =
     (case answer of
        NoReply e \<Rightarrow> (Inl (PostFailed e), r)
      | Reply status loc raw \<Rightarrow>
          if 300 \<le> status then (Inl (Rejected status), r)
          else (case co_reply cd (take 65536 raw) of
                  None \<Rightarrow> (Inl NotAcknowledged, r)
                | Some (ok, secs) \<Rightarrow>
                    if \<not> ok then (Inl NotAcknowledged, r)
                    else (let r = r\<lparr>rp_lastOK := Some now\<rparr>
                          in (Inr (), if 0 < secs then r\<lparr>rp_Interval := clamp (int64 (secs * second))\<rparr> else r))))"

text \<open>One report, with the requests it made.\<close>

definition SendOnce :: "codec \<Rightarrow> int \<Rightarrow> string \<Rightarrow> metrics \<times> service_check list \<Rightarrow> (nat \<Rightarrow> reply) \<Rightarrow> reporter \<Rightarrow>
    (report_error + unit) \<times> post list \<times> reporter" where
  "SendOnce cd now nonce collected answers r =
     (case co_encode cd (report_of now collected r) of
        None \<Rightarrow> (Inl EncodeFailed, [], r)
      | Some body \<Rightarrow>
          (let q = post_of now nonce body r in
           if \<not> co_url_ok cd (po_url q) then (Inl BadRequest, [], r)
           else (case Do cd answers q of (sent, answer) \<Rightarrow>
                   (case adopt_reply cd now answer r of (res, r') \<Rightarrow> (res, sent, r')))))"

subsection \<open>Collecting and running\<close>

definition collectReport :: "env \<Rightarrow> network \<Rightarrow> monitor_check list \<Rightarrow> int \<Rightarrow> metrics option \<Rightarrow>
    (unit, metrics \<times> service_check list) act" where
  "collectReport env nt cks now sample =
     (let (m, res) = (case sample of
            None \<Rightarrow> (\<lparr>me_CPUPercent = 0, me_MemoryPercent = 0, me_DiskPercent = 0, me_UptimeSeconds = 0, me_Load1 = 0\<rparr>,
                     \<lparr>res_CPU = 0, res_Memory = 0, res_Disk = 0\<rparr>)
          | Some sm \<Rightarrow> (sm, \<lparr>res_CPU = me_CPUPercent sm, res_Memory = me_MemoryPercent sm, res_Disk = me_DiskPercent sm\<rparr>))
      in abind (run_checks env nt now cks res) (\<lambda>cs. ret (m, cs)))"

text \<open>
  One turn of the loop: the clock and nonce, the collected sample, the network and the answers to the
  requests of this report. A run yields the waits and, for each turn, the requests.
\<close>

record round =
  ro_now :: int
  ro_nonce :: string
  ro_sample :: "metrics option"
  ro_network :: network
  ro_replies :: "nat \<Rightarrow> reply"

fun report_run :: "codec \<Rightarrow> env \<Rightarrow> monitor_check list \<Rightarrow> round list \<Rightarrow> reporter \<Rightarrow> trace \<Rightarrow>
    int list \<times> post list list \<times> reporter \<times> trace" where
  "report_run cd env cks [] r t = ([], [], r, t)"
| "report_run cd env cks (ro # rounds) r t =
     (case collectReport env (ro_network ro) cks (ro_now ro) (ro_sample ro) t of
        (Inl _, t1) \<Rightarrow> ([], [], r, t1)
      | (Inr collected, t1) \<Rightarrow>
          (let (res, q, r1) = SendOnce cd (ro_now ro) (ro_nonce ro) collected (ro_replies ro) r;
               (waits, posts, r2, t2) = report_run cd env cks rounds r1 t1
           in (rp_Interval r1 # waits, q # posts, r2, t2)))"

subsection \<open>The discovery responder\<close>

record discovery_request =
  dq_type :: string
  dq_timestamp :: int
  dq_signature :: string

record discovery_response =
  dp_agent_id :: string
  dp_hostname :: string
  dp_agent_version :: string
  dp_timestamp :: int

definition abs64 :: "int \<Rightarrow> int" where
  "abs64 x = (if x < 0 then int64 (- x) else x)"

text \<open>What a datagram is answered with; \<open>None\<close> for a request that does not decode.\<close>

definition discovery_reply :: "string \<Rightarrow> string \<Rightarrow> string \<Rightarrow> string \<Rightarrow> int \<Rightarrow> int \<Rightarrow> discovery_request option \<Rightarrow>
    discovery_response option" where
  "discovery_reply agent_id apiKey hostname version now sent req =
     (case req of
        None \<Rightarrow> None
      | Some q \<Rightarrow>
          if dq_type q \<noteq> ''discovery_request'' \<and> dq_type q \<noteq> TypeDiscoveryRequest then None
          else if apiKey = [] then None
          else if dq_timestamp q \<le> 0 \<or> 60000 < abs64 (int64 (now - dq_timestamp q)) then None
          else if dq_signature q = [] then None
          else if dq_signature q \<noteq> hmac_hex apiKey (''discovery:'' @ itoa (dq_timestamp q)) then None
          else Some \<lparr>dp_agent_id = agent_id, dp_hostname = hostname, dp_agent_version = version, dp_timestamp = sent\<rparr>)"

subsection \<open>Collecting never fails\<close>

definition total :: "('e, 'a) act \<Rightarrow> bool" where
  "total m \<longleftrightarrow> (\<forall>t. \<exists>x t'. m t = (Inr x, t'))"

lemma total_intros:
  "total (ret x)" "total (run env c)" "total m \<Longrightarrow> (\<And>x. total (f x)) \<Longrightarrow> total (abind m f)"
  "(b \<Longrightarrow> total m1) \<Longrightarrow> (\<not> b \<Longrightarrow> total m2) \<Longrightarrow> total (if b then m1 else m2)"
  "total m3 \<Longrightarrow> (\<And>y. total (g y)) \<Longrightarrow> total (case opt of None \<Rightarrow> m3 | Some y \<Rightarrow> g y)"
  by (auto simp: total_def ret_def run_def abind_def split: option.split) (metis (no_types, lifting) old.sum.simps(6) prod.case)

lemma total_amap: "(\<And>x. total (f x)) \<Longrightarrow> total (amap f xs)"
  by (induction xs) (auto intro: total_intros)

lemma total_unitState: "total (unitState env u)"
  unfolding unitState_def by (intro total_intros)

lemma total_web_units: "total (web_units env lis now seen us)"
  by (induction us arbitrary: seen) (auto intro!: total_intros total_unitState)

lemma total_database_units: "total (database_units env nt now seen us)"
proof (induction us arbitrary: seen)
  case (Cons up us)
  then show ?case by (cases up) (auto intro!: total_intros total_unitState)
qed (simp add: total_intros)

lemma total_custom_check: "total (custom_check env nt now ck)"
  unfolding custom_check_def Let_def by (intro total_intros total_unitState)

lemma total_collect: "total (collectReport env nt cks now sample)"
proof -
  have "total (run_checks env nt now cks res :: (unit, service_check list) act)" for res
    unfolding run_checks_def web_def phpFPM_def databases_def custom_def Let_def
    by (intro total_intros total_web_units total_database_units total_amap total_custom_check)
  then show ?thesis
    unfolding collectReport_def case_prod_beta Let_def by (intro total_intros) blast+
qed

lemma collect_cmds:
  assumes "collectReport env nt cks now sample t = (r, t')"
  shows "\<exists>cs. t' = t @ cs \<and> list_all (monitor_cmd cks) cs"
proof -
  have "emits (monitor_cmd cks) (\<lambda>_. True) (collectReport env nt cks now sample)"
    unfolding collectReport_def case_prod_beta Let_def
    by (rule emits_bind [OF emits_run_checks]) (rule emits_ret, simp)
  from emits_trace [OF this assms] show ?thesis .
qed

subsection \<open>Monitor mode only reports\<close>

definition interval_ok :: "int \<Rightarrow> bool" where
  "interval_ok d \<longleftrightarrow> 15 * second \<le> d \<and> d \<le> 3600 * second"

lemma clamp_ok [simp]: "interval_ok (clamp d)"
  by (simp add: interval_ok_def clamp_def minInterval_def maxInterval_def second_def)

definition signed_post :: "reporter \<Rightarrow> post \<Rightarrow> bool" where
  "signed_post r p \<longleftrightarrow> po_method p = ''POST'' \<and> po_url p = rp_BaseURL r @ ''/api/v1/agent/report'' \<and>
     (\<exists>ts nonce. {(''X-Agent-Key'', au_apiKey (rp_Auth r)), (''X-Timestamp'', ts), (''X-Nonce'', nonce),
        (''X-Signature'', hmac_hex (au_apiSecret (rp_Auth r)) (ts @ ''.'' @ nonce @ ''.'' @ hex_encode (sha256 (po_body p))))}
        \<subseteq> set (po_headers p))"

text \<open>
  Request \<open>p'\<close> follows request \<open>p\<close> of a report with this body: the answer to \<open>p\<close> was a redirect, \<open>p'\<close>
  goes where it points, with the same headers, and has the body only after 307 and 308.
\<close>

definition redirected :: "codec \<Rightarrow> string \<Rightarrow> reply \<Rightarrow> post \<Rightarrow> post \<Rightarrow> bool" where
  "redirected cd body answer p p' \<longleftrightarrow>
     (\<exists>status loc raw url. answer = Reply status loc raw \<and> followed status \<and>
        co_location cd (po_url p) loc = Some url \<and> p' = next_request status url body p)"

text \<open>The requests of one report: none, or the signed post and what redirects make of it.\<close>

definition report_requests :: "codec \<Rightarrow> (nat \<Rightarrow> reply) \<Rightarrow> reporter \<Rightarrow> post list \<Rightarrow> bool" where
  "report_requests cd answers r qs \<longleftrightarrow>
     qs = [] \<or> signed_post r (hd qs) \<and> length qs \<le> 10 \<and>
       (\<forall>j. Suc j < length qs \<longrightarrow> redirected cd (po_body (hd qs)) (answers j) (qs ! j) (qs ! Suc j))"

lemma follow_requests:
  "follow cd answers body left i q = (qs, final) \<Longrightarrow>
     qs \<noteq> [] \<and> hd qs = q \<and> length qs \<le> Suc left \<and>
     (\<forall>j. Suc j < length qs \<longrightarrow> redirected cd body (answers (i + j)) (qs ! j) (qs ! Suc j))"
proof (induction left arbitrary: i q qs final)
  case 0
  then show ?case by (auto simp: follow.simps [of cd answers body 0] split: reply.splits if_splits option.splits)
next
  case (Suc left)
  show ?case
  proof (cases "\<exists>status loc raw url. answers i = Reply status loc raw \<and> followed status \<and> loc \<noteq> [] \<and>
      co_location cd (po_url q) loc = Some url")
    case False
    with Suc.prems show ?thesis
      by (auto simp: follow.simps [of cd answers body "Suc left"] split: reply.splits if_splits option.splits)
  next
    case True
    then obtain status loc raw url where a: "answers i = Reply status loc raw" "followed status" "loc \<noteq> []"
        "co_location cd (po_url q) loc = Some url"
      by blast
    obtain rest f where r: "follow cd answers body left (Suc i) (next_request status url body q) = (rest, f)"
      by (metis surj_pair)
    have qs: "qs = q # rest"
      using Suc.prems a r by (simp add: follow.simps [of cd answers body "Suc left"])
    note ih = Suc.IH [OF r]
    then have first: "rest ! 0 = next_request status url body q" by (cases rest) simp_all
    have "redirected cd body (answers (i + j)) (qs ! j) (qs ! Suc j)" if "Suc j < length qs" for j
    proof (cases j)
      case 0
      then show ?thesis using a first qs unfolding redirected_def by auto
    next
      case (Suc k)
      then show ?thesis using ih that qs by simp
    qed
    then show ?thesis using ih qs by simp
  qed
qed

definition same_agent :: "reporter \<Rightarrow> reporter \<Rightarrow> bool" where
  "same_agent r r' \<longleftrightarrow> (\<exists>d t. r' = r\<lparr>rp_Interval := d, rp_lastOK := t\<rparr>)"

lemma same_agent_refl [simp]: "same_agent r r"
  unfolding same_agent_def by (rule exI [of _ "rp_Interval r"], rule exI [of _ "rp_lastOK r"]) simp

lemma same_agent_updates [simp]:
  "same_agent r (r\<lparr>rp_lastOK := t\<rparr>)" "same_agent r (r\<lparr>rp_lastOK := t, rp_Interval := d\<rparr>)"
  unfolding same_agent_def by (cases r; fastforce)+

lemma same_agent_trans: "same_agent a b \<Longrightarrow> same_agent b c \<Longrightarrow> same_agent a c"
  unfolding same_agent_def by fastforce

lemma same_agent_signed: "same_agent r r' \<Longrightarrow> signed_post r' p = signed_post r p"
  unfolding same_agent_def signed_post_def by (elim exE) simp

lemma same_agent_requests: "same_agent r r' \<Longrightarrow> report_requests cd answers r' qs = report_requests cd answers r qs"
  by (simp add: report_requests_def same_agent_signed)

lemma adopt_reply_ok:
  "adopt_reply cd now answer r = (res, r') \<Longrightarrow> interval_ok (rp_Interval r) \<Longrightarrow>
     same_agent r r' \<and> interval_ok (rp_Interval r') \<and> (rp_lastOK r' \<noteq> rp_lastOK r \<longrightarrow> res = Inr ())"
  by (auto simp: adopt_reply_def Let_def split: reply.splits if_splits option.splits)

lemma SendOnce_ok:
  assumes "SendOnce cd now nonce collected answers r = (res, qs, r')" "interval_ok (rp_Interval r)"
  shows "same_agent r r' \<and> interval_ok (rp_Interval r') \<and> report_requests cd answers r qs \<and>
    (makes_requests cd \<longrightarrow> qs \<noteq> [])"
proof -
  have "signed_post r (post_of now nonce body r)" for body
    unfolding signed_post_def by (intro conjI exI) (simp_all add: post_of_def Sign_def Let_def)
  then have "report_requests cd answers r ps \<and> ps \<noteq> []" if "Do cd answers (post_of now nonce body r) = (ps, final)" for body ps final
    using follow_requests [OF that [unfolded Do_def]] by (auto simp: report_requests_def)
  moreover have "report_requests cd answers r []" by (simp add: report_requests_def)
  ultimately show ?thesis
    using assms adopt_reply_ok [of cd now _ r]
    by (auto simp: SendOnce_def Let_def makes_requests_def split: option.splits if_splits prod.splits)
qed

text \<open>
  C3. Monitor mode is report-only, whatever is answered: every wait between two reports is between
  fifteen seconds and an hour, also when the interval the panel suggests overflows; in each turn the
  agent sends nothing (only when the report does not encode or the URL makes no request), or first a \<open>POST\<close> to the report path of the configured panel, signed over
  timestamp, nonce and the SHA-256 of the body with the agent's secret, and then at most nine more
  requests, each to where the redirect that answered the one before points, with the same headers and,
  only after 307 and 308, the same body; no answer changes anything but the interval and the time of
  the last success; and the only programs run on the host are the fixed queries of systemd, for the
  fixed units and the valid ones the operator configured.
\<close>

theorem monitor_only_reports:
  assumes "report_run cd env cks rounds r t = (waits, requests, r', t')" "r = new_reporter baseURL version level a interval"
  shows "length waits = length rounds \<and> list_all (\<lambda>d. 15 * second \<le> d \<and> d \<le> 3600 * second) waits \<and>
    list_all2 (\<lambda>ro qs. report_requests cd (ro_replies ro) r qs) rounds requests \<and>
    (makes_requests cd \<longrightarrow> [] \<notin> set requests) \<and>
    (\<exists>d ok. r' = r\<lparr>rp_Interval := d, rp_lastOK := ok\<rparr>) \<and>
    (\<exists>cs. t' = t @ cs \<and> list_all (monitor_cmd cks) cs)"
proof -
  have main: "length waits = length rounds \<and> list_all interval_ok waits \<and>
      list_all2 (\<lambda>ro qs. report_requests cd (ro_replies ro) r qs) rounds requests \<and>
      (makes_requests cd \<longrightarrow> [] \<notin> set requests) \<and>
      same_agent r r' \<and> (\<exists>cs. t' = t @ cs \<and> list_all (monitor_cmd cks) cs)"
    if runs: "report_run cd env cks rounds r t = (waits, requests, r', t')" "interval_ok (rp_Interval r)" for r
    using runs
  proof (induction rounds arbitrary: r t waits requests)
    case Nil
    then show ?case by simp
  next
    case (Cons ro rounds)
    obtain collected t1 where c: "collectReport env (ro_network ro) cks (ro_now ro) (ro_sample ro) t = (Inr collected, t1)"
      using total_collect unfolding total_def by blast
    obtain res q r1 where s: "SendOnce cd (ro_now ro) (ro_nonce ro) collected (ro_replies ro) r = (res, q, r1)"
      by (metis prod_cases3)
    obtain ws ps r2 t2 where n: "report_run cd env cks rounds r1 t1 = (ws, ps, r2, t2)" by (metis prod_cases4)
    have eq: "waits = rp_Interval r1 # ws" "requests = q # ps" "r' = r2" "t' = t2"
      using Cons.prems(1) by (simp_all add: c s n)
    note s1 = SendOnce_ok [OF s Cons.prems(2)]
    note ih = Cons.IH [OF n [folded eq(3,4)]]
    have "report_requests cd answers r1 qs = report_requests cd answers r qs" for answers qs
      using same_agent_requests [of r r1] s1 by simp
    then show ?case
      using s1 ih eq collect_cmds [OF c] same_agent_trans by auto
  qed
  have ok: "interval_ok (rp_Interval r)" using assms(2) by (simp add: new_reporter_def)
  have eq: "interval_ok = (\<lambda>d. 15 * second \<le> d \<and> d \<le> 3600 * second)"
    by (simp add: fun_eq_iff interval_ok_def)
  show ?thesis using main [OF assms(1) ok] unfolding same_agent_def eq by blast
qed

definition demo_codec :: codec where
  "demo_codec = \<lparr>co_encode = (\<lambda>_. Some ''{}''), co_url_ok = (\<lambda>_. True), co_location = (\<lambda>_ loc. Some loc),
     co_reply = (\<lambda>_. Some (True, 9223372037))\<rparr>"

definition demo_round :: round where
  "demo_round = \<lparr>ro_now = 0, ro_nonce = ''n'', ro_sample = None,
     ro_network = \<lparr>nt_dial = (\<lambda>_. DialFailed), nt_http = (\<lambda>_. BadURL)\<rparr>, 
     ro_replies = (\<lambda>i. if i = 0 then Reply 307 ''https://elsewhere'' [] else Reply 200 [] ''{}'')\<rparr>"

definition demo_env :: env where
  "demo_env = \<lparr>env_linux = True, env_path = (\<lambda>_. True),
     env_run = (\<lambda>_ _. \<lparr>rr_out = [], rr_stderr = [], rr_err = Some (ExitStatus 1)\<rparr>)\<rparr>"

theorem monitor_only_reports_witness:
  "let (waits, requests, r, t) = report_run demo_codec demo_env [] [demo_round, demo_round]
       (new_reporter ''https://panel'' ''1.0'' ''monitor'' (New ''a'' ''key'' ''secret'') 0) []
   in length waits = 2 \<and> length requests = 2 \<and> list_all (\<lambda>d. 15 * second \<le> d \<and> d \<le> 3600 * second) waits \<and>
     list_all (monitor_cmd []) t"
proof -
  let ?r = "new_reporter ''https://panel'' ''1.0'' ''monitor'' (New ''a'' ''key'' ''secret'') 0"
  obtain waits requests r t where run: "report_run demo_codec demo_env [] [demo_round, demo_round] ?r [] = (waits, requests, r, t)"
    by (metis prod_cases4)
  from monitor_only_reports [OF run refl] show ?thesis unfolding run by (auto dest: list_all2_lengthD)
qed

text \<open>
  So a panel, or whoever answers for it, can have the signed report and the agent's key sent to any
  host: a 307 repeats the whole post there.
\<close>

lemma report_follows_redirect:
  assumes "answers 0 = Reply 307 loc raw" "loc \<noteq> []" "co_location cd (po_url q) loc = Some url"
    "answers 1 = Reply status [] raw'"
  shows "Do cd answers q = ([q, q\<lparr>po_url := url\<rparr>], Reply status [] raw')"
proof -
  have "follow cd answers (po_body q) 8 1 q' = ([q'], Reply status [] raw')" for q'
    using assms(4) by (simp add: follow.simps)
  then show ?thesis
    using assms(1-3)
    by (simp add: Do_def follow.simps [of cd answers "po_body q" "Suc 8", simplified] followed_def next_request_def)
qed

text \<open>The discovery responder answers a datagram only if it is signed, and fresh within a minute.\<close>

lemma discovery_is_signed:
  assumes "discovery_reply ident apiKey hostname version now sent (Some q) = Some p" "0 \<le> now" "now < 2 ^ 63" "dq_timestamp q < 2 ^ 63"
  shows "apiKey \<noteq> [] \<and> dq_signature q = hmac_hex apiKey (''discovery:'' @ itoa (dq_timestamp q)) \<and>
    \<bar>now - dq_timestamp q\<bar> \<le> 60000"
proof -
  have "0 < dq_timestamp q" using assms(1) by (auto simp: discovery_reply_def split: if_splits)
  then have "int64 (now - dq_timestamp q) = now - dq_timestamp q" "int64 (dq_timestamp q - now) = dq_timestamp q - now"
    using assms(2-4) by (auto intro!: int64_id)
  then have "abs64 (int64 (now - dq_timestamp q)) = \<bar>now - dq_timestamp q\<bar>" by (simp add: abs64_def)
  then show ?thesis using assms(1) unfolding discovery_reply_def by (simp split: if_splits)
qed

end
