(* ===== verification/Ipc.thy ===== *)
theory Ipc
  imports Paths Servicecheck Crypto
begin

text \<open>
  The local HTTP interface, \<open>internal/ipc/server.go\<close> and \<open>handlers.go\<close>: the token that gates it, the
  middleware in front of the handlers, and what each request makes the agent do. What the agent
  answers is the provider; a response is its status and the call it was computed from. Token files
  and the random source are arguments.
\<close>

subsection \<open>The token\<close>

text \<open>
  The outcome of reading the file, of creating its directory, of the random source (32 bytes), and
  of writing: the token and what was written.
\<close>

definition loadOrGenerateToken :: "string option \<Rightarrow> bool \<Rightarrow> string option \<Rightarrow> bool \<Rightarrow>
    string option \<times> string option" where
  "loadOrGenerateToken stored mkdir_ok random write_ok =
     (let fresh =
        (if \<not> mkdir_ok then (None, None)
         else (case random of
                 None \<Rightarrow> (None, None)
               | Some buf \<Rightarrow> if write_ok then (Some (hex_encode buf), Some (hex_encode buf)) else (None, None)))
      in case stored of
           Some data \<Rightarrow> if 32 \<le> length (trim_space data) then (Some (trim_space data), None) else fresh
         | None \<Rightarrow> fresh)"

subsection \<open>Requests\<close>

record ipc_request =
  iq_method :: string
  iq_path :: string
  iq_authorization :: string
  iq_origin :: string
  iq_query :: "string \<Rightarrow> string"     \<comment> \<open>\<open>URL.Query().Get\<close>: empty if absent\<close>

datatype call =
    GetStatus | GetDetailedMetrics | GetMetricsHistory | ClearLogs | GetEvents int
  | GetConnectionInfo | GetRecentLogs int | CallRestart

record response =
  re_status :: int
  re_call :: "call option"
  re_cors :: bool        \<comment> \<open>the CORS headers were set, for the request's own origin\<close>

abbreviation answer :: "int \<Rightarrow> call option \<Rightarrow> response" where
  "answer st c \<equiv> \<lparr>re_status = st, re_call = c, re_cors = False\<rparr>"

definition with_method :: "string \<Rightarrow> call \<Rightarrow> ipc_request \<Rightarrow> response" where
  "with_method m c q = (if iq_method q \<noteq> m then answer 405 None else answer 200 (Some c))"

definition HandleStatus :: "ipc_request \<Rightarrow> response" where "HandleStatus = with_method ''GET'' GetStatus"
definition HandleMetrics :: "ipc_request \<Rightarrow> response" where "HandleMetrics = with_method ''GET'' GetDetailedMetrics"
definition HandleMetricsHistory :: "ipc_request \<Rightarrow> response" where "HandleMetricsHistory = with_method ''GET'' GetMetricsHistory"
definition HandleLogsClear :: "ipc_request \<Rightarrow> response" where "HandleLogsClear = with_method ''POST'' ClearLogs"
definition HandleConnection :: "ipc_request \<Rightarrow> response" where "HandleConnection = with_method ''GET'' GetConnectionInfo"
definition HandleRestart :: "ipc_request \<Rightarrow> response" where "HandleRestart = with_method ''POST'' CallRestart"
definition HandleHealth :: "ipc_request \<Rightarrow> response" where "HandleHealth = with_method ''GET'' GetStatus"

definition HandleEvents :: "ipc_request \<Rightarrow> response" where
  "HandleEvents q =
     (let s = iq_query q ''since'';
          since = (if s = [] then 0 else (case atoi s of Some n \<Rightarrow> n | None \<Rightarrow> 0))
      in with_method ''GET'' (GetEvents since) q)"

definition HandleLogs :: "ipc_request \<Rightarrow> response" where
  "HandleLogs q =
     (let l = iq_query q ''lines'';
          n = (if l = [] then 50 else (case atoi l of Some n \<Rightarrow> if 0 < n \<and> n \<le> 1000 then n else 50 | None \<Rightarrow> 50))
      in with_method ''GET'' (GetRecentLogs n) q)"

definition handlers :: "(string \<times> (ipc_request \<Rightarrow> response)) list" where
  "handlers =
     [(''/status'', HandleStatus), (''/metrics'', HandleMetrics), (''/metrics/history'', HandleMetricsHistory),
      (''/events'', HandleEvents), (''/logs/clear'', HandleLogsClear), (''/connection'', HandleConnection),
      (''/logs'', HandleLogs), (''/restart'', HandleRestart), (''/health'', HandleHealth)]"

text \<open>
  The mux knows these exact paths; a path that is not clean is redirected (but not for
  \<open>CONNECT\<close>), others are not found.
\<close>

definition cleanPath :: "string \<Rightarrow> string" where
  "cleanPath p =
     (let q = Clean (if IsAbs p then p else ''/'' @ p)
      in if p \<noteq> [] \<and> last p = CHR ''/'' \<and> q \<noteq> ''/'' then q @ ''/'' else q)"

definition mux :: "ipc_request \<Rightarrow> response" where
  "mux q =
     (case map_of handlers (iq_path q) of
        Some h \<Rightarrow> h q
      | None \<Rightarrow> answer (if iq_method q \<noteq> ''CONNECT'' \<and> iq_path q \<noteq> cleanPath (iq_path q) then 301 else 404) None)"

subsection \<open>The middleware\<close>

definition bearerToken :: "ipc_request \<Rightarrow> string" where
  "bearerToken q =
     (let h = iq_authorization q in
      if h = [] then iq_query q ''token''
      else if 7 < length h \<and> to_lower (take 7 h) = ''bearer '' then trim_space (drop 7 h)
      else [])"

definition authMiddleware :: "string \<Rightarrow> (ipc_request \<Rightarrow> response) \<Rightarrow> ipc_request \<Rightarrow> response" where
  "authMiddleware expected next_handler q =
     (if iq_method q = ''OPTIONS'' then next_handler q
      else if iq_path q = ''/health'' then next_handler q
      else if bearerToken q = [] \<or> bearerToken q \<noteq> expected then answer 401 None
      else next_handler q)"

definition isLocalhost :: "string \<Rightarrow> bool" where
  "isLocalhost origin \<longleftrightarrow>
     origin \<in> {''http://localhost'', ''https://localhost'', ''http://127.0.0.1'', ''https://127.0.0.1''} \<or>
     list_ex (\<lambda>p. prefix p origin)
       [''http://localhost:'', ''https://localhost:'', ''http://127.0.0.1:'', ''https://127.0.0.1:'']"

definition corsMiddleware :: "(ipc_request \<Rightarrow> response) \<Rightarrow> ipc_request \<Rightarrow> response" where
  "corsMiddleware next_handler q =
     (let cors = (iq_origin q = [] \<or> isLocalhost (iq_origin q)) in
      (if iq_method q = ''OPTIONS'' then answer 200 None else next_handler q)\<lparr>re_cors := cors\<rparr>)"

subsection \<open>The server\<close>

record ipc_config =
  ic_Enabled :: bool
  ic_Port :: int
  ic_Address :: string

definition listen_address :: "ipc_config \<Rightarrow> string" where
  "listen_address cfg =
     (let addr = ic_Address cfg @ '':'' @ itoa (ic_Port cfg);
          forced = ''127.0.0.1:'' @ itoa (ic_Port cfg)
      in case SplitHostPort addr of
           None \<Rightarrow> forced
         | Some (host, _) \<Rightarrow>
             if host \<noteq> ''127.0.0.1'' \<and> host \<noteq> ''localhost'' \<and> host \<noteq> ''::1'' then forced else addr)"

text \<open>
  \<open>Start\<close>: nothing when disabled, an error when there is no token and authentication is not switched
  off, otherwise the address it listens on and what it serves there.
\<close>

datatype started = Disabled | TokenError | Listening string "ipc_request \<Rightarrow> response"

definition Start :: "ipc_config \<Rightarrow> bool \<Rightarrow> string option \<Rightarrow> started" where
  "Start cfg noAuth token =
     (if \<not> ic_Enabled cfg then Disabled
      else if noAuth then Listening (listen_address cfg) (corsMiddleware mux)
      else (case token of
              None \<Rightarrow> TokenError
            | Some tok \<Rightarrow> Listening (listen_address cfg) (corsMiddleware (authMiddleware tok mux))))"

text \<open>
  The error \<open>Start\<close> returns, if any: that of the token, or that of listening, if it comes within 100 ms;
  a listener that fails later is not reported.
\<close>

definition Start_error :: "started \<Rightarrow> string option \<Rightarrow> string option" where
  "Start_error st listen_error =
     (case st of
        Disabled \<Rightarrow> None
      | TokenError \<Rightarrow> Some ''ipc token''
      | Listening _ _ \<Rightarrow> map_option ((@) ''IPC server failed to start: '') listen_error)"

subsection \<open>Who can make the agent do what\<close>

lemma with_method_call: "re_call (with_method m c q) = Some d \<Longrightarrow> iq_method q = m \<and> d = c"
  by (simp add: with_method_def split: if_splits)

definition method_of :: "call \<Rightarrow> string" where
  "method_of c = (if c = ClearLogs \<or> c = CallRestart then ''POST'' else ''GET'')"

lemmas handler_defs = HandleStatus_def HandleMetrics_def HandleMetricsHistory_def HandleLogsClear_def
  HandleConnection_def HandleRestart_def HandleHealth_def HandleEvents_def HandleLogs_def

text \<open>Which path, if any, gets to which call of the provider.\<close>

lemma mux_call:
  assumes "re_call (mux q) = Some c"
  shows "iq_method q = method_of c \<and> (c = CallRestart \<longleftrightarrow> iq_path q = ''/restart'') \<and>
         (iq_path q = ''/health'' \<longrightarrow> c = GetStatus)"
proof -
  obtain h where h: "map_of handlers (iq_path q) = Some h" "re_call (h q) = Some c"
    using assms by (simp add: mux_def split: option.splits)
  then have "(iq_path q, h) \<in> set handlers" by (simp add: map_of_SomeD)
  then show ?thesis
    using h(2) by (auto simp: handlers_def handler_defs Let_def method_of_def dest!: with_method_call)
qed

lemma mux_restart: "iq_method q = ''POST'' \<Longrightarrow> iq_path q = ''/restart'' \<Longrightarrow> re_call (mux q) = Some CallRestart"
  by (simp add: mux_def handlers_def HandleRestart_def with_method_def)

lemma authMiddleware_call:
  assumes "re_call (authMiddleware tok h q) = Some c" "iq_method q \<noteq> ''OPTIONS''"
  shows "re_call (h q) = Some c \<and> (iq_path q = ''/health'' \<or> bearerToken q = tok \<and> tok \<noteq> [])"
  using assms by (auto simp: authMiddleware_def split: if_splits)

lemma token_length:
  assumes "fst (loadOrGenerateToken stored mkdir_ok random write_ok) = Some tok"
      "random = None \<or> random = Some buf \<and> length buf = 32"
  shows "32 \<le> length tok"
  using assms by (auto simp: loadOrGenerateToken_def Let_def length_hex_encode split: option.splits if_splits)

lemma SplitHostPort_plain:
  assumes "set h \<inter> set '':[]'' = {}"
  shows "SplitHostPort (h @ '':'' @ itoa p) = Some (h, itoa p)"
proof -
  have b: "CHR '']'' \<notin> set (itoa p)" "CHR ''['' \<notin> set (itoa p)"
    using show_nat_digits [of "CHR '']''"] show_nat_digits [of "CHR ''[''"]
    by (auto simp: itoa_def is_digit_def)
  have h: "hd (h @ '':'' @ itoa p) \<noteq> CHR ''[''" using assms by (cases h) auto
  have "last_colon (h @ '':'' @ itoa p) = Some (h, itoa p)"
    using last_colon_append [OF itoa_no_colon, of h] by simp
  with b h assms show ?thesis by (simp add: SplitHostPort_def)
qed

lemma listen_loopback:
  "\<exists>host port. SplitHostPort (listen_address cfg) = Some (host, port) \<and>
     host \<in> {''127.0.0.1'', ''localhost'', ''::1''}"
  using SplitHostPort_plain [of "''127.0.0.1''" "ic_Port cfg"]
  by (auto simp: listen_address_def Let_def split: option.splits)

text \<open>
  C21. Unless authentication is switched off in the environment, the interface is bound to a loopback
  address, its token has at least 32 characters, and whatever a request makes the agent do, it
  carried that token and used the operation's method, the health probe's status apart; the agent is
  restarted by exactly the \<open>POST\<close> requests to \<open>/restart\<close> that carry the token.
\<close>

theorem ipc_requires_token:
  assumes start: "Start cfg False (fst (loadOrGenerateToken stored mkdir_ok random write_ok)) = Listening addr serve"
    and random: "random = None \<or> random = Some buf \<and> length buf = 32"
  shows "\<exists>tok host port.
      fst (loadOrGenerateToken stored mkdir_ok random write_ok) = Some tok \<and> 32 \<le> length tok \<and>
      SplitHostPort addr = Some (host, port) \<and> host \<in> {''127.0.0.1'', ''localhost'', ''::1''} \<and>
      (\<forall>q c. re_call (serve q) = Some c \<longrightarrow> iq_method q = method_of c \<and>
         (iq_path q = ''/health'' \<and> c = GetStatus \<or> bearerToken q = tok)) \<and>
      (\<forall>q. re_call (serve q) = Some CallRestart \<longleftrightarrow>
         iq_method q = ''POST'' \<and> iq_path q = ''/restart'' \<and> bearerToken q = tok)"
proof -
  obtain tok where tok: "fst (loadOrGenerateToken stored mkdir_ok random write_ok) = Some tok"
      and addr: "addr = listen_address cfg" and serve: "serve = corsMiddleware (authMiddleware tok mux)"
    using start by (auto simp: Start_def split: if_splits option.splits)
  have len: "32 \<le> length tok"
    using token_length [OF tok random] .
  have call: "iq_method q = method_of c \<and> (c = CallRestart \<longleftrightarrow> iq_path q = ''/restart'') \<and>
      (iq_path q = ''/health'' \<and> c = GetStatus \<or> bearerToken q = tok)" if "re_call (serve q) = Some c" for q c
  proof -
    have "iq_method q \<noteq> ''OPTIONS''" "re_call (authMiddleware tok mux q) = Some c"
      using that by (auto simp: serve corsMiddleware_def Let_def split: if_splits)
    from authMiddleware_call [OF this(2,1)] mux_call show ?thesis by blast
  qed
  have "re_call (serve q) = Some CallRestart"
    if "iq_method q = ''POST''" "iq_path q = ''/restart''" "bearerToken q = tok" for q
    using mux_restart [OF that(1,2)] that len
    by (auto simp: serve corsMiddleware_def authMiddleware_def Let_def)
  then have restart: "re_call (serve q) = Some CallRestart \<longleftrightarrow>
      iq_method q = ''POST'' \<and> iq_path q = ''/restart'' \<and> bearerToken q = tok" for q
    using call [of q CallRestart] by (auto simp: method_of_def)
  show ?thesis
    using tok len call restart listen_loopback [of cfg] unfolding addr by blast
qed

theorem ipc_requires_token_witness:
  "\<exists>serve t. Start \<lparr>ic_Enabled = True, ic_Port = 19780, ic_Address = ''0.0.0.0''\<rparr> False
       (fst (loadOrGenerateToken None True (Some (replicate 32 CHR ''a'')) True)) =
     Listening (''127.0.0.1:'' @ itoa 19780) serve \<and> 32 \<le> length t \<and>
     (\<forall>q. re_call (serve q) = Some CallRestart \<longleftrightarrow>
        iq_method q = ''POST'' \<and> iq_path q = ''/restart'' \<and> bearerToken q = t)"
proof -
  define cfg where "cfg = \<lparr>ic_Enabled = True, ic_Port = 19780, ic_Address = ''0.0.0.0''\<rparr>"
  have a: "listen_address cfg = ''127.0.0.1:'' @ itoa 19780"
    using SplitHostPort_plain [of "''0.0.0.0''" 19780] by (simp add: listen_address_def cfg_def)
  have e: "ic_Enabled cfg" by (simp add: cfg_def)
  have t: "fst (loadOrGenerateToken None True (Some b) True) = Some (hex_encode b)" for b
    by (simp add: loadOrGenerateToken_def)
  have s: "Start cfg False (fst (loadOrGenerateToken None True (Some (replicate 32 CHR ''a'')) True)) =
      Listening (''127.0.0.1:'' @ itoa 19780) (corsMiddleware (authMiddleware (hex_encode (replicate 32 CHR ''a'')) mux))"
    unfolding t Start_def a using e by simp
  have r: "Some (replicate 32 CHR ''a'') = None \<or>
      Some (replicate 32 CHR ''a'') = Some (replicate 32 CHR ''a'') \<and> length (replicate 32 CHR ''a'') = 32"
    by (rule disjI2) (simp only: length_replicate refl simp_thms)
  obtain tok where "32 \<le> length tok"
      "\<forall>q. re_call (corsMiddleware (authMiddleware (hex_encode (replicate 32 CHR ''a'')) mux) q) = Some CallRestart \<longleftrightarrow>
         iq_method q = ''POST'' \<and> iq_path q = ''/restart'' \<and> bearerToken q = tok"
    using ipc_requires_token [OF s r] by (elim exE conjE) (rule that)
  with s show ?thesis unfolding cfg_def by (intro exI conjI)
qed

end
