(* ===== verification/Gcm.thy ===== *)
theory Gcm
  imports Crypto
begin

text \<open>
  The authenticated encryption of \<open>crypto/aes\<close> and \<open>crypto/cipher\<close> that the credentials are
  stored under: AES with a 32-byte key in Galois/counter mode with a 12-byte nonce, a 16-byte tag and
  no additional data, on byte strings. Only the forward cipher is needed. Decryption undoes
  encryption under the same key.
\<close>

subsection \<open>The block cipher\<close>

type_synonym w8 = "8 word"

definition aes_sbox :: "w8 list" where
  "aes_sbox =
     [99, 124, 119, 123, 242, 107, 111, 197, 48, 1, 103, 43, 254, 215, 171, 118,
      202, 130, 201, 125, 250, 89, 71, 240, 173, 212, 162, 175, 156, 164, 114, 192,
      183, 253, 147, 38, 54, 63, 247, 204, 52, 165, 229, 241, 113, 216, 49, 21,
      4, 199, 35, 195, 24, 150, 5, 154, 7, 18, 128, 226, 235, 39, 178, 117,
      9, 131, 44, 26, 27, 110, 90, 160, 82, 59, 214, 179, 41, 227, 47, 132,
      83, 209, 0, 237, 32, 252, 177, 91, 106, 203, 190, 57, 74, 76, 88, 207,
      208, 239, 170, 251, 67, 77, 51, 133, 69, 249, 2, 127, 80, 60, 159, 168,
      81, 163, 64, 143, 146, 157, 56, 245, 188, 182, 218, 33, 16, 255, 243, 210,
      205, 12, 19, 236, 95, 151, 68, 23, 196, 167, 126, 61, 100, 93, 25, 115,
      96, 129, 79, 220, 34, 42, 144, 136, 70, 238, 184, 20, 222, 94, 11, 219,
      224, 50, 58, 10, 73, 6, 36, 92, 194, 211, 172, 98, 145, 149, 228, 121,
      231, 200, 55, 109, 141, 213, 78, 169, 108, 86, 244, 234, 101, 122, 174, 8,
      186, 120, 37, 46, 28, 166, 180, 198, 232, 221, 116, 31, 75, 189, 139, 138,
      112, 62, 181, 102, 72, 3, 246, 14, 97, 53, 87, 185, 134, 193, 29, 158,
      225, 248, 152, 17, 105, 217, 142, 148, 155, 30, 135, 233, 206, 85, 40, 223,
      140, 161, 137, 13, 191, 230, 66, 104, 65, 153, 45, 15, 176, 84, 187, 22]"

definition sub_byte :: "w8 \<Rightarrow> w8" where
  "sub_byte x = aes_sbox ! unat x"

definition xtime :: "w8 \<Rightarrow> w8" where
  "xtime x = push_bit 1 x XOR (if bit x 7 then 0x1B else 0)"

definition shift_rows :: "w8 list \<Rightarrow> w8 list" where
  "shift_rows s = map ((!) s) [0, 5, 10, 15, 4, 9, 14, 3, 8, 13, 2, 7, 12, 1, 6, 11]"

fun mix_columns :: "w8 list \<Rightarrow> w8 list" where
  "mix_columns (a # b # c # d # s) =
     (xtime a XOR (xtime b XOR b) XOR c XOR d) # (a XOR xtime b XOR (xtime c XOR c) XOR d) #
     (a XOR b XOR xtime c XOR (xtime d XOR d)) # ((xtime a XOR a) XOR b XOR c XOR xtime d) # mix_columns s"
| "mix_columns _ = []"

text \<open>The key schedule: 60 words of four bytes, kept in reverse, the last one first.\<close>

definition next_key_word :: "nat \<Rightarrow> w8 list list \<Rightarrow> w8 list" where
  "next_key_word i ws =
     (let t = hd ws;
          u = (if i mod 8 = 0 then map2 (XOR) (map sub_byte (rotate1 t)) [push_bit (i div 8 - 1) 1, 0, 0, 0]
               else if i mod 8 = 4 then map sub_byte t else t)
      in map2 (XOR) (ws ! 7) u)"

fun expand_key :: "nat \<Rightarrow> nat \<Rightarrow> w8 list list \<Rightarrow> w8 list list" where
  "expand_key i 0 ws = ws"
| "expand_key i (Suc n) ws = expand_key (Suc i) n (next_key_word i ws # ws)"

fun chunks :: "nat \<Rightarrow> nat \<Rightarrow> 'a list \<Rightarrow> 'a list list" where
  "chunks 0 k xs = []"
| "chunks (Suc n) k xs = take k xs # chunks n k (drop k xs)"

definition round_keys :: "w8 list \<Rightarrow> w8 list list" where
  "round_keys key = map concat (chunks 15 4 (rev (expand_key 8 52 (rev (chunks 8 4 key)))))"

definition aes_rounds :: "w8 list list \<Rightarrow> w8 list \<Rightarrow> w8 list" where
  "aes_rounds ks block =
     (let s = fold (\<lambda>k s. map2 (XOR) (mix_columns (shift_rows (map sub_byte s))) k) (butlast (tl ks))
                (map2 (XOR) block (hd ks))
      in map2 (XOR) (shift_rows (map sub_byte s)) (last ks))"

definition aes_block :: "string \<Rightarrow> string \<Rightarrow> string" where
  "aes_block key block =
     map (\<lambda>w. char_of (unat w))
       (aes_rounds (round_keys (map (\<lambda>c. word_of_nat (of_char c)) key)) (map (\<lambda>c. word_of_nat (of_char c)) block))"

subsection \<open>Galois/counter mode\<close>

definition xor_char :: "char \<Rightarrow> char \<Rightarrow> char" where
  "xor_char a b = char_of (of_char a XOR of_char b :: nat)"

fun be_value :: "nat \<Rightarrow> string \<Rightarrow> nat" where
  "be_value v [] = v"
| "be_value v (c # s) = be_value (256 * v + of_char c) s"

type_synonym w128 = "128 word"

fun gf_steps :: "nat \<Rightarrow> w128 \<Rightarrow> w128 \<Rightarrow> w128 \<Rightarrow> w128" where
  "gf_steps 0 x z v = z"
| "gf_steps (Suc n) x z v =
     gf_steps n x (if bit x n then z XOR v else z)
       (if bit v 0 then drop_bit 1 v XOR push_bit 120 0xE1 else drop_bit 1 v)"

definition gf_mult :: "w128 \<Rightarrow> w128 \<Rightarrow> w128" where
  "gf_mult x y = gf_steps 128 x 0 y"

definition block_count :: "string \<Rightarrow> nat" where
  "block_count s = (length s + 15) div 16"

definition ghash :: "w128 \<Rightarrow> string \<Rightarrow> w128" where
  "ghash h c =
     fold (\<lambda>b y. gf_mult (y XOR word_of_nat (be_value 0 b)) h)
       (map (\<lambda>b. b @ replicate (16 - length b) (CHR 0x00)) (chunks (block_count c) 16 c) @
        [be_bytes 8 0 @ be_bytes 8 (8 * length c)]) 0"

text \<open>The blocks that are added to the text count up from two; the first masks the tag.\<close>

definition key_stream :: "string \<Rightarrow> string \<Rightarrow> nat \<Rightarrow> string" where
  "key_stream key nonce n = concat (map (\<lambda>i. aes_block key (nonce @ be_bytes 4 (i + 2))) [0..<n])"

definition ctr :: "string \<Rightarrow> string \<Rightarrow> string \<Rightarrow> string" where
  "ctr key nonce s = map2 xor_char s (key_stream key nonce (block_count s))"

definition gcm_tag :: "string \<Rightarrow> string \<Rightarrow> string \<Rightarrow> string" where
  "gcm_tag key nonce c =
     be_bytes 16 (unat (ghash (word_of_nat (be_value 0 (aes_block key (replicate 16 (CHR 0x00))))) c XOR
                        word_of_nat (be_value 0 (aes_block key (nonce @ be_bytes 4 1)))))"

definition gcm_max :: int where
  "gcm_max = (2 ^ 32 - 2) * 16"

text \<open>\<open>Seal\<close> panics on a longer text, \<open>Open\<close> refuses it; neither gets a key or nonce of another length here.\<close>

definition gcm_seal :: "string \<Rightarrow> string \<Rightarrow> string \<Rightarrow> string option" where
  "gcm_seal key nonce plaintext =
     (if gcm_max < int (length plaintext) then None
      else (let c = ctr key nonce plaintext in Some (c @ gcm_tag key nonce c)))"

definition gcm_open :: "string \<Rightarrow> string \<Rightarrow> string \<Rightarrow> string option" where
  "gcm_open key nonce sealed =
     (if length sealed < 16 \<or> gcm_max + 16 < int (length sealed) then None
      else (let c = take (length sealed - 16) sealed
            in if gcm_tag key nonce c \<noteq> drop (length sealed - 16) sealed then None else Some (ctr key nonce c)))"

subsection \<open>Decryption undoes encryption\<close>

lemma length_mix_columns: "length s mod 4 = 0 \<Longrightarrow> length (mix_columns s) = length s"
  by (induction s rule: mix_columns.induct) auto

lemma length_concat_const: "\<forall>x \<in> set xs. length x = n \<Longrightarrow> length (concat xs) = length xs * n"
  by (induction xs) auto

lemma chunks_length: "length xs = n * k \<Longrightarrow> x \<in> set (chunks n k xs) \<Longrightarrow> length x = k"
  by (induction n k xs rule: chunks.induct) (auto simp: min_def)

lemma set_chunks: "c \<in> set (chunks n k xs) \<Longrightarrow> set c \<subseteq> set xs"
  by (induction n k xs rule: chunks.induct) (auto dest: in_set_takeD in_set_dropD)

lemma length_chunks [simp]: "length (chunks n k xs) = n"
  by (induction n k xs rule: chunks.induct) auto

lemma length_expand_key: "length (expand_key i n ws) = n + length ws"
  by (induction i n ws rule: expand_key.induct) auto

lemma expand_key_words:
  "8 \<le> length ws \<Longrightarrow> \<forall>w \<in> set ws. length w = 4 \<Longrightarrow> \<forall>w \<in> set (expand_key i n ws). length w = 4"
proof (induction i n ws rule: expand_key.induct)
  case (2 i n ws)
  then have "ws \<noteq> []" by auto
  with 2(2) have "hd ws \<in> set ws" "ws ! 7 \<in> set ws" by (simp_all del: nth_mem add: nth_mem)
  with 2(3) have "length (next_key_word i ws) = 4" by (simp add: next_key_word_def Let_def)
  with 2 show ?case by simp
qed simp

lemma round_keys_blocks:
  assumes "length key = 32"
  shows "length (round_keys key) = 15" "k \<in> set (round_keys key) \<Longrightarrow> length k = 16"
proof -
  let ?w = "rev (expand_key 8 52 (rev (chunks 8 4 key)))"
  have w: "\<forall>w \<in> set ?w. length w = 4" and l: "length ?w = 15 * 4"
    using expand_key_words [of "rev (chunks 8 4 key)" 8 52] chunks_length [of key 8 4] assms
    by (simp_all add: length_expand_key)
  show "length (round_keys key) = 15" by (simp add: round_keys_def)
  show "length k = 16" if k: "k \<in> set (round_keys key)"
  proof -
    obtain c where c: "c \<in> set (chunks 15 4 ?w)" "k = concat c" using k by (auto simp: round_keys_def)
    have "set c \<subseteq> set ?w" using c(1) set_chunks by blast
    with c w chunks_length [OF l c(1)] length_concat_const [of c 4] show ?thesis by auto
  qed
qed

lemma length_aes_block:
  assumes "length key = 32" "length block = 16"
  shows "length (aes_block key block) = 16"
proof -
  define ks where "ks = round_keys (map (\<lambda>c. word_of_nat (of_char c)) key :: w8 list)"
  have l: "length ks = 15" and k: "\<forall>k \<in> set ks. length k = 16"
    using round_keys_blocks [of "map (\<lambda>c. word_of_nat (of_char c)) key"] assms(1) by (simp_all add: ks_def)
  have hd: "length (hd ks) = 16" "length (last ks) = 16" "\<forall>k \<in> set (butlast (tl ks)). length k = 16"
    using l k by (cases ks; auto dest: in_set_butlastD)+
  have "length (fold (\<lambda>k s. map2 (XOR) (mix_columns (shift_rows (map sub_byte s))) k) rs s) = 16"
    if "\<forall>k \<in> set rs. length k = 16" "length s = 16" for rs and s :: "w8 list"
    using that by (induction rs arbitrary: s) (simp_all add: length_mix_columns shift_rows_def)
  with hd show ?thesis by (simp add: aes_block_def aes_rounds_def Let_def flip: ks_def) (simp add: shift_rows_def)
qed

lemma length_key_stream:
  assumes "length key = 32" "length nonce = 12"
  shows "length (key_stream key nonce n) = n * 16"
  using length_concat_const [of "map (\<lambda>i. aes_block key (nonce @ be_bytes 4 (i + 2))) [0..<n]" 16] assms
  by (simp add: key_stream_def length_aes_block)

lemma length_ctr:
  assumes "length key = 32" "length nonce = 12"
  shows "length (ctr key nonce s) = length s"
proof -
  have "length s \<le> block_count s * 16" unfolding block_count_def by linarith
  with length_key_stream [OF assms] show ?thesis by (simp add: ctr_def)
qed

lemma xor_char_twice: "xor_char (xor_char a b) b = a"
proof -
  have "take_bit 8 (of_char c :: nat) = of_char c" for c :: char
    using nat_of_char_less_256 [of c] by (simp add: take_bit_nat_eq_self)
  then have "(of_char a XOR of_char b :: nat) mod 256 = of_char a XOR of_char b"
    using take_bit_xor [of 8 "of_char a :: nat" "of_char b"] by (simp add: take_bit_eq_mod)
  then show ?thesis by (simp add: xor_char_def xor.assoc)
qed

lemma map2_twice:
  "(\<And>a b. f (f a b) b = a) \<Longrightarrow> length xs \<le> length ys \<Longrightarrow> map2 f (map2 f xs ys) ys = xs"
proof (induction xs arbitrary: ys)
  case (Cons x xs)
  then show ?case by (cases ys) simp_all
qed simp

lemma ctr_twice:
  assumes "length key = 32" "length nonce = 12"
  shows "ctr key nonce (ctr key nonce s) = s"
proof -
  have b: "block_count (ctr key nonce s) = block_count s" by (simp add: block_count_def length_ctr [OF assms])
  have "length s \<le> block_count s * 16" unfolding block_count_def by linarith
  then have "map2 xor_char (map2 xor_char s (key_stream key nonce (block_count s)))
      (key_stream key nonce (block_count s)) = s"
    using length_key_stream [OF assms] by (intro map2_twice) (simp_all add: xor_char_twice)
  with b show ?thesis by (simp add: ctr_def)
qed

lemma length_gcm_tag [simp]: "length (gcm_tag key nonce c) = 16"
  by (simp add: gcm_tag_def)

theorem gcm_open_seal:
  assumes "length key = 32" "length nonce = 12" "gcm_seal key nonce p = Some sealed"
  shows "gcm_open key nonce sealed = Some p"
  using assms(3) length_ctr [OF assms(1,2), of p] ctr_twice [OF assms(1,2), of p]
  by (auto simp: gcm_seal_def gcm_open_def Let_def split: if_splits)

lemma gcm_open_length:
  assumes "length key = 32" "length nonce = 12" "gcm_open key nonce sealed = Some p"
  shows "int (length p) \<le> gcm_max"
  using assms(3) length_ctr [OF assms(1,2), of "take (length sealed - 16) sealed"]
  by (auto simp: gcm_open_def Let_def split: if_splits)

end
