(* ===== verification/Config.thy ===== *)
theory Config
  imports Permissions Base64 Gcm
begin

text \<open>
  The agent's configuration, \<open>internal/config/config.go\<close>: what it holds, its defaults, how it is read
  and written, and the credentials kept apart from it in a file encrypted under a key of the machine.
  Files are a map from paths to what reading them gives; the YAML library is a parameter. Durations
  are in nanoseconds.
\<close>

subsection \<open>The host and its files\<close>

record host =
  ho_GOOS :: string
  ho_Hostname :: string               \<comment> \<open>empty if unknown\<close>
  ho_machine_id :: "string option"    \<comment> \<open>\<open>/etc/machine-id\<close>\<close>
  ho_COMPUTERNAME :: string
  ho_USERNAME :: string
  ho_ProgramData :: string

datatype file_read = Contents string | NotExist | Unreadable

type_synonym files = "string \<Rightarrow> file_read"

text \<open>How creating the directory and writing the file go; a write may stop after some bytes.\<close>

datatype file_write = Written | NotOpened | Stopped nat

record save_io =
  si_mkdir :: bool
  si_nonce :: "string option"         \<comment> \<open>what the random source gives\<close>
  si_write :: file_write

definition WriteFile :: "file_write \<Rightarrow> string \<Rightarrow> string \<Rightarrow> files \<Rightarrow> bool \<times> files" where
  "WriteFile w path data fs =
     (case w of
        Written \<Rightarrow> (True, fs(path := Contents data))
      | NotOpened \<Rightarrow> (False, fs)
      | Stopped n \<Rightarrow> (False, fs(path := Contents (take n data))))"

text \<open>\<open>filepath.Join\<close> on Windows, where no element needs cleaning.\<close>

definition program_file :: "host \<Rightarrow> string list \<Rightarrow> string" where
  "program_file h ps = join [CHR 0x5C] (filter (\<lambda>p. p \<noteq> []) (ho_ProgramData h # ps))"

definition on_windows :: "host \<Rightarrow> bool" where
  "on_windows h \<longleftrightarrow> ho_GOOS h = ''windows''"

definition DefaultConfigPath :: "host \<Rightarrow> string" where
  "DefaultConfigPath h =
     (if on_windows h then program_file h [''ServerKit'', ''Agent'', ''config.yaml'']
      else ''/etc/serverkit-agent/config.yaml'')"

definition defaultKeyPath :: "host \<Rightarrow> string" where
  "defaultKeyPath h =
     (if on_windows h then program_file h [''ServerKit'', ''Agent'', ''agent.key'']
      else ''/etc/serverkit-agent/agent.key'')"

definition defaultDockerSocket :: "host \<Rightarrow> string" where
  "defaultDockerSocket h =
     (if on_windows h then ''npipe:////./pipe/docker_engine'' else ''unix:///var/run/docker.sock'')"

definition defaultLogPath :: "host \<Rightarrow> string" where
  "defaultLogPath h =
     (if on_windows h then program_file h [''ServerKit'', ''Agent'', ''logs'', ''agent.log'']
      else ''/var/log/serverkit-agent/agent.log'')"

definition IPCTokenPath :: "host \<Rightarrow> string" where
  "IPCTokenPath h =
     (if on_windows h then program_file h [''ServerKit'', ''Agent'', ''ipc.token'']
      else ''/etc/serverkit-agent/ipc.token'')"

definition defaultAllowedPaths :: "host \<Rightarrow> string list" where
  "defaultAllowedPaths h =
     (if on_windows h then [program_file h [''ServerKit'']] else [''/var/lib/serverkit'', ''/var/serverkit''])"

subsection \<open>What a configuration holds\<close>

datatype config_error =
    ConfigNotFound string | ConfigUnreadable | ConfigUnparsable
  | DirectoryFailed | MarshalFailed | WriteFailed
  | EncryptFailed | EncryptPanic
  | KeyUnreadable | KeyNotBase64 | KeyUndecryptable | InvalidFormat

record ServerConfig =
  server_URL :: string
  server_ReconnectInterval :: int
  server_MaxReconnectInterval :: int
  server_PingInterval :: int
  server_InsecureSkipVerify :: bool

record AgentConfig =
  agent_ID :: string
  agent_Name :: string

record AuthConfig =
  auth_KeyFile :: string
  auth_APIKey :: string
  auth_APISecret :: string
  auth_LoadError :: "config_error option"

record FeaturesConfig =
  feat_Docker :: bool
  feat_Metrics :: bool
  feat_Logs :: bool
  feat_FileAccess :: bool
  feat_Exec :: bool

record MetricsConfig =
  metrics_Enabled :: bool
  metrics_Interval :: int
  metrics_IncludePerCPU :: bool
  metrics_IncludeDockerStats :: bool

record DockerConfig =
  docker_Socket :: string
  docker_Timeout :: int

record SecurityConfig =
  secu_AllowedPaths :: "string list"
  secu_BlockedCommands :: "string list"
  secu_MaxExecTimeout :: int
  secu_MaxConcurrentCommands :: int

record LoggingConfig =
  log_Level :: string
  log_File :: string
  log_MaxSize :: int
  log_MaxBackups :: int
  log_MaxAge :: int
  log_Compress :: bool

record UpdateConfig =
  upd_Enabled :: bool
  upd_CheckInterval :: int
  upd_AutoInstall :: bool

record IPCConfig =
  ipc_Enabled :: bool
  ipc_Port :: int
  ipc_Address :: string

record MonitorCheck =
  check_Name :: string
  check_Type :: string
  check_Target :: string
  check_TimeoutSeconds :: int

record MonitorConfig =
  monitor_Interval :: int
  monitor_Checks :: "MonitorCheck list"

record Config =
  Server :: ServerConfig
  Agent :: AgentConfig
  Auth :: AuthConfig
  Features :: FeaturesConfig
  Metrics :: MetricsConfig
  Docker :: DockerConfig
  Security :: SecurityConfig
  Logging :: LoggingConfig
  Update :: UpdateConfig
  IPC :: IPCConfig
  Permissions_Level :: string
  MonitorCfg :: MonitorConfig
  SourcePath :: string

definition seconds :: "int \<Rightarrow> int" where
  "seconds n = n * 1000000000"

definition Default_config :: "host \<Rightarrow> Config" where
  "Default_config h =
     \<lparr>Server = \<lparr>server_URL = [], server_ReconnectInterval = seconds 5, server_MaxReconnectInterval = seconds 300,
                server_PingInterval = seconds 30, server_InsecureSkipVerify = False\<rparr>,
      Agent = \<lparr>agent_ID = [], agent_Name = []\<rparr>,
      Auth = \<lparr>auth_KeyFile = defaultKeyPath h, auth_APIKey = [], auth_APISecret = [], auth_LoadError = None\<rparr>,
      Features = \<lparr>feat_Docker = True, feat_Metrics = True, feat_Logs = True, feat_FileAccess = True, feat_Exec = False\<rparr>,
      Metrics = \<lparr>metrics_Enabled = True, metrics_Interval = seconds 10, metrics_IncludePerCPU = True,
                 metrics_IncludeDockerStats = True\<rparr>,
      Docker = \<lparr>docker_Socket = defaultDockerSocket h, docker_Timeout = seconds 30\<rparr>,
      Security = \<lparr>secu_AllowedPaths = defaultAllowedPaths h, secu_BlockedCommands = [],
                  secu_MaxExecTimeout = seconds 300, secu_MaxConcurrentCommands = 8\<rparr>,
      Logging = \<lparr>log_Level = ''info'', log_File = defaultLogPath h, log_MaxSize = 100, log_MaxBackups = 5,
                 log_MaxAge = 30, log_Compress = True\<rparr>,
      Update = \<lparr>upd_Enabled = True, upd_CheckInterval = seconds 3600, upd_AutoInstall = False\<rparr>,
      IPC = \<lparr>ipc_Enabled = True, ipc_Port = 19780, ipc_Address = ''127.0.0.1''\<rparr>,
      Permissions_Level = [],
      MonitorCfg = \<lparr>monitor_Interval = seconds 60, monitor_Checks = []\<rparr>,
      SourcePath = []\<rparr>"

definition PermissionLevel :: "Config \<Rightarrow> permission_error + level" where
  "PermissionLevel c = (if trim_space (Permissions_Level c) = [] then Inr Default else Parse (Permissions_Level c))"

subsection \<open>The machine's key\<close>

definition machine_name :: "host \<Rightarrow> string \<Rightarrow> string" where
  "machine_name h windows =
     (if ho_GOOS h = ''linux'' then (case ho_machine_id h of Some d \<Rightarrow> d | None \<Rightarrow> [])
      else if on_windows h then windows else [])"

definition getMachineKey :: "host \<Rightarrow> string" where
  "getMachineKey h = sha256 (''serverkit-agent:'' @ ho_Hostname h @ '':'' @ machine_name h (ho_COMPUTERNAME h))"

definition getMachineKeyLegacyV1 :: "host \<Rightarrow> string" where
  "getMachineKeyLegacyV1 h =
     sha256 (''serverkit-agent:'' @ ho_Hostname h @ '':'' @ machine_name h (ho_COMPUTERNAME h @ ho_USERNAME h))"

definition raw_url_encode :: "string \<Rightarrow> string" where
  "raw_url_encode s =
     map (\<lambda>c. if c = CHR ''+'' then CHR ''-'' else if c = CHR ''/'' then CHR ''_'' else c)
       (filter (\<lambda>c. c \<noteq> CHR ''='') (b64_encode s))"

definition MachineID :: "host \<Rightarrow> string" where
  "MachineID h =
     (let i = machine_name h (ho_COMPUTERNAME h); n = (if i = [] then ho_Hostname h else i)
      in raw_url_encode (take 16 (sha256 (''serverkit-machine-id:'' @ ho_Hostname h @ '':'' @ n))))"

subsection \<open>Encryption of the credentials\<close>

definition encryptCredentials :: "host \<Rightarrow> string option \<Rightarrow> string \<Rightarrow> config_error + string" where
  "encryptCredentials h nonce plaintext =
     (case nonce of
        None \<Rightarrow> Inl EncryptFailed
      | Some n \<Rightarrow>
          (case gcm_seal (getMachineKey h) n plaintext of
             None \<Rightarrow> Inl EncryptPanic
           | Some sealed \<Rightarrow> Inr (b64_encode (n @ sealed))))"

definition tryDecrypt :: "string \<Rightarrow> string \<Rightarrow> string option" where
  "tryDecrypt ciphertext key =
     (if length ciphertext < 12 then None else gcm_open key (take 12 ciphertext) (drop 12 ciphertext))"

definition decryptCredentialsWithMigration :: "host \<Rightarrow> string \<Rightarrow> config_error + string \<times> bool" where
  "decryptCredentialsWithMigration h data =
     (case b64_decode data of
        None \<Rightarrow> Inl KeyNotBase64
      | Some ciphertext \<Rightarrow>
          (case tryDecrypt ciphertext (getMachineKey h) of
             Some pt \<Rightarrow> Inr (pt, False)
           | None \<Rightarrow>
               (case tryDecrypt ciphertext (getMachineKeyLegacyV1 h) of
                  Some pt \<Rightarrow> Inr (pt, True)
                | None \<Rightarrow> Inl KeyUndecryptable)))"

definition decryptCredentials :: "host \<Rightarrow> string \<Rightarrow> config_error + string" where
  "decryptCredentials h data = map_sum id fst (decryptCredentialsWithMigration h data)"

definition EncryptBytes :: "host \<Rightarrow> string option \<Rightarrow> string \<Rightarrow> config_error + string" where
  "EncryptBytes = encryptCredentials"

definition DecryptBytes :: "host \<Rightarrow> string \<Rightarrow> config_error + string" where
  "DecryptBytes = decryptCredentials"

subsection \<open>Saving and loading them\<close>

definition key_path :: "host \<Rightarrow> Config \<Rightarrow> string" where
  "key_path h c = (if auth_KeyFile (Auth c) = [] then defaultKeyPath h else auth_KeyFile (Auth c))"

definition SaveCredentials :: "host \<Rightarrow> save_io \<Rightarrow> Config \<Rightarrow> files \<Rightarrow> (config_error + unit) \<times> files" where
  "SaveCredentials h io c fs =
     (if auth_APIKey (Auth c) = [] \<or> auth_APISecret (Auth c) = [] then (Inr (), fs)
      else if \<not> si_mkdir io then (Inl DirectoryFailed, fs)
      else (case encryptCredentials h (si_nonce io) (auth_APIKey (Auth c) @ '':'' @ auth_APISecret (Auth c)) of
              Inl e \<Rightarrow> (Inl e, fs)
            | Inr encrypted \<Rightarrow>
                (case WriteFile (si_write io) (key_path h c) encrypted fs of
                   (ok, fs') \<Rightarrow> (if ok then Inr () else Inl WriteFailed, fs'))))"

text \<open>
  \<open>fmt.Sscanf(s, "%s:%s")\<close>: a verb skips blanks and then takes everything up to the next one, the
  colon included, so that the literal colon is not found.
\<close>

fun scan_word :: "string \<Rightarrow> string \<times> string" where
  "scan_word [] = ([], [])"
| "scan_word (c # s) = (if 0 < ws_len (c # s) then ([], c # s) else (case scan_word s of (w, r) \<Rightarrow> (c # w, r)))"

definition sscanf_pair :: "string \<Rightarrow> (string \<times> string) option" where
  "sscanf_pair s =
     (case scan_word (trim_left s) of
        (a, r) \<Rightarrow>
          if a = [] then None
          else (case r of
                  c # r' \<Rightarrow> if c = CHR '':'' then (case scan_word (trim_left r') of (b, _) \<Rightarrow> if b = [] then None else Some (a, b)) else None
                | [] \<Rightarrow> None))"

definition splitFirst :: "string \<Rightarrow> char \<Rightarrow> string list" where
  "splitFirst s sep =
     (let a = takeWhile (\<lambda>c. c \<noteq> sep) s in if a = s then [s] else [a, drop (length a + 1) s])"

definition parse_credentials :: "string \<Rightarrow> (string \<times> string) option" where
  "parse_credentials s =
     (case sscanf_pair s of
        Some p \<Rightarrow> Some p
      | None \<Rightarrow> (case splitFirst s CHR '':'' of [k, x] \<Rightarrow> Some (k, x) | _ \<Rightarrow> None))"

abbreviation set_credentials :: "string \<Rightarrow> string \<Rightarrow> Config \<Rightarrow> Config" where
  "set_credentials k s c \<equiv> c\<lparr>Auth := (Auth c)\<lparr>auth_APIKey := k, auth_APISecret := s\<rparr>\<rparr>"

definition LoadCredentials :: "host \<Rightarrow> save_io \<Rightarrow> Config \<Rightarrow> files \<Rightarrow> (config_error + Config) \<times> files" where
  "LoadCredentials h io c fs =
     (case fs (key_path h c) of
        Contents data \<Rightarrow>
          (case decryptCredentialsWithMigration h data of
             Inl e \<Rightarrow> (Inl e, fs)
           | Inr (decrypted, usedLegacy) \<Rightarrow>
               (case parse_credentials decrypted of
                  None \<Rightarrow> (Inl InvalidFormat, fs)
                | Some (k, s) \<Rightarrow>
                    (let c' = set_credentials k s c
                     in (Inr c', if usedLegacy then snd (SaveCredentials h io c' fs) else fs))))
      | _ \<Rightarrow> (Inl KeyUnreadable, fs))"

subsection \<open>The configuration file\<close>

text \<open>The YAML library: decoding over a configuration, and encoding.\<close>

record yaml =
  ya_Unmarshal :: "string \<Rightarrow> Config \<Rightarrow> Config option"
  ya_Marshal :: "Config \<Rightarrow> string option"

definition Load :: "host \<Rightarrow> yaml \<Rightarrow> save_io \<Rightarrow> string \<Rightarrow> files \<Rightarrow> (config_error + Config) \<times> files" where
  "Load h y io path0 fs =
     (let path = (if path0 = [] then DefaultConfigPath h else path0)
      in case fs path of
           NotExist \<Rightarrow> (Inl (ConfigNotFound path), fs)
         | Unreadable \<Rightarrow> (Inl ConfigUnreadable, fs)
         | Contents data \<Rightarrow>
             (case ya_Unmarshal y data (Default_config h) of
                None \<Rightarrow> (Inl ConfigUnparsable, fs)
              | Some cfg \<Rightarrow>
                  (let cfg1 = cfg\<lparr>SourcePath := path\<rparr>
                   in case LoadCredentials h io cfg1 fs of
                        (Inr cfg2, fs') \<Rightarrow> (Inr cfg2, fs')
                      | (Inl e, fs') \<Rightarrow> (Inr (cfg1\<lparr>Auth := (Auth cfg1)\<lparr>auth_LoadError := Some e\<rparr>\<rparr>), fs'))))"

definition Save :: "host \<Rightarrow> yaml \<Rightarrow> save_io \<Rightarrow> string \<Rightarrow> Config \<Rightarrow> files \<Rightarrow> (config_error + unit) \<times> files" where
  "Save h y io path0 c fs =
     (let path = (if path0 = [] then DefaultConfigPath h else path0)
      in if \<not> si_mkdir io then (Inl DirectoryFailed, fs)
         else (case ya_Marshal y (set_credentials [] [] c) of
                 None \<Rightarrow> (Inl MarshalFailed, fs)
               | Some data \<Rightarrow>
                   (case WriteFile (si_write io) path data fs of
                      (ok, fs') \<Rightarrow> (if ok then Inr () else Inl WriteFailed, fs'))))"

definition Print_config :: "yaml \<Rightarrow> Config \<Rightarrow> string" where
  "Print_config y c =
     (case ya_Marshal y (set_credentials ''[REDACTED]'' ''[REDACTED]'' c) of Some data \<Rightarrow> data | None \<Rightarrow> []) @ [CHR 0x0A]"

subsection \<open>What is saved is what is loaded\<close>

lemma scan_word_stop: "scan_word s = (w, r) \<Longrightarrow> r = [] \<or> 0 < ws_len r"
  by (induction s arbitrary: w r rule: scan_word.induct) (auto split: if_splits prod.splits)

lemma sscanf_pair_never: "sscanf_pair s = None"
proof -
  have "ws_len (CHR '':'' # r) = 0" for r
    by (simp add: ws_len_0_iff space_encodings_def)
  then have "snd (scan_word t) \<noteq> CHR '':'' # r" for t r
    using scan_word_stop [of t] by (cases "scan_word t") force
  then show ?thesis
    by (auto simp: sscanf_pair_def split: prod.splits list.splits) (metis snd_conv)+
qed

lemma splitFirst_sep: "c \<notin> set k \<Longrightarrow> splitFirst (k @ c # x) c = [k, x]"
proof -
  assume "c \<notin> set k"
  then have "takeWhile (\<lambda>d. d \<noteq> c) (k @ c # x) = k" by (subst takeWhile_append2) auto
  then show ?thesis by (simp add: splitFirst_def Let_def)
qed

lemma splitFirst_none: "c \<notin> set s \<Longrightarrow> splitFirst s c = [s]"
  by (simp add: splitFirst_def Let_def)

lemma parse_credentials_iff:
  "parse_credentials s = Some (k, x) \<longleftrightarrow> s = k @ CHR '':'' # x \<and> CHR '':'' \<notin> set k"
proof (cases "CHR '':'' \<in> set s")
  case True
  then obtain a b where ab: "s = a @ CHR '':'' # b" "CHR '':'' \<notin> set a" by (meson split_list_first)
  then have "parse_credentials s = Some (a, b)"
    by (simp add: parse_credentials_def sscanf_pair_never splitFirst_sep)
  then show ?thesis using ab by (auto simp: append_eq_append_conv2 Cons_eq_append_conv append_eq_Cons_conv)
next
  case False
  then show ?thesis by (auto simp: parse_credentials_def sscanf_pair_never splitFirst_none)
qed

definition same_machine :: "host \<Rightarrow> host \<Rightarrow> bool" where
  "same_machine h h' \<longleftrightarrow>
     ho_GOOS h' = ho_GOOS h \<and> ho_Hostname h' = ho_Hostname h \<and> ho_machine_id h' = ho_machine_id h \<and>
     ho_COMPUTERNAME h' = ho_COMPUTERNAME h"

lemma same_machine_key: "same_machine h h' \<Longrightarrow> getMachineKey h' = getMachineKey h"
  by (simp add: same_machine_def getMachineKey_def machine_name_def on_windows_def)

lemma length_getMachineKey: "length (getMachineKey h) = 32"
  by (simp add: getMachineKey_def length_sha256)

lemma decrypt_encrypt:
  assumes "encryptCredentials h (Some n) p = Inr e" "length n = 12" "same_machine h h'"
  shows "decryptCredentialsWithMigration h' e = Inr (p, False)"
proof -
  obtain sealed where s: "gcm_seal (getMachineKey h) n p = Some sealed" "e = b64_encode (n @ sealed)"
    using assms(1) by (auto simp: encryptCredentials_def split: option.splits)
  from gcm_open_seal [OF length_getMachineKey assms(2) s(1)] show ?thesis
    using s(2) assms(2) same_machine_key [OF assms(3)]
    by (simp add: decryptCredentialsWithMigration_def b64_decode_encode tryDecrypt_def)
qed

lemma key_path_set: "key_path h (set_credentials k x c) = key_path h c"
  by (simp add: key_path_def)

lemma LoadCredentials_current:
  assumes "fs (key_path h c) = Contents e" "decryptCredentialsWithMigration h e = Inr (k @ CHR '':'' # x, False)"
    "CHR '':'' \<notin> set k"
  shows "LoadCredentials h io c fs = (Inr (set_credentials k x c), fs)"
  using assms parse_credentials_iff [of "k @ CHR '':'' # x" k x] by (simp add: LoadCredentials_def Let_def)

lemma SaveCredentials_ok:
  assumes "SaveCredentials h io c fs = (Inr (), fs')" "auth_APIKey (Auth c) \<noteq> []" "auth_APISecret (Auth c) \<noteq> []"
  shows "\<exists>e. encryptCredentials h (si_nonce io) (auth_APIKey (Auth c) @ '':'' @ auth_APISecret (Auth c)) = Inr e \<and>
             fs' = fs(key_path h c := Contents e)"
  using assms
  by (auto simp: SaveCredentials_def WriteFile_def split: if_splits sum.splits file_write.splits)

lemma load_after_save:
  assumes "SaveCredentials h io c fs = (Inr (), fs')"
    and "auth_APIKey (Auth c) \<noteq> []" "auth_APISecret (Auth c) \<noteq> []"
    and "si_nonce io = Some n" "length n = 12"
    and "same_machine h h'" "key_path h' c' = key_path h c"
    and "auth_APIKey (Auth c) @ '':'' @ auth_APISecret (Auth c) = k @ CHR '':'' # x" "CHR '':'' \<notin> set k"
  shows "LoadCredentials h' io' c' fs' = (Inr (set_credentials k x c'), fs')"
proof -
  obtain e where e: "encryptCredentials h (Some n) (auth_APIKey (Auth c) @ '':'' @ auth_APISecret (Auth c)) = Inr e"
      "fs' = fs(key_path h c := Contents e)"
    using SaveCredentials_ok [OF assms(1-3)] assms(4) by auto
  show ?thesis
    using decrypt_encrypt [OF e(1) assms(5,6)] e(2) assms(7-) by (intro LoadCredentials_current) simp_all
qed

lemma save_succeeds:
  assumes "si_mkdir io" "si_nonce io = Some n" "si_write io = Written"
    "int (length (auth_APIKey (Auth c) @ '':'' @ auth_APISecret (Auth c))) \<le> gcm_max"
  shows "fst (SaveCredentials h io c fs) = Inr ()"
  using assms by (auto simp: SaveCredentials_def encryptCredentials_def gcm_seal_def WriteFile_def Let_def)

text \<open>
  C22. Credentials that were saved, by whatever user of the machine, are loaded again by every user of
  it who may read the file (its mode is not modelled), without touching it: the key is what comes before the first colon of what was saved, so
  they are the same exactly if the key has no colon.
\<close>

theorem credentials_round_trip:
  assumes "SaveCredentials h io c fs = (Inr (), fs')"
    and "auth_APIKey (Auth c) \<noteq> []" "auth_APISecret (Auth c) \<noteq> []"
    and "si_nonce io = Some n" "length n = 12"
    and "same_machine h h'" "key_path h' c' = key_path h c"
  shows "\<exists>k x. LoadCredentials h' io' c' fs' = (Inr (set_credentials k x c'), fs') \<and>
           k @ '':'' @ x = auth_APIKey (Auth c) @ '':'' @ auth_APISecret (Auth c) \<and>
           (k = auth_APIKey (Auth c) \<and> x = auth_APISecret (Auth c) \<longleftrightarrow> CHR '':'' \<notin> set (auth_APIKey (Auth c)))"
proof -
  let ?s = "auth_APIKey (Auth c) @ '':'' @ auth_APISecret (Auth c)"
  obtain k x where kx: "?s = k @ CHR '':'' # x" "CHR '':'' \<notin> set k"
    using split_list_first [of "CHR '':''" ?s] by auto
  have "k = auth_APIKey (Auth c) \<and> x = auth_APISecret (Auth c)" if "CHR '':'' \<notin> set (auth_APIKey (Auth c))"
    using parse_credentials_iff [of ?s k x] parse_credentials_iff [of ?s "auth_APIKey (Auth c)" "auth_APISecret (Auth c)"]
      kx that by simp
  with load_after_save [OF assms kx] show ?thesis using kx by (intro exI [of _ k] exI [of _ x]) auto
qed

definition example_host :: "string \<Rightarrow> host" where
  "example_host user =
     \<lparr>ho_GOOS = ''windows'', ho_Hostname = ''web-1'', ho_machine_id = None, ho_COMPUTERNAME = ''WEB-1'',
      ho_USERNAME = user, ho_ProgramData = ''C:/ProgramData''\<rparr>"

definition example_io :: save_io where
  "example_io = \<lparr>si_mkdir = True, si_nonce = Some (replicate 12 CHR ''n''), si_write = Written\<rparr>"

definition example_config :: Config where
  "example_config = set_credentials ''key-1'' ''secret-1'' (Default_config (example_host ''juanh''))"

lemma example_save:
  "\<exists>fs'. SaveCredentials (example_host ''juanh'') example_io example_config (\<lambda>_. NotExist) = (Inr (), fs')"
proof -
  have "fst (SaveCredentials (example_host ''juanh'') example_io example_config (\<lambda>_. NotExist)) = Inr ()"
    by (rule save_succeeds) (simp_all add: example_io_def example_config_def gcm_max_def)
  then show ?thesis by (metis prod.collapse)
qed

lemma example_facts:
  "auth_APIKey (Auth example_config) = ''key-1''" "auth_APISecret (Auth example_config) = ''secret-1''"
  "si_nonce example_io = Some (replicate 12 CHR ''n'')" "si_mkdir example_io" "si_write example_io = Written"
  "same_machine (example_host u) (example_host v)"
  "key_path (example_host v) (Default_config (example_host v)) = key_path (example_host u) example_config"
  by (simp_all add: example_config_def example_io_def same_machine_def example_host_def key_path_def
      Default_config_def defaultKeyPath_def on_windows_def program_file_def)

theorem credentials_round_trip_witness:
  "\<exists>fs'. SaveCredentials (example_host ''juanh'') example_io example_config (\<lambda>_. NotExist) = (Inr (), fs') \<and>
     LoadCredentials (example_host ''SYSTEM'') example_io (Default_config (example_host ''SYSTEM'')) fs' =
       (Inr (set_credentials ''key-1'' ''secret-1'' (Default_config (example_host ''SYSTEM''))), fs')"
proof -
  obtain fs' where s: "SaveCredentials (example_host ''juanh'') example_io example_config (\<lambda>_. NotExist) = (Inr (), fs')"
    using example_save by blast
  have "CHR '':'' \<notin> set ''key-1''" by simp
  then show ?thesis
    using s credentials_round_trip [OF s _ _ example_facts(3) _ example_facts(6,7), where io' = example_io]
    by (auto simp: example_facts)
qed

lemma tryDecrypt_length: "tryDecrypt ct (sha256 m) = Some p \<Longrightarrow> int (length p) \<le> gcm_max"
  by (auto simp: tryDecrypt_def length_sha256 split: if_splits intro!: gcm_open_length [of "sha256 m" "take 12 ct" "drop 12 ct"])

text \<open>
  Once credentials could be loaded, and written again where they were under the old key of the user,
  the file they are in is read by every user of the machine, to the same credentials, and is not
  written again.
\<close>

theorem credentials_migrate:
  assumes "LoadCredentials h io c fs = (Inr c1, fs1)"
    and "auth_APIKey (Auth c1) \<noteq> []" "auth_APISecret (Auth c1) \<noteq> []"
    and "si_mkdir io" "si_nonce io = Some n" "length n = 12" "si_write io = Written"
    and "same_machine h h'" "key_path h' c' = key_path h c"
  shows "LoadCredentials h' io' c' fs1 =
           (Inr (set_credentials (auth_APIKey (Auth c1)) (auth_APISecret (Auth c1)) c'), fs1)"
proof -
  let ?k = "auth_APIKey (Auth c1)" and ?x = "auth_APISecret (Auth c1)"
  obtain data p legacy where l: "fs (key_path h c) = Contents data"
      "decryptCredentialsWithMigration h data = Inr (p, legacy)" "parse_credentials p = Some (?k, ?x)"
      "fs1 = (if legacy then snd (SaveCredentials h io c1 fs) else fs)" "c1 = set_credentials ?k ?x c"
    using assms(1) by (auto simp: LoadCredentials_def Let_def split: file_read.splits sum.splits option.splits prod.splits)
  have p: "p = ?k @ CHR '':'' # ?x" "CHR '':'' \<notin> set ?k" using l(3) parse_credentials_iff by simp_all
  have path: "key_path h c1 = key_path h c" by (subst l(5)) (rule key_path_set)
  have "\<exists>e. fs1 (key_path h' c') = Contents e \<and> decryptCredentialsWithMigration h' e = Inr (p, False)"
  proof (cases legacy)
    case False
    then have "tryDecrypt (the (b64_decode data)) (getMachineKey h) = Some p" "b64_decode data \<noteq> None"
      using l(2) by (auto simp: decryptCredentialsWithMigration_def split: option.splits)
    then have "decryptCredentialsWithMigration h' data = Inr (p, False)"
      using same_machine_key [OF assms(8)] by (auto simp: decryptCredentialsWithMigration_def)
    then show ?thesis using l(1,4) False assms(9) by simp
  next
    case True
    have "int (length p) \<le> gcm_max"
      using l(2) tryDecrypt_length
      by (auto simp: decryptCredentialsWithMigration_def getMachineKey_def getMachineKeyLegacyV1_def split: option.splits)
    then obtain e where e: "encryptCredentials h (Some n) p = Inr e"
      by (auto simp: encryptCredentials_def gcm_seal_def Let_def)
    then have "fs1 = fs(key_path h c := Contents e)"
      using True l(4) assms(2-7) p(1) path by (simp add: SaveCredentials_def WriteFile_def)
    then show ?thesis using decrypt_encrypt [OF e assms(6,8)] assms(9) by simp
  qed
  then show ?thesis using LoadCredentials_current p by blast
qed

theorem credentials_migrate_witness:
  "\<exists>fs' fs1. SaveCredentials (example_host ''juanh'') example_io example_config (\<lambda>_. NotExist) = (Inr (), fs') \<and>
     LoadCredentials (example_host ''juanh'') example_io example_config fs' = (Inr example_config, fs1) \<and>
     LoadCredentials (example_host ''SYSTEM'') example_io (Default_config (example_host ''SYSTEM'')) fs1 =
       (Inr (set_credentials ''key-1'' ''secret-1'' (Default_config (example_host ''SYSTEM''))), fs1)"
proof -
  obtain fs' where s: "SaveCredentials (example_host ''juanh'') example_io example_config (\<lambda>_. NotExist) = (Inr (), fs')"
    using example_save by blast
  have l: "LoadCredentials (example_host ''juanh'') example_io example_config fs' = (Inr example_config, fs')"
    using load_after_save [OF s _ _ example_facts(3), of "example_host ''juanh''" example_config "''key-1''" "''secret-1''" example_io]
    by (simp add: example_facts)
  show ?thesis
    using s l credentials_migrate [OF l _ _ example_facts(4,3) _ example_facts(5,6,7), where io' = example_io]
    by (auto simp: example_facts)
qed

end
