(* ===== verification/Cli.thy ===== *)
theory Cli
  imports Config Paths
begin

text \<open>
  The commands that decide an agent's permission level and identity: \<open>permissions set\<close> and
  \<open>register\<close> (\<open>cmd/agent/permissions.go\<close>, \<open>runRegister\<close> in \<open>cmd/agent/main.go\<close>), the
  registration request (\<open>internal/agent/registration.go\<close>) and the checks before the agent starts
  (\<open>agentMainLoop\<close>). What the operator types is the first line of the input; the panel's reply and
  the operating system's answers are arguments.
\<close>

subsection \<open>Permission level commands\<close>

datatype cli_error =
    BadLevel permission_error
  | NotRoot
  | ConfigError config_error
  | NotConfirmed
  | AlreadyRegistered level level
  | RegistrationFailed string
  | SystemFailed string

datatype set_outcome = AlreadyAt level | SetTo level bool   \<comment> \<open>whether the service restarted\<close>

definition isRoot :: "host \<Rightarrow> int \<Rightarrow> bool" where
  "isRoot h euid \<longleftrightarrow> on_windows h \<or> euid = 0"

definition confirmLevel :: "string \<Rightarrow> level \<Rightarrow> bool" where
  "confirmLevel line l \<longleftrightarrow> trim_space line = l"

definition restartService :: "host \<Rightarrow> (string list \<Rightarrow> bool) \<Rightarrow> bool" where
  "restartService h run =
     (if ho_GOOS h = ''linux'' then run [''systemctl'', ''restart'', ''serverkit-agent'']
      else if on_windows h then run [''powershell'', ''-NoProfile'', ''-Command'', ''Restart-Service'', ''ServerKitAgent'']
      else False)"

definition config_path :: "host \<Rightarrow> string \<Rightarrow> string" where
  "config_path h cfgFile = (if cfgFile = [] then DefaultConfigPath h else cfgFile)"

definition runPermissionsSet :: "host \<Rightarrow> yaml \<Rightarrow> save_io \<Rightarrow> (string list \<Rightarrow> bool) \<Rightarrow> int \<Rightarrow> string \<Rightarrow>
    string \<Rightarrow> bool \<Rightarrow> string \<Rightarrow> files \<Rightarrow> (cli_error + set_outcome) \<times> files" where
  "runPermissionsSet h y io run euid cfgFile arg yes line fs =
     (case Parse arg of
        Inl e \<Rightarrow> (Inl (BadLevel e), fs)
      | Inr target \<Rightarrow>
          if \<not> isRoot h euid then (Inl NotRoot, fs)
          else (case Load h y io (config_path h cfgFile) fs of
                  (Inl e, fs1) \<Rightarrow> (Inl (ConfigError e), fs1)
                | (Inr cfg, fs1) \<Rightarrow>
                    (case PermissionLevel cfg of
                       Inl e \<Rightarrow> (Inl (BadLevel e), fs1)
                     | Inr cur \<Rightarrow>
                         if cur = target then (Inr (AlreadyAt cur), fs1)
                         else if \<not> yes \<and> \<not> confirmLevel line target then (Inl NotConfirmed, fs1)
                         else (case Save h y io (config_path h cfgFile) (cfg\<lparr>Permissions_Level := target\<rparr>) fs1 of
                                 (Inl e, fs2) \<Rightarrow> (Inl (ConfigError e), fs2)
                               | (Inr _, fs2) \<Rightarrow> (Inr (SetTo target (restartService h run)), fs2)))))"

definition promptLevel :: "string \<Rightarrow> cli_error + level" where
  "promptLevel line =
     (let s = trim_space line
      in if s = ''1'' then Inr Monitor else if s = ''2'' then Inr Protect else if s = ''3'' then Inr Full
         else map_sum BadLevel id (Parse s))"

definition resolveRegisterLevel :: "string \<Rightarrow> Config option \<Rightarrow> bool \<Rightarrow> string \<Rightarrow> cli_error + level" where
  "resolveRegisterLevel flag existing tty line =
     (let known = (case existing of Some c \<Rightarrow> agent_ID (Agent c) \<noteq> [] | None \<Rightarrow> False)
      in rbind (if known then map_sum BadLevel id (PermissionLevel (the existing)) else Inr []) (\<lambda>cur.
           if flag \<noteq> [] then
             rbind (map_sum BadLevel id (Parse flag)) (\<lambda>l.
               if known \<and> l \<noteq> cur then Inl (AlreadyRegistered cur l) else Inr l)
           else if known then Inr cur
           else if tty then promptLevel line
           else Inr Full))"

subsection \<open>Registration\<close>

record system_info =
  sy_hostname :: string
  sy_os :: string
  sy_platform :: string
  sy_platform_version :: string
  sy_architecture :: string
  sy_cpu_cores :: int
  sy_total_memory :: int
  sy_total_disk :: int

record registration_request =
  rq_url :: string
  rq_token :: string
  rq_name :: string
  rq_system_info :: system_info
  rq_agent_version :: string
  rq_permission_level :: "string option"

record registration_result =
  rr_AgentID :: string
  rr_Name :: string
  rr_APIKey :: string
  rr_APISecret :: string
  rr_WebSocketURL :: string

text \<open>What sending the request gives: a failure, or a status with the error and the result its body decodes to.\<close>

datatype reply = NoReply | Reply int string "registration_result option"

fun replace_first :: "string \<Rightarrow> string \<Rightarrow> string \<Rightarrow> string" where
  "replace_first old new [] = (if old = [] then new else [])"
| "replace_first old new (c # s) =
     (if prefix old (c # s) then new @ drop (length old) (c # s) else c # replace_first old new s)"

definition socket_url :: "string \<Rightarrow> string" where
  "socket_url url = replace_first ''http://'' ''ws://'' (replace_first ''https://'' ''wss://'' url)"

definition Register :: "string option \<Rightarrow> string \<Rightarrow> string \<Rightarrow> system_info option \<Rightarrow> string \<Rightarrow>
    (registration_request \<Rightarrow> reply) \<Rightarrow> string \<Rightarrow> string \<Rightarrow> string \<Rightarrow> string \<Rightarrow> cli_error + registration_result" where
  "Register hostname goos goarch collected version panel serverURL0 token name0 level =
     (let serverURL = trim_suffix serverURL0 ''/'';
          name = (if name0 = [] then (case hostname of None \<Rightarrow> ''unknown-server'' | Some n \<Rightarrow> n) else name0);
          info = (case collected of
                    Some i \<Rightarrow> i
                  | None \<Rightarrow> \<lparr>sy_hostname = name, sy_os = goos, sy_platform = [], sy_platform_version = [],
                            sy_architecture = goarch, sy_cpu_cores = 0, sy_total_memory = 0, sy_total_disk = 0\<rparr>);
          req = \<lparr>rq_url = serverURL @ ''/api/v1/servers/register'', rq_token = token, rq_name = name,
                 rq_system_info = info, rq_agent_version = version,
                 rq_permission_level = (if level = [] then None else Some level)\<rparr>
      in case panel req of
           NoReply \<Rightarrow> Inl (RegistrationFailed ''registration request failed'')
         | Reply status err result \<Rightarrow>
             if status \<noteq> 200 \<and> status \<noteq> 201 then
               Inl (RegistrationFailed (if err \<noteq> [] then ''registration failed: '' @ err
                                        else ''registration failed with status '' @ itoa status))
             else (case result of
                     None \<Rightarrow> Inl (RegistrationFailed ''failed to parse response'')
                   | Some r \<Rightarrow>
                       Inr (if rr_WebSocketURL r = [] then r\<lparr>rr_WebSocketURL := socket_url serverURL @ ''/agent/ws''\<rparr>
                            else r)))"

text \<open>\<open>runRegister\<close> and what \<open>pair\<close> does with the credentials it is given.\<close>

definition take_identity :: "host \<Rightarrow> string \<Rightarrow> string \<Rightarrow> registration_result \<Rightarrow> Config \<Rightarrow> Config" where
  "take_identity h cfgFile url r cfg =
     (let cfg1 = (set_credentials (rr_APIKey r) (rr_APISecret r) cfg)
            \<lparr>Server := (Server cfg)\<lparr>server_URL := url\<rparr>,
             Agent := \<lparr>agent_ID = rr_AgentID r, agent_Name = rr_Name r\<rparr>\<rparr>
      in if cfgFile = [] then cfg1
         else cfg1\<lparr>Auth := (Auth cfg1)\<lparr>auth_KeyFile := Join [Dir (config_path h cfgFile), ''agent.key'']\<rparr>\<rparr>)"

definition save_identity :: "host \<Rightarrow> yaml \<Rightarrow> save_io \<Rightarrow> save_io \<Rightarrow> string \<Rightarrow> Config \<Rightarrow> files \<Rightarrow>
    (cli_error + unit) \<times> files" where
  "save_identity h y io io2 cfgFile cfg fs =
     (case Save h y io (config_path h cfgFile) cfg fs of
        (Inl e, fs1) \<Rightarrow> (Inl (ConfigError e), fs1)
      | (Inr _, fs1) \<Rightarrow>
          (case SaveCredentials h io2 cfg fs1 of
             (Inl e, fs2) \<Rightarrow> (Inl (ConfigError e), fs2)
           | (Inr _, fs2) \<Rightarrow> (Inr (), fs2)))"

definition runRegister :: "host \<Rightarrow> yaml \<Rightarrow> save_io \<Rightarrow> save_io \<Rightarrow> string \<Rightarrow> bool \<Rightarrow> string \<Rightarrow>
    (string \<Rightarrow> cli_error + registration_result) \<Rightarrow> string \<Rightarrow> files \<Rightarrow> (cli_error + level) \<times> files" where
  "runRegister h y io io2 cfgFile tty line register levelFlag fs =
     (case Load h y io cfgFile fs of
        (loaded, fs1) \<Rightarrow>
          (let existing = (case loaded of Inr c \<Rightarrow> Some c | Inl _ \<Rightarrow> None);
               cfg = (case loaded of Inr c \<Rightarrow> c | Inl _ \<Rightarrow> Default_config h)
           in case resolveRegisterLevel levelFlag existing tty line of
                Inl e \<Rightarrow> (Inl e, fs1)
              | Inr level \<Rightarrow>
                  (case register level of
                     Inl e \<Rightarrow> (Inl e, fs1)
                   | Inr r \<Rightarrow>
                       (case save_identity h y io io2 cfgFile
                               (take_identity h cfgFile (rr_WebSocketURL r) r (cfg\<lparr>Permissions_Level := level\<rparr>)) fs1 of
                          (Inl e, fs2) \<Rightarrow> (Inl e, fs2)
                        | (Inr _, fs2) \<Rightarrow> (Inr level, fs2)))))"

definition pair_save :: "host \<Rightarrow> yaml \<Rightarrow> save_io \<Rightarrow> save_io \<Rightarrow> string \<Rightarrow> string \<Rightarrow> registration_result \<Rightarrow> files \<Rightarrow>
    (cli_error + unit) \<times> files" where
  "pair_save h y io io2 cfgFile serverURL creds fs =
     (case Load h y io cfgFile fs of
        (loaded, fs1) \<Rightarrow>
          (let cfg = (case loaded of Inr c \<Rightarrow> c | Inl _ \<Rightarrow> Default_config h)
           in save_identity h y io io2 cfgFile
                (take_identity h cfgFile (socket_url (trim_suffix serverURL ''/'') @ ''/agent'') creds cfg) fs1))"

subsection \<open>Starting the agent\<close>

text \<open>What \<open>agentMainLoop\<close> checks before it runs the agent: the configuration it runs with.\<close>

definition agentMainLoop_checks :: "host \<Rightarrow> yaml \<Rightarrow> save_io \<Rightarrow> string \<Rightarrow> bool \<Rightarrow> bool \<Rightarrow> (int \<Rightarrow> bool) \<Rightarrow> files \<Rightarrow>
    (cli_error + Config) \<times> files" where
  "agentMainLoop_checks h y io cfgFile debugMode alreadyRunning port_free fs =
     (case Load h y io cfgFile fs of
        (Inl e, fs1) \<Rightarrow> (Inl (ConfigError e), fs1)
      | (Inr cfg0, fs1) \<Rightarrow>
          (let cfg = (if debugMode then cfg0\<lparr>Logging := (Logging cfg0)\<lparr>log_Level := ''debug''\<rparr>\<rparr> else cfg0)
           in (if alreadyRunning then Inl (SystemFailed ''another agent service is already running'')
               else if ipc_Enabled (IPC cfg) \<and> \<not> port_free (ipc_Port (IPC cfg)) then Inl (SystemFailed ''IPC port in use'')
               else if agent_ID (Agent cfg) = [] then Inl (SystemFailed ''agent not registered'')
               else Inr cfg, fs1)))"

subsection \<open>The level of a registered agent\<close>

lemma Load_config_path: "Load h y io (config_path h cfgFile) fs = Load h y io cfgFile fs"
  by (simp add: Load_def config_path_def)

lemma Parse_result: "Parse s = Inr l \<Longrightarrow> l \<in> {Monitor, Protect, Full}"
  by (auto simp: Parse_def level_rank_def Let_def split: if_splits)

lemma PermissionLevel_level:
  assumes "PermissionLevel c = Inr l"
  shows "l \<in> {Monitor, Protect, Full}" "Permissions_Level c' = l \<Longrightarrow> PermissionLevel c' = Inr l"
proof -
  show l: "l \<in> {Monitor, Protect, Full}"
    using assms Parse_result by (auto simp: PermissionLevel_def split: if_splits)
  have "trim_space l \<noteq> [] \<and> Parse l = Inr l"
    using l by (elim insertE emptyE) (simp only:, code_simp)+
  then show "Permissions_Level c' = l \<Longrightarrow> PermissionLevel c' = Inr l" by (simp add: PermissionLevel_def)
qed

lemma take_identity_level [simp]: "Permissions_Level (take_identity h f url r c) = Permissions_Level c"
  by (simp add: take_identity_def Let_def)

text \<open>The configuration that a command leaves in the file, and where the credentials then go.\<close>

definition leaves :: "host \<Rightarrow> yaml \<Rightarrow> save_io \<Rightarrow> save_io \<Rightarrow> string \<Rightarrow> files \<Rightarrow> files \<Rightarrow> Config \<Rightarrow> bool" where
  "leaves h y io io2 path fs1 fs' c \<longleftrightarrow>
     (\<exists>fs2. Save h y io path c fs1 = (Inr (), fs2) \<and> SaveCredentials h io2 c fs2 = (Inr (), fs'))"

lemma save_identity_leaves:
  "save_identity h y io io2 f c fs1 = (Inr u, fs') \<Longrightarrow> leaves h y io io2 (config_path h f) fs1 fs' c"
  by (auto simp: save_identity_def leaves_def split: prod.splits sum.splits)

lemma resolve_registered:
  "agent_ID (Agent c) \<noteq> [] \<Longrightarrow> PermissionLevel c = Inr cur \<Longrightarrow>
   resolveRegisterLevel flag (Some c) tty line = Inr l \<Longrightarrow> l = cur \<and> (flag \<noteq> [] \<longrightarrow> Parse flag = Inr cur)"
  by (auto simp: resolveRegisterLevel_def result_simps map_sum_def split: if_splits sum.splits)

lemma set_writes:
  assumes "Load h y io path fs = (Inr cfg, fs1)" "PermissionLevel cfg = Inr cur" "path = config_path h f"
    and "runPermissionsSet h y io run euid f arg yes line fs = (r, fs2)" "fs2 \<noteq> fs" "fs2 \<noteq> fs1"
  shows "\<exists>target. isRoot h euid \<and> Parse arg = Inr target \<and> target \<noteq> cur \<and> (yes \<or> trim_space line = target) \<and>
           fs2 = snd (Save h y io path (cfg\<lparr>Permissions_Level := target\<rparr>) fs1)"
  using assms by (auto simp: runPermissionsSet_def confirmLevel_def split: sum.splits if_splits prod.splits)

lemma register_keeps:
  assumes "Load h y io f fs = (Inr cfg, fs1)" "PermissionLevel cfg = Inr cur" "agent_ID (Agent cfg) \<noteq> []"
    and run: "runRegister h y io io2 f tty line register flag fs = (Inr l, fs2)"
  shows "l = cur \<and> (flag \<noteq> [] \<longrightarrow> Parse flag = Inr cur) \<and>
     (\<exists>c. leaves h y io io2 (config_path h f) fs1 fs2 c \<and> PermissionLevel c = Inr cur)"
proof -
  obtain r where r: "resolveRegisterLevel flag (Some cfg) tty line = Inr l"
      "save_identity h y io io2 f (take_identity h f (rr_WebSocketURL r) r (cfg\<lparr>Permissions_Level := l\<rparr>)) fs1 = (Inr (), fs2)"
    using run assms(1) by (auto simp: runRegister_def Let_def split: sum.splits prod.splits)
  note l = resolve_registered [OF assms(3,2) r(1)]
  have "PermissionLevel (take_identity h f (rr_WebSocketURL r) r (cfg\<lparr>Permissions_Level := l\<rparr>)) = Inr cur"
    using l by (intro PermissionLevel_level(2) [OF assms(2)]) simp
  then show ?thesis using l save_identity_leaves [OF r(2)] by blast
qed

lemma pair_keeps:
  assumes "Load h y io f fs = (Inr cfg, fs1)" "PermissionLevel cfg = Inr cur"
    and run: "pair_save h y io io2 f url creds fs = (Inr u, fs2)"
  shows "\<exists>c. leaves h y io io2 (config_path h f) fs1 fs2 c \<and> PermissionLevel c = Inr cur"
proof -
  let ?c = "take_identity h f (socket_url (trim_suffix url ''/'') @ ''/agent'') creds cfg"
  have "save_identity h y io io2 f ?c fs1 = (Inr u, fs2)" using run assms(1) by (simp add: pair_save_def)
  moreover have "PermissionLevel ?c = Inr cur" using assms(2) unfolding PermissionLevel_def take_identity_level .
  ultimately show ?thesis using save_identity_leaves by blast
qed

text \<open>
  C4. The level of a registered agent is changed by \<open>permissions set\<close> only: as root, to a level
  other than the one in force that was typed again or asked for without confirmation, and nothing
  else of the configuration changes. Registering and pairing again keep the level, whatever flag is
  given and whatever the panel answers; a flag that names another level fails.
\<close>

theorem level_changes_only_locally:
  assumes "Load h y io (config_path h f) fs = (Inr cfg, fs1)" "PermissionLevel cfg = Inr cur"
    and "agent_ID (Agent cfg) \<noteq> []"
  shows
    "(\<forall>run euid arg yes line r fs2. runPermissionsSet h y io run euid f arg yes line fs = (r, fs2) \<and> fs2 \<notin> {fs, fs1} \<longrightarrow>
       (\<exists>target. isRoot h euid \<and> Parse arg = Inr target \<and> target \<noteq> cur \<and> (yes \<or> trim_space line = target) \<and>
         fs2 = snd (Save h y io (config_path h f) (cfg\<lparr>Permissions_Level := target\<rparr>) fs1))) \<and>
     (\<forall>tty line register flag l fs2. runRegister h y io io2 f tty line register flag fs = (Inr l, fs2) \<longrightarrow>
       l = cur \<and> (flag \<noteq> [] \<longrightarrow> Parse flag = Inr cur) \<and>
       (\<exists>c. leaves h y io io2 (config_path h f) fs1 fs2 c \<and> PermissionLevel c = Inr cur)) \<and>
     (\<forall>url creds u fs2. pair_save h y io io2 f url creds fs = (Inr u, fs2) \<longrightarrow>
       (\<exists>c. leaves h y io io2 (config_path h f) fs1 fs2 c \<and> PermissionLevel c = Inr cur))"
proof (intro conjI allI impI)
  note load = assms(1) [unfolded Load_config_path]
  show "\<exists>target. isRoot h euid \<and> Parse arg = Inr target \<and> target \<noteq> cur \<and> (yes \<or> trim_space line = target) \<and>
         fs2 = snd (Save h y io (config_path h f) (cfg\<lparr>Permissions_Level := target\<rparr>) fs1)"
    if "runPermissionsSet h y io run euid f arg yes line fs = (r, fs2) \<and> fs2 \<notin> {fs, fs1}"
    for run euid arg yes line r fs2
    using set_writes [OF assms(1,2) refl, of run euid arg yes line r fs2] that by blast
qed (use register_keeps [OF assms(1) [unfolded Load_config_path] assms(2,3)]
         pair_keeps [OF assms(1) [unfolded Load_config_path] assms(2)] in blast)+

text \<open>A file system with one configuration, and a stand-in for the YAML library that keeps the level.\<close>

definition example_yaml :: yaml where
  "example_yaml =
     \<lparr>ya_Unmarshal = \<lambda>data c. Some (c\<lparr>Agent := \<lparr>agent_ID = ''agent-1'', agent_Name = ''web-1''\<rparr>, Permissions_Level := data\<rparr>),
      ya_Marshal = \<lambda>c. Some (Permissions_Level c)\<rparr>"

definition example_files :: files where
  "example_files p = (if p = ''c.yaml'' then Contents ''monitor'' else NotExist)"

definition example_registration :: "string \<Rightarrow> cli_error + registration_result" where
  "example_registration level =
     Inr \<lparr>rr_AgentID = ''agent-2'', rr_Name = ''web-1'', rr_APIKey = [], rr_APISecret = [], rr_WebSocketURL = ''wss://p''\<rparr>"

theorem level_changes_only_locally_witness:
  "\<exists>cfg fs2. Load (example_host ''root'') example_yaml example_io (config_path (example_host ''root'') ''c.yaml'') example_files =
       (Inr cfg, example_files) \<and>
     runRegister (example_host ''root'') example_yaml example_io example_io ''c.yaml'' True ''full'' example_registration []
       example_files = (Inr Monitor, fs2) \<and>
     (\<exists>c. leaves (example_host ''root'') example_yaml example_io example_io ''c.yaml'' example_files fs2 c \<and>
        PermissionLevel c = Inr Monitor)"
proof -
  let ?h = "example_host ''root''"
  have p: "config_path ?h ''c.yaml'' = ''c.yaml''" by (simp add: config_path_def)
  obtain cfg where l: "Load ?h example_yaml example_io ''c.yaml'' example_files = (Inr cfg, example_files)"
      "Permissions_Level cfg = Monitor" "agent_ID (Agent cfg) \<noteq> []"
    by (simp add: Load_def LoadCredentials_def example_files_def example_yaml_def Default_config_def key_path_def
        defaultKeyPath_def on_windows_def example_host_def program_file_def)
  have "trim_space Monitor \<noteq> [] \<and> Parse Monitor = Inr Monitor" by code_simp
  then have lev: "PermissionLevel cfg = Inr Monitor" using l(2) by (simp add: PermissionLevel_def)
  obtain fs2 where r: "runRegister ?h example_yaml example_io example_io ''c.yaml'' True ''full'' example_registration []
      example_files = (Inr Monitor, fs2)"
    using l lev by (simp add: runRegister_def resolveRegisterLevel_def example_registration_def save_identity_def Save_def
        example_io_def example_yaml_def WriteFile_def SaveCredentials_def take_identity_def Let_def config_path_def)
  have l': "Load ?h example_yaml example_io (config_path ?h ''c.yaml'') example_files = (Inr cfg, example_files)"
    unfolding p by (rule l(1))
  from level_changes_only_locally [OF l' lev l(3), THEN conjunct2, THEN conjunct1, rule_format, OF r]
  have "\<exists>c. leaves ?h example_yaml example_io example_io ''c.yaml'' example_files fs2 c \<and> PermissionLevel c = Inr Monitor"
    unfolding p by (elim conjE)
  with l' r show ?thesis by - (rule exI [of _ cfg], rule exI [of _ fs2], intro conjI)
qed

end
