(* ===== verification/X25519.thy ===== *)
theory X25519
  imports Prelude
begin

text \<open>
  The X25519 function of \<open>crypto/ecdh\<close> on the base point: the Montgomery ladder over the integers
  modulo the prime, as RFC 7748 gives it. The definitions compute the published test values.
\<close>

definition field_prime :: int where
  "field_prime = 2 ^ 255 - 19"

definition le_value :: "string \<Rightarrow> int" where
  "le_value s = foldr (\<lambda>c v. of_char c + 256 * v) s 0"

primrec le_bytes :: "nat \<Rightarrow> int \<Rightarrow> string" where
  "le_bytes 0 v = []"
| "le_bytes (Suc n) v = char_of (v mod 256) # le_bytes n (v div 256)"

primrec power_mod :: "nat \<Rightarrow> int \<Rightarrow> int \<Rightarrow> int" where
  "power_mod 0 b e = 1"
| "power_mod (Suc n) b e =
     (let r = power_mod n (b * b mod field_prime) (e div 2)
      in if e mod 2 = 1 then b * r mod field_prime else r)"

definition clamp_scalar :: "string \<Rightarrow> int" where
  "clamp_scalar s = le_value s mod 2 ^ 254 div 8 * 8 + 2 ^ 254"

type_synonym ladder_state = "int \<times> int \<times> int \<times> int"

definition ladder_step :: "int \<Rightarrow> ladder_state \<Rightarrow> ladder_state" where
  "ladder_step u st =
     (case st of (x2, z2, x3, z3) \<Rightarrow>
        (let a = x2 + z2; b = x2 - z2; aa = a * a mod field_prime; bb = b * b mod field_prime; e = aa - bb;
             da = (x3 - z3) * a mod field_prime; cb = (x3 + z3) * b mod field_prime
         in (aa * bb mod field_prime, e * (aa + 121665 * e) mod field_prime,
             (da + cb) * (da + cb) mod field_prime, u * ((da - cb) * (da - cb) mod field_prime) mod field_prime)))"

definition swap_sides :: "ladder_state \<Rightarrow> ladder_state" where
  "swap_sides st = (case st of (x2, z2, x3, z3) \<Rightarrow> (x3, z3, x2, z2))"

primrec ladder :: "nat \<Rightarrow> int \<Rightarrow> int \<Rightarrow> ladder_state \<Rightarrow> ladder_state" where
  "ladder 0 k u st = st"
| "ladder (Suc t) k u st =
     ladder t k u
       (if k div 2 ^ t mod 2 = 1 then swap_sides (ladder_step u (swap_sides st)) else ladder_step u st)"

definition x25519_base :: "string \<Rightarrow> string" where
  "x25519_base scalar =
     (case ladder 255 (clamp_scalar scalar) 9 (1, 0, 9, 1) of
        (x2, z2, _, _) \<Rightarrow> le_bytes 32 (x2 * power_mod 255 z2 (field_prime - 2) mod field_prime))"

lemma length_le_bytes [simp]: "length (le_bytes n v) = n"
  by (induction n arbitrary: v) simp_all

lemma length_x25519_base: "length (x25519_base s) = 32"
  by (simp add: x25519_base_def split: prod.splits)

end
