(* ===== verification/Wireguard.thy ===== *)
theory Wireguard
  imports Effects Netip Paths Base64 X25519 Servicecheck "HOL-Library.AList"
begin

text \<open>
  WireGuard interfaces and the forwarders behind them, \<open>internal/wireguard/wireguard.go\<close>,
  \<open>wireguard_linux.go\<close> and the handlers of \<open>internal/agent/wireguard_handlers.go\<close>. The tools
  \<open>wg\<close> and \<open>ip\<close> are the host's; which addresses can be listened on, and how files and the random
  source answer, are arguments. A forwarder is its listener and where it proxies to; the bytes it
  copies are not modelled.
\<close>

subsection \<open>Requests and their validation\<close>

datatype wg_error =
    WgBadParams
  | InvalidName string | InvalidIP string | InvalidPort int | InvalidTarget int
  | KeyNotBase64 | KeyLength int | InvalidCIDR string | InvalidEndpoint string | EmptyHost string | InvalidEndpointPort string
  | NoAllowedIPs | InvalidKeepalive int
  | NoPrivateKey string | InvalidPrivateKey
  | RandomFailed | KeyDirFailed | KeyWriteFailed
  | ToolFailed cmd exec_error string     \<comment> \<open>the command and what it wrote to standard error\<close>
  | ListenFailed string int

record InterfaceUpRequest =
  up_Name :: string
  up_Address :: string
  up_ListenPort :: int

record PeerSetRequest =
  ps_Interface :: string
  ps_PublicKey :: string
  ps_AllowedIPs :: "string list"
  ps_Endpoint :: string
  ps_PersistentKeepalive :: int

record PeerRemoveRequest =
  pr_Interface :: string
  pr_PublicKey :: string

record ForwardRequest =
  fr_Interface :: string
  fr_ListenIP :: string
  fr_ListenPort :: int
  fr_TargetHost :: string
  fr_TargetPort :: int

record PeerStatus =
  pe_PublicKey :: string
  pe_Endpoint :: string
  pe_AllowedIPs :: "string list"
  pe_LatestHandshake :: int
  pe_TransferRx :: int
  pe_TransferTx :: int
  pe_PersistentKeepalive :: int

record InterfaceStatus =
  is_Name :: string
  is_PublicKey :: string
  is_ListenPort :: int
  is_Up :: bool
  is_Peers :: "PeerStatus list"

type_synonym 'a checked = "wg_error + 'a"

abbreviation require :: "bool \<Rightarrow> wg_error \<Rightarrow> unit checked" where
  "require b e \<equiv> (if b then Inr () else Inl e)"

definition iface_char :: "char \<Rightarrow> bool" where
  "iface_char c =
     (let n = of_char c :: nat in
      65 \<le> n \<and> n \<le> 90 \<or> 97 \<le> n \<and> n \<le> 122 \<or> is_digit c \<or> c = CHR ''_'' \<or> c = CHR ''-'')"

definition validIfaceName :: "string \<Rightarrow> unit checked" where
  "validIfaceName name = require (1 \<le> length name \<and> length name \<le> 15 \<and> list_all iface_char name) (InvalidName name)"

definition validPublicKey :: "string \<Rightarrow> unit checked" where
  "validPublicKey key =
     (case b64_decode key of
        None \<Rightarrow> Inl KeyNotBase64
      | Some raw \<Rightarrow> require (length raw = 32) (KeyLength (int (length raw))))"

text \<open>\<open>net.ParseIP\<close> and \<open>net.ParseCIDR\<close>: an address without zone; an address, a slash and a decimal length.\<close>

definition ParseIP :: "string \<Rightarrow> addr option" where
  "ParseIP s = (case ParseAddr s of None \<Rightarrow> None | Some a \<Rightarrow> if Zone a \<noteq> [] then None else Some a)"

definition cidr_ok :: "string \<Rightarrow> bool" where
  "cidr_ok s =
     (let a = takeWhile (\<lambda>c. c \<noteq> CHR ''/'') s; mask = drop (length a + 1) s
      in a \<noteq> s \<and>
         (case ParseIP a of
            None \<Rightarrow> False
          | Some ip \<Rightarrow> mask \<noteq> [] \<and> (case digits_val 0 mask of None \<Rightarrow> False | Some n \<Rightarrow> n \<le> BitLen ip)))"

definition validCIDR :: "string \<Rightarrow> unit checked" where
  "validCIDR s = require (cidr_ok s) (InvalidCIDR s)"

text \<open>\<open>fmt.Sscanf(s, "%d", &p)\<close>: blanks, a sign and the digits at the start; what follows is not looked at.\<close>

definition sscanf_int :: "string \<Rightarrow> int option" where
  "sscanf_int s =
     (let t = trim_left s;
          neg = (t \<noteq> [] \<and> hd t = CHR ''-''); signed = (t \<noteq> [] \<and> (hd t = CHR ''-'' \<or> hd t = CHR ''+''));
          ds = takeWhile is_digit (if signed then tl t else t)
      in case (if ds = [] then None else digits_val 0 ds) of
           None \<Rightarrow> None
         | Some n \<Rightarrow> let v = (if neg then - int n else int n) in if - (2 ^ 63) \<le> v \<and> v < 2 ^ 63 then Some v else None)"

definition validEndpoint :: "string \<Rightarrow> unit checked" where
  "validEndpoint ep =
     (case SplitHostPort ep of
        None \<Rightarrow> Inl (InvalidEndpoint ep)
      | Some (host, port) \<Rightarrow>
          if host = [] then Inl (EmptyHost ep)
          else (case sscanf_int port of
                  None \<Rightarrow> Inl (InvalidEndpointPort port)
                | Some p \<Rightarrow> require (1 \<le> p \<and> p \<le> 65535) (InvalidEndpointPort port)))"

definition validateInterfaceUp :: "InterfaceUpRequest \<Rightarrow> unit checked" where
  "validateInterfaceUp r =
     rbind (validIfaceName (up_Name r)) (\<lambda>_.
     rbind (validCIDR (up_Address r)) (\<lambda>_.
     require (0 \<le> up_ListenPort r \<and> up_ListenPort r \<le> 65535) (InvalidPort (up_ListenPort r))))"

primrec all_valid :: "('a \<Rightarrow> unit checked) \<Rightarrow> 'a list \<Rightarrow> unit checked" where
  "all_valid f [] = Inr ()"
| "all_valid f (x # xs) = rbind (f x) (\<lambda>_. all_valid f xs)"

definition validatePeerSet :: "PeerSetRequest \<Rightarrow> unit checked" where
  "validatePeerSet r =
     rbind (validIfaceName (ps_Interface r)) (\<lambda>_.
     rbind (validPublicKey (ps_PublicKey r)) (\<lambda>_.
     rbind (require (ps_AllowedIPs r \<noteq> []) NoAllowedIPs) (\<lambda>_.
     rbind (all_valid (\<lambda>ip. validCIDR (trim_space ip)) (ps_AllowedIPs r)) (\<lambda>_.
     rbind (if ps_Endpoint r \<noteq> [] then validEndpoint (ps_Endpoint r) else Inr ()) (\<lambda>_.
     require (0 \<le> ps_PersistentKeepalive r \<and> ps_PersistentKeepalive r \<le> 65535)
       (InvalidKeepalive (ps_PersistentKeepalive r)))))))"

definition normalized :: "ForwardRequest \<Rightarrow> ForwardRequest" where
  "normalized r =
     r\<lparr>fr_TargetHost := (if fr_TargetHost r = [] then ''127.0.0.1'' else fr_TargetHost r),
       fr_TargetPort := (if fr_TargetPort r = 0 then fr_ListenPort r else fr_TargetPort r)\<rparr>"

definition validateForward :: "ForwardRequest \<Rightarrow> unit checked" where
  "validateForward r =
     rbind (validIfaceName (fr_Interface r)) (\<lambda>_.
     rbind (require (ParseIP (fr_ListenIP r) \<noteq> None) (InvalidIP (fr_ListenIP r))) (\<lambda>_.
     rbind (require (1 \<le> fr_ListenPort r \<and> fr_ListenPort r \<le> 65535) (InvalidPort (fr_ListenPort r))) (\<lambda>_.
     require (0 \<le> fr_TargetPort r \<and> fr_TargetPort r \<le> 65535) (InvalidTarget (fr_TargetPort r)))))"

definition forwardKey :: "string \<Rightarrow> int \<Rightarrow> string" where
  "forwardKey iface port = iface @ '':'' @ itoa port"

subsection \<open>Keys\<close>

definition PublicKeyFromPrivate :: "string \<Rightarrow> string checked" where
  "PublicKeyFromPrivate privB64 =
     (case b64_decode (trim_space privB64) of
        None \<Rightarrow> Inl InvalidPrivateKey
      | Some raw \<Rightarrow> if length raw \<noteq> 32 then Inl InvalidPrivateKey else Inr (b64_encode (x25519_base raw)))"

text \<open>From the 32 random bytes: the private and the public key.\<close>

definition GenerateKeypair :: "string option \<Rightarrow> (string \<times> string) checked" where
  "GenerateKeypair random =
     (case random of
        None \<Rightarrow> Inl RandomFailed
      | Some raw \<Rightarrow> Inr (b64_encode raw, b64_encode (x25519_base raw)))"

subsection \<open>The manager\<close>

record binding =
  bi_ip :: addr
  bi_port :: int
  bi_target :: "string \<times> int"

text \<open>
  The commands run so far, the key files by path, the registered forwarders, and the listeners that
  are open: each has a number of its own.
\<close>

record manager =
  wg_trace :: trace
  wg_files :: "string \<rightharpoonup> string"
  wg_forwards :: "(string \<times> nat) list"
  wg_open :: "(nat \<times> binding) list"
  wg_next :: nat

type_synonym ('s, 'a) wg_act = "'s \<Rightarrow> 'a checked \<times> 's"

definition New_manager :: manager where
  "New_manager = \<lparr>wg_trace = [], wg_files = Map.empty, wg_forwards = [], wg_open = [], wg_next = 0\<rparr>"

definition defaultKeyDir :: string where "defaultKeyDir = ''/etc/serverkit-agent/wireguard''"

definition key_dir :: "string \<Rightarrow> string" where
  "key_dir keyDir = (if keyDir = [] then defaultKeyDir else keyDir)"

definition keyPath :: "string \<Rightarrow> string \<Rightarrow> string" where
  "keyPath keyDir iface = Join [key_dir keyDir, iface @ ''.key'']"

definition Available :: "env \<Rightarrow> bool" where
  "Available env \<longleftrightarrow> env_path env ''wg'' \<and> env_path env ''ip''"

definition wg_run :: "env \<Rightarrow> string \<Rightarrow> string list \<Rightarrow> (manager, string) wg_act" where
  "wg_run env name args m =
     (let c = Run name args; r = env_run env (wg_trace m) c
      in (case rr_err r of None \<Rightarrow> Inr (rr_out r) | Some e \<Rightarrow> Inl (ToolFailed c e (trim_space (rr_stderr r))),
          m\<lparr>wg_trace := wg_trace m @ [c]\<rparr>))"

definition wg_bind :: "(manager, 'a) wg_act \<Rightarrow> ('a \<Rightarrow> (manager, 'b) wg_act) \<Rightarrow> (manager, 'b) wg_act" where
  "wg_bind f g m = (case f m of (Inl e, m') \<Rightarrow> (Inl e, m') | (Inr x, m') \<Rightarrow> g x m')"

definition wg_return :: "'a \<Rightarrow> (manager, 'a) wg_act" where
  "wg_return x m = (Inr x, m)"

definition wg_check :: "'a checked \<Rightarrow> (manager, 'a) wg_act" where
  "wg_check r m = (r, m)"

definition Keygen :: "string \<Rightarrow> string option \<Rightarrow> bool \<Rightarrow> bool \<Rightarrow> string \<Rightarrow> (manager, string) wg_act" where
  "Keygen keyDir random mkdir_ok write_ok iface =
     wg_bind (wg_check (validIfaceName iface)) (\<lambda>_.
     wg_bind (wg_check (GenerateKeypair random)) (\<lambda>(priv, pub).
     wg_bind (wg_check (require mkdir_ok KeyDirFailed)) (\<lambda>_ m.
       if \<not> write_ok then (Inl KeyWriteFailed, m)
       else (Inr pub, m\<lparr>wg_files := (wg_files m)(keyPath keyDir iface \<mapsto> priv @ [CHR 0x0A])\<rparr>))))"

definition linkExists :: "env \<Rightarrow> string \<Rightarrow> (manager, bool) wg_act" where
  "linkExists env iface m =
     (case wg_run env ''ip'' [''link'', ''show'', iface] m of (r, m') \<Rightarrow> (Inr (\<not> isl r), m'))"

definition InterfaceUp :: "env \<Rightarrow> string \<Rightarrow> InterfaceUpRequest \<Rightarrow> (manager, unit) wg_act" where
  "InterfaceUp env keyDir r =
     wg_bind (wg_check (validateInterfaceUp r)) (\<lambda>_.
     wg_bind (\<lambda>m. (require (wg_files m (keyPath keyDir (up_Name r)) \<noteq> None) (NoPrivateKey (up_Name r)), m)) (\<lambda>_.
     wg_bind (linkExists env (up_Name r)) (\<lambda>there.
     wg_bind (if there then wg_return [] else wg_run env ''ip'' [''link'', ''add'', ''dev'', up_Name r, ''type'', ''wireguard'']) (\<lambda>_.
     wg_bind (wg_run env ''wg''
        ([''set'', up_Name r] @ (if 0 < up_ListenPort r then [''listen-port'', itoa (up_ListenPort r)] else []) @
         [''private-key'', keyPath keyDir (up_Name r)])) (\<lambda>_.
     wg_bind (wg_run env ''ip'' [''address'', ''replace'', up_Address r, ''dev'', up_Name r]) (\<lambda>_.
     wg_bind (wg_run env ''ip'' [''link'', ''set'', up_Name r, ''up'']) (\<lambda>_. wg_return ())))))))"

subsection \<open>Forwarders\<close>

text \<open>Two listeners cannot have the same port on the same address, or on all addresses.\<close>

definition conflict :: "binding \<Rightarrow> binding \<Rightarrow> bool" where
  "conflict a b \<longleftrightarrow> bi_port a = bi_port b \<and>
     (Unmap (bi_ip a) = Unmap (bi_ip b) \<or> IsUnspecified (Unmap (bi_ip a)) \<or> IsUnspecified (Unmap (bi_ip b)))"

definition Listen :: "(addr \<Rightarrow> int \<Rightarrow> bool) \<Rightarrow> binding \<Rightarrow> manager \<Rightarrow> nat option \<times> manager" where
  "Listen free b m =
     (if free (bi_ip b) (bi_port b) \<and> \<not> list_ex (\<lambda>(i, c). conflict b c) (wg_open m)
      then (Some (wg_next m), m\<lparr>wg_open := wg_open m @ [(wg_next m, b)], wg_next := wg_next m + 1\<rparr>)
      else (None, m))"

definition CloseListener :: "nat \<Rightarrow> manager \<Rightarrow> manager" where
  "CloseListener l m = m\<lparr>wg_open := filter (\<lambda>(i, b). i \<noteq> l) (wg_open m)\<rparr>"

definition binding_of :: "ForwardRequest \<Rightarrow> binding" where
  "binding_of r =
     \<lparr>bi_ip = the (ParseIP (fr_ListenIP r)), bi_port = fr_ListenPort r, bi_target = (fr_TargetHost r, fr_TargetPort r)\<rparr>"

definition Forward :: "(addr \<Rightarrow> int \<Rightarrow> bool) \<Rightarrow> ForwardRequest \<Rightarrow> (manager, unit) wg_act" where
  "Forward free r0 =
     wg_bind (wg_check (validateForward r0)) (\<lambda>_ m.
       let r = normalized r0; key = forwardKey (fr_Interface r) (fr_ListenPort r)
       in case Listen free (binding_of r) m of
            (None, m1) \<Rightarrow> (Inl (ListenFailed (fr_ListenIP r) (fr_ListenPort r)), m1)
          | (Some l, m1) \<Rightarrow>
              (let m2 = (case map_of (wg_forwards m1) key of Some old \<Rightarrow> CloseListener old m1 | None \<Rightarrow> m1)
               in (Inr (), m2\<lparr>wg_forwards := AList.update key l (wg_forwards m2)\<rparr>)))"

definition Unforward :: "string \<Rightarrow> int \<Rightarrow> (manager, unit) wg_act" where
  "Unforward iface port =
     wg_bind (wg_check (validIfaceName iface)) (\<lambda>_ m.
       let key = forwardKey iface port
       in (Inr (),
           case map_of (wg_forwards m) key of
             Some l \<Rightarrow> (CloseListener l m)\<lparr>wg_forwards := AList.delete key (wg_forwards m)\<rparr>
           | None \<Rightarrow> m))"

text \<open>The range over the map deletes the keys of the interface and closes their listeners, in no particular order.\<close>

definition closeForwards :: "string \<Rightarrow> manager \<Rightarrow> manager" where
  "closeForwards iface m =
     (let mine = (\<lambda>(k, l). prefix (iface @ '':'') k); ls = map snd (filter mine (wg_forwards m))
      in m\<lparr>wg_open := filter (\<lambda>(i, b). i \<notin> set ls) (wg_open m),
           wg_forwards := filter (\<lambda>f. \<not> mine f) (wg_forwards m)\<rparr>)"

definition InterfaceDown :: "env \<Rightarrow> string \<Rightarrow> (manager, unit) wg_act" where
  "InterfaceDown env iface =
     wg_bind (wg_check (validIfaceName iface)) (\<lambda>_.
     wg_bind (\<lambda>m. (Inr (), closeForwards iface m)) (\<lambda>_.
     wg_bind (linkExists env iface) (\<lambda>there.
       if \<not> there then wg_return ()
       else wg_bind (wg_run env ''ip'' [''link'', ''del'', ''dev'', iface]) (\<lambda>_. wg_return ()))))"

subsection \<open>Peers and status\<close>

definition SetPeer :: "env \<Rightarrow> PeerSetRequest \<Rightarrow> (manager, unit) wg_act" where
  "SetPeer env r =
     wg_bind (wg_check (validatePeerSet r)) (\<lambda>_.
     wg_bind (wg_run env ''wg''
        ([''set'', ps_Interface r, ''peer'', ps_PublicKey r, ''allowed-ips'', join '','' (ps_AllowedIPs r)] @
         (if ps_Endpoint r \<noteq> [] then [''endpoint'', ps_Endpoint r] else []) @
         (if 0 < ps_PersistentKeepalive r then [''persistent-keepalive'', itoa (ps_PersistentKeepalive r)] else []))) (\<lambda>_.
     wg_return ()))"

definition RemovePeer :: "env \<Rightarrow> PeerRemoveRequest \<Rightarrow> (manager, unit) wg_act" where
  "RemovePeer env r =
     wg_bind (wg_check (validIfaceName (pr_Interface r))) (\<lambda>_.
     wg_bind (wg_check (validPublicKey (pr_PublicKey r))) (\<lambda>_.
     wg_bind (wg_run env ''wg'' [''set'', pr_Interface r, ''peer'', pr_PublicKey r, ''remove'']) (\<lambda>_. wg_return ())))"

text \<open>The value that \<open>strconv\<close> returns also when it fails: the nearest bound for a number out of range.\<close>

definition atoiSafe :: "string \<Rightarrow> int" where
  "atoiSafe s =
     (let t = trim_space s; neg = (t \<noteq> [] \<and> hd t = CHR ''-''); signed = (neg \<or> t \<noteq> [] \<and> hd t = CHR ''+'');
          ds = (if signed then tl t else t)
      in case (if ds = [] then None else digits_val 0 ds) of
           None \<Rightarrow> 0
         | Some n \<Rightarrow> if neg then max (- int n) (- (2 ^ 63)) else min (int n) (2 ^ 63 - 1))"

definition parse_peer :: "string \<Rightarrow> PeerStatus option" where
  "parse_peer line =
     (let f = split_on (CHR 0x09) line
      in if length f < 8 then None
         else Some
           \<lparr>pe_PublicKey = f ! 0,
            pe_Endpoint = (if f ! 2 \<noteq> ''(none)'' then f ! 2 else []),
            pe_AllowedIPs =
              (if f ! 3 \<noteq> ''(none)'' \<and> f ! 3 \<noteq> []
               then filter (\<lambda>a. a \<noteq> []) (map trim_space (split_on (CHR '','') (f ! 3))) else []),
            pe_LatestHandshake = atoiSafe (f ! 4), pe_TransferRx = atoiSafe (f ! 5), pe_TransferTx = atoiSafe (f ! 6),
            pe_PersistentKeepalive = (if f ! 7 \<noteq> ''off'' then atoiSafe (f ! 7) else 0)\<rparr>)"

definition parse_interface :: "string \<Rightarrow> InterfaceStatus \<Rightarrow> InterfaceStatus" where
  "parse_interface line st =
     (let f = split_on (CHR 0x09) line
      in if line = [] then st
         else st\<lparr>is_PublicKey := (if 2 \<le> length f then f ! 1 else is_PublicKey st),
                 is_ListenPort := (if 3 \<le> length f then atoiSafe (f ! 2) else is_ListenPort st)\<rparr>)"

definition parseWgDump :: "string \<Rightarrow> InterfaceStatus \<Rightarrow> InterfaceStatus" where
  "parseWgDump out st =
     (let lines = split_on (CHR 0x0A) (trim_space out); st1 = parse_interface (hd lines) st
      in st1\<lparr>is_Peers := is_Peers st1 @ List.map_filter parse_peer (filter (\<lambda>l. l \<noteq> []) (tl lines))\<rparr>)"

definition Status :: "env \<Rightarrow> string \<Rightarrow> (manager, InterfaceStatus) wg_act" where
  "Status env iface =
     wg_bind (wg_check (validIfaceName iface)) (\<lambda>_ m.
       let st = \<lparr>is_Name = iface, is_PublicKey = [], is_ListenPort = 0, is_Up = False, is_Peers = []\<rparr>
       in case wg_run env ''wg'' [''show'', iface, ''dump''] m of
            (Inl _, m') \<Rightarrow> (Inr st, m')
          | (Inr out, m') \<Rightarrow> (Inr (parseWgDump out (st\<lparr>is_Up := True\<rparr>)), m'))"

subsection \<open>The handlers\<close>

text \<open>
  What the parameters of an action decode to, and what it answers: the public key, the status or success.
\<close>

datatype wg_request =
    ReqKeygen string | ReqUp InterfaceUpRequest | ReqDown string | ReqPeerSet PeerSetRequest
  | ReqPeerRemove PeerRemoveRequest | ReqStatus string | ReqForward ForwardRequest | ReqUnforward string int

datatype wg_answer = Success | PublicKey string | StatusOf InterfaceStatus

record wg_world =
  ww_env :: env
  ww_keyDir :: string
  ww_random :: "string option"
  ww_mkdir :: bool
  ww_write :: bool
  ww_free :: "addr \<Rightarrow> int \<Rightarrow> bool"

definition wg_map :: "('a \<Rightarrow> 'b) \<Rightarrow> (manager, 'a) wg_act \<Rightarrow> (manager, 'b) wg_act" where
  "wg_map f x = wg_bind x (\<lambda>v. wg_return (f v))"

fun wg_call :: "wg_world \<Rightarrow> wg_request \<Rightarrow> (manager, wg_answer) wg_act" where
  "wg_call w (ReqKeygen i) = wg_map PublicKey (Keygen (ww_keyDir w) (ww_random w) (ww_mkdir w) (ww_write w) i)"
| "wg_call w (ReqUp r) = wg_map (\<lambda>_. Success) (InterfaceUp (ww_env w) (ww_keyDir w) r)"
| "wg_call w (ReqDown i) = wg_map (\<lambda>_. Success) (InterfaceDown (ww_env w) i)"
| "wg_call w (ReqPeerSet r) = wg_map (\<lambda>_. Success) (SetPeer (ww_env w) r)"
| "wg_call w (ReqPeerRemove r) = wg_map (\<lambda>_. Success) (RemovePeer (ww_env w) r)"
| "wg_call w (ReqStatus i) = wg_map StatusOf (Status (ww_env w) i)"
| "wg_call w (ReqForward r) = wg_map (\<lambda>_. Success) (Forward (ww_free w) r)"
| "wg_call w (ReqUnforward i p) = wg_map (\<lambda>_. Success) (Unforward i p)"

definition handleWireguard :: "wg_world \<Rightarrow> wg_request option \<Rightarrow> (manager, wg_answer) wg_act" where
  "handleWireguard w params =
     (case params of None \<Rightarrow> wg_check (Inl WgBadParams) | Some r \<Rightarrow> wg_call w r)"

subsection \<open>The table of forwarders\<close>

text \<open>
  The forwarders as a table from interface and port to what is forwarded there. A forwarder is added if
  the request is valid, the address can be listened on and no forwarder of the table has it: the code
  frees the address of the entry it replaces only after it listens, so that it cannot replace one by
  another on the same address, although the comment at \<open>wireguard.go:127\<close> says that it does.
\<close>

type_synonym forward_table = "string \<times> int \<rightharpoonup> binding"

datatype forward_op =
    DoForward "addr \<Rightarrow> int \<Rightarrow> bool" ForwardRequest
  | DoUnforward string int
  | DoDown env string

definition valid_name :: "string \<Rightarrow> bool" where
  "valid_name iface \<longleftrightarrow> validIfaceName iface = Inr ()"

definition addable :: "(addr \<Rightarrow> int \<Rightarrow> bool) \<Rightarrow> ForwardRequest \<Rightarrow> forward_table \<Rightarrow> bool" where
  "addable free r t \<longleftrightarrow> validateForward r = Inr () \<and>
     (let b = binding_of (normalized r)
      in free (bi_ip b) (bi_port b) \<and> (\<forall>c \<in> ran t. \<not> conflict b c))"

fun spec_step :: "forward_op \<Rightarrow> forward_table \<Rightarrow> forward_table" where
  "spec_step (DoForward free r) t =
     (if addable free r t then t((fr_Interface r, fr_ListenPort r) \<mapsto> binding_of (normalized r)) else t)"
| "spec_step (DoUnforward iface port) t = (if valid_name iface then t((iface, port) := None) else t)"
| "spec_step (DoDown env iface) t = (if valid_name iface then (\<lambda>(i, p). if i = iface then None else t (i, p)) else t)"

fun impl_step :: "forward_op \<Rightarrow> manager \<Rightarrow> manager" where
  "impl_step (DoForward free r) m = snd (Forward free r m)"
| "impl_step (DoUnforward iface port) m = snd (Unforward iface port m)"
| "impl_step (DoDown env iface) m = snd (InterfaceDown env iface m)"

definition table :: "manager \<Rightarrow> forward_table" where
  "table m = (\<lambda>(iface, port).
     case map_of (wg_forwards m) (forwardKey iface port) of None \<Rightarrow> None | Some l \<Rightarrow> map_of (wg_open m) l)"

text \<open>Every open listener is registered once, under the key of an interface's port.\<close>

definition forwards_inv :: "manager \<Rightarrow> bool" where
  "forwards_inv m \<longleftrightarrow>
     distinct (map fst (wg_open m)) \<and> (\<forall>i \<in> fst ` set (wg_open m). i < wg_next m) \<and>
     distinct (map fst (wg_forwards m)) \<and>
     (\<forall>k k' l. map_of (wg_forwards m) k = Some l \<and> map_of (wg_forwards m) k' = Some l \<longrightarrow> k = k') \<and>
     ran (map_of (wg_forwards m)) = fst ` set (wg_open m) \<and>
     (\<forall>k \<in> dom (map_of (wg_forwards m)). \<exists>iface port. valid_name iface \<and> k = forwardKey iface port) \<and>
     sorted_wrt (\<lambda>(i, c) (j, b). \<not> conflict b c) (wg_open m)"

lemma forwardKey_inject: "forwardKey i p = forwardKey j q \<longleftrightarrow> i = j \<and> p = q"
proof
  assume "forwardKey i p = forwardKey j q"
  then have "last_colon (forwardKey i p) = last_colon (forwardKey j q)" by simp
  then show "i = j \<and> p = q"
    using last_colon_append [OF itoa_no_colon] by (simp add: forwardKey_def itoa_inject)
qed simp

lemma valid_name_no_colon: "valid_name i \<Longrightarrow> CHR '':'' \<notin> set i"
  by (auto simp: valid_name_def validIfaceName_def list_all_iff iface_char_def is_digit_def split: if_splits)

lemma forwardKey_prefix:
  assumes "valid_name i" "valid_name j"
  shows "prefix (j @ '':'') (forwardKey i p) \<longleftrightarrow> i = j"
proof
  assume "prefix (j @ '':'') (forwardKey i p)"
  then obtain r where "i @ CHR '':'' # itoa p = j @ CHR '':'' # r" by (auto simp: forwardKey_def prefix_def)
  then have "takeWhile (\<lambda>c. c \<noteq> CHR '':'') (i @ CHR '':'' # itoa p) = takeWhile (\<lambda>c. c \<noteq> CHR '':'') (j @ CHR '':'' # r)" by simp
  moreover have "takeWhile (\<lambda>c. c \<noteq> CHR '':'') (i @ CHR '':'' # s) = i" if "valid_name i" for i s
    using valid_name_no_colon [OF that] by (subst takeWhile_append2) auto
  ultimately show "i = j" using assms by simp
qed (simp add: forwardKey_def)

lemma map_of_filter_key: "map_of (filter (\<lambda>(k, v). P k) al) k = (if P k then map_of al k else None)"
  by (induction al) auto

lemma map_of_filter_fst: "map_of (filter (\<lambda>f. P (fst f)) al) k = (if P k then map_of al k else None)"
  by (induction al) auto

lemma forwards_invD:
  assumes "forwards_inv m"
  shows "distinct (map fst (wg_open m))" "i \<in> fst ` set (wg_open m) \<Longrightarrow> i < wg_next m"
    "distinct (map fst (wg_forwards m))"
    "map_of (wg_forwards m) k = Some l \<Longrightarrow> map_of (wg_forwards m) k' = Some l \<Longrightarrow> k = k'"
    "ran (map_of (wg_forwards m)) = fst ` set (wg_open m)"
    "map_of (wg_forwards m) k = Some l \<Longrightarrow> \<exists>iface port. valid_name iface \<and> k = forwardKey iface port"
    "sorted_wrt (\<lambda>(i, c) (j, b). \<not> conflict b c) (wg_open m)"
  using assms unfolding forwards_inv_def by blast+

lemma ran_table:
  assumes inv: "forwards_inv m"
  shows "ran (table m) = snd ` set (wg_open m)"
proof (intro equalityI subsetI)
  fix b assume "b \<in> ran (table m)"
  then obtain l where "map_of (wg_open m) l = Some b" by (auto simp: ran_def table_def split: option.splits)
  then have "(l, b) \<in> set (wg_open m)" by (rule map_of_SomeD)
  then show "b \<in> snd ` set (wg_open m)" by (rule image_eqI [rotated]) simp
next
  fix b assume "b \<in> snd ` set (wg_open m)"
  then obtain l where l: "(l, b) \<in> set (wg_open m)" by auto
  then have "l \<in> fst ` set (wg_open m)" by (rule image_eqI [rotated]) simp
  then obtain k where k: "map_of (wg_forwards m) k = Some l"
    unfolding forwards_invD(5) [OF inv, symmetric] by (auto simp: ran_def)
  then obtain i p where "k = forwardKey i p" using forwards_invD(6) [OF inv] by blast
  moreover have "map_of (wg_open m) l = Some b" using l forwards_invD(1) [OF inv] by simp
  ultimately have "table m (i, p) = Some b" using k by (simp add: table_def)
  then show "b \<in> ran (table m)" by (rule ranI)
qed

lemma Forward_result:
  assumes "forwards_inv m"
  shows "Forward free r m =
     (let b = binding_of (normalized r); key = forwardKey (fr_Interface r) (fr_ListenPort r)
      in if addable free r (table m)
         then (Inr (),
               m\<lparr>wg_open := filter (\<lambda>(i, c). Some i \<noteq> map_of (wg_forwards m) key) (wg_open m @ [(wg_next m, b)]),
                 wg_next := wg_next m + 1, wg_forwards := AList.update key (wg_next m) (wg_forwards m)\<rparr>)
         else (Inl (case validateForward r of Inl e \<Rightarrow> e | Inr _ \<Rightarrow> ListenFailed (fr_ListenIP r) (fr_ListenPort r)), m))"
proof -
  have n: "fr_Interface (normalized r) = fr_Interface r" "fr_ListenPort (normalized r) = fr_ListenPort r"
      "fr_ListenIP (normalized r) = fr_ListenIP r"
    by (simp_all add: normalized_def)
  have "list_ex (\<lambda>(i, c). conflict b c) (wg_open m) \<longleftrightarrow> (\<exists>c \<in> ran (table m). conflict b c)" for b
    unfolding ran_table [OF assms] by (force simp: list_ex_iff)
  then show ?thesis
    by (auto simp: Forward_def wg_bind_def wg_check_def Let_def n Listen_def addable_def CloseListener_def
        split: sum.splits option.splits)
qed

text \<open>Forwarders go with their listeners, and one comes with its own.\<close>

lemma remove_forwards:
  assumes inv: "forwards_inv m"
    and op: "wg_open m' = filter (\<lambda>(i, b). \<not> (\<exists>k. P k \<and> map_of (wg_forwards m) k = Some i)) (wg_open m)"
    and fw: "map_of (wg_forwards m') = (\<lambda>k. if P k then None else map_of (wg_forwards m) k)"
      "distinct (map fst (wg_forwards m'))" "wg_next m' = wg_next m"
  shows "forwards_inv m'" "table m' = (\<lambda>(i, p). if P (forwardKey i p) then None else table m (i, p))"
proof -
  note D = forwards_invD [OF inv]
  have fst_op: "fst ` set (wg_open m') = {i \<in> fst ` set (wg_open m). \<not> (\<exists>k. P k \<and> map_of (wg_forwards m) k = Some i)}"
    unfolding op by force
  have "ran (map_of (wg_forwards m')) = fst ` set (wg_open m')"
    unfolding fst_op fw(1) D(5) [symmetric] by (auto simp: ran_def dest: D(4))
  then show "forwards_inv m'"
    unfolding forwards_inv_def
    using D(1,7) D(2) fw(2,3) fst_op D(4,6)
    by (auto simp: op fw(1) distinct_map_filter sorted_wrt_filter split: if_splits)
  have lk: "map_of (wg_open m') l = map_of (wg_open m) l" if "map_of (wg_forwards m) k = Some l" "\<not> P k" for k l
  proof -
    have "\<not> (\<exists>k. P k \<and> map_of (wg_forwards m) k = Some l)" using D(4) that by blast
    then show ?thesis unfolding op by (subst map_of_filter_key) simp
  qed
  show "table m' = (\<lambda>(i, p). if P (forwardKey i p) then None else table m (i, p))"
    by (rule ext) (auto simp: table_def fw(1) lk split: option.splits)
qed

lemma add_forward:
  assumes inv: "forwards_inv m" and name: "valid_name iface"
    and new: "map_of (wg_forwards m) (forwardKey iface port) = None" "\<forall>c \<in> snd ` set (wg_open m). \<not> conflict b c"
    and op: "wg_open m' = wg_open m @ [(wg_next m, b)]" "wg_next m' = wg_next m + 1"
    and fw: "map_of (wg_forwards m') = (map_of (wg_forwards m))(forwardKey iface port \<mapsto> wg_next m)"
      "distinct (map fst (wg_forwards m'))"
  shows "forwards_inv m'" "table m' = (table m)((iface, port) \<mapsto> b)"
proof -
  note D = forwards_invD [OF inv]
  have fresh: "wg_next m \<notin> fst ` set (wg_open m)" using D(2) by blast
  then have unused: "map_of (wg_forwards m) k \<noteq> Some (wg_next m)" for k
    unfolding D(5) [symmetric] by (blast intro: ranI)
  have "distinct (map fst (wg_open m'))" using D(1) fresh by (simp add: op)
  moreover have "\<forall>i \<in> fst ` set (wg_open m'). i < wg_next m'" using D(2) by (auto simp: op less_Suc_eq)
  moreover have "\<forall>k k' l. map_of (wg_forwards m') k = Some l \<and> map_of (wg_forwards m') k' = Some l \<longrightarrow> k = k'"
    using D(4) unused by (auto simp: fw(1) split: if_splits)
  moreover have "ran (map_of (wg_forwards m')) = fst ` set (wg_open m')"
    using new(1) D(5) by (simp add: fw(1) op)
  moreover have "\<forall>k \<in> dom (map_of (wg_forwards m')). \<exists>iface port. valid_name iface \<and> k = forwardKey iface port"
    using D(6) name by (auto simp: fw(1) split: if_splits)
  moreover have "sorted_wrt (\<lambda>(i, c) (j, b). \<not> conflict b c) (wg_open m')"
    using D(7) new(2) by (auto simp: op sorted_wrt_append)
  ultimately show "forwards_inv m'" unfolding forwards_inv_def using fw(2) by blast
  have b: "map_of (wg_open m') (wg_next m) = Some b"
  proof -
    have "map_of (wg_open m) (wg_next m) = None" using fresh by (simp add: map_of_eq_None_iff)
    then show ?thesis by (simp add: op map_add_def)
  qed
  have lk: "map_of (wg_open m') l = map_of (wg_open m) l" if "map_of (wg_forwards m) k = Some l" for k l
  proof -
    have "l \<noteq> wg_next m" using that unused by blast
    then show ?thesis by (simp add: op map_add_def split: option.splits)
  qed
  show "table m' = (table m)((iface, port) \<mapsto> b)"
  proof (rule ext, clarify)
    fix i p
    show "table m' (i, p) = ((table m)((iface, port) \<mapsto> b)) (i, p)"
    proof (cases "i = iface \<and> p = port")
      case False
      then show ?thesis
        by (cases "map_of (wg_forwards m) (forwardKey i p)") (auto simp: table_def fw(1) forwardKey_inject lk)
    qed (simp add: table_def fw(1) b)
  qed
qed

lemma forwards_inv_New: "forwards_inv New_manager" "table New_manager = Map.empty"
  by (auto simp: forwards_inv_def New_manager_def table_def)

lemma forwards_trace:
  "wg_open m' = wg_open m \<Longrightarrow> wg_forwards m' = wg_forwards m \<Longrightarrow> wg_next m' = wg_next m \<Longrightarrow>
   (forwards_inv m' \<longleftrightarrow> forwards_inv m) \<and> table m' = table m"
  by (simp add: forwards_inv_def table_def cong: option.case_cong)

lemma wg_run_forwards:
  "wg_open (snd (wg_run env n a m)) = wg_open m" "wg_forwards (snd (wg_run env n a m)) = wg_forwards m"
  "wg_next (snd (wg_run env n a m)) = wg_next m"
  by (simp_all add: wg_run_def Let_def)

lemma InterfaceDown_forwards:
  "snd (InterfaceDown env iface m) = m \<and> \<not> valid_name iface \<or>
   valid_name iface \<and>
   (let m' = snd (InterfaceDown env iface m); c = closeForwards iface m
    in wg_open m' = wg_open c \<and> wg_forwards m' = wg_forwards c \<and> wg_next m' = wg_next c)"
proof (cases "validIfaceName iface")
  case (Inr u)
  let ?c = "closeForwards iface m"
  have "\<exists>b m1. linkExists env iface ?c = (Inr b, m1) \<and> m1 = snd (wg_run env ''ip'' [''link'', ''show'', iface] ?c)"
    by (simp add: linkExists_def split: prod.splits)
  then show ?thesis
    using Inr by (auto simp: InterfaceDown_def wg_bind_def wg_check_def wg_return_def valid_name_def Let_def
        wg_run_forwards split: prod.splits sum.splits) (metis snd_conv wg_run_forwards)+
qed (simp add: InterfaceDown_def wg_bind_def wg_check_def valid_name_def)

lemma Forward_step:
  assumes inv: "forwards_inv m"
  shows "forwards_inv (snd (Forward free r m)) \<and>
         table (snd (Forward free r m)) = spec_step (DoForward free r) (table m)"
proof (cases "addable free r (table m)")
  case True
  let ?key = "forwardKey (fr_Interface r) (fr_ListenPort r)" and ?b = "binding_of (normalized r)"
  note D = forwards_invD [OF inv]
  let ?r = "m\<lparr>wg_open := filter (\<lambda>(i, c). Some i \<noteq> map_of (wg_forwards m) ?key) (wg_open m),
              wg_forwards := AList.delete ?key (wg_forwards m)\<rparr>"
  have r: "forwards_inv ?r" "table ?r = (\<lambda>(i, p). if ?key = forwardKey i p then None else table m (i, p))"
    by (rule remove_forwards [OF inv, where P = "\<lambda>k. ?key = k"];
        force simp: AList.delete_conv' AList.distinct_delete D(3))+
  have fresh: "map_of (wg_forwards m) ?key \<noteq> Some (wg_next m)"
    using D(2,5) by (metis less_irrefl ranI)
  have name: "valid_name (fr_Interface r)"
    using True by (auto simp: addable_def validateForward_def valid_name_def result_simps)
  have free: "\<forall>c \<in> snd ` set (wg_open ?r). \<not> conflict ?b c"
    using True by (auto simp: addable_def Let_def ran_table [OF inv])
  have f: "snd (Forward free r m) =
      m\<lparr>wg_open := wg_open ?r @ [(wg_next m, ?b)], wg_next := wg_next m + 1,
        wg_forwards := AList.update ?key (wg_next m) (wg_forwards m)\<rparr>"
    using True fresh by (simp add: Forward_result [OF inv] Let_def)
  have "forwards_inv (snd (Forward free r m)) \<and>
      table (snd (Forward free r m)) = (table ?r)((fr_Interface r, fr_ListenPort r) \<mapsto> ?b)"
    unfolding f
    by (intro conjI; rule add_forward [OF r(1) name _ free, where port = "fr_ListenPort r"])
       (simp_all add: AList.delete_conv' AList.update_conv' AList.distinct_update D(3))
  then show ?thesis
    using True by (auto simp: r(2) forwardKey_inject)
next
  case False
  then show ?thesis by (simp add: Forward_result [OF inv] Let_def inv)
qed

lemma Unforward_step:
  assumes inv: "forwards_inv m"
  shows "forwards_inv (snd (Unforward iface port m)) \<and>
         table (snd (Unforward iface port m)) = spec_step (DoUnforward iface port) (table m)"
proof (cases "valid_name iface")
  case True
  let ?key = "forwardKey iface port" and ?m = "snd (Unforward iface port m)"
  have m: "?m = (case map_of (wg_forwards m) ?key of
        Some l \<Rightarrow> (CloseListener l m)\<lparr>wg_forwards := AList.delete ?key (wg_forwards m)\<rparr> | None \<Rightarrow> m)"
    using True by (simp add: Unforward_def wg_bind_def wg_check_def valid_name_def Let_def)
  have "forwards_inv ?m \<and> table ?m = (\<lambda>(i, p). if ?key = forwardKey i p then None else table m (i, p))"
  proof (cases "map_of (wg_forwards m) ?key")
    case None
    have "table m = (\<lambda>(i, p). if ?key = forwardKey i p then None else table m (i, p))"
      using None by (intro ext) (auto simp: table_def)
    then show ?thesis using None inv m by simp
  next
    case (Some l)
    let ?r = "(CloseListener l m)\<lparr>wg_forwards := AList.delete ?key (wg_forwards m)\<rparr>"
    have "wg_open ?r = filter (\<lambda>(i, b). \<not> (\<exists>k. ?key = k \<and> map_of (wg_forwards m) k = Some i)) (wg_open m)"
      by (auto simp: Some CloseListener_def intro: filter_cong)
    moreover have "map_of (wg_forwards ?r) = (\<lambda>k. if ?key = k then None else map_of (wg_forwards m) k)"
      by (auto simp: AList.delete_conv')
    moreover have "distinct (map fst (wg_forwards ?r))" "wg_next ?r = wg_next m"
      by (simp_all add: CloseListener_def AList.distinct_delete forwards_invD(3) [OF inv])
    ultimately have "forwards_inv ?r" "table ?r = (\<lambda>(i, p). if ?key = forwardKey i p then None else table m (i, p))"
      by (rule remove_forwards [OF inv])+
    then show ?thesis using m Some by simp
  qed
  then show ?thesis using True by (auto simp: forwardKey_inject)
qed (simp add: Unforward_def wg_bind_def wg_check_def valid_name_def inv split: sum.splits)

lemma InterfaceDown_step:
  assumes inv: "forwards_inv m"
  shows "forwards_inv (snd (InterfaceDown env iface m)) \<and>
         table (snd (InterfaceDown env iface m)) = spec_step (DoDown env iface) (table m)"
proof (cases "valid_name iface")
  case True
  let ?c = "closeForwards iface m" and ?P = "\<lambda>k. prefix (iface @ '':'') k"
  note D = forwards_invD [OF inv]
  have in_ls: "i \<in> set (map snd (filter (\<lambda>(k, l). ?P k) (wg_forwards m))) \<longleftrightarrow>
      (\<exists>k. ?P k \<and> map_of (wg_forwards m) k = Some i)" for i
    using map_of_eq_Some_iff [OF D(3)] by force
  have c: "forwards_inv ?c" "table ?c = (\<lambda>(i, p). if ?P (forwardKey i p) then None else table m (i, p))"
  proof -
    have "wg_open ?c = filter (\<lambda>(i, b). \<not> (\<exists>k. ?P k \<and> map_of (wg_forwards m) k = Some i)) (wg_open m)"
      unfolding in_ls [symmetric] by (simp add: closeForwards_def Let_def)
    moreover have "map_of (wg_forwards ?c) = (\<lambda>k. if ?P k then None else map_of (wg_forwards m) k)"
    proof (rule ext)
      show "map_of (wg_forwards ?c) k = (if ?P k then None else map_of (wg_forwards m) k)" for k
        using map_of_filter_fst [of "\<lambda>k. \<not> ?P k" "wg_forwards m" k]
        by (simp add: closeForwards_def Let_def case_prod_beta)
    qed
    moreover have "distinct (map fst (wg_forwards ?c))" "wg_next ?c = wg_next m"
      using D(3) by (simp_all add: closeForwards_def Let_def distinct_map_filter)
    ultimately show "forwards_inv ?c" "table ?c = (\<lambda>(i, p). if ?P (forwardKey i p) then None else table m (i, p))"
      by (rule remove_forwards [OF inv])+
  qed
  have "?P (forwardKey i p) \<longleftrightarrow> i = iface" if some: "table m (i, p) \<noteq> None" for i p
  proof -
    obtain l where "map_of (wg_forwards m) (forwardKey i p) = Some l" using some by (auto simp: table_def split: option.splits)
    then obtain j q where "valid_name j" "forwardKey i p = forwardKey j q" using D(6) by blast
    then show ?thesis using forwardKey_prefix [OF _ True] by (simp add: forwardKey_inject)
  qed
  then have "(if ?P (forwardKey i p) then None else table m (i, p)) = (if i = iface then None else table m (i, p))" for i p
    by (cases "table m (i, p)") auto
  then have "table ?c = spec_step (DoDown env iface) (table m)"
    using True unfolding c(2) by (simp add: fun_eq_iff)
  then show ?thesis
    using c(1) InterfaceDown_forwards [of env iface m] True
      forwards_trace [of "snd (InterfaceDown env iface m)" ?c] by (simp add: Let_def)
next
  case False
  then show ?thesis using InterfaceDown_forwards [of env iface m] inv by simp
qed

lemma impl_step_refines:
  "forwards_inv m \<Longrightarrow> forwards_inv (impl_step x m) \<and> table (impl_step x m) = spec_step x (table m)"
  using Forward_step Unforward_step InterfaceDown_step by (cases x) (simp_all del: spec_step.simps)

lemma manager_refines:
  "forwards_inv (fold impl_step ops New_manager) \<and>
   table (fold impl_step ops New_manager) = fold spec_step ops Map.empty"
proof -
  have "forwards_inv (fold impl_step ops m0) \<and> table (fold impl_step ops m0) = fold spec_step ops (table m0)"
    if "forwards_inv m0" for m0
    using that impl_step_refines by (induction ops arbitrary: m0) simp_all
  then show ?thesis using forwards_inv_New by simp
qed

text \<open>
  A request that repeats a forwarder, or only changes where it forwards to, fails and leaves it as it
  was.
\<close>

lemma forward_not_replaced:
  assumes "forwards_inv m" "table m (fr_Interface r, fr_ListenPort r) = Some b" "validateForward r = Inr ()"
    "bi_ip b = bi_ip (binding_of (normalized r))" "bi_port b = fr_ListenPort r"
  shows "Forward free r m = (Inl (ListenFailed (fr_ListenIP r) (fr_ListenPort r)), m)"
proof -
  have n: "bi_port (binding_of (normalized r)) = fr_ListenPort r" by (simp add: binding_of_def normalized_def)
  have "b \<in> ran (table m)" using assms(2) by (rule ranI)
  moreover have "conflict (binding_of (normalized r)) b" using assms(4,5) n by (simp add: conflict_def)
  ultimately have "\<not> addable free r (table m)" by (auto simp: addable_def Let_def)
  then show ?thesis using assms(3) by (simp add: Forward_result [OF assms(1)] Let_def)
qed

text \<open>
  C23. Listeners and forwarders agree after any sequence of requests to forward, to stop forwarding and
  to take an interface down: every open listener belongs to exactly one forwarder of the table and
  every forwarder has one, so none leaks, and no two have the same port of one address. A request to
  forward that succeeds puts what it asks for at its key, closes what was there and touches no other;
  one that fails changes nothing; and it does succeed if it is valid, the address can be listened on
  and no forwarder has it. Stopping removes just the forwarder of that key, and taking an interface
  down just those of that interface; both may be repeated.
\<close>

theorem forwarders_accounted:
  assumes "m = fold impl_step ops New_manager"
  shows "snd ` set (wg_open m) = ran (table m) \<and> length (wg_open m) = length (wg_forwards m) \<and>
     distinct (map fst (wg_open m)) \<and> sorted_wrt (\<lambda>(i, b) (j, c). \<not> conflict c b) (wg_open m) \<and>
     (case Forward free r m of
        (Inr _, m') \<Rightarrow> table m' = (table m)((fr_Interface r, fr_ListenPort r) \<mapsto> binding_of (normalized r))
      | (Inl _, m') \<Rightarrow> m' = m) \<and>
     (validateForward r = Inr () \<and> free (bi_ip (binding_of (normalized r))) (fr_ListenPort r) \<and>
        (\<forall>c \<in> ran (table m). \<not> conflict (binding_of (normalized r)) c) \<longrightarrow> fst (Forward free r m) = Inr ()) \<and>
     (validIfaceName iface = Inr () \<longrightarrow>
        table (snd (Unforward iface port m)) = (table m)((iface, port) := None) \<and>
        table (snd (InterfaceDown env iface m)) = (\<lambda>(i, p). if i = iface then None else table m (i, p)))"
proof -
  have inv: "forwards_inv m" unfolding assms using manager_refines [of ops] by blast
  note D = forwards_invD [OF inv]
  have "card (set (map fst (wg_open m))) = card (ran (map_of (wg_forwards m)))" using D(5) by simp
  also have "\<dots> = card (dom (map_of (wg_forwards m)))"
  proof -
    have "inj_on (map_of (wg_forwards m)) (dom (map_of (wg_forwards m)))"
      by (rule inj_onI) (metis D(4) domD)
    moreover have "ran (map_of (wg_forwards m)) = the ` map_of (wg_forwards m) ` dom (map_of (wg_forwards m))"
      by (force simp: ran_def dom_def)
    moreover have "inj_on the (map_of (wg_forwards m) ` dom (map_of (wg_forwards m)))" by (rule inj_onI) auto
    ultimately show ?thesis by (simp add: card_image)
  qed
  also have "\<dots> = length (wg_forwards m)" using D(3) by (simp add: dom_map_of_conv_image_fst distinct_card flip: set_map)
  finally have len: "length (wg_open m) = length (wg_forwards m)" using D(1) distinct_card by fastforce
  have fw: "forwards_inv (snd (Forward free r m)) \<and> table (snd (Forward free r m)) = spec_step (DoForward free r) (table m)"
    by (rule Forward_step [OF inv])
  have fr: "fst (Forward free r m) = Inr () \<longleftrightarrow> addable free r (table m)" "\<not> addable free r (table m) \<Longrightarrow> snd (Forward free r m) = m"
    by (simp_all add: Forward_result [OF inv] Let_def)
  have forward: "case Forward free r m of
        (Inr _, m') \<Rightarrow> table m' = (table m)((fr_Interface r, fr_ListenPort r) \<mapsto> binding_of (normalized r))
      | (Inl _, m') \<Rightarrow> m' = m"
    using fw fr by (cases "Forward free r m"; cases "addable free r (table m)") (auto split: sum.split)
  have ok: "validateForward r = Inr () \<and> free (bi_ip (binding_of (normalized r))) (fr_ListenPort r) \<and>
        (\<forall>c \<in> ran (table m). \<not> conflict (binding_of (normalized r)) c) \<longrightarrow> fst (Forward free r m) = Inr ()"
    unfolding fr(1) by (simp add: addable_def Let_def binding_of_def normalized_def)
  have down: "validIfaceName iface = Inr () \<longrightarrow>
        table (snd (Unforward iface port m)) = (table m)((iface, port) := None) \<and>
        table (snd (InterfaceDown env iface m)) = (\<lambda>(i, p). if i = iface then None else table m (i, p))"
    using impl_step_refines [OF inv, of "DoUnforward iface port"] impl_step_refines [OF inv, of "DoDown env iface"]
    by (simp add: valid_name_def)
  show ?thesis by (intro conjI ran_table [OF inv, symmetric] len D(1,7) forward ok down)
qed

definition demo_forward :: ForwardRequest where
  "demo_forward = \<lparr>fr_Interface = ''skwg0'', fr_ListenIP = ''10.88.3.2'', fr_ListenPort = 8096, fr_TargetHost = [], fr_TargetPort = 0\<rparr>"

theorem forwarders_accounted_witness:
  "\<exists>m. fst (Forward (\<lambda>_ _. True) demo_forward New_manager) = Inr () \<and> m = impl_step (DoForward (\<lambda>_ _. True) demo_forward) New_manager \<and>
     length (wg_open m) = length (wg_forwards m) \<and>
     table (snd (Unforward ''skwg0'' 8096 m)) = (table m)((''skwg0'', 8096) := None)"
proof (intro exI conjI)
  let ?m = "fold impl_step [DoForward (\<lambda>_ _. True) demo_forward] New_manager"
  have v: "validateForward demo_forward = Inr ()" "validIfaceName ''skwg0'' = Inr ()" by code_simp+
  have "table New_manager = Map.empty" by (simp add: table_def New_manager_def fun_eq_iff)
  then show "fst (Forward (\<lambda>_ _. True) demo_forward New_manager) = Inr ()"
    using forwarders_accounted [where m = New_manager and ops = "[]" and free = "\<lambda>_ _. True" and r = demo_forward] v(1)
    by simp
  show "?m = impl_step (DoForward (\<lambda>_ _. True) demo_forward) New_manager" by simp
  show "length (wg_open ?m) = length (wg_forwards ?m)"
    "table (snd (Unforward ''skwg0'' 8096 ?m)) = (table ?m)((''skwg0'', 8096) := None)"
    using forwarders_accounted [OF refl, where ops = "[DoForward (\<lambda>_ _. True) demo_forward]" and iface = "''skwg0''" and port = 8096] v(2)
    by blast+
qed

subsection \<open>The private key\<close>

lemma dump_hides_key:
  assumes "solid k" "solid k'"
  shows "parseWgDump (k @ CHR 0x09 # r) st = parseWgDump (k' @ CHR 0x09 # r) st"
proof -
  have no: "CHR 0x0A \<notin> set s" "CHR 0x09 \<notin> set s" if "solid s" for s
    using that by (auto simp: solid_def space_encodings_def list_all_iff)
  define t where "t = trim_right (CHR 0x09 # r)"
  define ls where "ls = split_on (CHR 0x0A) t"
  have lines: "split_on (CHR 0x0A) (trim_space (s @ CHR 0x09 # r)) = (s @ hd ls) # tl ls" if "solid s" for s
    using split_on_behind [OF no(1) [OF that]] trim_space_solid [OF that] by (simp add: t_def ls_def)
  have "split_on (CHR 0x09) (s @ hd ls) = (s @ hd (split_on (CHR 0x09) (hd ls))) # tl (split_on (CHR 0x09) (hd ls))"
    if "solid s" for s
    by (rule split_on_behind [OF no(2) [OF that]])
  then have "parse_interface (k @ hd ls) st = parse_interface (k' @ hd ls) st"
    using assms by (simp add: parse_interface_def Let_def solid_def nth_Cons' numeral_2_eq_2)
  then show ?thesis using lines [OF assms(1)] lines [OF assms(2)] by (simp add: parseWgDump_def Let_def)
qed

lemma Status_up:
  assumes "validIfaceName iface = Inr ()"
    and "env_run env (wg_trace m) (Run ''wg'' [''show'', iface, ''dump'']) = r" "rr_err r = None"
  shows "Status env iface m =
     (Inr (parseWgDump (rr_out r) \<lparr>is_Name = iface, is_PublicKey = [], is_ListenPort = 0, is_Up = True, is_Peers = []\<rparr>),
      m\<lparr>wg_trace := wg_trace m @ [Run ''wg'' [''show'', iface, ''dump'']]\<rparr>)"
  by (simp add: Status_def wg_bind_def wg_check_def wg_run_def assms cong del: if_weak_cong)

text \<open>
  C24. The private key stays on the host: what generating a key answers is the public key of the one
  it stored, and the status of an interface is the same whatever private key the tool prints in front
  of the rest.
\<close>

theorem private_key_stays:
  assumes key: "Keygen keyDir (Some raw) True True iface m = (Inr pub, m')" "length raw = 32"
    and other: "length raw' = 32"
    and dump: "env_run env (wg_trace m') (Run ''wg'' [''show'', iface, ''dump'']) =
        \<lparr>rr_out = b64_encode raw @ CHR 0x09 # rest, rr_stderr = err, rr_err = None\<rparr>"
    and dump': "env_run env' (wg_trace m') (Run ''wg'' [''show'', iface, ''dump'']) =
        \<lparr>rr_out = b64_encode raw' @ CHR 0x09 # rest, rr_stderr = err, rr_err = None\<rparr>"
  shows "(\<exists>stored. wg_files m' = (wg_files m)(keyPath keyDir iface \<mapsto> stored) \<and> PublicKeyFromPrivate stored = Inr pub) \<and>
         Status env iface m' = Status env' iface m'"
proof (intro conjI exI)
  have valid: "validIfaceName iface = Inr ()" and pub: "pub = b64_encode (x25519_base raw)"
      and m': "m' = m\<lparr>wg_files := (wg_files m)(keyPath keyDir iface \<mapsto> b64_encode raw @ [CHR 0x0A])\<rparr>"
    using key(1) by (auto simp: Keygen_def wg_bind_def wg_check_def GenerateKeypair_def split: sum.splits)
  have solid: "solid (b64_encode r)" if "length r = 32" for r
    using that by (intro b64_encode_solid) auto
  show "wg_files m' = (wg_files m)(keyPath keyDir iface \<mapsto> b64_encode raw @ [CHR 0x0A])"
    by (simp add: m')
  have "trim_right [CHR 0x0A] = []" using trim_right_newline [of "[]"] by (simp add: trim_right.simps [of "[]"])
  then have "trim_space (b64_encode raw @ [CHR 0x0A]) = b64_encode raw"
    using trim_space_solid [OF solid [OF key(2)]] by simp
  then show "PublicKeyFromPrivate (b64_encode raw @ [CHR 0x0A]) = Inr pub"
    using key(2) by (simp add: PublicKeyFromPrivate_def b64_decode_encode pub)
  show "Status env iface m' = Status env' iface m'"
    using Status_up [OF valid dump] Status_up [OF valid dump'] dump_hides_key [OF solid [OF key(2)] solid [OF other]]
    by simp
qed

definition example_env :: "string \<Rightarrow> env" where
  "example_env raw =
     \<lparr>env_linux = True, env_path = (\<lambda>_. True),
      env_run = (\<lambda>_ _. \<lparr>rr_out = b64_encode raw @ CHR 0x09 # ''pub'' @ [CHR 0x09] @ ''51820'', rr_stderr = [], rr_err = None\<rparr>)\<rparr>"

theorem private_key_stays_witness:
  "\<exists>pub m'. Keygen [] (Some (replicate 32 CHR ''a'')) True True ''skwg0'' New_manager = (Inr pub, m') \<and>
     (\<exists>stored. wg_files m' = [keyPath [] ''skwg0'' \<mapsto> stored] \<and> PublicKeyFromPrivate stored = Inr pub) \<and>
     Status (example_env (replicate 32 CHR ''a'')) ''skwg0'' m' = Status (example_env (replicate 32 CHR ''b'')) ''skwg0'' m'"
proof -
  have "validIfaceName ''skwg0'' = Inr ()" by code_simp
  then obtain pub m' where k: "Keygen [] (Some (replicate 32 CHR ''a'')) True True ''skwg0'' New_manager = (Inr pub, m')"
    by (simp add: Keygen_def wg_bind_def wg_check_def GenerateKeypair_def)
  have e: "env_run (example_env raw) t c =
      \<lparr>rr_out = b64_encode raw @ CHR 0x09 # (''pub'' @ [CHR 0x09] @ ''51820''), rr_stderr = [], rr_err = None\<rparr>" for raw t c
    by (simp add: example_env_def)
  from private_key_stays [OF k length_replicate length_replicate e e]
  show ?thesis using k by (auto simp: New_manager_def)
qed

end
