(* ===== verification/Terminal.thy ===== *)
theory Terminal
  imports Effects Protocol Base64 "HOL-Library.Word" "HOL-Library.AList"
begin

text \<open>
  Remote shells, \<open>internal/terminal/terminal.go\<close> and the terminal handlers of
  \<open>internal/agent/agent.go\<close>. A session is a shell on a pseudo-terminal and the goroutine that reads
  it; the manager's map names sessions. What runs under one lock is one step; the handlers, the
  reading goroutines and the closing of a removed session interleave as they like. Whether a shell
  starts, what it writes and when it ends are the steps' parameters.
\<close>

subsection \<open>Sessions\<close>

datatype loop = Reading | Exiting | Exited    \<comment> \<open>\<open>Exiting\<close>: about to run the close handler\<close>

record session =
  se_ID :: string
  se_Shell :: string
  se_Cols :: "16 word"
  se_Rows :: "16 word"
  se_closed :: bool         \<comment> \<open>the terminal is closed, the shell killed, the context cancelled\<close>
  se_onOutput :: bool       \<comment> \<open>the handlers are set\<close>
  se_onClose :: bool
  se_loop :: loop

datatype stream_message = Output string | ShellClosed

record terminals =
  tm_sessions :: "(string \<times> nat) list"            \<comment> \<open>the map, to positions in the store\<close>
  tm_store :: "session list"                      \<comment> \<open>every session made, in order\<close>
  tm_closing :: "nat list"                        \<comment> \<open>removed from the map, \<open>Close\<close> not run yet\<close>
  tm_written :: "(nat \<times> string) list"             \<comment> \<open>what was written to the shells\<close>
  tm_stream :: "(string \<times> stream_message) list"   \<comment> \<open>what was streamed, by channel\<close>

definition NewManager :: terminals where
  "NewManager = \<lparr>tm_sessions = [], tm_store = [], tm_closing = [], tm_written = [], tm_stream = []\<rparr>"

definition getDefaultShell :: "bool \<Rightarrow> (string \<Rightarrow> bool) \<Rightarrow> string \<Rightarrow> (string \<Rightarrow> bool) \<Rightarrow> string" where
  "getDefaultShell windows on_path SHELL exists =
     (if windows then (if on_path ''powershell.exe'' then ''powershell.exe'' else ''cmd.exe'')
      else if SHELL \<noteq> [] then SHELL
      else (case find exists [''/bin/bash'', ''/bin/sh'', ''/bin/zsh''] of Some s \<Rightarrow> s | None \<Rightarrow> ''/bin/sh''))"

definition update_session :: "nat \<Rightarrow> (session \<Rightarrow> session) \<Rightarrow> terminals \<Rightarrow> terminals" where
  "update_session i f m = m\<lparr>tm_store := (tm_store m)[i := f (tm_store m ! i)]\<rparr>"

datatype terminal_error =
    TermBadParams | NoSessionID | SessionExists string | ShellFailed | SessionNotFound string
  | BadBase64 | SessionClosed | PtyFailed

definition GetSession :: "string \<Rightarrow> terminals \<Rightarrow> nat option" where
  "GetSession sid m = map_of (tm_sessions m) sid"

definition ListSessions :: "terminals \<Rightarrow> string list" where
  "ListSessions m = map fst (tm_sessions m)"

definition CreateSession :: "string \<Rightarrow> 16 word \<Rightarrow> 16 word \<Rightarrow> string \<Rightarrow> bool \<Rightarrow> terminals \<Rightarrow>
    (terminal_error + nat) \<times> terminals" where
  "CreateSession sid cols rows shell start_ok m =
     (if GetSession sid m \<noteq> None then (Inl (SessionExists sid), m)
      else if \<not> start_ok then (Inl ShellFailed, m)
      else (Inr (length (tm_store m)),
            m\<lparr>tm_store := tm_store m @
                [\<lparr>se_ID = sid, se_Shell = shell, se_Cols = cols, se_Rows = rows, se_closed = False,
                  se_onOutput = False, se_onClose = False, se_loop = Reading\<rparr>],
              tm_sessions := AList.update sid (length (tm_store m)) (tm_sessions m)\<rparr>))"

text \<open>\<open>CloseSession\<close> up to the end of the lock; \<open>Close\<close> follows.\<close>

definition remove_session :: "string \<Rightarrow> terminals \<Rightarrow> (terminal_error + unit) \<times> terminals" where
  "remove_session sid m =
     (case GetSession sid m of
        None \<Rightarrow> (Inl (SessionNotFound sid), m)
      | Some i \<Rightarrow> (Inr (), m\<lparr>tm_sessions := AList.delete sid (tm_sessions m), tm_closing := tm_closing m @ [i]\<rparr>))"

text \<open>Closing the terminal may fail; the session counts as closed all the same.\<close>

definition Close :: "nat \<Rightarrow> terminals \<Rightarrow> terminals" where
  "Close i m = (update_session i (\<lambda>s. s\<lparr>se_closed := True\<rparr>) m)\<lparr>tm_closing := remove1 i (tm_closing m)\<rparr>"

definition CloseAll :: "terminals \<Rightarrow> terminals" where
  "CloseAll m = m\<lparr>tm_sessions := [], tm_closing := tm_closing m @ map snd (tm_sessions m)\<rparr>"

definition Write :: "nat \<Rightarrow> string \<Rightarrow> bool \<Rightarrow> terminals \<Rightarrow> (terminal_error + unit) \<times> terminals" where
  "Write i data pty_ok m =
     (if se_closed (tm_store m ! i) then (Inl SessionClosed, m)
      else if \<not> pty_ok then (Inl PtyFailed, m)
      else (Inr (), m\<lparr>tm_written := tm_written m @ [(i, data)]\<rparr>))"

text \<open>The size is remembered before the terminal is asked.\<close>

definition Resize :: "nat \<Rightarrow> 16 word \<Rightarrow> 16 word \<Rightarrow> bool \<Rightarrow> terminals \<Rightarrow> (terminal_error + unit) \<times> terminals" where
  "Resize i cols rows pty_ok m =
     (if se_closed (tm_store m ! i) then (Inl SessionClosed, m)
      else (if pty_ok then Inr () else Inl PtyFailed, update_session i (\<lambda>s. s\<lparr>se_Cols := cols, se_Rows := rows\<rparr>) m))"

subsection \<open>The handlers\<close>

text \<open>
  Parameters are what they decode to. Creating answers the session, whose handlers are set
  afterwards: first the one for output, then the one for the end.
\<close>

record create_params =
  tc_session_id :: string
  tc_cols :: "16 word"
  tc_rows :: "16 word"

definition handleTerminalCreate :: "create_params option \<Rightarrow> string \<Rightarrow> bool \<Rightarrow> terminals \<Rightarrow>
    (terminal_error + nat) \<times> terminals" where
  "handleTerminalCreate params shell start_ok m =
     (case params of
        None \<Rightarrow> (Inl TermBadParams, m)
      | Some p \<Rightarrow>
          if tc_session_id p = [] then (Inl NoSessionID, m)
          else CreateSession (tc_session_id p) (if tc_cols p = 0 then 80 else tc_cols p)
                 (if tc_rows p = 0 then 24 else tc_rows p) shell start_ok m)"

definition handleTerminalInput :: "(string \<times> string) option \<Rightarrow> bool \<Rightarrow> terminals \<Rightarrow> (terminal_error + unit) \<times> terminals" where
  "handleTerminalInput params pty_ok m =
     (case params of
        None \<Rightarrow> (Inl TermBadParams, m)
      | Some (sid, data) \<Rightarrow>
          (case GetSession sid m of
             None \<Rightarrow> (Inl (SessionNotFound sid), m)
           | Some i \<Rightarrow> (case b64_decode data of None \<Rightarrow> (Inl BadBase64, m) | Some raw \<Rightarrow> Write i raw pty_ok m)))"

definition handleTerminalResize :: "create_params option \<Rightarrow> bool \<Rightarrow> terminals \<Rightarrow> (terminal_error + unit) \<times> terminals" where
  "handleTerminalResize params pty_ok m =
     (case params of
        None \<Rightarrow> (Inl TermBadParams, m)
      | Some p \<Rightarrow>
          (case GetSession (tc_session_id p) m of
             None \<Rightarrow> (Inl (SessionNotFound (tc_session_id p)), m)
           | Some i \<Rightarrow> Resize i (tc_cols p) (tc_rows p) pty_ok m))"

definition handleTerminalClose :: "string option \<Rightarrow> terminals \<Rightarrow> (terminal_error + unit) \<times> terminals" where
  "handleTerminalClose params m =
     (case params of None \<Rightarrow> (Inl TermBadParams, m) | Some sid \<Rightarrow> remove_session sid m)"

subsection \<open>The reading goroutine\<close>

text \<open>A read of some bytes; the output handler streams them, if it is set already.\<close>

definition read_output :: "nat \<Rightarrow> string \<Rightarrow> terminals \<Rightarrow> terminals" where
  "read_output i data m =
     (let s = tm_store m ! i
      in if data \<noteq> [] \<and> se_onOutput s
         then m\<lparr>tm_stream := tm_stream m @ [(ChannelTerminal (se_ID s), Output (b64_encode data))]\<rparr> else m)"

text \<open>A read that fails: the loop ends, with the close handler unless the session was closed.\<close>

definition read_failed :: "nat \<Rightarrow> terminals \<Rightarrow> terminals" where
  "read_failed i m =
     update_session i (\<lambda>s. s\<lparr>se_loop := if se_closed s \<or> \<not> se_onClose s then Exited else Exiting\<rparr>) m"

text \<open>The close handler closes whatever session has the name.\<close>

definition run_close_handler :: "nat \<Rightarrow> terminals \<Rightarrow> terminals" where
  "run_close_handler i m =
     (let sid = se_ID (tm_store m ! i);
          m1 = m\<lparr>tm_stream := tm_stream m @ [(ChannelTerminal sid, ShellClosed)]\<rparr>
      in update_session i (\<lambda>s. s\<lparr>se_loop := Exited\<rparr>) (snd (remove_session sid m1)))"

datatype term_step =
    DoCreate "create_params option" string bool
  | SetOutput nat | SetClose nat
  | DoInput "(string \<times> string) option" bool
  | DoResize "create_params option" bool
  | DoClose "string option"
  | DoCloseAll
  | RunClose nat
  | ReadOutput nat string
  | ReadFailed nat
  | CloseHandler nat

fun step_ok :: "term_step \<Rightarrow> terminals \<Rightarrow> bool" where
  "step_ok (SetOutput i) m \<longleftrightarrow> i < length (tm_store m)"
| "step_ok (SetClose i) m \<longleftrightarrow> i < length (tm_store m) \<and> se_onOutput (tm_store m ! i)"
| "step_ok (RunClose i) m \<longleftrightarrow> i \<in> set (tm_closing m)"
| "step_ok (ReadOutput i d) m \<longleftrightarrow> i < length (tm_store m) \<and> se_loop (tm_store m ! i) = Reading"
| "step_ok (ReadFailed i) m \<longleftrightarrow> i < length (tm_store m) \<and> se_loop (tm_store m ! i) = Reading"
| "step_ok (CloseHandler i) m \<longleftrightarrow> i < length (tm_store m) \<and> se_loop (tm_store m ! i) = Exiting"
| "step_ok _ m \<longleftrightarrow> True"

fun do_step :: "term_step \<Rightarrow> terminals \<Rightarrow> terminals" where
  "do_step (DoCreate p sh ok) m = snd (handleTerminalCreate p sh ok m)"
| "do_step (SetOutput i) m = update_session i (\<lambda>s. s\<lparr>se_onOutput := True\<rparr>) m"
| "do_step (SetClose i) m = update_session i (\<lambda>s. s\<lparr>se_onClose := True\<rparr>) m"
| "do_step (DoInput p ok) m = snd (handleTerminalInput p ok m)"
| "do_step (DoResize p ok) m = snd (handleTerminalResize p ok m)"
| "do_step (DoClose p) m = snd (handleTerminalClose p m)"
| "do_step DoCloseAll m = CloseAll m"
| "do_step (RunClose i) m = Close i m"
| "do_step (ReadOutput i d) m = read_output i d m"
| "do_step (ReadFailed i) m = read_failed i m"
| "do_step (CloseHandler i) m = run_close_handler i m"

text \<open>The states that are reached, with the steps that lead there.\<close>

inductive reaches :: "term_step list \<Rightarrow> terminals \<Rightarrow> bool" where
  start: "reaches [] NewManager"
| step: "reaches tr m \<Longrightarrow> step_ok x m \<Longrightarrow> reaches (tr @ [x]) (do_step x m)"

fun run_steps :: "term_step list \<Rightarrow> terminals \<Rightarrow> terminals option" where
  "run_steps [] m = Some m"
| "run_steps (x # xs) m = (if step_ok x m then run_steps xs (do_step x m) else None)"

lemma run_steps_reaches: "run_steps xs m = Some m' \<Longrightarrow> reaches tr m \<Longrightarrow> reaches (tr @ xs) m'"
proof (induction xs arbitrary: tr m)
  case (Cons x xs)
  then have "step_ok x m" "run_steps xs (do_step x m) = Some m'" by (simp_all split: if_splits)
  then show ?case using Cons.IH reaches.step [OF Cons.prems(2)] by fastforce
qed simp

subsection \<open>Every shell is accounted for\<close>

definition live :: "terminals \<Rightarrow> nat set" where
  "live m = {i. i < length (tm_store m) \<and> \<not> se_closed (tm_store m ! i)}"

definition accounted :: "terminals \<Rightarrow> bool" where
  "accounted m \<longleftrightarrow>
     distinct (map fst (tm_sessions m)) \<and> distinct (map snd (tm_sessions m) @ tm_closing m) \<and>
     live m = set (map snd (tm_sessions m) @ tm_closing m) \<and>
     (\<forall>f \<in> set (tm_sessions m). se_ID (tm_store m ! snd f) = fst f)"

lemma accounted_New: "accounted NewManager"
  by (simp add: accounted_def NewManager_def live_def)

lemma nth_list_update': "xs[i := x] ! j = (if i = j \<and> i < length xs then x else xs ! j)"
  by (cases "i < length xs") (simp_all add: nth_list_update list_update_beyond)

lemma accounted_update:
  assumes "accounted m" "\<And>s. se_ID (f s) = se_ID s" "\<And>s. se_closed (f s) = se_closed s"
  shows "accounted (update_session i f m)"
proof -
  have id: "se_ID ((tm_store m)[i := f (tm_store m ! i)] ! j) = se_ID (tm_store m ! j)" for j
    using assms(2) by (cases "i < length (tm_store m) \<and> j = i") (auto simp: nth_list_update')
  have cl: "se_closed ((tm_store m)[i := f (tm_store m ! i)] ! j) = se_closed (tm_store m ! j)" for j
    using assms(3) by (cases "i < length (tm_store m) \<and> j = i") (auto simp: nth_list_update')
  show ?thesis
    using assms(1) by (simp add: accounted_def update_session_def live_def id cl)
qed

lemma accounted_stream: "accounted (m\<lparr>tm_stream := x\<rparr>) = accounted m" "accounted (m\<lparr>tm_written := y\<rparr>) = accounted m"
  by (simp_all add: accounted_def live_def)

lemma update_new: "k \<notin> fst ` set al \<Longrightarrow> AList.update k v al = al @ [(k, v)]"
  by (induction al) auto

lemma delete_parts:
  assumes "distinct (map fst al)" "map_of al k = Some i"
  shows "set (map snd al) = insert i (set (map snd (AList.delete k al)))"
    "distinct (map snd al @ ys) \<Longrightarrow> distinct (map snd (AList.delete k al) @ ys @ [i])"
    "set (AList.delete k al) \<subseteq> set al"
proof -
  obtain a b where ab: "al = a @ (k, i) # b"
    using map_of_SomeD [OF assms(2)] by (auto dest: split_list)
  have keep: "filter (\<lambda>(k', _). k \<noteq> k') xs = xs" if "k \<notin> fst ` set xs" for xs :: "('a \<times> 'b) list"
    using that by (intro filter_True) force
  have "k \<notin> fst ` set a" "k \<notin> fst ` set b" using assms(1) by (auto simp: ab)
  then have "AList.delete k al = a @ b"
    unfolding ab AList.delete_eq by (simp add: keep)
  then show "set (map snd al) = insert i (set (map snd (AList.delete k al)))"
    "distinct (map snd al @ ys) \<Longrightarrow> distinct (map snd (AList.delete k al) @ ys @ [i])"
    "set (AList.delete k al) \<subseteq> set al"
    by (auto simp: ab)
qed

lemma accounted_remove:
  assumes a: "accounted m"
  shows "accounted (snd (remove_session sid m))"
proof (cases "GetSession sid m")
  case (Some i)
  note d = delete_parts [of "tm_sessions m" sid i]
  have m: "distinct (map fst (tm_sessions m))" "map_of (tm_sessions m) sid = Some i"
    using a Some by (simp_all add: accounted_def GetSession_def)
  show ?thesis
    using a d [OF m] Some by (auto simp: remove_session_def accounted_def live_def AList.distinct_delete)
qed (simp add: remove_session_def a)

lemma accounted_create:
  assumes a: "accounted m"
  shows "accounted (snd (CreateSession sid c r sh ok m))"
proof (cases "GetSession sid m = None \<and> ok")
  case True
  let ?n = "length (tm_store m)"
  have new: "map_of (tm_sessions m) sid = None" using True by (simp add: GetSession_def)
  then have up: "AList.update sid ?n (tm_sessions m) = tm_sessions m @ [(sid, ?n)]"
    by (intro update_new) (simp add: map_of_eq_None_iff)
  have lt: "\<forall>i \<in> set (map snd (tm_sessions m) @ tm_closing m). i < ?n"
    using a by (auto simp: accounted_def live_def)
  have "live (snd (CreateSession sid c r sh ok m)) = insert ?n (live m)"
    using True by (auto simp: CreateSession_def live_def nth_append less_Suc_eq)
  then show ?thesis
    using True a new lt up
    by (auto simp: accounted_def CreateSession_def nth_append map_of_eq_None_iff)
qed (auto simp: CreateSession_def a)

lemma accounted_close:
  assumes a: "accounted m" and i: "i \<in> set (tm_closing m)"
  shows "accounted (Close i m)"
proof -
  have lt: "i < length (tm_store m)" using a i by (auto simp: accounted_def live_def)
  have st: "tm_store (Close i m) = (tm_store m)[i := (tm_store m ! i)\<lparr>se_closed := True\<rparr>]"
      "tm_sessions (Close i m) = tm_sessions m" "tm_closing (Close i m) = remove1 i (tm_closing m)"
    by (simp_all add: Close_def update_session_def)
  have "live (Close i m) = live m - {i}"
    using lt by (auto simp: live_def st nth_list_update')
  moreover have "i \<notin> set (map snd (tm_sessions m))" using a i by (auto simp: accounted_def)
  moreover have "se_ID (tm_store (Close i m) ! j) = se_ID (tm_store m ! j)" for j
    by (simp add: st nth_list_update')
  ultimately show ?thesis
    using a by (auto simp: accounted_def st)
qed

lemma accounted_step: "accounted m \<Longrightarrow> step_ok x m \<Longrightarrow> accounted (do_step x m)"
proof (cases x)
  case (DoCreate p sh ok)
  then show "accounted m \<Longrightarrow> step_ok x m \<Longrightarrow> accounted (do_step x m)"
    by (auto simp: handleTerminalCreate_def accounted_create split: option.splits)
next
  case (DoInput p ok)
  then show "accounted m \<Longrightarrow> step_ok x m \<Longrightarrow> accounted (do_step x m)"
    by (auto simp: handleTerminalInput_def Write_def accounted_stream split: option.splits)
next
  case (DoResize p ok)
  then show "accounted m \<Longrightarrow> step_ok x m \<Longrightarrow> accounted (do_step x m)"
    by (auto simp: handleTerminalResize_def Resize_def intro!: accounted_update split: option.splits)
next
  case (DoClose p)
  then show "accounted m \<Longrightarrow> step_ok x m \<Longrightarrow> accounted (do_step x m)"
    by (auto simp: handleTerminalClose_def accounted_remove split: option.splits)
next
  case DoCloseAll
  then show "accounted m \<Longrightarrow> step_ok x m \<Longrightarrow> accounted (do_step x m)"
    by (auto simp: CloseAll_def accounted_def live_def)
next
  case (CloseHandler i)
  then show "accounted m \<Longrightarrow> step_ok x m \<Longrightarrow> accounted (do_step x m)"
    by (auto simp: run_close_handler_def Let_def accounted_stream intro!: accounted_update accounted_remove)
next
  case (RunClose i)
  then show "accounted m \<Longrightarrow> step_ok x m \<Longrightarrow> accounted (do_step x m)" by (simp add: accounted_close)
next
  case (ReadOutput i d)
  then show "accounted m \<Longrightarrow> step_ok x m \<Longrightarrow> accounted (do_step x m)" by (simp add: read_output_def Let_def accounted_stream)
qed (auto simp: read_failed_def intro!: accounted_update)

lemma reaches_accounted: "reaches tr m \<Longrightarrow> accounted m"
  by (induction rule: reaches.induct) (simp_all add: accounted_New accounted_step)

subsection \<open>Who ends a session\<close>

definition registered :: "terminals \<Rightarrow> nat set" where
  "registered m = set (map snd (tm_sessions m))"

definition asked :: "string \<Rightarrow> term_step list \<Rightarrow> bool" where
  "asked sid tr \<longleftrightarrow> DoCloseAll \<in> set tr \<or> DoClose (Some sid) \<in> set tr"

text \<open>A step keeps names, lets no loop read again, and drops from the map only what was asked for or has the name of one whose shell ended.\<close>

definition follows :: "terminals \<Rightarrow> terminals \<Rightarrow> bool" where
  "follows m m' \<longleftrightarrow> length (tm_store m) \<le> length (tm_store m') \<and>
     (\<forall>i < length (tm_store m). se_ID (tm_store m' ! i) = se_ID (tm_store m ! i) \<and>
        (se_loop (tm_store m ! i) \<noteq> Reading \<longrightarrow> se_loop (tm_store m' ! i) \<noteq> Reading))"

lemma follows_refl [simp]: "follows m m"
  by (simp add: follows_def)

lemma follows_update:
  "(\<And>s. se_ID (f s) = se_ID s) \<Longrightarrow> (\<And>s. se_loop s \<noteq> Reading \<Longrightarrow> se_loop (f s) \<noteq> Reading) \<Longrightarrow>
   follows m (update_session i f m) \<and> registered (update_session i f m) = registered m"
  by (auto simp: follows_def update_session_def nth_list_update' registered_def)

lemma remove_facts:
  assumes "accounted m"
  shows "follows m (snd (remove_session sid m))" "tm_store (snd (remove_session sid m)) = tm_store m"
    "j \<in> registered m \<Longrightarrow> j \<notin> registered (snd (remove_session sid m)) \<Longrightarrow> se_ID (tm_store m ! j) = sid"
proof -
  show "follows m (snd (remove_session sid m))" "tm_store (snd (remove_session sid m)) = tm_store m"
    by (auto simp: remove_session_def follows_def split: option.splits)
  assume j: "j \<in> registered m" "j \<notin> registered (snd (remove_session sid m))"
  then obtain i where i: "map_of (tm_sessions m) sid = Some i"
    by (auto simp: remove_session_def GetSession_def split: option.splits)
  then have "j = i"
    using delete_parts(1) [of "tm_sessions m" sid i] assms j
    by (auto simp: remove_session_def GetSession_def registered_def accounted_def)
  moreover have "se_ID (tm_store m ! i) = sid"
    using map_of_SomeD [OF i] assms by (auto simp: accounted_def)
  ultimately show "se_ID (tm_store m ! j) = sid" by simp
qed

lemma create_facts:
  "follows m (snd (CreateSession sid c r sh ok m)) \<and>
   (\<forall>j < length (tm_store (snd (CreateSession sid c r sh ok m))).
      j \<notin> registered (snd (CreateSession sid c r sh ok m)) \<longrightarrow> j < length (tm_store m) \<and> j \<notin> registered m)"
proof (cases "GetSession sid m = None \<and> ok")
  case True
  then have "AList.update sid (length (tm_store m)) (tm_sessions m) = tm_sessions m @ [(sid, length (tm_store m))]"
    by (intro update_new) (simp add: GetSession_def map_of_eq_None_iff)
  then show ?thesis using True by (auto simp: CreateSession_def follows_def nth_append registered_def less_Suc_eq)
qed (auto simp: CreateSession_def)

lemma step_names:
  "accounted m \<Longrightarrow> length (tm_store m) \<le> length (tm_store (do_step x m)) \<and>
   (\<forall>j < length (tm_store m). se_ID (tm_store (do_step x m) ! j) = se_ID (tm_store m ! j))"
  by (cases x)
    (auto simp: handleTerminalCreate_def CreateSession_def handleTerminalInput_def Write_def handleTerminalResize_def Resize_def
      handleTerminalClose_def remove_session_def CloseAll_def Close_def read_output_def read_failed_def run_close_handler_def
      update_session_def nth_list_update' nth_append Let_def split: option.splits)

lemma step_drops:
  assumes a: "accounted m" and ok: "step_ok x m" and d: "distinct (map se_ID (tm_store m))"
  shows "follows m (do_step x m) \<and>
    (\<forall>j < length (tm_store (do_step x m)). j \<notin> registered (do_step x m) \<longrightarrow>
       j < length (tm_store m) \<and> (j \<notin> registered m \<or> asked (se_ID (tm_store m ! j)) [x] \<or>
       se_loop (tm_store (do_step x m) ! j) \<noteq> Reading))"
proof -
  have len: "length (tm_store (update_session i f m)) = length (tm_store m)" for i f
    by (simp add: update_session_def)
  show ?thesis
  proof (cases x)
    case (DoCreate p sh okc)
    have "do_step x m = m \<or> (\<exists>sid c r. do_step x m = snd (CreateSession sid c r sh okc m))"
      by (auto simp: DoCreate handleTerminalCreate_def split: option.splits)
    then show ?thesis
    proof (elim disjE exE)
      fix sid c r assume e: "do_step x m = snd (CreateSession sid c r sh okc m)"
      show ?thesis using create_facts [of m sid c r sh okc] unfolding e by blast
    qed simp
  next
    case (DoInput p okc)
    have "follows m (do_step x m) \<and> registered (do_step x m) = registered m \<and> tm_store (do_step x m) = tm_store m"
      by (auto simp: DoInput handleTerminalInput_def Write_def follows_def registered_def split: option.splits)
    then show ?thesis by simp
  next
    case (DoResize p okc)
    have "follows m (do_step x m) \<and> registered (do_step x m) = registered m \<and>
        length (tm_store (do_step x m)) = length (tm_store m)"
      by (auto simp: DoResize handleTerminalResize_def Resize_def follows_update len split: option.splits)
    then show ?thesis by simp
  next
    case (DoClose p)
    show ?thesis
    proof (cases p)
      case (Some sid)
      then show ?thesis
        using remove_facts [OF a, where sid = sid] DoClose by (auto simp: handleTerminalClose_def asked_def)
    qed (simp add: DoClose handleTerminalClose_def)
  next
    case DoCloseAll
    then show ?thesis by (simp add: CloseAll_def follows_def asked_def)
  next
    case (RunClose i)
    have "follows m (do_step x m) \<and> registered (do_step x m) = registered m \<and>
        length (tm_store (do_step x m)) = length (tm_store m)"
      using follows_update [of "\<lambda>s. s\<lparr>se_closed := True\<rparr>" m i]
      by (auto simp: RunClose Close_def follows_def registered_def len)
    then show ?thesis by simp
  next
    case (CloseHandler i)
    let ?m1 = "m\<lparr>tm_stream := tm_stream m @ [(ChannelTerminal (se_ID (tm_store m ! i)), ShellClosed)]\<rparr>"
    let ?r = "snd (remove_session (se_ID (tm_store m ! i)) ?m1)"
    have a1: "accounted ?m1" using a by (simp add: accounted_stream)
    note r = remove_facts [OF a1, where sid = "se_ID (tm_store m ! i)"]
    have i: "i < length (tm_store m)" using ok CloseHandler by simp
    have m': "do_step x m = update_session i (\<lambda>s. s\<lparr>se_loop := Exited\<rparr>) ?r"
      by (simp add: CloseHandler run_close_handler_def Let_def)
    have st: "tm_store (do_step x m) = (tm_store m)[i := (tm_store m ! i)\<lparr>se_loop := Exited\<rparr>]"
      using r(2) by (simp add: m' update_session_def)
    have reg: "registered (do_step x m) = registered ?r" "registered ?m1 = registered m"
      by (simp_all add: m' update_session_def registered_def)
    have "se_loop (tm_store (do_step x m) ! j) \<noteq> Reading"
      if j: "j < length (tm_store m)" "j \<notin> registered ?r" "j \<in> registered m" for j
    proof -
      have "se_ID (tm_store m ! j) = se_ID (tm_store m ! i)" using r(3) [of j] j reg(2) by simp
      then have "j = i" using d i j(1) by (simp add: distinct_conv_nth) metis
      then show ?thesis using i by (simp add: st)
    qed
    then show ?thesis by (auto simp: follows_def st nth_list_update' reg)
  next
    case (ReadOutput i dt)
    have "follows m (do_step x m) \<and> registered (do_step x m) = registered m \<and> tm_store (do_step x m) = tm_store m"
      by (simp add: ReadOutput read_output_def Let_def follows_def registered_def)
    then show ?thesis by simp
  qed (use follows_update in \<open>auto simp: len read_failed_def\<close>)
qed

lemma ended_or_asked:
  "reaches tr m \<Longrightarrow> distinct (map se_ID (tm_store m)) \<Longrightarrow>
   \<forall>j < length (tm_store m). j \<notin> registered m \<longrightarrow>
     asked (se_ID (tm_store m ! j)) tr \<or> se_loop (tm_store m ! j) \<noteq> Reading"
proof (induction rule: reaches.induct)
  case start
  then show ?case by (simp add: NewManager_def)
next
  case (step tr m x)
  let ?m = "do_step x m"
  have names: "distinct (map se_ID (tm_store m))"
  proof -
    have "length (tm_store m) \<le> length (tm_store ?m) \<and>
        (\<forall>j < length (tm_store m). se_ID (tm_store ?m ! j) = se_ID (tm_store m ! j))"
      using step_names [OF reaches_accounted [OF step.hyps(1)]] .
    then have "map se_ID (tm_store m) = take (length (tm_store m)) (map se_ID (tm_store ?m))"
      by (intro nth_equalityI) simp_all
    then show ?thesis using step.prems by (metis distinct_take)
  qed
  note d = step_drops [OF reaches_accounted [OF step.hyps(1)] step.hyps(2) names]
  have more: "asked sid tr \<Longrightarrow> asked sid (tr @ [x])" "asked sid [x] \<Longrightarrow> asked sid (tr @ [x])" for sid
    by (auto simp: asked_def)
  show ?case
  proof (intro allI impI)
    fix j assume "j < length (tm_store ?m)" "j \<notin> registered ?m"
    with d have j: "j < length (tm_store m)"
        "j \<notin> registered m \<or> asked (se_ID (tm_store m ! j)) [x] \<or> se_loop (tm_store ?m ! j) \<noteq> Reading" by blast+
    have st: "se_ID (tm_store ?m ! j) = se_ID (tm_store m ! j)"
        "se_loop (tm_store m ! j) \<noteq> Reading \<Longrightarrow> se_loop (tm_store ?m ! j) \<noteq> Reading"
      using d j(1) by (simp_all add: follows_def)
    show "asked (se_ID (tm_store ?m ! j)) (tr @ [x]) \<or> se_loop (tm_store ?m ! j) \<noteq> Reading"
      using j(2) step.IH [OF names] j(1) st more by metis
  qed
qed

text \<open>
  C25. Over any interleaving of the handlers, the reading goroutines and the closing of sessions, the
  shells that are open are exactly those the map names, each under its own name, and those removed
  and about to be closed, each once. As long as no name is used twice, a session leaves the map only
  because it was asked to, by its name or with all others, or because its own shell ended.
\<close>

theorem terminals_accounted:
  assumes "reaches tr m"
  shows "distinct (map fst (tm_sessions m)) \<and> distinct (map snd (tm_sessions m) @ tm_closing m) \<and>
     live m = set (map snd (tm_sessions m) @ tm_closing m) \<and>
     (\<forall>f \<in> set (tm_sessions m). se_ID (tm_store m ! snd f) = fst f) \<and>
     (distinct (map se_ID (tm_store m)) \<longrightarrow>
       (\<forall>j < length (tm_store m). j \<notin> registered m \<longrightarrow>
          asked (se_ID (tm_store m ! j)) tr \<or> se_loop (tm_store m ! j) \<noteq> Reading))"
  using reaches_accounted [OF assms] ended_or_asked [OF assms] unfolding accounted_def by blast

definition create_a :: term_step where
  "create_a = DoCreate (Some \<lparr>tc_session_id = ''a'', tc_cols = 0, tc_rows = 0\<rparr>) ''/bin/sh'' True"

text \<open>
  The shell of \<open>a\<close> ends while the panel closes the session and makes a new one of the same name.
\<close>

definition reuse_steps :: "term_step list" where
  "reuse_steps = [create_a, SetOutput 0, SetClose 0, ReadFailed 0, DoClose (Some ''a''), RunClose 0, create_a,
     CloseHandler 0, RunClose 1]"

theorem terminals_accounted_witness:
  "\<exists>m. reaches (butlast reuse_steps) m \<and> tm_closing m = [1] \<and>
     live m = set (map snd (tm_sessions m) @ tm_closing m)"
proof -
  have "map_option tm_closing (run_steps (butlast reuse_steps) NewManager) = Some [1]" by code_simp
  then obtain m where m: "run_steps (butlast reuse_steps) NewManager = Some m" "tm_closing m = [1]" by auto
  have "reaches (butlast reuse_steps) m" using run_steps_reaches [OF m(1) reaches.start] by simp
  then show ?thesis using terminals_accounted m(2) by blast
qed

text \<open>The close handler of the old session closes the new one, whose shell runs and which nobody asked to close.\<close>

theorem reused_name_is_closed:
  "map_option (\<lambda>m. (map se_closed (tm_store m), map se_loop (tm_store m), tm_sessions m)) (run_steps reuse_steps NewManager) =
   Some ([True, True], [Exited, Reading], [])"
  by code_simp

text \<open>
  A shell that ends before its close handler is set is never removed: its name stays taken, and what
  it wrote before the output handler was set is lost.
\<close>

theorem early_exit_stays:
  "map_option (\<lambda>m. (tm_sessions m, tm_stream m, fst (handleTerminalCreate
       (Some \<lparr>tc_session_id = ''a'', tc_cols = 0, tc_rows = 0\<rparr>) ''/bin/sh'' True m)))
     (run_steps [create_a, ReadOutput 0 ''bye'', ReadFailed 0, SetOutput 0, SetClose 0] NewManager) =
   Some ([(''a'', 0)], [], Inl (SessionExists ''a''))"
  by code_simp

end
