(* ===== verification/Compose.thy ===== *)
theory Compose
  imports Files Packages
begin

text \<open>
  What the agent does to docker through its command line: the \<open>Compose*\<close> methods of
  \<open>internal/docker/client.go\<close> with their handlers in \<open>internal/agent/agent.go\<close>, and
  \<open>docker:image:build\<close> from \<open>internal/agent/docker_extra_handlers.go\<close>. Operations run the program
  through the host; a handler gets the outcome of decoding its parameters.
\<close>

subsection \<open>The compose commands\<close>

definition validateProjectPath :: "string \<Rightarrow> herror + unit" where
  "validateProjectPath p =
     (if p = [] then Inl (Refused ''project path is required'')
      else if contains p ''..'' then Inl (Refused ''invalid project path: path traversal not allowed'')
      else if \<not> prefix ''/'' p then Inl (Refused ''invalid project path: must be absolute path'')
      else Inr ())"

text \<open>The output of a compose command and its error; the program does not run for a refused path.\<close>

definition compose_call :: "env \<Rightarrow> string \<Rightarrow> string \<Rightarrow> string list \<Rightarrow> (herror, string \<times> herror option) act" where
  "compose_call env what path args =
     (case validateProjectPath path of
        Inl e \<Rightarrow> ret ([], Some e)
      | Inr _ \<Rightarrow> abind (run env (Run ''docker'' (''compose'' # ''-f'' # path # args))) (\<lambda>r.
          ret (rr_out r, map_option (\<lambda>e. CommandFailed what e (rr_out r)) (rr_err r))))"

definition opt :: "bool \<Rightarrow> string \<Rightarrow> string list" where
  "opt b arg = (if b then [arg] else [])"

definition ComposeUp :: "env \<Rightarrow> string \<Rightarrow> bool \<Rightarrow> bool \<Rightarrow> (herror, string \<times> herror option) act" where
  "ComposeUp env path detach build =
     compose_call env ''compose up'' path ([''up''] @ opt detach ''-d'' @ opt build ''--build'')"

definition ComposeDown :: "env \<Rightarrow> string \<Rightarrow> bool \<Rightarrow> bool \<Rightarrow> (herror, string \<times> herror option) act" where
  "ComposeDown env path volumes orphans =
     compose_call env ''compose down'' path ([''down''] @ opt volumes ''-v'' @ opt orphans ''--remove-orphans'')"

definition ComposeLogs :: "env \<Rightarrow> string \<Rightarrow> string \<Rightarrow> int \<Rightarrow> (herror, string \<times> herror option) act" where
  "ComposeLogs env path service tail =
     compose_call env ''compose logs'' path
       ([''logs'', ''--no-color''] @ (if 0 < tail then [''--tail'', itoa tail] else []) @ opt (service \<noteq> []) service)"

definition ComposeRestart :: "env \<Rightarrow> string \<Rightarrow> string \<Rightarrow> (herror, string \<times> herror option) act" where
  "ComposeRestart env path service = compose_call env ''compose restart'' path ([''restart''] @ opt (service \<noteq> []) service)"

definition ComposePull :: "env \<Rightarrow> string \<Rightarrow> string \<Rightarrow> (herror, string \<times> herror option) act" where
  "ComposePull env path service = compose_call env ''compose pull'' path ([''pull''] @ opt (service \<noteq> []) service)"

record ComposeProject =
  cproj_Name :: string
  cproj_Status :: string
  cproj_ConfigFiles :: string

record ComposeContainer =
  cc_ID :: string
  cc_Name :: string
  cc_Service :: string
  cc_State :: string
  cc_Status :: string
  cc_Ports :: string

text \<open>
  The JSON decoder is given: for an array what it put into the slice and whether it failed (it
  keeps what it decoded before), for a line the object.
\<close>

definition ComposeList :: "(string \<Rightarrow> ComposeProject list option) \<Rightarrow> env \<Rightarrow> (herror, ComposeProject list) act" where
  "ComposeList decode env =
     abind (run env (Run ''docker'' [''compose'', ''ls'', ''--format'', ''json''])) (\<lambda>r.
       case rr_err r of
         Some e \<Rightarrow> throw (CommandFailed ''list compose projects'' e [])
       | None \<Rightarrow> (case decode (rr_out r) of
             None \<Rightarrow> throw (Refused ''failed to parse compose projects'')
           | Some ps \<Rightarrow> ret ps))"

definition compose_containers :: "(string \<Rightarrow> ComposeContainer list \<times> bool) \<Rightarrow> (string \<Rightarrow> ComposeContainer option) \<Rightarrow>
    string \<Rightarrow> ComposeContainer list" where
  "compose_containers decode_array decode_line output =
     (if output = [] then []
      else (case decode_array output of
          (cs, True) \<Rightarrow> cs
        | (cs, False) \<Rightarrow>
            cs @ List.map_filter (\<lambda>ln. let ln = trim_space ln in if ln = [] then None else decode_line ln)
              (split_on CHR 0x0A output)))"

definition ComposePsProject :: "(string \<Rightarrow> ComposeContainer list \<times> bool) \<Rightarrow> (string \<Rightarrow> ComposeContainer option) \<Rightarrow>
    env \<Rightarrow> string \<Rightarrow> (herror, ComposeContainer list) act" where
  "ComposePsProject decode_array decode_line env path =
     abind (lift (validateProjectPath path)) (\<lambda>_.
     abind (run env (Run ''docker'' (''compose'' # ''-f'' # path # [''ps'', ''--format'', ''json'', ''-a'']))) (\<lambda>r.
       case rr_err r of
         Some e \<Rightarrow> throw (CommandFailed ''list compose containers'' e [])
       | None \<Rightarrow> ret (compose_containers decode_array decode_line (rr_out r))))"

subsection \<open>Their handlers\<close>

record compose_params =
  cp_project_path :: string
  cp_detach :: bool
  cp_build :: bool
  cp_volumes :: bool
  cp_remove_orphans :: bool
  cp_service :: string
  cp_tail :: int

text \<open>What the handlers need of the agent: the file system, its directory, and the allowed roots.\<close>

record place =
  pl_fs :: fs
  pl_cwd :: string
  pl_allowed :: "string list"

definition project_access :: "place \<Rightarrow> herror + compose_params \<Rightarrow> (compose_params \<Rightarrow> (herror, 'a) act) \<Rightarrow> (herror, 'a) act" where
  "project_access pl params f =
     abind (lift params) (\<lambda>p.
     abind (lift (validateFileAccess (pl_fs pl) (pl_cwd pl) (pl_allowed pl) (cp_project_path p))) (\<lambda>_. f p))"

fun error_text :: "herror \<Rightarrow> string" where
  "error_text (Refused m) = m"
| "error_text (CommandFailed what e out) = what @ '' failed: '' @ error_string e @ '': '' @ out"
| "error_text _ = []"

definition action_answer :: "string \<times> herror option \<Rightarrow> json" where
  "action_answer = (\<lambda>(out, err). case err of
       Some e \<Rightarrow> JObj [(''success'', JBool False), (''output'', JStr out), (''error'', JStr (error_text e))]
     | None \<Rightarrow> JObj [(''success'', JBool True), (''output'', JStr out)])"

definition handleDockerComposeUp :: "place \<Rightarrow> env \<Rightarrow> herror + compose_params \<Rightarrow> (herror, json) act" where
  "handleDockerComposeUp pl env params =
     project_access pl params (\<lambda>p.
       let detach = (if \<not> cp_detach p then True else cp_detach p) in
       abind (ComposeUp env (cp_project_path p) detach (cp_build p)) (\<lambda>r. ret (action_answer r)))"

definition handleDockerComposeDown :: "place \<Rightarrow> env \<Rightarrow> herror + compose_params \<Rightarrow> (herror, json) act" where
  "handleDockerComposeDown pl env params =
     project_access pl params (\<lambda>p.
       abind (ComposeDown env (cp_project_path p) (cp_volumes p) (cp_remove_orphans p)) (\<lambda>r. ret (action_answer r)))"

definition handleDockerComposeLogs :: "place \<Rightarrow> env \<Rightarrow> herror + compose_params \<Rightarrow> (herror, json) act" where
  "handleDockerComposeLogs pl env params =
     project_access pl params (\<lambda>p.
       abind (ComposeLogs env (cp_project_path p) (cp_service p) (if cp_tail p = 0 then 100 else cp_tail p))
         (\<lambda>(logs, err). case err of Some e \<Rightarrow> throw e | None \<Rightarrow> ret (JObj [(''logs'', JStr logs)])))"

definition handleDockerComposeRestart :: "place \<Rightarrow> env \<Rightarrow> herror + compose_params \<Rightarrow> (herror, json) act" where
  "handleDockerComposeRestart pl env params =
     project_access pl params (\<lambda>p.
       abind (ComposeRestart env (cp_project_path p) (cp_service p)) (\<lambda>r. ret (action_answer r)))"

definition handleDockerComposePull :: "place \<Rightarrow> env \<Rightarrow> herror + compose_params \<Rightarrow> (herror, json) act" where
  "handleDockerComposePull pl env params =
     project_access pl params (\<lambda>p.
       abind (ComposePull env (cp_project_path p) (cp_service p)) (\<lambda>r. ret (action_answer r)))"

definition handleDockerComposePs :: "(string \<Rightarrow> ComposeContainer list \<times> bool) \<Rightarrow> (string \<Rightarrow> ComposeContainer option) \<Rightarrow>
    place \<Rightarrow> env \<Rightarrow> herror + compose_params \<Rightarrow> (herror, ComposeContainer list) act" where
  "handleDockerComposePs decode_array decode_line pl env params =
     project_access pl params (\<lambda>p. ComposePsProject decode_array decode_line env (cp_project_path p))"

text \<open>The list of projects takes no parameters and names no file.\<close>

definition handleDockerComposeList :: "(string \<Rightarrow> ComposeProject list option) \<Rightarrow> env \<Rightarrow> (herror, ComposeProject list) act" where
  "handleDockerComposeList decode env = ComposeList decode env"

subsection \<open>Building an image\<close>

text \<open>\<open>filepath.Rel\<close> of two rooted paths.\<close>

fun strip_common :: "string list \<Rightarrow> string list \<Rightarrow> string list \<times> string list" where
  "strip_common (b # bs) (t # ts) = (if b = t then strip_common bs ts else (b # bs, t # ts))"
| "strip_common bs ts = (bs, ts)"

definition path_words :: "string \<Rightarrow> string list" where
  "path_words p = filter (\<lambda>e. e \<noteq> []) (elems p)"

definition Rel :: "string \<Rightarrow> string \<Rightarrow> string" where
  "Rel base targ =
     (case strip_common (path_words (Clean base)) (path_words (Clean targ)) of
        ([], []) \<Rightarrow> ''.''
      | (bs, ts) \<Rightarrow> join ''/'' (map (\<lambda>_. ''..'') bs @ ts))"

definition contextPathAllowed :: "string \<Rightarrow> string list \<Rightarrow> string \<Rightarrow> bool" where
  "contextPathAllowed cwd allowed path =
     list_ex (\<lambda>root. let rel = Rel (Abs_path cwd root) path in rel \<noteq> ''..'' \<and> \<not> prefix ''../'' rel) allowed"

record ImageBuildSpec =
  ibs_ContextPath :: string
  ibs_Dockerfile :: string
  ibs_Tag :: string
  ibs_BuildArgs :: "(string \<times> string) list"   \<comment> \<open>in the order the map is iterated in\<close>
  ibs_NoCache :: bool
  ibs_Pull :: bool

definition validateImageName :: "string \<Rightarrow> herror + unit" where
  "validateImageName s =
     (let s = trim_space s in
      if s = [] then Inl (Refused ''image is required'')
      else if contains_any s package_meta then Inl (Refused ''invalid image'')
      else Inr ())"

definition BuildImageCmd :: "ImageBuildSpec \<Rightarrow> herror + cmd" where
  "BuildImageCmd spec =
     (if trim_space (ibs_ContextPath spec) = [] then Inl (Refused ''context_path is required'')
      else if trim_space (ibs_Tag spec) = [] then Inl (Refused ''tag is required'')
      else Inr (Run ''docker''
        ([''build'', ''-t'', ibs_Tag spec] @
         (if ibs_Dockerfile spec \<noteq> [] then [''-f'', ibs_Dockerfile spec] else []) @
         concat (map (\<lambda>(k, v). [''--build-arg'', k @ ''='' @ v]) (ibs_BuildArgs spec)) @
         opt (ibs_NoCache spec) ''--no-cache'' @ opt (ibs_Pull spec) ''--pull'' @ [ibs_ContextPath spec])))"

text \<open>No escalation: the program runs with the agent's own rights.\<close>

definition runDockerBuildJob :: "env \<Rightarrow> start \<Rightarrow> ImageBuildSpec \<Rightarrow> trace \<Rightarrow> event list \<times> trace" where
  "runDockerBuildJob env start spec t =
     (let extra = [(''tag'', JStr (ibs_Tag spec))] in
      case BuildImageCmd spec of
        Inl e \<Rightarrow> ([done_event (-1) (error_text e) extra], t)
      | Inr c \<Rightarrow> run_and_report env start SudoRoot c (''docker build -t '' @ ibs_Tag spec) (\<lambda>_. extra) t)"

definition handleDockerImageBuild :: "place \<Rightarrow> env \<Rightarrow> start \<Rightarrow> bool \<Rightarrow> string \<Rightarrow> registry \<Rightarrow> herror + ImageBuildSpec \<Rightarrow>
    (herror, json \<times> registry \<times> job_body) act" where
  "handleDockerImageBuild pl env start docker i reg params =
     abind (guard docker (Refused ''docker not available'')) (\<lambda>_.
     abind (lift params) (\<lambda>spec.
     abind (lift (validateImageName (ibs_Tag spec))) (\<lambda>_.
       let path = Abs_path (pl_cwd pl) (ibs_ContextPath spec) in
     abind (guard (contextPathAllowed (pl_cwd pl) (pl_allowed pl) path)
         (Refused ''context_path is not under any allowed root'')) (\<lambda>_.
       let spec = spec\<lparr>ibs_ContextPath := path\<rparr>; (j, reg) = New i 500 reg
       in ret (JObj [(''job_id'', JStr (job_ID j)), (''channel'', JStr (job_Channel j)), (''tag'', JStr (ibs_Tag spec))],
            reg, runDockerBuildJob env start spec)))))"

subsection \<open>What docker is started on\<close>

text \<open>A compose command on a path that passed both checks, and the one that names no project.\<close>

abbreviation compose_ls :: cmd where
  "compose_ls \<equiv> Run ''docker'' [''compose'', ''ls'', ''--format'', ''json'']"

definition compose_ok :: "place \<Rightarrow> herror + compose_params \<Rightarrow> cmd \<Rightarrow> bool" where
  "compose_ok pl params c \<longleftrightarrow>
     (\<exists>path args. (\<exists>p. params = Inr p \<and> path = cp_project_path p) \<and>
        c = Run ''docker'' (''compose'' # ''-f'' # path # args) \<and> prefix ''/'' path \<and> \<not> contains path ''..'' \<and>
        validateFileAccess (pl_fs pl) (pl_cwd pl) (pl_allowed pl) path = Inr ())"

lemma project_path_ok:
  "validateProjectPath p = Inr () \<Longrightarrow> prefix ''/'' p \<and> \<not> contains p ''..''"
  by (auto simp: validateProjectPath_def split: if_splits)

lemma emits_project_access:
  assumes "\<And>p. params = Inr p \<Longrightarrow>
    validateFileAccess (pl_fs pl) (pl_cwd pl) (pl_allowed pl) (cp_project_path p) = Inr () \<Longrightarrow> emits P Q (f p)"
  shows "emits P Q (project_access pl params f)"
  unfolding project_access_def
  by (rule emits_bind [where R = "\<lambda>p. params = Inr p"], rule emits_lift, simp,
      rule emits_bind [where R = "\<lambda>_. validateFileAccess (pl_fs pl) (pl_cwd pl) (pl_allowed pl) _ = Inr ()"],
      rule emits_lift, simp, erule assms, assumption)

lemma emits_case_prod [emits_rules]: "(\<And>a b. emits P Q (f a b)) \<Longrightarrow> emits P Q (case r of (a, b) \<Rightarrow> f a b)"
  by (cases r) simp

lemma emits_compose_call:
  assumes "\<exists>p. params = Inr p \<and> path = cp_project_path p" "validateFileAccess (pl_fs pl) (pl_cwd pl) (pl_allowed pl) path = Inr ()"
  shows "emits (compose_ok pl params) (\<lambda>_. True) (compose_call env what path args)"
  unfolding compose_call_def
  by (rule emits_case_sum, rule emits_ret, rule TrueI, rule emits_bind [of _ "\<lambda>_. True"], rule emits_run)
    (use assms project_path_ok in \<open>auto simp: compose_ok_def emits_ret\<close>)

lemma emits_handler:
  assumes "\<And>p r. emits (compose_ok pl params) Q (g p r)"
  shows "emits (compose_ok pl params) Q
     (project_access pl params (\<lambda>p. abind (compose_call env what (cp_project_path p) (args p)) (g p)))"
  by (rule emits_project_access, rule emits_bind, rule emits_compose_call, blast, assumption, rule assms)

lemma emits_compose_ps:
  assumes "\<exists>p. params = Inr p \<and> path = cp_project_path p" "validateFileAccess (pl_fs pl) (pl_cwd pl) (pl_allowed pl) path = Inr ()"
  shows "emits (compose_ok pl params) (\<lambda>_. True) (ComposePsProject decode_array decode_line env path)"
  unfolding ComposePsProject_def
  by (rule emits_bind [of _ "\<lambda>_. validateProjectPath path = Inr ()"], rule emits_lift, simp,
      rule emits_bind [of _ "\<lambda>_. True"], rule emits_run)
    (use assms project_path_ok in \<open>auto simp: compose_ok_def intro!: emits_rules\<close>)

lemmas compose_ops = ComposeUp_def ComposeDown_def ComposeLogs_def ComposeRestart_def ComposePull_def

lemma compose_handlers_emit:
  "emits (compose_ok pl params) (\<lambda>_. True) (handleDockerComposeUp pl env params)"
  "emits (compose_ok pl params) (\<lambda>_. True) (handleDockerComposeDown pl env params)"
  "emits (compose_ok pl params) (\<lambda>_. True) (handleDockerComposeLogs pl env params)"
  "emits (compose_ok pl params) (\<lambda>_. True) (handleDockerComposeRestart pl env params)"
  "emits (compose_ok pl params) (\<lambda>_. True) (handleDockerComposePull pl env params)"
  "emits (compose_ok pl params) (\<lambda>_. True) (handleDockerComposePs decode_array decode_line pl env params)"
  unfolding handleDockerComposeUp_def handleDockerComposeDown_def handleDockerComposeLogs_def
    handleDockerComposeRestart_def handleDockerComposePull_def handleDockerComposePs_def Let_def compose_ops
  by (intro emits_handler emits_case_prod emits_case_option emits_ret emits_throw TrueI emits_project_access
      emits_compose_ps; (assumption | blast))+

lemma compose_list_emits: "emits (\<lambda>c. c = compose_ls) (\<lambda>_. True) (handleDockerComposeList decode env)"
  unfolding handleDockerComposeList_def ComposeList_def
  by (rule emits_bind [of _ "\<lambda>_. True"], rule emits_run, simp_all)
    (intro emits_case_option emits_ret emits_throw TrueI)

lemma split_on_infix:
  assumes "e \<in> set (split_on c s)"
  shows "\<exists>a b. s = a @ e @ b"
proof -
  obtain xs ys where x: "split_on c s = xs @ e # ys" using assms by (metis split_list)
  have s: "s = join [c] (xs @ e # ys)" using join_split_on [of c s] x by simp
  obtain b where b: "join [c] (e # ys) = e @ b" by (cases ys) auto
  show ?thesis
  proof (cases "xs = []")
    case True
    then show ?thesis using s b by (intro exI [of _ "[]"] exI [of _ b]) simp
  next
    case False
    then show ?thesis using s b by (intro exI [of _ "join [c] xs @ [c]"] exI [of _ b]) (simp add: join_append)
  qed
qed

lemma no_dotdot_elem: "\<not> contains p ''..'' \<Longrightarrow> ''..'' \<notin> set (elems p)"
  using split_on_infix unfolding elems_def contains_iff by blast

subsection \<open>What a build is started on\<close>

lemma path_words_rooted: "list_all elem_ok es \<Longrightarrow> path_words (rooted_path es) = es"
proof (cases "es = []")
  case False
  assume a: "list_all elem_ok es"
  then have "filter (\<lambda>e. e \<noteq> []) es = es" by (intro filter_True) (auto simp: list_all_iff elem_ok_def)
  then show ?thesis using split_rooted [OF a False] by (simp add: path_words_def elems_def)
qed (simp add: path_words_def elems_def rooted_path_def)

lemma strip_common_spec:
  "strip_common bs ts = (bs', ts') \<Longrightarrow> (bs' = [] \<longleftrightarrow> prefix bs ts) \<and> (\<exists>zs. ts = zs @ ts')"
proof (induction bs ts arbitrary: bs' ts' rule: strip_common.induct)
  case (1 b bs t ts)
  then show ?case by (auto split: if_splits)
qed auto

lemma join_head: "join sep (e # es) = e @ (if es = [] then [] else sep @ join sep es)"
  by (cases es) simp_all

lemma Rel_inside:
  assumes "list_all elem_ok b" "list_all elem_ok t"
  shows "(Rel (rooted_path b) (rooted_path t) \<noteq> ''..'' \<and> \<not> prefix ''../'' (Rel (rooted_path b) (rooted_path t))) \<longleftrightarrow> prefix b t"
proof -
  obtain bs ts where st: "strip_common b t = (bs, ts)" by (cases "strip_common b t")
  have r: "Rel (rooted_path b) (rooted_path t) =
      (if bs = [] \<and> ts = [] then ''.'' else join ''/'' (map (\<lambda>_. ''..'') bs @ ts))"
    using assms by (simp add: Rel_def Clean_rooted_path path_words_rooted st split: list.splits)
  have sp: "bs = [] \<longleftrightarrow> prefix b t" and "list_all elem_ok ts"
    using strip_common_spec [OF st] assms(2) by auto
  show ?thesis
  proof (cases bs)
    case (Cons x xs)
    then show ?thesis using sp by (auto simp: r join_head)
  next
    case Nil
    show ?thesis
    proof (cases ts)
      case Nil
      then show ?thesis using \<open>bs = []\<close> sp by (simp add: r)
    next
      case (Cons y ys)
      have y: "y \<noteq> ''..''" "CHR ''/'' \<notin> set y" using \<open>list_all elem_ok ts\<close> Cons by (auto simp: elem_ok_def)
      have "\<not> prefix ''../'' (y @ zs)" "y @ zs \<noteq> ''..''" if "zs = [] \<or> hd zs = CHR ''/''" for zs
        using y that by (cases y; cases "tl y"; cases "tl (tl y)"; cases zs; auto)+
      then show ?thesis using \<open>bs = []\<close> sp Cons by (auto simp: r join_head)
    qed
  qed
qed

lemma Abs_path_words:
  assumes "IsAbs cwd"
  shows "\<exists>es. Abs_path cwd p = rooted_path es \<and> list_all elem_ok es \<and> path_words (Abs_path cwd p) = es"
  using Abs_path_rooted [OF assms, of p] path_words_rooted by metis

lemma context_allowed_iff:
  assumes "IsAbs cwd"
  shows "contextPathAllowed cwd allowed (Abs_path cwd p) \<longleftrightarrow>
     (\<exists>root \<in> set allowed. prefix (path_words (Abs_path cwd root)) (path_words (Abs_path cwd p)))"
proof -
  obtain t where t: "Abs_path cwd p = rooted_path t" "list_all elem_ok t" using Abs_path_words [OF assms] by blast
  have "(let rel = Rel (Abs_path cwd root) (Abs_path cwd p) in rel \<noteq> ''..'' \<and> \<not> prefix ''../'' rel) \<longleftrightarrow>
      prefix (path_words (Abs_path cwd root)) (path_words (Abs_path cwd p))" for root
  proof -
    obtain b where "Abs_path cwd root = rooted_path b" "list_all elem_ok b" using Abs_path_words [OF assms] by blast
    then show ?thesis using Rel_inside [of b t] t by (simp add: path_words_rooted Let_def)
  qed
  then show ?thesis unfolding contextPathAllowed_def list_ex_iff by blast
qed

lemma build_ends: "ends_done (fst (runDockerBuildJob env start spec t))"
  unfolding runDockerBuildJob_def Let_def by (cases "BuildImageCmd spec") (simp_all add: report_ends)

interpretation build_job: job_task "runDockerBuildJob env start spec"
  for env start spec
  by unfold_locales (rule build_ends)

subsection \<open>Properties\<close>

lemma emits_snd: "emits P Q m \<Longrightarrow> \<exists>cs. snd (m t) = t @ cs \<and> list_all P cs"
  unfolding emits_def by blast

lemma compose_ok_opens:
  assumes "compose_ok pl params c" "IsAbs (pl_cwd pl)"
  shows "\<exists>path args. c = Run ''docker'' (''compose'' # ''-f'' # path # args) \<and>
    (\<exists>p. params = Inr p \<and> path = cp_project_path p) \<and>
    (\<forall>loc. kernel_open (pl_fs pl) (cwd_elems (pl_cwd pl)) path = Some loc \<longrightarrow>
       (\<exists>ap \<in> set (pl_allowed pl). \<exists>root. resolveSymlinkPath (pl_fs pl) (pl_cwd pl) ap = Some (''/'' @ join ''/'' root) \<and>
          prefix root loc))"
proof -
  obtain path args where c: "c = Run ''docker'' (''compose'' # ''-f'' # path # args)" "prefix ''/'' path"
      "\<exists>p. params = Inr p \<and> path = cp_project_path p" "\<not> contains path ''..''" "validateFileAccess (pl_fs pl) (pl_cwd pl) (pl_allowed pl) path = Inr ()"
    using assms(1) unfolding compose_ok_def by blast
  have "IsAbs path" using c(2) by (simp add: IsAbs_def)
  note a = access_no_dotdot [OF c(5) assms(2) this no_dotdot_elem [OF c(4)], unfolded rooted_path_def]
  show ?thesis
    by (rule exI [of _ path], rule exI [of _ args], rule conjI, rule c(1), rule conjI, rule c(3), intro allI impI, drule a) blast
qed

text \<open>
  C16. Every program a compose action starts is \<open>docker compose ls\<close>, for the list of projects, which
  names no file, or \<open>docker compose -f\<close> on the path of the request, and if that path names a file then
  the file opened lies, links followed, below a configured root: unlike for the file actions there is
  no way around through \<open>..\<close>, which is refused. What the file itself asks of docker is not looked at.
\<close>

theorem compose_confined:
  assumes "IsAbs (pl_cwd pl)"
    and "step \<in> {snd \<circ> handleDockerComposeUp pl env params, snd \<circ> handleDockerComposeDown pl env params,
      snd \<circ> handleDockerComposeLogs pl env params, snd \<circ> handleDockerComposeRestart pl env params,
      snd \<circ> handleDockerComposePull pl env params, snd \<circ> handleDockerComposePs decode_array decode_line pl env params,
      snd \<circ> handleDockerComposeList decode_projects env}"
  shows "\<exists>cs. step t = t @ cs \<and> (\<forall>c \<in> set cs. c = compose_ls \<and> step = snd \<circ> handleDockerComposeList decode_projects env \<or>
     (\<exists>path args. c = Run ''docker'' (''compose'' # ''-f'' # path # args) \<and>
        (\<exists>p. params = Inr p \<and> path = cp_project_path p) \<and>
        (\<forall>loc. kernel_open (pl_fs pl) (cwd_elems (pl_cwd pl)) path = Some loc \<longrightarrow>
          (\<exists>ap \<in> set (pl_allowed pl). \<exists>root. resolveSymlinkPath (pl_fs pl) (pl_cwd pl) ap = Some (''/'' @ join ''/'' root) \<and>
             prefix root loc))))"
proof -
  have "(\<exists>cs. step t = t @ cs \<and> list_all (compose_ok pl params) cs) \<or>
      step = snd \<circ> handleDockerComposeList decode_projects env \<and> (\<exists>cs. step t = t @ cs \<and> list_all (\<lambda>c. c = compose_ls) cs)"
    using assms(2)
    by (elim insertE emptyE) (simp_all add: compose_handlers_emit [THEN emits_snd] compose_list_emits [THEN emits_snd])
  then show ?thesis
  proof
    assume "\<exists>cs. step t = t @ cs \<and> list_all (compose_ok pl params) cs"
    then show ?thesis using compose_ok_opens [OF _ assms(1)] unfolding list_all_iff by meson
  next
    assume "step = snd \<circ> handleDockerComposeList decode_projects env \<and> (\<exists>cs. step t = t @ cs \<and> list_all (\<lambda>c. c = compose_ls) cs)"
    then show ?thesis unfolding list_all_iff by meson
  qed
qed

definition demo_place :: place where
  "demo_place = \<lparr>pl_fs = witness_fs, pl_cwd = ''/'', pl_allowed = [''/srv/data'']\<rparr>"

definition demo_compose :: "string \<Rightarrow> compose_params" where
  "demo_compose path = \<lparr>cp_project_path = path, cp_detach = False, cp_build = True, cp_volumes = False,
     cp_remove_orphans = False, cp_service = [], cp_tail = 0\<rparr>"

theorem compose_confined_witness:
  "snd (handleDockerComposeUp demo_place demo_host (Inr (demo_compose ''/srv/data/a'')) []) =
     [Run ''docker'' [''compose'', ''-f'', ''/srv/data/a'', ''up'', ''-d'', ''--build'']] \<and>
   (\<exists>cs. (snd \<circ> handleDockerComposeUp demo_place demo_host (Inr (demo_compose ''/srv/data/a''))) [] = [] @ cs \<and>
     (\<forall>c \<in> set cs. c = compose_ls \<or> (\<exists>path args. c = Run ''docker'' (''compose'' # ''-f'' # path # args))))"
proof
  show "snd (handleDockerComposeUp demo_place demo_host (Inr (demo_compose ''/srv/data/a'')) []) =
     [Run ''docker'' [''compose'', ''-f'', ''/srv/data/a'', ''up'', ''-d'', ''--build'']]"
    by code_simp
  have "IsAbs (pl_cwd demo_place)" by code_simp
  note c = compose_confined [OF this, where env = demo_host and params = "Inr (demo_compose ''/srv/data/a'')" and
      decode_array = "\<lambda>_. ([], True)" and decode_line = "\<lambda>_. None" and decode_projects = "\<lambda>_. None" and t = "[]", OF insertI1]
  show "\<exists>cs. (snd \<circ> handleDockerComposeUp demo_place demo_host (Inr (demo_compose ''/srv/data/a''))) [] = [] @ cs \<and>
     (\<forall>c \<in> set cs. c = compose_ls \<or> (\<exists>path args. c = Run ''docker'' (''compose'' # ''-f'' # path # args)))"
    by (rule exE [OF c], rule exI, erule conjE, erule conjI, meson)
qed

text \<open>
  A build that is started runs one kind of program, \<open>docker build\<close> in the requested directory made
  absolute, which lies element by element below an allowed root made absolute; its job ends with one
  done event.
\<close>

theorem docker_build_confined:
  assumes "handleDockerImageBuild pl env start docker i reg (Inr spec) t = (Inr (answer, reg', body), t')"
    and "IsAbs (pl_cwd pl)"
  shows "t' = t \<and>
    (\<exists>root \<in> set (pl_allowed pl).
       prefix (path_words (Abs_path (pl_cwd pl) root)) (path_words (Abs_path (pl_cwd pl) (ibs_ContextPath spec)))) \<and>
    (\<exists>cs. snd (body u) = u @ cs \<and> (\<forall>c \<in> set cs. \<exists>args.
       c = Run ''docker'' (''build'' # args @ [Abs_path (pl_cwd pl) (ibs_ContextPath spec)]))) \<and>
    ends_done (fst (body u))"
proof -
  let ?path = "Abs_path (pl_cwd pl) (ibs_ContextPath spec)"
  have h: "t' = t" "contextPathAllowed (pl_cwd pl) (pl_allowed pl) ?path"
      "body = runDockerBuildJob env start (spec\<lparr>ibs_ContextPath := ?path\<rparr>)"
    using assms(1) by (auto simp: handleDockerImageBuild_def abind_def guard_def lift_def ret_def Let_def
        split: if_splits sum.splits prod.splits)
  have "\<exists>cs. snd (body u) = u @ cs \<and> (\<forall>c \<in> set cs. \<exists>args. c = Run ''docker'' (''build'' # args @ [?path]))"
  proof (cases "BuildImageCmd (spec\<lparr>ibs_ContextPath := ?path\<rparr>)")
    case (Inl e)
    then show ?thesis by (simp add: h(3) runDockerBuildJob_def Let_def)
  next
    case (Inr c)
    then have "\<exists>args. c = Run ''docker'' (''build'' # args @ [?path])"
      by (auto simp: BuildImageCmd_def split: if_splits)
    moreover have "snd (body u) = u @ [c]"
      unfolding h(3) runDockerBuildJob_def Let_def Inr sum.case report_trace
      by (simp add: run_on_job_def streamCmdOutput_def split: option.splits)
    ultimately show ?thesis by simp
  qed
  then show ?thesis
    using h(1,2) context_allowed_iff [OF assms(2)] build_ends unfolding h(3) by blast
qed

definition demo_build :: "string \<Rightarrow> ImageBuildSpec" where
  "demo_build path = \<lparr>ibs_ContextPath = path, ibs_Dockerfile = [], ibs_Tag = ''app'', ibs_BuildArgs = [(''V'', ''1'')],
     ibs_NoCache = False, ibs_Pull = True\<rparr>"

theorem docker_build_confined_witness:
  "\<exists>answer reg' body. handleDockerImageBuild demo_place demo_host (\<lambda>_ _. Some [Line ''ok'']) True ''7'' (NewRegistry 8) (Inr (demo_build ''/srv/data/x/..'')) [] =
     (Inr (answer, reg', body), []) \<and>
   snd (body []) = [Run ''docker'' [''build'', ''-t'', ''app'', ''--build-arg'', ''V=1'', ''--pull'', ''/srv/data'']] \<and>
   ends_done (fst (body []))"
proof -
  let ?h = "handleDockerImageBuild demo_place demo_host (\<lambda>_ _. Some [Line ''ok'']) True ''7'' (NewRegistry 8) (Inr (demo_build ''/srv/data/x/..'')) []"
  have s: "case ?h of (Inr (answer, reg', body), t') \<Rightarrow> t' = [] \<and>
      snd (body []) = [Run ''docker'' [''build'', ''-t'', ''app'', ''--build-arg'', ''V=1'', ''--pull'', ''/srv/data'']] | _ \<Rightarrow> False"
    by code_simp
  then obtain answer reg' body where h: "?h = (Inr (answer, reg', body), [])"
      "snd (body []) = [Run ''docker'' [''build'', ''-t'', ''app'', ''--build-arg'', ''V=1'', ''--pull'', ''/srv/data'']]"
    by (auto split: prod.splits sum.splits)
  have "IsAbs (pl_cwd demo_place)" by code_simp
  from docker_build_confined [OF h(1) this] have "ends_done (fst (body []))" by blast
  then show ?thesis using h by blast
qed

text \<open>
  The check of a build's directory is lexical: a link below an allowed root is followed by docker to
  wherever it points, where the file actions refuse it; and an empty entry of the allowed paths, which
  they skip, lets in everything below the agent's own directory.
\<close>

theorem build_context_escapes:
  "contextPathAllowed ''/'' [''/srv/data''] ''/srv/data/l'' \<and>
   EvalSymlinks witness_fs ''/srv/data/l'' = Some ''/etc/ssl'' \<and>
   validateFileAccess witness_fs ''/'' [''/srv/data''] ''/srv/data/l'' = Inl (Refused ''file access denied for path'') \<and>
   contextPathAllowed ''/'' [[]] ''/etc'' \<and>
   validateFileAccess witness_fs ''/'' [[]] ''/etc'' = Inl (Refused ''file access denied for path'')"
  by (intro conjI) code_simp+

end
