(* ===== verification/Docker.thy ===== *)
theory Docker
  imports Complex_Main Compose
begin

text \<open>
  What the agent does to docker through its API: \<open>internal/docker/client.go\<close> and the handlers of
  \<open>internal/agent/agent.go\<close> and \<open>internal/agent/docker_extra_handlers.go\<close>. The daemon is outside the
  model: a call that changes something is a value of \<open>docker_call\<close>, listed by the handler, and what
  the daemon answers is given. Values keep their width where they are computed with.
\<close>

text \<open>A handler may also panic, which nothing recovers from.\<close>

datatype 'a reply = Answer 'a | Fails herror | Panics

definition slice :: "string \<Rightarrow> nat \<Rightarrow> string option" where
  "slice s n = (if length s < n then None else Some (take n s))"

subsection \<open>What is read\<close>

record PortMapping =
  pmap_IP :: string
  pmap_PrivatePort :: "16 word"
  pmap_PublicPort :: "16 word"
  pmap_Type :: string

record sdk_container =
  sdk_ID :: string
  sdk_Names :: "string list"
  sdk_Image :: string
  sdk_ImageID :: string
  sdk_Command :: string
  sdk_Created :: int
  sdk_State :: string
  sdk_Status :: string
  sdk_Ports :: "PortMapping list"
  sdk_Labels :: "(string \<times> string) list"

record ContainerInfo =
  ci_ID :: string
  ci_Name :: string
  ci_Image :: string
  ci_ImageID :: string
  ci_Command :: string
  ci_Created :: int
  ci_State :: string
  ci_Status :: string
  ci_Ports :: "PortMapping list"
  ci_Labels :: "(string \<times> string) list"

definition container_info :: "sdk_container \<Rightarrow> ContainerInfo option" where
  "container_info c = map_option (\<lambda>i.
     \<lparr>ci_ID = i, ci_Name = (case sdk_Names c of [] \<Rightarrow> [] | n # _ \<Rightarrow> trim_prefix n ''/''), ci_Image = sdk_Image c,
      ci_ImageID = sdk_ImageID c, ci_Command = sdk_Command c, ci_Created = sdk_Created c, ci_State = sdk_State c,
      ci_Status = sdk_Status c, ci_Ports = sdk_Ports c, ci_Labels = sdk_Labels c\<rparr>) (slice (sdk_ID c) 12)"

text \<open>The list: \<open>query all\<close> is the daemon's answer.\<close>

definition ListContainers :: "(bool \<Rightarrow> herror + sdk_container list) \<Rightarrow> bool \<Rightarrow> ContainerInfo list reply" where
  "ListContainers query all =
     (case query all of
        Inl e \<Rightarrow> Fails e
      | Inr cs \<Rightarrow> (case those (map container_info cs) of None \<Rightarrow> Panics | Some infos \<Rightarrow> Answer infos))"

definition GetContainerCount :: "herror + sdk_container list \<Rightarrow> herror + sdk_container list \<Rightarrow> herror + nat \<times> nat" where
  "GetContainerCount all_answer running_answer =
     rbind all_answer (\<lambda>cs. rbind running_answer (\<lambda>rs. Inr (length cs, length rs)))"

record sdk_network =
  sn_ID :: string
  sn_Name :: string
  sn_Driver :: string
  sn_Scope :: string
  sn_Internal :: bool
  sn_Labels :: "(string \<times> string) list"
  sn_Containers :: "string list"

record NetworkInfo =
  ni_ID :: string
  ni_Name :: string
  ni_Driver :: string
  ni_Scope :: string
  ni_Internal :: bool
  ni_Labels :: "(string \<times> string) list"
  ni_Containers :: nat

definition network_info :: "sdk_network \<Rightarrow> NetworkInfo option" where
  "network_info n = map_option (\<lambda>i.
     \<lparr>ni_ID = i, ni_Name = sn_Name n, ni_Driver = sn_Driver n, ni_Scope = sn_Scope n, ni_Internal = sn_Internal n,
      ni_Labels = sn_Labels n, ni_Containers = length (sn_Containers n)\<rparr>) (slice (sn_ID n) 12)"

definition ListNetworks :: "herror + sdk_network list \<Rightarrow> NetworkInfo list reply" where
  "ListNetworks answer =
     (case answer of
        Inl e \<Rightarrow> Fails e
      | Inr ns \<Rightarrow> (case those (map network_info ns) of None \<Rightarrow> Panics | Some infos \<Rightarrow> Answer infos))"

subsection \<open>Statistics\<close>

record sdk_stats =
  st_cpu_total :: "64 word"
  st_precpu_total :: "64 word"
  st_system :: "64 word"
  st_presystem :: "64 word"
  st_online :: "32 word"
  st_mem_usage :: "64 word"
  st_mem_limit :: "64 word"
  st_networks :: "(string \<times> 64 word \<times> 64 word) list"   \<comment> \<open>interface, received, sent\<close>
  st_blkio :: "(string \<times> 64 word) list"
  st_pids :: "64 word"

record ContainerStats =
  cs_ID :: string
  cs_Name :: string
  cs_CPUPercent :: rat
  cs_MemoryUsage :: "64 word"
  cs_MemoryLimit :: "64 word"
  cs_MemoryPercent :: rat
  cs_NetworkRx :: "64 word"
  cs_NetworkTx :: "64 word"
  cs_BlockRead :: "64 word"
  cs_BlockWrite :: "64 word"
  cs_PIDs :: "64 word"

definition rat_of :: "'a::len word \<Rightarrow> rat" where
  "rat_of w = of_nat (unat w)"

text \<open>The differences are taken of unsigned counters; the rounding of \<open>float64\<close> is left out.\<close>

definition calculateCPUPercent :: "sdk_stats \<Rightarrow> rat" where
  "calculateCPUPercent st =
     (let cpuDelta = rat_of (st_cpu_total st - st_precpu_total st);
          systemDelta = rat_of (st_system st - st_presystem st)
      in if 0 < systemDelta \<and> 0 < cpuDelta then cpuDelta / systemDelta * rat_of (st_online st) * 100 else 0)"

definition sum_op :: "string \<Rightarrow> (string \<times> 64 word) list \<Rightarrow> 64 word" where
  "sum_op op xs = sum_list (map snd (filter (\<lambda>x. fst x = op) xs))"

text \<open>
  \<open>answer\<close> is the daemon's decoded answer, \<open>inspected\<close> the name it gives for the container, empty if
  that failed.
\<close>

definition container_stats :: "herror + sdk_stats \<Rightarrow> string \<Rightarrow> string \<Rightarrow> ContainerStats reply" where
  "container_stats answer inspected ident =
     (case answer of
        Inl e \<Rightarrow> Fails e
      | Inr st \<Rightarrow>
          (let memPercent = (if 0 < st_mem_limit st then rat_of (st_mem_usage st) / rat_of (st_mem_limit st) * 100 else 0)
           in case slice ident 12 of
                None \<Rightarrow> Panics
              | Some i \<Rightarrow> Answer
                  \<lparr>cs_ID = i, cs_Name = trim_prefix inspected ''/'', cs_CPUPercent = calculateCPUPercent st,
                   cs_MemoryUsage = st_mem_usage st, cs_MemoryLimit = st_mem_limit st, cs_MemoryPercent = memPercent,
                   cs_NetworkRx = sum_list (map (\<lambda>(_, rx, _). rx) (st_networks st)),
                   cs_NetworkTx = sum_list (map (\<lambda>(_, _, tx). tx) (st_networks st)),
                   cs_BlockRead = sum_op ''Read'' (st_blkio st), cs_BlockWrite = sum_op ''Write'' (st_blkio st),
                   cs_PIDs = st_pids st\<rparr>))"

definition handleDockerContainerStats :: "(string \<Rightarrow> herror + sdk_stats) \<Rightarrow> (string \<Rightarrow> string) \<Rightarrow> herror + string \<Rightarrow>
    ContainerStats reply" where
  "handleDockerContainerStats query inspect params =
     (case params of Inl e \<Rightarrow> Fails e | Inr ident \<Rightarrow> container_stats (query ident) (inspect ident) ident)"

subsection \<open>Calls that change something\<close>

record container_config =
  cfg_Image :: string
  cfg_Cmd :: "string list"
  cfg_Env :: "string list"
  cfg_Labels :: "(string \<times> string) list"
  cfg_WorkingDir :: string
  cfg_ExposedPorts :: "string list"
  cfg_PortBindings :: "(string \<times> (string \<times> string)) list"   \<comment> \<open>port to host address and port\<close>
  cfg_Binds :: "string list"
  cfg_RestartPolicy :: string
  cfg_Network :: "string option"

datatype docker_call =
    ContainerStart string
  | ContainerStop string "int option"
  | ContainerRestart string "int option"
  | ContainerRemove string bool bool
  | ImagePull string
  | ImageRemove string bool
  | VolumeCreate string string "(string \<times> string) list"
  | VolumeRemove string bool
  | NetworkCreate string string bool bool "(string \<times> string) list"
  | NetworkRemove string
  | ContainerCreate container_config string
  | ContainerExecCreate string "string list" string string
  | ContainerExecAttach string

type_synonym sdk = "docker_call \<Rightarrow> herror + string"
type_synonym 'a effect = "docker_call list \<times> (herror + 'a)"

definition refuse :: "herror \<Rightarrow> 'a effect" where
  "refuse e = ([], Inl e)"

definition ask :: "sdk \<Rightarrow> docker_call \<Rightarrow> (string \<Rightarrow> 'a) \<Rightarrow> 'a effect" where
  "ask d c f = ([c], case d c of Inl e \<Rightarrow> Inl e | Inr r \<Rightarrow> Inr (f r))"

definition with_params :: "herror + 'p \<Rightarrow> ('p \<Rightarrow> 'a effect) \<Rightarrow> 'a effect" where
  "with_params params f = (case params of Inl e \<Rightarrow> refuse e | Inr p \<Rightarrow> f p)"

definition success :: "string \<Rightarrow> json" where
  "success r = JObj [(''success'', JBool True)]"

definition handleDockerContainerStart :: "sdk \<Rightarrow> herror + string \<Rightarrow> json effect" where
  "handleDockerContainerStart d params = with_params params (\<lambda>i. ask d (ContainerStart i) success)"

definition handleDockerContainerStop :: "sdk \<Rightarrow> herror + string \<times> int option \<Rightarrow> json effect" where
  "handleDockerContainerStop d params = with_params params (\<lambda>(i, timeout). ask d (ContainerStop i timeout) success)"

definition handleDockerContainerRestart :: "sdk \<Rightarrow> herror + string \<times> int option \<Rightarrow> json effect" where
  "handleDockerContainerRestart d params = with_params params (\<lambda>(i, timeout). ask d (ContainerRestart i timeout) success)"

definition handleDockerContainerRemove :: "sdk \<Rightarrow> herror + string \<times> bool \<times> bool \<Rightarrow> json effect" where
  "handleDockerContainerRemove d params =
     with_params params (\<lambda>(i, force, volumes). ask d (ContainerRemove i force volumes) success)"

definition handleDockerImageRemove :: "sdk \<Rightarrow> herror + string \<times> bool \<Rightarrow> json effect" where
  "handleDockerImageRemove d params = with_params params (\<lambda>(i, force). ask d (ImageRemove i force) success)"

definition handleDockerVolumeRemove :: "sdk \<Rightarrow> herror + string \<times> bool \<Rightarrow> json effect" where
  "handleDockerVolumeRemove d params = with_params params (\<lambda>(nm, force). ask d (VolumeRemove nm force) success)"

definition handleDockerNetworkRemove :: "sdk \<Rightarrow> herror + string \<Rightarrow> json effect" where
  "handleDockerNetworkRemove d params = with_params params (\<lambda>i. ask d (NetworkRemove i) success)"

text \<open>
  A pull: the daemon streams its progress, objects up to the first that does not decode; a failure of
  the pull is one of them.
\<close>

definition handleDockerImagePull :: "sdk \<Rightarrow> (string \<Rightarrow> json list) \<Rightarrow> herror + string \<Rightarrow> json effect" where
  "handleDockerImagePull d messages params =
     with_params params (\<lambda>image. ask d (ImagePull image) (\<lambda>stream.
       JObj [(''success'', JBool True), (''output'', JArr (messages stream))]))"

subsection \<open>Logs\<close>

record log_query =
  lq_id :: string
  lq_tail :: string
  lq_since :: string
  lq_follow :: bool
  lq_timestamps :: bool

definition ContainerLogs :: "string \<Rightarrow> string \<Rightarrow> string \<Rightarrow> bool \<Rightarrow> log_query" where
  "ContainerLogs ident tail since follow =
     \<lparr>lq_id = ident, lq_tail = tail, lq_since = since, lq_follow = follow, lq_timestamps = True\<rparr>"

record logs_params =
  lp_id :: string
  lp_tail :: string
  lp_since :: string
  lp_timestamps :: bool

text \<open>\<open>query\<close> gives the stream, and whether reading it fails.\<close>

definition handleDockerContainerLogs :: "(log_query \<Rightarrow> herror + (string \<times> bool)) \<Rightarrow> herror + logs_params \<Rightarrow> herror + json" where
  "handleDockerContainerLogs query params =
     rbind params (\<lambda>p.
       let tail = (if lp_tail p = [] then ''100'' else lp_tail p) in
       rbind (query (ContainerLogs (lp_id p) tail (lp_since p) False)) (\<lambda>(stream, fails).
         if fails then Inl (Refused ''read docker logs'')
         else Inr (JObj [(''logs'', JStr (take (1024 * 1024) stream))])))"

subsection \<open>Creating\<close>

record ContainerPort =
  port_Host :: "16 word"
  port_Container :: "16 word"
  port_Proto :: string

record ContainerMount =
  mount_Source :: string
  mount_Target :: string
  mount_Mode :: string

record ContainerCreateSpec =
  ccs_Image :: string
  ccs_Name :: string
  ccs_Command :: "string list"
  ccs_Env :: "string list"
  ccs_Labels :: "(string \<times> string) list"
  ccs_RestartPolicy :: string
  ccs_Network :: string
  ccs_Ports :: "ContainerPort list"
  ccs_Volumes :: "ContainerMount list"
  ccs_WorkingDir :: string

definition word_text :: "'a::len word \<Rightarrow> string" where
  "word_text w = itoa (uint w)"

text \<open>\<open>newPort proto port\<close> is \<open>nat.NewPort\<close> of the docker library.\<close>

definition port_key :: "(string \<Rightarrow> string \<Rightarrow> herror + string) \<Rightarrow> ContainerPort \<Rightarrow> herror + string" where
  "port_key newPort p = newPort (if port_Proto p = [] then ''tcp'' else port_Proto p) (word_text (port_Container p))"

fun bind_ports :: "(string \<Rightarrow> string \<Rightarrow> herror + string) \<Rightarrow> ContainerPort list \<Rightarrow>
    (string \<times> (string \<times> string)) list \<Rightarrow> herror + (string \<times> (string \<times> string)) list" where
  "bind_ports newPort [] acc = Inr acc"
| "bind_ports newPort (p # ps) acc =
     rbind (port_key newPort p) (\<lambda>k. bind_ports newPort ps (AList.update k (''0.0.0.0'', word_text (port_Host p)) acc))"

definition bind_text :: "ContainerMount \<Rightarrow> string" where
  "bind_text v = mount_Source v @ '':'' @ mount_Target v @ (if mount_Mode v \<noteq> [] then '':'' @ mount_Mode v else [])"

definition CreateContainer :: "(string \<Rightarrow> string \<Rightarrow> herror + string) \<Rightarrow> sdk \<Rightarrow> ContainerCreateSpec \<Rightarrow> string effect" where
  "CreateContainer newPort d spec =
     (if trim_space (ccs_Image spec) = [] then refuse (Refused ''image is required'')
      else (case bind_ports newPort (ccs_Ports spec) [] of
          Inl e \<Rightarrow> refuse e
        | Inr bindings \<Rightarrow>
            ask d (ContainerCreate
              \<lparr>cfg_Image = ccs_Image spec, cfg_Cmd = ccs_Command spec, cfg_Env = ccs_Env spec, cfg_Labels = ccs_Labels spec,
               cfg_WorkingDir = ccs_WorkingDir spec, cfg_ExposedPorts = map fst bindings, cfg_PortBindings = bindings,
               cfg_Binds = map bind_text (ccs_Volumes spec), cfg_RestartPolicy = ccs_RestartPolicy spec,
               cfg_Network = (if ccs_Network spec \<noteq> [] then Some (ccs_Network spec) else None)\<rparr>
              (ccs_Name spec)) (\<lambda>i. i)))"

text \<open>The keys of the request that no field of the specification stands for.\<close>

definition banned_keys :: "string list" where
  "banned_keys = [''privileged'', ''cap_add'', ''devices'']"

definition handleDockerContainerCreate :: "(string \<Rightarrow> string \<Rightarrow> herror + string) \<Rightarrow> sdk \<Rightarrow> bool \<Rightarrow> string list \<Rightarrow>
    herror + ContainerCreateSpec \<Rightarrow> json effect" where
  "handleDockerContainerCreate newPort d docker keys params =
     (if \<not> docker then refuse (Refused ''docker not available'')
      else with_params params (\<lambda>spec.
        case validateImageName (ccs_Image spec) of
          Inl e \<Rightarrow> refuse e
        | Inr _ \<Rightarrow>
            (case find (\<lambda>b. b \<in> set keys) banned_keys of
               Some b \<Rightarrow> refuse (Refused (b @ '' is not supported in v1 container:create''))
             | None \<Rightarrow>
                 (case CreateContainer newPort d spec of
                    (calls, Inl e) \<Rightarrow> (calls, Inl e)
                  | (calls, Inr i) \<Rightarrow> (calls, Inr (JObj [(''id'', JStr i), (''name'', JStr (ccs_Name spec)),
                      (''image'', JStr (ccs_Image spec)), (''status'', JStr ''created'')]))))))"

definition name_meta :: string where
  "name_meta = package_meta @ '' /''"

definition validateContainerID :: "string \<Rightarrow> herror + unit" where
  "validateContainerID s =
     (let s = trim_space s in
      if s = [] then Inl (Refused ''container is required'')
      else if contains_any s name_meta then Inl (Refused ''invalid container id/name'')
      else Inr ())"

definition valid_new_name :: "string \<Rightarrow> herror + unit" where
  "valid_new_name nm =
     (if trim_space nm = [] then Inl (Refused ''name is required'')
      else if contains_any nm name_meta then Inl (Refused ''invalid name'')
      else Inr ())"

definition handleDockerVolumeCreate :: "sdk \<Rightarrow> bool \<Rightarrow> herror + string \<times> string \<times> (string \<times> string) list \<Rightarrow> string effect" where
  "handleDockerVolumeCreate d docker params =
     (if \<not> docker then refuse (Refused ''docker not available'')
      else with_params params (\<lambda>(nm, driver, labels).
        case valid_new_name nm of
          Inl e \<Rightarrow> refuse e
        | Inr _ \<Rightarrow> ask d (VolumeCreate nm driver labels) (\<lambda>vol. vol)))"

record NetworkCreateSpec =
  ncs_Name :: string
  ncs_Driver :: string
  ncs_Internal :: bool
  ncs_Attachable :: bool
  ncs_Labels :: "(string \<times> string) list"

definition CreateNetwork :: "sdk \<Rightarrow> NetworkCreateSpec \<Rightarrow> string effect" where
  "CreateNetwork d spec =
     (if trim_space (ncs_Name spec) = [] then refuse (Refused ''name is required'')
      else ask d (NetworkCreate (ncs_Name spec) (if ncs_Driver spec = [] then ''bridge'' else ncs_Driver spec)
        (ncs_Internal spec) (ncs_Attachable spec) (ncs_Labels spec)) (\<lambda>i. i))"

definition handleDockerNetworkCreate :: "sdk \<Rightarrow> bool \<Rightarrow> herror + NetworkCreateSpec \<Rightarrow> json effect" where
  "handleDockerNetworkCreate d docker params =
     (if \<not> docker then refuse (Refused ''docker not available'')
      else with_params params (\<lambda>spec.
        case valid_new_name (ncs_Name spec) of
          Inl e \<Rightarrow> refuse e
        | Inr _ \<Rightarrow>
            (case CreateNetwork d spec of
               (calls, Inl e) \<Rightarrow> (calls, Inl e)
             | (calls, Inr i) \<Rightarrow> (calls, Inr (JObj [(''id'', JStr i), (''name'', JStr (ncs_Name spec)),
                 (''driver'', JStr (ncs_Driver spec))])))))"

subsection \<open>Running a command in a container\<close>

record boundedBuffer =
  buf_cap :: int
  buf_data :: string

definition buf_Write :: "boundedBuffer \<Rightarrow> string \<Rightarrow> boundedBuffer \<times> nat" where
  "buf_Write b p =
     (let remaining = buf_cap b - int (length (buf_data b)) in
      if remaining \<le> 0 then (b, length p)
      else if remaining < int (length p) then (b\<lparr>buf_data := buf_data b @ take (nat remaining) p\<rparr>, length p)
      else (b\<lparr>buf_data := buf_data b @ p\<rparr>, length p))"

text \<open>\<open>io.Copy\<close>: it stops at a write that was short.\<close>

fun copy_chunks :: "boundedBuffer \<Rightarrow> string list \<Rightarrow> boundedBuffer" where
  "copy_chunks b [] = b"
| "copy_chunks b (p # ps) = (case buf_Write b p of (b', n) \<Rightarrow> if n = length p then copy_chunks b' ps else b')"

record ContainerExecResult =
  cer_Stdout :: string
  cer_Stderr :: string
  cer_ExitCode :: int

text \<open>What the daemon answers: what the attached command prints, in chunks, and its exit code afterwards.\<close>

definition ExecContainer :: "sdk \<Rightarrow> (string \<Rightarrow> string list) \<Rightarrow> (string \<Rightarrow> herror + int) \<Rightarrow>
    string \<Rightarrow> string list \<Rightarrow> string \<Rightarrow> string \<Rightarrow> int \<Rightarrow> ContainerExecResult effect" where
  "ExecContainer d chunks exit ident cmd user workingDir outputCap =
     (let outputCap = (if outputCap \<le> 0 then 1024 * 1024 else outputCap);
          create = ContainerExecCreate ident cmd user workingDir
      in case d create of
           Inl e \<Rightarrow> ([create], Inl e)
         | Inr i \<Rightarrow>
             (let attach = ContainerExecAttach i in
              case d attach of
                Inl e \<Rightarrow> ([create, attach], Inl e)
              | Inr conn \<Rightarrow>
                  (let buf = copy_chunks \<lparr>buf_cap = outputCap, buf_data = []\<rparr> (chunks conn) in
                   ([create, attach], rbind (exit i) (\<lambda>code.
                      Inr \<lparr>cer_Stdout = buf_data buf, cer_Stderr = [], cer_ExitCode = code\<rparr>)))))"

record container_exec_params =
  xp_Container :: string
  xp_Cmd :: "string list"
  xp_User :: string
  xp_WorkingDir :: string
  xp_TimeoutSeconds :: int

definition container_exec_timeout :: "int \<Rightarrow> int" where
  "container_exec_timeout secs =
     (let timeout = int64 (secs * second)
      in if timeout \<le> 0 \<or> 5 * 60 * second < timeout then 60 * second else timeout)"

text \<open>The outcome comes with the deadline of the calls.\<close>

definition handleDockerContainerExec :: "(int \<Rightarrow> sdk) \<Rightarrow> (string \<Rightarrow> string list) \<Rightarrow> (string \<Rightarrow> herror + int) \<Rightarrow> bool \<Rightarrow>
    herror + container_exec_params \<Rightarrow> ContainerExecResult effect" where
  "handleDockerContainerExec d chunks exit docker params =
     (if \<not> docker then refuse (Refused ''docker not available'')
      else with_params params (\<lambda>p.
        case validateContainerID (xp_Container p) of
          Inl e \<Rightarrow> refuse e
        | Inr _ \<Rightarrow>
            if xp_Cmd p = [] then refuse (Refused ''cmd is required'')
            else ExecContainer (d (container_exec_timeout (xp_TimeoutSeconds p))) chunks exit
              (xp_Container p) (xp_Cmd p) (xp_User p) (xp_WorkingDir p) (1024 * 1024)))"

subsection \<open>Properties\<close>

lemma copy_chunks_take:
  "0 \<le> buf_cap b \<Longrightarrow> int (length (buf_data b)) \<le> buf_cap b \<Longrightarrow>
     buf_data (copy_chunks b ps) = take (nat (buf_cap b)) (buf_data b @ concat ps)"
proof (induction b ps rule: copy_chunks.induct)
  case (2 b p ps)
  have w: "buf_Write b p = (b\<lparr>buf_data := take (nat (buf_cap b)) (buf_data b @ p)\<rparr>, length p)"
    using 2(2,3) by (cases b) (auto simp: buf_Write_def Let_def nat_diff_distrib)
  have t: "take n (take n xs @ ys) = take n (xs @ ys)" for n and xs ys :: string
    by (cases "n \<le> length xs") auto
  have "buf_data (copy_chunks (b\<lparr>buf_data := take (nat (buf_cap b)) (buf_data b @ p)\<rparr>) ps) =
      take (nat (buf_cap b)) (take (nat (buf_cap b)) (buf_data b @ p) @ concat ps)"
    using 2(1) [OF w [symmetric] refl] 2(2) by simp
  then show ?case unfolding t by (simp add: w)
qed simp

lemma exec_timeout_range: "0 < container_exec_timeout s \<and> container_exec_timeout s \<le> 5 * 60 * second"
  by (auto simp: container_exec_timeout_def Let_def second_def)

text \<open>
  A command in a container: it runs under a deadline of at most five minutes, whatever the request
  says, only for a non-empty command and a container name without separators, and the answer holds
  exactly the first mebibyte of what it printed.
\<close>

theorem container_exec_bounded:
  assumes "handleDockerContainerExec d chunks exit docker (Inr p) = (calls, Inr r)"
  shows "\<exists>timeout i conn. 0 < timeout \<and> timeout \<le> 5 * 60 * second \<and>
     calls = [ContainerExecCreate (xp_Container p) (xp_Cmd p) (xp_User p) (xp_WorkingDir p), ContainerExecAttach i] \<and>
     d timeout (hd calls) = Inr i \<and> d timeout (ContainerExecAttach i) = Inr conn \<and> exit i = Inr (cer_ExitCode r) \<and>
     cer_Stdout r = take (1024 * 1024) (concat (chunks conn)) \<and>
     xp_Cmd p \<noteq> [] \<and> \<not> contains_any (trim_space (xp_Container p)) name_meta"
proof -
  let ?t = "container_exec_timeout (xp_TimeoutSeconds p)"
  have v: "validateContainerID (xp_Container p) = Inr ()" "xp_Cmd p \<noteq> []"
      "ExecContainer (d ?t) chunks exit (xp_Container p) (xp_Cmd p) (xp_User p) (xp_WorkingDir p) (1024 * 1024) = (calls, Inr r)"
    using assms by (auto simp: handleDockerContainerExec_def with_params_def refuse_def split: if_splits sum.splits)
  show ?thesis
    using v(3) exec_timeout_range [of "xp_TimeoutSeconds p"] v(1,2)
    by (intro exI [of _ ?t])
      (auto simp: ExecContainer_def Let_def copy_chunks_take validateContainerID_def rbind_Inr_iff split: sum.splits if_splits)
qed

definition demo_sdk :: "int \<Rightarrow> sdk" where
  "demo_sdk timeout c = Inr (case c of ContainerExecCreate _ _ _ _ \<Rightarrow> ''e1'' | _ \<Rightarrow> ''conn'')"

definition demo_exec :: container_exec_params where
  "demo_exec = \<lparr>xp_Container = ''web'', xp_Cmd = [''ls''], xp_User = [], xp_WorkingDir = [], xp_TimeoutSeconds = 99999\<rparr>"

theorem container_exec_bounded_witness:
  "\<exists>calls r timeout. handleDockerContainerExec demo_sdk (\<lambda>_. [''a'', ''b'']) (\<lambda>_. Inr 0) True (Inr demo_exec) = (calls, Inr r) \<and>
     calls = [ContainerExecCreate ''web'' [''ls''] [] [], ContainerExecAttach ''e1''] \<and> cer_Stdout r = ''ab'' \<and>
     0 < timeout \<and> timeout \<le> 5 * 60 * second"
proof -
  let ?calls = "[ContainerExecCreate ''web'' [''ls''] [] [], ContainerExecAttach ''e1'']"
  let ?r = "\<lparr>cer_Stdout = ''ab'', cer_Stderr = [], cer_ExitCode = 0\<rparr>"
  have h: "handleDockerContainerExec demo_sdk (\<lambda>_. [''a'', ''b'']) (\<lambda>_. Inr 0) True (Inr demo_exec) = (?calls, Inr ?r)"
    by code_simp
  from container_exec_bounded [OF h] obtain timeout where "0 < timeout" "timeout \<le> 5 * 60 * second" by blast
  then show ?thesis using h by (intro exI [of _ ?calls] exI [of _ ?r] exI [of _ timeout]) simp
qed

text \<open>
  The panic: statistics of a container asked for by a name or an abbreviated id of less than twelve
  characters, when the daemon knows the container.
\<close>

theorem stats_short_name_panics:
  "handleDockerContainerStats query inspect params = Panics \<longleftrightarrow>
     (\<exists>ident st. params = Inr ident \<and> query ident = Inr st \<and> length ident < 12)"
  by (auto simp: handleDockerContainerStats_def container_stats_def slice_def Let_def split: sum.splits)

text \<open>
  The percentage is between 0 and 100 percent for each processor as long as the counters grew and the container used no
  more than the system did. (The difference of a counter that started again since the last reading
  wraps around.)
\<close>

lemma rat_of_nonneg: "0 \<le> rat_of w"
  unfolding rat_of_def by (rule of_nat_0_le_iff)

lemma share_range:
  fixes c s n :: rat
  assumes "0 \<le> c" "c \<le> s" "0 < s" "0 \<le> n"
  shows "0 \<le> c / s * n * 100 \<and> c / s * n * 100 \<le> 100 * n"
proof -
  have "c / s \<le> 1" using assms by (simp add: divide_le_eq)
  then have "c / s * n \<le> 1 * n" using assms(4) by (rule mult_right_mono)
  moreover have "0 \<le> c / s * n" using assms by (intro mult_nonneg_nonneg divide_nonneg_nonneg) simp_all
  ultimately show ?thesis by (metis mult.commute mult_1 mult_right_mono mult_nonneg_nonneg zero_le_numeral)
qed

lemma cpu_percent_range:
  assumes "st_precpu_total st \<le> st_cpu_total st" "st_presystem st \<le> st_system st"
    and "unat (st_cpu_total st) - unat (st_precpu_total st) \<le> unat (st_system st) - unat (st_presystem st)"
  shows "0 \<le> calculateCPUPercent st \<and> calculateCPUPercent st \<le> 100 * rat_of (st_online st)"
proof -
  have le: "rat_of (st_cpu_total st - st_precpu_total st) \<le> rat_of (st_system st - st_presystem st)"
    using assms by (simp add: rat_of_def unat_sub)
  show ?thesis
    unfolding calculateCPUPercent_def Let_def
    using share_range [OF rat_of_nonneg le _ rat_of_nonneg [of "st_online st"]] rat_of_nonneg [of "st_online st"]
    by (simp only: split: if_splits) simp
qed

lemma bind_ports_lookup:
  "bind_ports newPort ps acc = Inr b \<Longrightarrow>
     map_of b k = (case find (\<lambda>p. port_key newPort p = Inr k) (rev ps) of
        Some p \<Rightarrow> Some (''0.0.0.0'', word_text (port_Host p)) | None \<Rightarrow> map_of acc k)"
proof (induction newPort ps acc rule: bind_ports.induct)
  case (2 newPort p ps acc)
  then obtain k' where k': "port_key newPort p = Inr k'"
      "bind_ports newPort ps (AList.update k' (''0.0.0.0'', word_text (port_Host p)) acc) = Inr b"
    by (auto simp: rbind_Inr_iff)
  have f: "find P (xs @ [x]) = (case find P xs of Some y \<Rightarrow> Some y | None \<Rightarrow> if P x then Some x else None)"
    for P and xs :: "ContainerPort list" and x by (induction xs) auto
  show ?case using 2(1) [OF k'(2)] k'(1) by (auto simp: f update_conv' split: option.splits)
qed simp

text \<open>
  Creating a container: each published container port is bound on every address to the last host port
  the request gives for it, so that an earlier one is dropped.
\<close>

theorem container_create_ports:
  assumes "handleDockerContainerCreate newPort d docker keys (Inr spec) = (calls, r)" and "calls \<noteq> []"
  shows "\<exists>cfg. calls = [ContainerCreate cfg (ccs_Name spec)] \<and> cfg_Image cfg = ccs_Image spec \<and>
     set keys \<inter> {''privileged'', ''cap_add'', ''devices''} = {} \<and>
     (\<forall>k. map_of (cfg_PortBindings cfg) k =
        (case find (\<lambda>p. port_key newPort p = Inr k) (rev (ccs_Ports spec)) of
           Some p \<Rightarrow> Some (''0.0.0.0'', word_text (port_Host p)) | None \<Rightarrow> None))"
proof -
  have nb: "find (\<lambda>b. b \<in> set keys) banned_keys = None" and
      c: "fst (CreateContainer newPort d spec) = calls"
    using assms by (auto simp: handleDockerContainerCreate_def with_params_def refuse_def split: if_splits sum.splits option.splits prod.splits)
  have "set keys \<inter> {''privileged'', ''cap_add'', ''devices''} = {}"
    using nb unfolding find_None_iff banned_keys_def by auto
  then show ?thesis
    using c assms(2) bind_ports_lookup [of newPort "ccs_Ports spec" "[]", unfolded map_of.simps]
    by (auto simp: CreateContainer_def refuse_def ask_def split: if_splits sum.splits)
qed

definition demo_port :: "16 word \<Rightarrow> 16 word \<Rightarrow> ContainerPort" where
  "demo_port h c = \<lparr>port_Host = h, port_Container = c, port_Proto = []\<rparr>"

definition demo_spec :: ContainerCreateSpec where
  "demo_spec = \<lparr>ccs_Image = ''nginx'', ccs_Name = ''web'', ccs_Command = [], ccs_Env = [], ccs_Labels = [],
     ccs_RestartPolicy = [], ccs_Network = [], ccs_Ports = [demo_port 7 5, demo_port 8 5], ccs_Volumes = [],
     ccs_WorkingDir = []\<rparr>"

definition join_port :: "string \<Rightarrow> string \<Rightarrow> herror + string" where
  "join_port proto port = Inr (port @ ''/'' @ proto)"

theorem container_create_ports_witness:
  "\<exists>cfg r. handleDockerContainerCreate join_port (\<lambda>_. Inr ''id'') True [''image''] (Inr demo_spec) = ([ContainerCreate cfg ''web''], r) \<and>
     map_of (cfg_PortBindings cfg) ''5/tcp'' = Some (''0.0.0.0'', ''8'')"
proof -
  let ?h = "handleDockerContainerCreate join_port (\<lambda>_. Inr ''id'') True [''image''] (Inr demo_spec)"
  have ne: "fst ?h \<noteq> []" by code_simp
  have f: "(case find (\<lambda>p. port_key join_port p = Inr ''5/tcp'') (rev (ccs_Ports demo_spec)) of
      Some p \<Rightarrow> Some (''0.0.0.0'', word_text (port_Host p)) | None \<Rightarrow> None) = Some (''0.0.0.0'', ''8'')"
    by code_simp
  have n: "ccs_Name demo_spec = ''web''" by (simp add: demo_spec_def)
  note p = container_create_ports [OF surjective_pairing ne]
  obtain cfg where c: "fst ?h = [ContainerCreate cfg (ccs_Name demo_spec)]"
      "map_of (cfg_PortBindings cfg) ''5/tcp'' = Some (''0.0.0.0'', ''8'')"
    using p by (elim exE conjE, drule_tac x = "''5/tcp''" in spec, unfold f) (rule that)
  show ?thesis
    by (intro exI [of _ cfg] exI [of _ "snd ?h"] conjI c(2)) (rule prod_eqI; simp add: c(1) n)
qed

end
