(* ===== verification/Runtimes.thy ===== *)
theory Runtimes
  imports Compose
begin

text \<open>
  The Python versions of the host: the \<open>runtimes:*\<close> actions of \<open>internal/agent/runtime_handlers.go\<close>,
  on Linux and macOS. Whether pyenv is there is asked again each time, so it depends on what was run
  before. Everything runs with the agent's own rights.
\<close>

record py_host =
  py_env :: env
  py_home :: string                                \<comment> \<open>empty if there is none\<close>
  py_exists :: "trace \<Rightarrow> string \<Rightarrow> bool"
  py_lookup :: "trace \<Rightarrow> string \<Rightarrow> string option"    \<comment> \<open>\<open>LookPath\<close>\<close>

definition pyenvBin :: "py_host \<Rightarrow> trace \<Rightarrow> string" where
  "pyenvBin h t =
     (let candidate = Join [py_home h, ''.pyenv'', ''bin'', ''pyenv''] in
      if py_home h \<noteq> [] \<and> py_exists h t candidate then candidate
      else (case py_lookup h t ''pyenv'' of Some p \<Rightarrow> p | None \<Rightarrow> []))"

definition pyenvManagerKind :: "py_host \<Rightarrow> trace \<Rightarrow> string" where
  "pyenvManagerKind h t = (if pyenvBin h t = [] then [] else ''pyenv'')"

text \<open>A value that depends on what was run so far.\<close>

definition ask_host :: "(trace \<Rightarrow> 'a) \<Rightarrow> ('e, 'a) act" where
  "ask_host f t = (Inr (f t), t)"

text \<open>The trimmed output and the error.\<close>

definition runPyenv :: "py_host \<Rightarrow> string list \<Rightarrow> (herror, string \<times> exec_error option) act" where
  "runPyenv h args =
     abind (ask_host (pyenvBin h)) (\<lambda>bin.
     abind (guard (bin \<noteq> []) (Refused ''pyenv not installed (run runtimes:pyenv:bootstrap first)'')) (\<lambda>_.
     abind (run (py_env h) (Run bin args)) (\<lambda>r. ret (trim_space (rr_out r), rr_err r))))"

text \<open>The handlers that stop at any error of it.\<close>

definition pyenv_output :: "py_host \<Rightarrow> string list \<Rightarrow> (herror, string) act" where
  "pyenv_output h args =
     abind (runPyenv h args) (\<lambda>(out, err).
       case err of None \<Rightarrow> ret out | Some e \<Rightarrow> throw (CommandFailed (''pyenv '' @ join '' '' args) e out))"

definition first_word :: "string \<Rightarrow> string" where
  "first_word s = hd (split_on CHR '' '' s)"

definition pyenv_or_empty :: "py_host \<Rightarrow> string list \<Rightarrow> (herror, string) act" where
  "pyenv_or_empty h args =
     abind (attempt (runPyenv h args)) (\<lambda>r. ret (case r of Inl (e :: herror) \<Rightarrow> [] | Inr (out, err) \<Rightarrow> out))"

definition handleRuntimesList :: "py_host \<Rightarrow> (string \<times> json) list \<Rightarrow> (herror, json) act" where
  "handleRuntimesList h runtimes =
     abind (ask_host (pyenvManagerKind h)) (\<lambda>kind.
       let out = [(''managers'', JObj [(''python'', JStr kind)]), (''runtimes'', JObj runtimes)] in
       if kind = [] then ret (JObj out)
       else abind (pyenv_or_empty h [''version'']) (\<lambda>current.
            abind (pyenv_or_empty h [''versions'', ''--bare'']) (\<lambda>installed.
              ret (JObj (out @ [(''python'', JObj [(''current'', JStr (first_word current)),
                (''installed'', strings_json (splitNonEmptyLines installed))])])))))"

definition versions_answer :: "py_host \<Rightarrow> string list \<Rightarrow> (herror, json) act" where
  "versions_answer h versions =
     abind (ask_host (pyenvManagerKind h)) (\<lambda>kind.
       ret (JObj [(''versions'', strings_json versions), (''manager'', JStr kind)]))"

definition handleRuntimesPythonInstalled :: "py_host \<Rightarrow> (herror, json) act" where
  "handleRuntimesPythonInstalled h =
     abind (pyenv_output h [''versions'', ''--bare'']) (\<lambda>out. versions_answer h (splitNonEmptyLines out))"

definition available_versions :: "string \<Rightarrow> string list" where
  "available_versions out =
     filter (\<lambda>ln. ln \<noteq> [] \<and> \<not> prefix ''Available'' ln \<and> \<not> prefix '':'' ln) (map trim_space (split_on CHR 0x0A out))"

definition handleRuntimesPythonAvailable :: "py_host \<Rightarrow> (herror, json) act" where
  "handleRuntimesPythonAvailable h =
     abind (pyenv_output h [''install'', ''--list'']) (\<lambda>out. versions_answer h (available_versions out))"

definition handleRuntimesPythonCurrent :: "py_host \<Rightarrow> (herror, json) act" where
  "handleRuntimesPythonCurrent h =
     abind (pyenv_output h [''version'']) (\<lambda>out. ret (JObj [(''version'', JStr (first_word out)), (''raw'', JStr out)]))"

definition version_char :: "char \<Rightarrow> bool" where
  "version_char c \<longleftrightarrow>
     (CHR ''a'' \<le> c \<and> c \<le> CHR ''z'') \<or> (CHR ''A'' \<le> c \<and> c \<le> CHR ''Z'') \<or> (CHR ''0'' \<le> c \<and> c \<le> CHR ''9'') \<or>
     c \<in> set ''.-_+''"

definition validateVersion :: "string \<Rightarrow> herror + unit" where
  "validateVersion v =
     (let v = trim_space v in
      if v = [] then Inl (Refused ''version is required'')
      else if list_all version_char v then Inr () else Inl (Refused ''invalid version''))"

definition handleRuntimesPythonSetGlobal :: "py_host \<Rightarrow> herror + string \<Rightarrow> (herror, json) act" where
  "handleRuntimesPythonSetGlobal h params =
     abind (lift params) (\<lambda>v.
     abind (lift (validateVersion v)) (\<lambda>_.
     abind (pyenv_output h [''global'', v]) (\<lambda>_. ret (JObj [(''global'', JStr v)]))))"

text \<open>Where the version of a directory is set, the command runs in that directory: it is part of the result.\<close>

definition handleRuntimesPythonSetLocal :: "place \<Rightarrow> py_host \<Rightarrow> herror + string \<times> string \<Rightarrow> (herror, json \<times> string) act" where
  "handleRuntimesPythonSetLocal pl h params =
     abind (lift params) (\<lambda>(v, dir).
     abind (lift (validateVersion v)) (\<lambda>_.
       let path = Abs_path (pl_cwd pl) dir in
     abind (guard (contextPathAllowed (pl_cwd pl) (pl_allowed pl) path) (Refused ''dir is not under any allowed root'')) (\<lambda>_.
     abind (ask_host (pyenvBin h)) (\<lambda>bin.
     abind (guard (bin \<noteq> []) (Refused ''pyenv not installed'')) (\<lambda>_.
     abind (run (py_env h) (Run bin [''local'', v])) (\<lambda>r.
       case rr_err r of
         Some e \<Rightarrow> throw (CommandFailed (''pyenv local '' @ v) e (rr_out r))
       | None \<Rightarrow> ret (JObj [(''local'', JStr v), (''dir'', JStr path)], path)))))))"

text \<open>With the pyenv lock held, as the installation job does.\<close>

definition handleRuntimesPythonUninstall :: "py_host \<Rightarrow> herror + string \<Rightarrow> (herror, json) act" where
  "handleRuntimesPythonUninstall h params =
     abind (lift params) (\<lambda>v.
     abind (lift (validateVersion v)) (\<lambda>_.
     abind (pyenv_output h [''uninstall'', ''-f'', v]) (\<lambda>_. ret (JObj [(''uninstalled'', JStr v)]))))"

definition runPyenvInstallJob :: "py_host \<Rightarrow> start \<Rightarrow> string \<Rightarrow> trace \<Rightarrow> event list \<times> trace" where
  "runPyenvInstallJob h start v t =
     run_and_report (py_env h) start SudoRoot (Run (pyenvBin h t) [''install'', ''-s'', v]) (''pyenv install '' @ v)
       (\<lambda>t'. [(''version'', JStr v), (''manager'', JStr (pyenvManagerKind h t'))]) t"

definition handleRuntimesPythonInstall :: "py_host \<Rightarrow> start \<Rightarrow> string \<Rightarrow> registry \<Rightarrow> herror + string \<Rightarrow>
    (herror, json \<times> registry \<times> job_body) act" where
  "handleRuntimesPythonInstall h start i reg params =
     abind (lift params) (\<lambda>v.
     abind (lift (validateVersion v)) (\<lambda>_.
     abind (ask_host (pyenvBin h)) (\<lambda>bin.
     abind (guard (bin \<noteq> []) (Refused ''pyenv not installed (run runtimes:pyenv:bootstrap first)'')) (\<lambda>_.
       let (j, reg) = New i 500 reg
       in ret (JObj [(''job_id'', JStr (job_ID j)), (''channel'', JStr (job_Channel j)), (''version'', JStr v)],
            reg, runPyenvInstallJob h start v)))))"

definition pyenv_repo :: string where
  "pyenv_repo = ''https://github.com/pyenv/pyenv.git''"

definition runPyenvBootstrapJob :: "py_host \<Rightarrow> start \<Rightarrow> trace \<Rightarrow> event list \<times> trace" where
  "runPyenvBootstrapJob h start t =
     (let extra = (\<lambda>t'. [(''manager'', JStr (pyenvManagerKind h t'))]) in
      if py_home h = [] then ([done_event (-1) ''could not determine user home directory'' (extra t)], t)
      else (let dest = Join [py_home h, ''.pyenv''] in
        run_and_report (py_env h) start SudoRoot (Run ''git'' [''clone'', ''--depth'', ''1'', pyenv_repo, dest])
          (''git clone '' @ pyenv_repo @ '' '' @ dest) extra t))"

text \<open>Nothing to do if pyenv is there already.\<close>

definition handleRuntimesPyenvBootstrap :: "py_host \<Rightarrow> start \<Rightarrow> string \<Rightarrow> registry \<Rightarrow>
    (herror, json \<times> registry \<times> job_body option) act" where
  "handleRuntimesPyenvBootstrap h start i reg =
     abind (ask_host (\<lambda>t. (pyenvBin h t, pyenvManagerKind h t, py_lookup h t ''git''))) (\<lambda>(bin, kind, git).
       if bin \<noteq> [] then ret (JObj [(''status'', JStr ''already_installed''), (''manager'', JStr kind)], reg, None)
       else abind (guard (git \<noteq> None) (Refused ''git is required to install pyenv (please install git first)'')) (\<lambda>_.
         let (j, reg) = New i 200 reg in ret (job_answer j, reg, Some (runPyenvBootstrapJob h start))))"

subsection \<open>Jobs end once\<close>

lemma pyenv_install_ends: "ends_done (fst (runPyenvInstallJob h start v t))"
  unfolding runPyenvInstallJob_def by (rule report_ends)

interpretation pyenv_install_job: job_task "runPyenvInstallJob h start v"
  for h start v
  by unfold_locales (rule pyenv_install_ends)

lemma bootstrap_ends: "ends_done (fst (runPyenvBootstrapJob h start t))"
  by (simp add: runPyenvBootstrapJob_def Let_def report_ends)

interpretation bootstrap_job: job_task "runPyenvBootstrapJob h start"
  for h start
  by unfold_locales (rule bootstrap_ends)

subsection \<open>What runs\<close>

text \<open>
  The characters of an accepted version, between white space that is trimmed for the check but kept in
  the argument; a leading dash is accepted.
\<close>

lemma version_chars: "validateVersion v = Inr () \<longleftrightarrow> trim_space v \<noteq> [] \<and> list_all version_char (trim_space v)"
  by (simp add: validateVersion_def Let_def)

lemma validateVersion_lenient: "validateVersion ''--help'' = Inr () \<and> validateVersion '' 3.12.0'' = Inr ()"
  by code_simp

text \<open>Every program but the clone is pyenv, where it was found, with the version as one argument.\<close>

definition pyenv_args :: "string list \<Rightarrow> bool" where
  "pyenv_args args \<longleftrightarrow>
     args \<in> {[''version''], [''versions'', ''--bare''], [''install'', ''--list'']} \<or>
     (\<exists>v. validateVersion v = Inr () \<and>
        args \<in> {[''global'', v], [''local'', v], [''uninstall'', ''-f'', v], [''install'', ''-s'', v]})"

definition pyenv_at :: "py_host \<Rightarrow> string \<Rightarrow> bool" where
  "pyenv_at h bin \<longleftrightarrow> bin = Join [py_home h, ''.pyenv'', ''bin'', ''pyenv''] \<or> (\<exists>t. py_lookup h t ''pyenv'' = Some bin)"

definition pyenv_cmd :: "py_host \<Rightarrow> cmd \<Rightarrow> bool" where
  "pyenv_cmd h c \<longleftrightarrow> (\<exists>bin args. c = Run bin args \<and> pyenv_at h bin \<and> pyenv_args args)"

lemma pyenvBin_found: "pyenvBin h t \<noteq> [] \<Longrightarrow> pyenv_at h (pyenvBin h t)"
  unfolding pyenvBin_def pyenv_at_def Let_def by (auto split: if_splits option.splits)

lemma emits_ask_host [emits_rules]: "(\<And>t. Q (f t)) \<Longrightarrow> emits P Q (ask_host f)"
  by (simp add: emits_def ask_host_def)

lemma emits_runPyenv: "pyenv_args args \<Longrightarrow> emits (pyenv_cmd h) (\<lambda>_. True) (runPyenv h args)"
  unfolding runPyenv_def
  by (rule emits_bind [of _ "\<lambda>bin. bin \<noteq> [] \<longrightarrow> pyenv_at h bin"], rule emits_ask_host, use pyenvBin_found in blast,
      rule emits_bind, rule emits_guard, assumption, rule emits_bind, rule emits_run)
    (auto simp: pyenv_cmd_def intro: emits_ret)

lemma emits_pyenv_output: "pyenv_args args \<Longrightarrow> emits (pyenv_cmd h) (\<lambda>_. True) (pyenv_output h args)"
  unfolding pyenv_output_def by (rule emits_bind, erule emits_runPyenv) (auto intro!: emits_rules)

lemma emits_pyenv_or_empty: "pyenv_args args \<Longrightarrow> emits (pyenv_cmd h) (\<lambda>_. True) (pyenv_or_empty h args)"
  unfolding pyenv_or_empty_def by (rule emits_bind, rule emits_attempt, erule emits_runPyenv) (auto intro!: emits_rules)

lemma emits_versions_answer: "emits P (\<lambda>_. True) (versions_answer h vs)"
  unfolding versions_answer_def by (rule emits_bind [of _ "\<lambda>_. True"]) (auto intro: emits_rules)

lemmas pyenv_readers = handleRuntimesList_def handleRuntimesPythonInstalled_def handleRuntimesPythonAvailable_def
  handleRuntimesPythonCurrent_def

lemma pyenv_fixed_args: "pyenv_args [''version'']" "pyenv_args [''versions'', ''--bare'']" "pyenv_args [''install'', ''--list'']"
  by (simp_all add: pyenv_args_def)

lemma emits_read:
  assumes "pyenv_args args" "\<And>x. emits (pyenv_cmd h) Q (f x)"
  shows "emits (pyenv_cmd h) Q (abind (pyenv_output h args) f)" "emits (pyenv_cmd h) Q (abind (pyenv_or_empty h args) f)"
  using assms by (auto intro!: emits_bind [of _ "\<lambda>_. True"] emits_pyenv_output emits_pyenv_or_empty)

lemma pyenv_reads_emit:
  "emits (pyenv_cmd h) (\<lambda>_. True) (handleRuntimesPythonInstalled h)"
  "emits (pyenv_cmd h) (\<lambda>_. True) (handleRuntimesPythonAvailable h)"
  "emits (pyenv_cmd h) (\<lambda>_. True) (handleRuntimesPythonCurrent h)"
  unfolding pyenv_readers
    apply (rule emits_read(1) [OF pyenv_fixed_args(2)], rule emits_versions_answer)
   apply (rule emits_read(1) [OF pyenv_fixed_args(3)], rule emits_versions_answer)
  apply (rule emits_read(1) [OF pyenv_fixed_args(1)], rule emits_ret, rule TrueI)
  done

lemma pyenv_list_emits: "emits (pyenv_cmd h) (\<lambda>_. True) (handleRuntimesList h runtimes)"
  unfolding handleRuntimesList_def Let_def
  apply (rule emits_bind [of _ "\<lambda>_. True"], rule emits_ask_host, rule TrueI, rule emits_if, rule emits_ret, rule TrueI)
  apply (rule emits_read(2) [OF pyenv_fixed_args(1)], rule emits_read(2) [OF pyenv_fixed_args(2)], rule emits_ret, rule TrueI)
  done

lemma pyenv_version_args:
  "validateVersion v = Inr () \<Longrightarrow> pyenv_args [''global'', v]" "validateVersion v = Inr () \<Longrightarrow> pyenv_args [''local'', v]"
  "validateVersion v = Inr () \<Longrightarrow> pyenv_args [''uninstall'', ''-f'', v]"
  "validateVersion v = Inr () \<Longrightarrow> pyenv_args [''install'', ''-s'', v]"
  unfolding pyenv_args_def by (rule disjI2, rule exI [of _ v], erule conjI, simp)+

lemma emits_validated:
  assumes "\<And>v. validateVersion v = Inr () \<Longrightarrow> emits P Q (f v)"
  shows "emits P Q (abind (lift params) (\<lambda>v. abind (lift (validateVersion v)) (\<lambda>_. f v)))"
  by (rule emits_bind [of _ "\<lambda>_. True"], rule emits_lift, rule TrueI,
      rule emits_bind [where R = "\<lambda>_. validateVersion _ = Inr ()"], rule emits_lift, simp, erule assms)

lemma pyenv_writes_emit:
  "emits (pyenv_cmd h) (\<lambda>_. True) (handleRuntimesPythonSetGlobal h params)"
  "emits (pyenv_cmd h) (\<lambda>_. True) (handleRuntimesPythonUninstall h params)"
  unfolding handleRuntimesPythonSetGlobal_def handleRuntimesPythonUninstall_def
   apply (rule emits_validated, rule emits_read(1) [OF pyenv_version_args(1)], assumption, rule emits_ret, rule TrueI)
  apply (rule emits_validated, rule emits_read(1) [OF pyenv_version_args(3)], assumption, rule emits_ret, rule TrueI)
  done

text \<open>The directory of a local version is below an allowed root, as for a build.\<close>

lemma pyenv_local_emits:
  "emits (pyenv_cmd h) (\<lambda>r. contextPathAllowed (pl_cwd pl) (pl_allowed pl) (snd r)) (handleRuntimesPythonSetLocal pl h params)"
proof -
  have step: "emits (pyenv_cmd h) (\<lambda>_. True) (run (py_env h) (Run bin [''local'', v]))"
    if "pyenv_at h bin" "validateVersion v = Inr ()" for bin v
    using that pyenv_version_args by (intro emits_run) (auto simp: pyenv_cmd_def)
  show ?thesis
    unfolding handleRuntimesPythonSetLocal_def Let_def
    apply (rule emits_bind [of _ "\<lambda>_. True"], rule emits_lift, rule TrueI, rule emits_case_prod)
    subgoal for x v dir
      apply (rule emits_bind [of _ "\<lambda>_. validateVersion v = Inr ()"], rule emits_lift, simp)
      apply (rule emits_bind [of _ "\<lambda>_. contextPathAllowed (pl_cwd pl) (pl_allowed pl) (Abs_path (pl_cwd pl) dir)"], rule emits_guard, assumption)
      apply (rule emits_bind [of _ "\<lambda>bin. bin \<noteq> [] \<longrightarrow> pyenv_at h bin"], rule emits_ask_host, use pyenvBin_found in blast)
      subgoal for a b bin
      apply (rule emits_bind [of _ "\<lambda>_. bin \<noteq> []"], rule emits_guard, assumption)
      apply (rule emits_bind, rule step)
        apply blast
       apply assumption
      apply (intro emits_case_option emits_throw emits_ret)
      apply simp
      done
      done
    done
qed

end
