(* ===== verification/Cloudflared.thy ===== *)
theory Cloudflared
  imports Packages
begin

text \<open>
  Cloudflare tunnels: \<open>internal/cloudflared\<close> on Linux with the handlers of
  \<open>internal/agent/cloudflared_handlers.go\<close>. The host says where a certificate is, after what was run
  so far.
\<close>

subsection \<open>Names\<close>

definition name_char :: "char \<Rightarrow> bool" where
  "name_char c \<longleftrightarrow>
     (CHR ''a'' \<le> c \<and> c \<le> CHR ''z'') \<or> (CHR ''A'' \<le> c \<and> c \<le> CHR ''Z'') \<or> is_digit c \<or> c = CHR ''_'' \<or> c = CHR ''-''"

text \<open>The regular expressions \<open>validNameRegex\<close> and \<open>validHostnameRegex\<close>.\<close>

definition valid_name :: "string \<Rightarrow> bool" where
  "valid_name s \<longleftrightarrow> 1 \<le> length s \<and> length s \<le> 32 \<and> list_all name_char s"

definition label_end :: "char \<Rightarrow> bool" where
  "label_end c \<longleftrightarrow> name_char c \<and> c \<noteq> CHR ''_'' \<and> c \<noteq> CHR ''-''"

definition label_ok :: "string \<Rightarrow> bool" where
  "label_ok s \<longleftrightarrow> s \<noteq> [] \<and> length s \<le> 63 \<and> label_end (hd s) \<and> label_end (last s) \<and>
     list_all (\<lambda>c. label_end c \<or> c = CHR ''-'') s"

definition valid_hostname :: "string \<Rightarrow> bool" where
  "valid_hostname s \<longleftrightarrow> (let ls = split_on CHR ''.'' s in 2 \<le> length ls \<and> list_all label_ok ls)"

subsection \<open>The manager\<close>

record cf_host =
  cf_env :: env
  cf_home :: "string option"
  cf_exists :: "trace \<Rightarrow> string \<Rightarrow> bool"

definition certSearchPaths :: "cf_host \<Rightarrow> string list" where
  "certSearchPaths h =
     ''/etc/cloudflared/cert.pem'' # (case cf_home h of Some home \<Rightarrow> [home @ ''/.cloudflared/cert.pem''] | None \<Rightarrow> [])"

definition findCert :: "cf_host \<Rightarrow> trace \<Rightarrow> string option" where
  "findCert h t = find (cf_exists h t) (certSearchPaths h)"

record cf_status =
  st_available :: bool
  st_authenticated :: bool
  st_cert_path :: string
  st_login_hint :: bool       \<comment> \<open>whether a hint is given\<close>
  st_version :: string

definition cf_Status :: "cf_host \<Rightarrow> (herror, cf_status) act" where
  "cf_Status h =
     (if \<not> env_path (cf_env h) ''cloudflared''
      then ret \<lparr>st_available = False, st_authenticated = False, st_cert_path = [], st_login_hint = True, st_version = []\<rparr>
      else abind (\<lambda>t. (Inr (findCert h t), t)) (\<lambda>cert.
        abind (run (cf_env h) (Run ''cloudflared'' [''--version''])) (\<lambda>r.
          ret \<lparr>st_available = True, st_authenticated = (cert \<noteq> None),
            st_cert_path = (case cert of Some p \<Rightarrow> p | None \<Rightarrow> []), st_login_hint = (cert = None),
            st_version = trim_space (hd (split_on CHR 0x0A (rr_out r)))\<rparr>)))"

definition runTunnel :: "cf_host \<Rightarrow> string list \<Rightarrow> (herror, string) act" where
  "runTunnel h args =
     (let args = ''tunnel'' # args in
      abind (run (cf_env h) (Run ''cloudflared'' args)) (\<lambda>r.
        case rr_err r of
          Some e \<Rightarrow> throw (CommandFailed (''cloudflared '' @ join '' '' args) e (trim_space (rr_stderr r)))
        | None \<Rightarrow> ret (rr_out r)))"

record tunnel =
  tun_ID :: string
  tun_Name :: string
  tun_CreatedAt :: string
  tun_Connections :: "string list"

text \<open>A row as decoded: of each connection the \<open>origin_ip\<close>, if it is a string.\<close>

record tunnel_row =
  row_ID :: string
  row_Name :: string
  row_CreatedAt :: string
  row_Origins :: "string option list"

definition tunnel_of :: "tunnel_row \<Rightarrow> tunnel" where
  "tunnel_of r = \<lparr>tun_ID = row_ID r, tun_Name = row_Name r, tun_CreatedAt = row_CreatedAt r,
     tun_Connections = List.map_filter (\<lambda>or. case or of Some ip \<Rightarrow> if ip \<noteq> [] then Some ip else None | None \<Rightarrow> None) (row_Origins r)\<rparr>"

definition tunnels_list :: "(string \<Rightarrow> tunnel_row list option) \<Rightarrow> cf_host \<Rightarrow> (herror, tunnel list) act" where
  "tunnels_list decode h =
     abind (runTunnel h [''list'', ''--output'', ''json'']) (\<lambda>out.
       case decode (trim_space out) of
         None \<Rightarrow> throw (Refused ''parse tunnel list'')
       | Some rows \<Rightarrow> ret (map tunnel_of rows))"

definition tunnel_create :: "(string \<Rightarrow> tunnel_row list option) \<Rightarrow> cf_host \<Rightarrow> string \<Rightarrow> (herror, tunnel) act" where
  "tunnel_create decode h nm =
     abind (guard (valid_name nm) (Refused ''invalid tunnel name (alphanumeric, -, _, max 32 chars)'')) (\<lambda>_.
     abind (runTunnel h [''create'', nm]) (\<lambda>_.
     abind (tunnels_list decode h) (\<lambda>ts.
       case find (\<lambda>t. tun_Name t = nm) ts of
         Some t \<Rightarrow> ret t
       | None \<Rightarrow> throw (Refused ''tunnel created but not found in list''))))"

definition tunnel_route :: "cf_host \<Rightarrow> string \<Rightarrow> string \<Rightarrow> (herror, unit) act" where
  "tunnel_route h ref hostname =
     abind (guard (ref \<noteq> []) (Refused ''tunnel_ref is required'')) (\<lambda>_.
     abind (guard (valid_hostname hostname) (Refused ''invalid hostname'')) (\<lambda>_.
     abind (runTunnel h [''route'', ''dns'', ref, hostname]) (\<lambda>_. ret ())))"

definition tunnel_delete :: "cf_host \<Rightarrow> string \<Rightarrow> (herror, unit) act" where
  "tunnel_delete h ref =
     abind (guard (ref \<noteq> []) (Refused ''ref is required'')) (\<lambda>_.
     abind (runTunnel h [''delete'', ''-f'', ref]) (\<lambda>_. ret ()))"

text \<open>Their handlers.\<close>

definition tunnel_json :: "tunnel \<Rightarrow> json" where
  "tunnel_json t = JObj ([(''id'', JStr (tun_ID t)), (''name'', JStr (tun_Name t))] @
     (if tun_CreatedAt t = [] then [] else [(''created_at'', JStr (tun_CreatedAt t))]) @
     (if tun_Connections t = [] then [] else [(''connections'', strings_json (tun_Connections t))]))"

definition handleCloudflaredTunnelList :: "(string \<Rightarrow> tunnel_row list option) \<Rightarrow> cf_host \<Rightarrow> (herror, json) act" where
  "handleCloudflaredTunnelList decode h =
     abind (tunnels_list decode h) (\<lambda>ts. ret (JObj [(''tunnels'', JArr (map tunnel_json ts))]))"

definition handleCloudflaredTunnelCreate :: "(string \<Rightarrow> tunnel_row list option) \<Rightarrow> cf_host \<Rightarrow> herror + string \<Rightarrow> (herror, json) act" where
  "handleCloudflaredTunnelCreate decode h params =
     abind (lift params) (\<lambda>nm. abind (tunnel_create decode h nm) (\<lambda>t. ret (tunnel_json t)))"

definition handleCloudflaredTunnelRoute :: "cf_host \<Rightarrow> herror + string \<times> string \<Rightarrow> (herror, json) act" where
  "handleCloudflaredTunnelRoute h params =
     abind (lift params) (\<lambda>(ref, hostname). abind (tunnel_route h ref hostname) (\<lambda>_. ret (JObj [(''success'', JBool True)])))"

definition handleCloudflaredTunnelDelete :: "cf_host \<Rightarrow> herror + string \<Rightarrow> (herror, json) act" where
  "handleCloudflaredTunnelDelete h params =
     abind (lift params) (\<lambda>ref. abind (tunnel_delete h ref) (\<lambda>_. ret (JObj [(''success'', JBool True)])))"

subsection \<open>Logging in\<close>

record LoginEvent =
  le_AuthURL :: string
  le_Line :: string
  le_Done :: bool
  le_CertPath :: string
  le_Error :: string

definition no_event :: LoginEvent where
  "no_event = \<lparr>le_AuthURL = [], le_Line = [], le_Done = False, le_CertPath = [], le_Error = []\<rparr>"

definition login_prefix :: string where
  "login_prefix = ''https://dash.cloudflare.com/argotunnel?''"

definition re_space :: "char \<Rightarrow> bool" where
  "re_space c \<longleftrightarrow> c \<in> {CHR 0x09, CHR 0x0A, CHR 0x0C, CHR 0x0D, CHR 0x20}"

text \<open>\<open>loginURLRegex.FindString\<close>: the leftmost match, which takes all that is not white space.\<close>

fun find_login_url :: "string \<Rightarrow> string" where
  "find_login_url [] = []"
| "find_login_url (c # s) =
     (let rest = takeWhile (\<lambda>d. \<not> re_space d) (drop (length login_prefix) (c # s)) in
      if prefix login_prefix (c # s) \<and> rest \<noteq> [] then login_prefix @ rest else find_login_url s)"

text \<open>
  The goroutine of a login selects between a line of output, its ticker and its deadline. The channel
  of the lines is never closed, so that it goes on until a certificate is found or the deadline fires:
  after the listed deliveries, of which a tick says where the certificate is then, it does.
\<close>

datatype login_input = OutputLine string | CertTick "string option"

fun login_loop :: "bool \<Rightarrow> login_input list \<Rightarrow> LoginEvent list" where
  "login_loop urlSent [] = [no_event\<lparr>le_Done := True, le_Error := ''login timed out''\<rparr>]"
| "login_loop urlSent (OutputLine ln # ds) =
     (if \<not> urlSent \<and> find_login_url ln \<noteq> []
      then no_event\<lparr>le_AuthURL := find_login_url ln, le_Line := ln\<rparr> # login_loop True ds
      else no_event\<lparr>le_Line := ln\<rparr> # login_loop urlSent ds)"
| "login_loop urlSent (CertTick (Some cert) # ds) = [no_event\<lparr>le_Done := True, le_CertPath := cert\<rparr>]"
| "login_loop urlSent (CertTick None # ds) = login_loop urlSent ds"

text \<open>What a start of the login gives: the events that will be sent. \<open>start\<close> is whether the program starts.\<close>

definition Login :: "cf_host \<Rightarrow> bool \<Rightarrow> login_input list \<Rightarrow> (herror, LoginEvent list) act" where
  "Login h start ds t =
     (if \<not> env_path (cf_env h) ''cloudflared'' then (Inl (Refused ''cloudflared not installed''), t)
      else (case findCert h t of
          Some cert \<Rightarrow> (Inr [no_event\<lparr>le_Done := True, le_CertPath := cert, le_Line := ''already authenticated''\<rparr>], t)
        | None \<Rightarrow>
            (if start then Inr (login_loop False ds) else Inl (Refused ''start cloudflared''), t @ [Run ''cloudflared'' [''tunnel'', ''login'']])))"

definition login_events :: "LoginEvent \<Rightarrow> event list" where
  "login_events ev =
     (if le_AuthURL ev \<noteq> []
      then zero_event\<lparr>je_phase := PhaseStatus, je_message := ''Open this URL in your browser to authorise the agent'',
             je_extra := [(''auth_url'', JStr (le_AuthURL ev))]\<rparr>
           # (if le_Line ev \<noteq> [] then [log_event [le_Line ev]] else [])
      else if le_Done ev
      then (if le_Error ev \<noteq> [] then [done_event 1 (le_Error ev) []]
            else [(done_event 0 [] [(''cert_path'', JStr (le_CertPath ev))])\<lparr>je_message := ''authenticated''\<rparr>])
      else if le_Line ev \<noteq> [] then [log_event [le_Line ev]] else [])"

definition runCloudflaredLoginJob :: "LoginEvent list \<Rightarrow> event list" where
  "runCloudflaredLoginJob evs =
     (let pushed = message_event PhaseStart ''starting cloudflared tunnel login'' # concat (map login_events evs)
      in if list_ex is_done pushed then pushed else pushed @ [done_event 1 ''login stream ended unexpectedly'' []])"

definition login_job_body :: "login_input list \<Rightarrow> trace \<Rightarrow> event list \<times> trace" where
  "login_job_body ds t = (runCloudflaredLoginJob (login_loop False ds), t)"

definition handleCloudflaredLogin :: "cf_host \<Rightarrow> bool \<Rightarrow> login_input list \<Rightarrow> string \<Rightarrow> registry \<Rightarrow>
    (herror, json \<times> registry \<times> event list) act" where
  "handleCloudflaredLogin h start ds i reg =
     abind (Login h start ds) (\<lambda>evs.
       let (j, reg) = New i 64 reg in ret (job_answer j, reg, runCloudflaredLoginJob evs))"

subsection \<open>A login ends once\<close>

lemma login_events_done:
  "le_AuthURL ev \<noteq> [] \<or> \<not> le_Done ev \<Longrightarrow> list_all (\<lambda>e. \<not> is_done e) (login_events ev)"
  "le_AuthURL ev = [] \<Longrightarrow> le_Done ev \<Longrightarrow> ends_done (login_events ev)"
  by (auto simp: login_events_def log_event_def done_event_def is_done_def)

lemma login_loop_ends: "ends_done (concat (map login_events (login_loop urlSent ds)))"
proof (induction urlSent ds rule: login_loop.induct)
  case (2 urlSent ln ds)
  then show ?case by (auto intro!: ends_done_append login_events_done(1) simp: no_event_def)
qed (auto intro: login_events_done(2) simp: no_event_def)

lemma ends_done_ex: "ends_done evs \<Longrightarrow> list_ex is_done evs"
  by (auto simp: ends_done_def list_ex_iff)

lemma login_job_ends:
  "ends_done (concat (map login_events evs)) \<Longrightarrow> ends_done (runCloudflaredLoginJob evs)"
  using ends_done_ex [of "concat (map login_events evs)"]
  by (cases "concat (map login_events evs)") (simp_all add: runCloudflaredLoginJob_def Let_def)

interpretation login_job: job_task "login_job_body ds"
  for ds
  by unfold_locales (simp add: login_job_body_def login_job_ends login_loop_ends)

text \<open>Whatever the channel delivers, the subscriber is told that it is over.\<close>

lemma login_terminates: "list_ex is_done (runCloudflaredLoginJob evs)"
  by (simp add: runCloudflaredLoginJob_def Let_def done_event_def is_done_def)

text \<open>A program that gives up without a certificate is waited for until the deadline.\<close>

lemma login_waits_for_deadline:
  "\<forall>c. CertTick (Some c) \<notin> set ds \<Longrightarrow>
     last (login_loop urlSent ds) = no_event\<lparr>le_Done := True, le_Error := ''login timed out''\<rparr>"
proof (induction urlSent ds rule: login_loop.induct)
  case (2 urlSent ln ds)
  have ne: "login_loop u xs \<noteq> []" for u xs by (induction u xs rule: login_loop.induct) simp_all
  show ?case using 2 ne by auto
qed auto

subsection \<open>What runs\<close>

definition tunnel_cmd :: "cmd \<Rightarrow> bool" where
  "tunnel_cmd c \<longleftrightarrow> (\<exists>args. c = Run ''cloudflared'' args \<and>
     (args \<in> {[''tunnel'', ''list'', ''--output'', ''json'']} \<or>
      (\<exists>nm. valid_name nm \<and> args = [''tunnel'', ''create'', nm]) \<or>
      (\<exists>ref hostname. ref \<noteq> [] \<and> valid_hostname hostname \<and> args = [''tunnel'', ''route'', ''dns'', ref, hostname]) \<or>
      (\<exists>ref. ref \<noteq> [] \<and> args = [''tunnel'', ''delete'', ''-f'', ref])))"

lemma tunnel_cmds:
  "tunnel_cmd (Run ''cloudflared'' (''tunnel'' # [''list'', ''--output'', ''json'']))"
  "valid_name nm \<Longrightarrow> tunnel_cmd (Run ''cloudflared'' (''tunnel'' # [''create'', nm]))"
  "ref \<noteq> [] \<Longrightarrow> valid_hostname hostname \<Longrightarrow> tunnel_cmd (Run ''cloudflared'' (''tunnel'' # [''route'', ''dns'', ref, hostname]))"
  "ref \<noteq> [] \<Longrightarrow> tunnel_cmd (Run ''cloudflared'' (''tunnel'' # [''delete'', ''-f'', ref]))"
  unfolding tunnel_cmd_def by blast+

lemma emits_runTunnel:
  "tunnel_cmd (Run ''cloudflared'' (''tunnel'' # args)) \<Longrightarrow> (\<And>x. emits tunnel_cmd Q (f x)) \<Longrightarrow>
     emits tunnel_cmd Q (abind (runTunnel h args) f)"
  unfolding runTunnel_def Let_def
  by (rule emits_bind [of _ "\<lambda>_. True"], rule emits_bind [of _ "\<lambda>_. True"], erule emits_run) (auto intro!: emits_rules)

lemma emits_tunnels_list: "emits tunnel_cmd (\<lambda>_. True) (tunnels_list decode h)"
  unfolding tunnels_list_def
  by (rule emits_runTunnel [OF tunnel_cmds(1)]) (intro emits_case_option emits_ret emits_throw TrueI)

lemma emits_guarded:
  "(b \<Longrightarrow> emits P Q m) \<Longrightarrow> emits P Q (abind (guard b e) (\<lambda>_. m))"
  by (rule emits_bind [of _ "\<lambda>_. b"]) (auto intro: emits_guard)

lemma emits_tunnel_ops:
  "emits tunnel_cmd (\<lambda>_. True) (tunnel_create decode h nm)"
  "emits tunnel_cmd (\<lambda>_. True) (tunnel_route h ref hostname)"
  "emits tunnel_cmd (\<lambda>_. True) (tunnel_delete h ref)"
  unfolding tunnel_create_def tunnel_route_def tunnel_delete_def
    apply (rule emits_guarded, rule emits_runTunnel [OF tunnel_cmds(2)], assumption)
    apply (rule emits_bind, rule emits_tunnels_list, intro emits_case_option emits_ret emits_throw TrueI)
   apply (rule emits_guarded, rule emits_guarded, rule emits_runTunnel [OF tunnel_cmds(3)], assumption+, rule emits_ret, rule TrueI)
  apply (rule emits_guarded, rule emits_runTunnel [OF tunnel_cmds(4)], assumption, rule emits_ret, rule TrueI)
  done

end
