(* ===== verification/Survey.thy ===== *)
theory Survey
  imports Docker
begin

text \<open>
  The read-only survey of a host: \<open>internal/survey\<close> with \<open>internal/agent/survey_handlers.go\<close>. The
  panel's catalog is data that combines a fixed set of primitives. The host answers the primitives:
  which files exist, what a glob expands to, what a file contains, and the sockets and containers;
  decoding a certificate is given.
\<close>

subsection \<open>The catalog\<close>

record Detect =
  dt_Ports :: "int list"
  dt_Units :: "string list"
  dt_Bins :: "string list"
  dt_Paths :: "string list"

record Probe =
  pr_ID :: string
  pr_Kind :: string
  pr_Detect :: Detect
  pr_Map :: "(string \<times> string list) list"

record Catalog =
  cat_Version :: int
  cat_Probes :: "Probe list"

definition probe_patterns :: "Probe \<Rightarrow> string \<Rightarrow> string list" where
  "probe_patterns p key = (case map_of (pr_Map p) key of Some ps \<Rightarrow> ps | None \<Rightarrow> [])"

subsection \<open>The host\<close>

record conn =
  cn_type :: int
  cn_status :: string
  cn_port :: int
  cn_pid :: int

record cert_fields =
  x_common_name :: string
  x_dns_names :: "string list"
  x_not_after :: string

record survey_container =
  svc_Name :: string
  svc_Image :: string
  svc_Ports :: "string list"

record survey_host =
  sv_env :: env
  sv_stat :: "string \<Rightarrow> bool option"               \<comment> \<open>exists, and is a directory\<close>
  sv_glob :: "string \<Rightarrow> string list"
  sv_read :: "string \<Rightarrow> string option"
  sv_cert :: "string \<Rightarrow> cert_fields option"         \<comment> \<open>the first PEM block, if a certificate\<close>
  sv_conns :: "conn list option"
  sv_proc :: "int \<Rightarrow> string"
  sv_docker :: "survey_container list option"
  sv_user :: string

definition fileExists :: "survey_host \<Rightarrow> string \<Rightarrow> bool \<times> bool" where
  "fileExists h path = (case sv_stat h path of Some d \<Rightarrow> (True, d) | None \<Rightarrow> (False, False))"

definition globPaths :: "survey_host \<Rightarrow> string \<Rightarrow> string list" where
  "globPaths h pattern = take 500 (sort (sv_glob h pattern))"

subsection \<open>Text\<close>

text \<open>How many bytes the first code point takes, 0 if the encoding is not valid.\<close>

definition byte_in :: "nat \<Rightarrow> nat \<Rightarrow> char \<Rightarrow> bool" where
  "byte_in lo hi c \<longleftrightarrow> lo \<le> (of_char c :: nat) \<and> (of_char c :: nat) \<le> hi"

definition second_range :: "char \<Rightarrow> char \<Rightarrow> bool" where
  "second_range c =
     (if c = CHR 0xE0 then byte_in 0xA0 0xBF else if c = CHR 0xED then byte_in 0x80 0x9F
      else if c = CHR 0xF0 then byte_in 0x90 0xBF else if c = CHR 0xF4 then byte_in 0x80 0x8F
      else byte_in 0x80 0xBF)"

fun utf8_width :: "string \<Rightarrow> nat" where
  "utf8_width [] = 0"
| "utf8_width (c # s) =
     (if byte_in 0 0x7F c then 1
      else (case s of
          [] \<Rightarrow> 0
        | d # s' \<Rightarrow>
            if \<not> second_range c d then 0
            else if byte_in 0xC2 0xDF c then 2
            else (case s' of
                [] \<Rightarrow> 0
              | e # s'' \<Rightarrow>
                  if \<not> byte_in 0x80 0xBF e then 0
                  else if byte_in 0xE0 0xEF c then 3
                  else (case s'' of
                      [] \<Rightarrow> 0
                    | f # _ \<Rightarrow> if byte_in 0x80 0xBF f \<and> byte_in 0xF0 0xF4 c then 4 else 0))))"

text \<open>\<open>[]rune(s)\<close>, each code point as its bytes; an invalid byte becomes the replacement character.\<close>

function runes :: "string \<Rightarrow> string list" where
  "runes [] = []"
| "runes (c # s) =
     (if utf8_width (c # s) = 0 then [CHR 0xEF, CHR 0xBF, CHR 0xBD] # runes s
      else take (utf8_width (c # s)) (c # s) # runes (drop (utf8_width (c # s) - 1) s))"
  by pat_completeness simp_all
termination by (relation "measure length") (auto simp del: utf8_width.simps)

definition truncateStr :: "string \<Rightarrow> string" where
  "truncateStr s = (let rs = runes s in if 512 < length rs then concat (take 512 rs) else s)"

definition firstToken :: "string \<Rightarrow> string" where
  "firstToken s = (case fields_of s of [] \<Rightarrow> [] | f # _ \<Rightarrow> f)"

definition trim_quotes :: "string \<Rightarrow> string" where
  "trim_quotes s =
     (let q = (\<lambda>c. c = CHR 0x22 \<or> c = CHR 0x27) in rev (dropWhile q (rev (dropWhile q s))))"

text \<open>\<open>SplitN(s, sep, 2)\<close>: what follows the first separator, if there is one.\<close>

definition after_first :: "char \<Rightarrow> string \<Rightarrow> string option" where
  "after_first c s = (case dropWhile (\<lambda>d. d \<noteq> c) s of [] \<Rightarrow> None | _ # r \<Rightarrow> Some r)"

definition directiveValue :: "string \<Rightarrow> string" where
  "directiveValue li =
     (let li = trim_space li in
      case (case after_first CHR '' '' li of Some r \<Rightarrow> Some r | None \<Rightarrow> after_first CHR 0x09 li) of
        None \<Rightarrow> []
      | Some r \<Rightarrow> trim_quotes (trim_space (trim_right_char CHR '';'' (trim_space r))))"

subsection \<open>Reading configuration files lightly\<close>

definition mebibyte :: int where
  "mebibyte = 1024 * 1024"

definition limit_bytes :: "string \<Rightarrow> string" where
  "limit_bytes s = (if int (length s) \<le> mebibyte then s else take (nat mebibyte) s)"

definition directive_lines :: "string list \<Rightarrow> string \<Rightarrow> string list" where
  "directive_lines directives content =
     filter (\<lambda>li. li \<noteq> [] \<and> \<not> prefix ''#'' li \<and>
         (case fields_of li of [] \<Rightarrow> False | f # _ \<Rightarrow> to_lower f \<in> set (map to_lower directives)))
       (map trim_space (map drop_cr (takeWhile (\<lambda>l. int (length l) < mebibyte) (raw_lines (limit_bytes content)))))"

definition parseLight :: "survey_host \<Rightarrow> string \<Rightarrow> string list \<Rightarrow> string list" where
  "parseLight h path directives =
     (case sv_read h path of None \<Rightarrow> [] | Some content \<Rightarrow> directive_lines directives content)"

record Vhost =
  vh_ServerName :: string
  vh_Root :: string
  vh_Upstream :: string

definition empty_vhost :: Vhost where
  "empty_vhost = \<lparr>vh_ServerName = [], vh_Root = [], vh_Upstream = []\<rparr>"

definition flush_vhost :: "Vhost option \<Rightarrow> Vhost list" where
  "flush_vhost cur = (case cur of None \<Rightarrow> [] | Some v \<Rightarrow> if v = empty_vhost then [] else [v])"

definition current_vhost :: "Vhost option \<Rightarrow> Vhost" where
  "current_vhost cur = (case cur of Some v \<Rightarrow> v | None \<Rightarrow> empty_vhost)"

fun vhost_lines :: "string \<Rightarrow> string \<Rightarrow> string \<Rightarrow> Vhost option \<Rightarrow> string list \<Rightarrow> Vhost list" where
  "vhost_lines nameDir rootDir upstreamDir cur [] = flush_vhost cur"
| "vhost_lines nameDir rootDir upstreamDir cur (li # lns) =
     (if length (fields_of li) < 2 then vhost_lines nameDir rootDir upstreamDir cur lns
      else (let key = to_lower (hd (fields_of li)); val = directiveValue li in
        if key = to_lower nameDir
        then flush_vhost cur @ vhost_lines nameDir rootDir upstreamDir (Some (empty_vhost\<lparr>vh_ServerName := firstToken val\<rparr>)) lns
        else if key = to_lower rootDir
        then vhost_lines nameDir rootDir upstreamDir (Some ((current_vhost cur)\<lparr>vh_Root := truncateStr val\<rparr>)) lns
        else if key = to_lower upstreamDir
        then vhost_lines nameDir rootDir upstreamDir (Some ((current_vhost cur)\<lparr>vh_Upstream := truncateStr (firstToken val)\<rparr>)) lns
        else vhost_lines nameDir rootDir upstreamDir cur lns))"

definition parseVhosts :: "survey_host \<Rightarrow> string \<Rightarrow> string list \<Rightarrow> Vhost list" where
  "parseVhosts h path directives =
     (case directives of
        [nameDir, rootDir, upstreamDir] \<Rightarrow> vhost_lines nameDir rootDir upstreamDir None (parseLight h path directives)
      | _ \<Rightarrow> [])"

definition nginxDirectives :: "string list" where
  "nginxDirectives = [''server_name'', ''root'', ''proxy_pass'']"

definition apacheDirectives :: "string list" where
  "apacheDirectives = [''ServerName'', ''DocumentRoot'', ''ProxyPass'']"

fun collect_vhosts :: "survey_host \<Rightarrow> string list \<Rightarrow> Vhost list \<Rightarrow> string list \<Rightarrow> Vhost list" where
  "collect_vhosts h directives acc [] = acc"
| "collect_vhosts h directives acc (path # paths) =
     (let acc = acc @ parseVhosts h path directives in
      if 200 \<le> length acc then take 200 acc else collect_vhosts h directives acc paths)"

definition all_vhosts :: "survey_host \<Rightarrow> string list \<Rightarrow> string list \<Rightarrow> Vhost list" where
  "all_vhosts h directives patterns = fold (\<lambda>pt acc. collect_vhosts h directives acc (globPaths h pt)) patterns []"

subsection \<open>Certificates\<close>

record Cert =
  ct_Domain :: string
  ct_ExpiresAt :: string

definition cert_path :: "survey_host \<Rightarrow> string \<Rightarrow> string option" where
  "cert_path h path =
     (if snd (fileExists h path)
      then find (\<lambda>cand. fst (fileExists h cand)) (map (\<lambda>nm. Join [path, nm]) [''cert.pem'', ''fullchain.pem''])
      else Some path)"

definition key_file :: "string \<Rightarrow> bool" where
  "key_file path = (let base = to_lower (Base path) in contains base ''privkey'' \<or> suffix ''.key'' base)"

definition certMeta :: "survey_host \<Rightarrow> string \<Rightarrow> Cert option" where
  "certMeta h path =
     (case cert_path h path of
        None \<Rightarrow> None
      | Some cp \<Rightarrow>
          if key_file cp then None
          else (case sv_read h cp of
              None \<Rightarrow> None
            | Some data \<Rightarrow>
                (case sv_cert h data of
                   None \<Rightarrow> None
                 | Some x \<Rightarrow>
                     (let domain = (if x_common_name x = [] \<and> x_dns_names x \<noteq> [] then hd (x_dns_names x) else x_common_name x);
                          domain = (if domain = [] then Base (Dir cp) else domain)
                      in Some \<lparr>ct_Domain = truncateStr domain, ct_ExpiresAt = x_not_after x\<rparr>))))"

text \<open>The cap ends the walk over one pattern's paths only.\<close>

fun collect_certs :: "survey_host \<Rightarrow> Cert list \<Rightarrow> string list \<Rightarrow> Cert list" where
  "collect_certs h acc [] = acc"
| "collect_certs h acc (path # paths) =
     (let acc = (case certMeta h path of Some c \<Rightarrow> acc @ [c] | None \<Rightarrow> acc) in
      if 200 \<le> length acc then acc else collect_certs h acc paths)"

definition all_certs :: "survey_host \<Rightarrow> string list \<Rightarrow> Cert list" where
  "all_certs h patterns = fold (\<lambda>pt acc. collect_certs h acc (globPaths h pt)) patterns []"

subsection \<open>Host state\<close>

definition state_word :: "string \<Rightarrow> string" where
  "state_word out = takeWhile (\<lambda>c. c \<noteq> CHR 0x0D \<and> c \<noteq> CHR 0x0A) (trim_space out)"

definition UnitActive :: "survey_host \<Rightarrow> string \<Rightarrow> ('e, bool \<times> string) act" where
  "UnitActive h unit =
     (if \<not> env_path (sv_env h) ''systemctl'' then ret (False, [])
      else abind (run (sv_env h) (Run ''systemctl'' [''is-active'', unit])) (\<lambda>r.
        let state = state_word (rr_out r) in ret (state \<in> {''active'', ''activating''}, state)))"

record Listener =
  ls_Port :: int
  ls_Proto :: string
  ls_Process :: string

definition conn_proto :: "conn \<Rightarrow> string option" where
  "conn_proto c =
     (if cn_port c = 0 then None
      else if cn_type c = 1 then if cn_status c = ''LISTEN'' then Some ''tcp'' else None
      else if cn_type c = 2 then Some ''udp'' else None)"

fun listen_from :: "survey_host \<Rightarrow> (string \<times> int) list \<Rightarrow> conn list \<Rightarrow> Listener list" where
  "listen_from h seen [] = []"
| "listen_from h seen (c # cs) =
     (case conn_proto c of
        None \<Rightarrow> listen_from h seen cs
      | Some proto \<Rightarrow>
          if (proto, cn_port c) \<in> set seen then listen_from h seen cs
          else \<lparr>ls_Port = cn_port c, ls_Proto = proto, ls_Process = (if 0 < cn_pid c then sv_proc h (cn_pid c) else [])\<rparr>
               # listen_from h ((proto, cn_port c) # seen) cs)"

definition Listeners :: "survey_host \<Rightarrow> Listener list" where
  "Listeners h = (case sv_conns h of None \<Rightarrow> [] | Some cs \<Rightarrow> take 500 (listen_from h [] cs))"

definition DockerContainers :: "survey_host \<Rightarrow> survey_container list option" where
  "DockerContainers h = map_option (take 100) (sv_docker h)"

text \<open>The containers as the agent's docker client lists them; a failure counts as no docker.\<close>

definition survey_container_of :: "ContainerInfo \<Rightarrow> survey_container" where
  "survey_container_of c = \<lparr>svc_Name = ci_Name c, svc_Image = ci_Image c,
     svc_Ports = map (\<lambda>p. word_text (pmap_PublicPort p) @ ''->'' @ word_text (pmap_PrivatePort p))
       (filter (\<lambda>p. pmap_PublicPort p \<noteq> 0) (ci_Ports c))\<rparr>"

definition dockerContainerLister :: "ContainerInfo list reply \<Rightarrow> survey_container list option reply" where
  "dockerContainerLister listed =
     (case listed of
        Panics \<Rightarrow> Panics
      | Fails e \<Rightarrow> Answer None
      | Answer infos \<Rightarrow> Answer (Some (map survey_container_of infos)))"

definition looksLikeCronSchedule :: "string \<Rightarrow> bool" where
  "looksLikeCronSchedule li =
     (let fs = fields_of li in
      if prefix ''@'' li then 2 \<le> length fs
      else 6 \<le> length fs \<and> list_all (list_all (\<lambda>c. is_digit c \<or> c \<in> set ''*,-/'')) (take 5 fs))"

definition agentCrontabLines :: "survey_host \<Rightarrow> ('e, string list) act" where
  "agentCrontabLines h =
     (if \<not> env_path (sv_env h) ''crontab'' then ret []
      else abind (run (sv_env h) (Run ''crontab'' [''-l''])) (\<lambda>r.
        case rr_err r of
          Some e \<Rightarrow> ret []
        | None \<Rightarrow> ret (take 500 (map truncateStr
            (filter (\<lambda>li. li \<noteq> [] \<and> \<not> prefix ''#'' li \<and> looksLikeCronSchedule li) (map trim_space (scan_lines (rr_out r))))))))"

subsection \<open>Interpreting the catalog\<close>

definition globby :: "string \<Rightarrow> bool" where
  "globby u = contains_any u ''*?[''"

record detection =
  de_detected :: bool
  de_active :: bool
  de_ports :: "int list"

definition detect :: "survey_host \<Rightarrow> Probe \<Rightarrow> ('e, detection) act" where
  "detect h p =
     (let d = pr_Detect p in
      abind (amap (UnitActive h) (filter (\<lambda>u. \<not> globby u) (dt_Units d))) (\<lambda>states.
        let active = list_ex fst states;
            ports = filter (\<lambda>n. n \<in> set (map ls_Port (Listeners h))) (dt_Ports d)
        in ret \<lparr>de_detected = active \<or> list_ex (env_path (sv_env h)) (dt_Bins d) \<or>
                  list_ex (\<lambda>path. fst (fileExists h path)) (dt_Paths d) \<or> ports \<noteq> [],
                de_active = active, de_ports = ports\<rparr>))"

definition optional :: "string \<Rightarrow> string \<Rightarrow> (string \<times> json) list" where
  "optional key v = (if v = [] then [] else [(key, JStr v)])"

definition vhost_json :: "Vhost \<Rightarrow> json" where
  "vhost_json v = JObj (optional ''server_name'' (vh_ServerName v) @ optional ''root'' (vh_Root v) @ optional ''upstream'' (vh_Upstream v))"

definition container_json :: "survey_container \<Rightarrow> json" where
  "container_json c = JObj ([(''name'', JStr (svc_Name c))] @ optional ''image'' (svc_Image c) @
     (if svc_Ports c = [] then [] else [(''ports'', strings_json (svc_Ports c))]))"

definition listener_json :: "Listener \<Rightarrow> json" where
  "listener_json l = JObj ([(''port'', JInt (ls_Port l))] @ optional ''proto'' (ls_Proto l) @ optional ''process'' (ls_Process l))"

definition cert_json :: "Cert \<Rightarrow> json" where
  "cert_json c = JObj ([(''domain'', JStr (ct_Domain c))] @ optional ''expires_at'' (ct_ExpiresAt c))"

text \<open>A key that is only there when its list is not empty.\<close>

definition listed :: "string \<Rightarrow> json list \<Rightarrow> (string \<times> json) list" where
  "listed key xs = (if xs = [] then [] else [(key, JArr xs)])"

definition serviceConfigProbe :: "survey_host \<Rightarrow> Probe \<Rightarrow> ('e, (string \<times> json) list) act" where
  "serviceConfigProbe h p =
     abind (detect h p) (\<lambda>d.
       if \<not> de_detected d then ret [(''detected'', JBool False)]
       else ret ([(''detected'', JBool True),
           (''service'', JObj ((''active'', JBool (de_active d)) # listed ''ports'' (map JInt (de_ports d))))] @
         listed ''vhosts'' (map vhost_json (all_vhosts h
           (if pr_ID p = ''apache'' then apacheDirectives else nginxDirectives) (probe_patterns p ''vhosts'')))))"

definition engineName :: "string \<Rightarrow> string" where
  "engineName unit =
     (if unit \<in> {''mysql'', ''mysqld''} then ''mysql'' else if unit \<in> {''mariadb'', ''mariadbd''} then ''mariadb''
      else if unit \<in> {''postgresql'', ''postgres''} then ''postgres''
      else if unit \<in> {''mongod'', ''mongodb''} then ''mongodb'' else unit)"

definition enginePort :: "string \<Rightarrow> int" where
  "enginePort nm =
     (if nm \<in> {''mysql'', ''mariadb''} then 3306 else if nm = ''postgres'' then 5432
      else if nm = ''mongodb'' then 27017 else 0)"

definition engine_json :: "string \<Rightarrow> bool \<Rightarrow> json" where
  "engine_json nm active = JObj ([(''name'', JStr nm), (''active'', JBool active)] @
     (if 0 < enginePort nm then [(''port'', JInt (enginePort nm))] else []))"

fun databaseEngines :: "survey_host \<Rightarrow> string list \<Rightarrow> string list \<Rightarrow> ('e, json list) act" where
  "databaseEngines h seen [] = ret []"
| "databaseEngines h seen (u # us) =
     (let nm = engineName u in
      if globby u \<or> nm \<in> set seen then databaseEngines h seen us
      else abind (UnitActive h u) (\<lambda>(active, _).
           abind (databaseEngines h (nm # seen) us) (\<lambda>es. ret (engine_json nm active # es))))"

definition serviceProbe :: "survey_host \<Rightarrow> Probe \<Rightarrow> ('e, (string \<times> json) list) act" where
  "serviceProbe h p =
     abind (detect h p) (\<lambda>d.
       if \<not> de_detected d then ret [(''detected'', JBool False)]
       else (let out = [(''detected'', JBool True), (''service'', JObj [(''active'', JBool (de_active d))])] in
         if pr_ID p = ''docker''
         then ret (out @ (case DockerContainers h of None \<Rightarrow> [] | Some cs \<Rightarrow> [(''containers'', JArr (map container_json (take 100 cs)))]))
         else if pr_ID p = ''databases''
         then abind (databaseEngines h [] (dt_Units (pr_Detect p))) (\<lambda>es. ret (out @ listed ''engines'' es))
         else ret (out @ listed ''ports'' (map JInt (de_ports d)))))"

definition markers :: "survey_host \<Rightarrow> string list \<Rightarrow> string list" where
  "markers h paths = take 50 (map truncateStr (filter (\<lambda>path. fst (fileExists h path)) paths))"

definition markerProbe :: "survey_host \<Rightarrow> Probe \<Rightarrow> (string \<times> json) list" where
  "markerProbe h p =
     (let ms = markers h (dt_Paths (pr_Detect p)) in
      (''detected'', JBool (ms \<noteq> [])) # listed ''markers'' (map JStr ms))"

definition inventoryProbe :: "survey_host \<Rightarrow> Probe \<Rightarrow> ('e, (string \<times> json) list) act" where
  "inventoryProbe h p =
     (if pr_ID p = ''listeners''
      then ret [(''listeners'', let l = Listeners h in if l = [] then JNull else JArr (map listener_json l))]
      else if pr_ID p = ''certs''
      then (let cs = all_certs h (probe_patterns p ''certs'')
            in ret ((''detected'', JBool (cs \<noteq> [])) # listed ''certs'' (map cert_json cs)))
      else if pr_ID p = ''crontabs''
      then abind (agentCrontabLines h) (\<lambda>lines.
        ret (if lines = [] then []
             else [(''crontabs'', JArr [JObj [(''user'', JStr (sv_user h)), (''lines'', strings_json lines)]])]))
      else ret [(''refused'', JStr (''unknown inventory probe: '' @ pr_ID p))])"

definition runProbe :: "survey_host \<Rightarrow> Probe \<Rightarrow> ('e, (string \<times> json) list) act" where
  "runProbe h p =
     (if pr_Kind p = ''service+config'' then serviceConfigProbe h p
      else if pr_Kind p = ''service'' then serviceProbe h p
      else if pr_Kind p = ''marker'' then ret (markerProbe h p)
      else if pr_Kind p = ''inventory'' then inventoryProbe h p
      else ret [(''detected'', JBool False), (''refused'', JStr (''unknown probe kind: '' @ pr_Kind p))])"

fun run_probes :: "survey_host \<Rightarrow> (string \<times> json) list \<Rightarrow> Probe list \<Rightarrow> ('e, (string \<times> json) list) act" where
  "run_probes h acc [] = ret acc"
| "run_probes h acc (p # ps) =
     (if pr_ID p = [] then run_probes h acc ps
      else abind (runProbe h p) (\<lambda>out. run_probes h (AList.update (pr_ID p) (JObj out) acc) ps))"

definition survey_run :: "survey_host \<Rightarrow> Catalog \<Rightarrow> ('e, json) act" where
  "survey_run h cat =
     abind (run_probes h [] (cat_Probes cat)) (\<lambda>probes.
       ret (JObj [(''catalog_version'', JInt (cat_Version cat)), (''probes'', JObj probes)]))"

text \<open>The handler: no parameters at all are an empty catalog.\<close>

definition handleSurveyRead :: "survey_host \<Rightarrow> (herror + Catalog) option \<Rightarrow> (herror, json) act" where
  "handleSurveyRead h params =
     abind (guard (env_linux (sv_env h)) (Refused ''survey:read is Linux-only'')) (\<lambda>_.
     abind (lift (case params of None \<Rightarrow> Inr \<lparr>cat_Version = 0, cat_Probes = []\<rparr> | Some r \<Rightarrow> r)) (\<lambda>cat. survey_run h cat))"

subsection \<open>What runs\<close>

definition survey_cmd :: "Probe list \<Rightarrow> cmd \<Rightarrow> bool" where
  "survey_cmd ps c \<longleftrightarrow>
     c = Run ''crontab'' [''-l''] \<or>
     (\<exists>p \<in> set ps. \<exists>u \<in> set (dt_Units (pr_Detect p)).
        c = Run ''systemctl'' [''is-active'', u] \<and> \<not> contains_any u ''*?['')"

lemma emits_UnitActive:
  "p \<in> set ps \<Longrightarrow> u \<in> set (dt_Units (pr_Detect p)) \<Longrightarrow> \<not> globby u \<Longrightarrow> emits (survey_cmd ps) (\<lambda>_. True) (UnitActive h u)"
  unfolding UnitActive_def Let_def
  by (rule emits_if, rule emits_ret, rule TrueI, rule emits_bind [of _ "\<lambda>_. True"], rule emits_run)
    (auto simp: survey_cmd_def globby_def intro: emits_ret)

lemma emits_detect: "p \<in> set ps \<Longrightarrow> emits (survey_cmd ps) (\<lambda>_. True) (detect h p)"
  unfolding detect_def Let_def
  by (rule emits_bind [of _ "\<lambda>_. True"], rule emits_amap) (auto intro: emits_UnitActive emits_ret)

lemma emits_engines:
  "p \<in> set ps \<Longrightarrow> set us \<subseteq> set (dt_Units (pr_Detect p)) \<Longrightarrow> emits (survey_cmd ps) (\<lambda>_. True) (databaseEngines h seen us :: ('e, json list) act)"
proof (induction us arbitrary: seen)
  case (Cons u us)
  have tl: "emits (survey_cmd ps) (\<lambda>_. True) (databaseEngines h sn us :: ('e, json list) act)" for sn using Cons by simp
  have hd: "emits (survey_cmd ps) (\<lambda>_. True) (UnitActive h u)" if "\<not> globby u"
    using emits_UnitActive [OF Cons.prems(1) _ that] Cons.prems(2) by simp
  show ?case
    unfolding databaseEngines.simps Let_def
    by (rule emits_if, rule tl, rule emits_bind, rule hd, blast, rule emits_case_prod, rule emits_bind, rule tl, rule emits_ret, rule TrueI)
qed (simp add: emits_ret)

lemma emits_crontab: "emits (survey_cmd ps) (\<lambda>_. True) (agentCrontabLines h)"
  unfolding agentCrontabLines_def
  by (rule emits_if, rule emits_ret, rule TrueI, rule emits_bind [of _ "\<lambda>_. True"], rule emits_run)
    (auto simp: survey_cmd_def intro!: emits_rules)

lemma emits_runProbe: "p \<in> set ps \<Longrightarrow> emits (survey_cmd ps) (\<lambda>_. True) (runProbe h p)"
  unfolding runProbe_def serviceConfigProbe_def serviceProbe_def inventoryProbe_def Let_def
  by (intro emits_if emits_ret TrueI emits_bind [OF emits_detect] emits_bind [OF emits_crontab] emits_bind [OF emits_engines]; (assumption | rule order_refl))

lemma emits_run_probes: "set qs \<subseteq> set ps \<Longrightarrow> emits (survey_cmd ps) (\<lambda>_. True) (run_probes h acc qs)"
proof (induction qs arbitrary: acc)
  case (Cons q qs)
  then show ?case
    unfolding run_probes.simps by (intro emits_if emits_bind [OF emits_runProbe]) simp_all
qed (simp add: emits_ret)

lemma emits_survey: "emits (survey_cmd (cat_Probes cat)) (\<lambda>_. True) (survey_run h cat)"
  unfolding survey_run_def by (rule emits_bind, rule emits_run_probes, rule subset_refl, rule emits_ret, rule TrueI)

subsection \<open>What is revealed\<close>

text \<open>All that the survey uses of the content of a file.\<close>

definition revealed :: "survey_host \<Rightarrow> string \<Rightarrow> string list \<times> string list \<times> cert_fields option" where
  "revealed h content = (directive_lines nginxDirectives content, directive_lines apacheDirectives content, sv_cert h content)"

lemma revealed_eq:
  assumes "map_option (revealed h) (r path) = map_option (revealed h) (sv_read h path)"
  shows "parseLight (h\<lparr>sv_read := r\<rparr>) path nginxDirectives = parseLight h path nginxDirectives"
    "parseLight (h\<lparr>sv_read := r\<rparr>) path apacheDirectives = parseLight h path apacheDirectives"
    "(case r path of None \<Rightarrow> None | Some data \<Rightarrow> sv_cert h data) = (case sv_read h path of None \<Rightarrow> None | Some data \<Rightarrow> sv_cert h data)"
  using assms by (cases "r path"; cases "sv_read h path"; simp add: revealed_def parseLight_def)+

lemma survey_blind [simp]:
  "fileExists (h\<lparr>sv_read := r\<rparr>) path = fileExists h path" "globPaths (h\<lparr>sv_read := r\<rparr>) pt = globPaths h pt"
  "UnitActive (h\<lparr>sv_read := r\<rparr>) u = UnitActive h u" "Listeners (h\<lparr>sv_read := r\<rparr>) = Listeners h"
  "DockerContainers (h\<lparr>sv_read := r\<rparr>) = DockerContainers h" "agentCrontabLines (h\<lparr>sv_read := r\<rparr>) = agentCrontabLines h"
  "markers (h\<lparr>sv_read := r\<rparr>) paths = markers h paths" "sv_user (h\<lparr>sv_read := r\<rparr>) = sv_user h"
proof -
  have l: "listen_from (h\<lparr>sv_read := r\<rparr>) seen cs = listen_from h seen cs" for seen cs
    by (induction h seen cs rule: listen_from.induct) (simp_all split: option.split)
  show f: "fileExists (h\<lparr>sv_read := r\<rparr>) path = fileExists h path" for path by (simp add: fileExists_def)
  show "Listeners (h\<lparr>sv_read := r\<rparr>) = Listeners h" by (simp add: Listeners_def l split: option.split)
  show "UnitActive (h\<lparr>sv_read := r\<rparr>) u = UnitActive h u" by (simp add: UnitActive_def)
  show "globPaths (h\<lparr>sv_read := r\<rparr>) pt = globPaths h pt" by (simp add: globPaths_def)
  show "DockerContainers (h\<lparr>sv_read := r\<rparr>) = DockerContainers h" by (simp add: DockerContainers_def)
  show "agentCrontabLines (h\<lparr>sv_read := r\<rparr>) = agentCrontabLines h" by (simp add: agentCrontabLines_def)
  show "markers (h\<lparr>sv_read := r\<rparr>) paths = markers h paths" by (simp add: markers_def f)
  show "sv_user (h\<lparr>sv_read := r\<rparr>) = sv_user h" by simp
qed

lemma survey_engines_blind [simp]: "databaseEngines (h\<lparr>sv_read := r\<rparr>) seen us = databaseEngines h seen us"
  by (induction us arbitrary: seen) (simp_all add: Let_def)

lemma vhosts_revealed:
  assumes same: "\<And>path. map_option (revealed h) (r path) = map_option (revealed h) (sv_read h path)"
    and d: "ds = nginxDirectives \<or> ds = apacheDirectives"
  shows "all_vhosts (h\<lparr>sv_read := r\<rparr>) ds patterns = all_vhosts h ds patterns"
proof -
  have p: "parseVhosts (h\<lparr>sv_read := r\<rparr>) path ds = parseVhosts h path ds" for path
    using d revealed_eq [where h = h and r = r and path = path, OF same] by (auto simp: parseVhosts_def split: list.split)
  have c: "collect_vhosts (h\<lparr>sv_read := r\<rparr>) ds acc paths = collect_vhosts h ds acc paths" for acc paths
    by (induction paths arbitrary: acc) (simp_all add: p Let_def)
  show ?thesis by (simp add: all_vhosts_def c)
qed

lemma certs_revealed:
  assumes same: "\<And>path. map_option (revealed h) (r path) = map_option (revealed h) (sv_read h path)"
  shows "all_certs (h\<lparr>sv_read := r\<rparr>) patterns = all_certs h patterns"
proof -
  have p: "cert_path (h\<lparr>sv_read := r\<rparr>) path = cert_path h path" for path by (simp add: cert_path_def)
  have m: "certMeta (h\<lparr>sv_read := r\<rparr>) path = certMeta h path" for path
  proof (cases "cert_path h path")
    case (Some cp)
    show ?thesis
      using revealed_eq(3) [where h = h and r = r and path = cp, OF same]
      by (cases "r cp"; cases "sv_read h cp") (simp_all add: certMeta_def p Some split: option.split)
  qed (simp add: certMeta_def p)
  have c: "collect_certs (h\<lparr>sv_read := r\<rparr>) acc paths = collect_certs h acc paths" for acc paths
    by (induction paths arbitrary: acc) (simp_all add: m Let_def split: option.split)
  show ?thesis by (simp add: all_certs_def c)
qed

lemma detect_blind [simp]: "(detect (h\<lparr>sv_read := r\<rparr>) p :: ('e, detection) act) = detect h p"
proof -
  have "(UnitActive (h\<lparr>sv_read := r\<rparr>) :: string \<Rightarrow> ('e, bool \<times> string) act) = UnitActive h" by (rule ext) simp
  then show ?thesis by (simp add: detect_def Let_def)
qed

lemma runProbe_revealed:
  assumes "\<And>path. map_option (revealed h) (r path) = map_option (revealed h) (sv_read h path)"
  shows "runProbe (h\<lparr>sv_read := r\<rparr>) p = runProbe h p"
proof -
  have v: "all_vhosts (h\<lparr>sv_read := r\<rparr>) (if b then apacheDirectives else nginxDirectives) patterns =
      all_vhosts h (if b then apacheDirectives else nginxDirectives) patterns" for b patterns
    by (rule vhosts_revealed [OF assms]) simp
  show ?thesis
    unfolding runProbe_def serviceConfigProbe_def serviceProbe_def markerProbe_def inventoryProbe_def
      v certs_revealed [OF assms] survey_blind survey_engines_blind detect_blind
    by (rule refl)
qed

lemma survey_revealed:
  assumes "\<And>path. map_option (revealed h) (r path) = map_option (revealed h) (sv_read h path)"
  shows "(survey_run (h\<lparr>sv_read := r\<rparr>) cat :: ('e, json) act) = survey_run h cat"
proof -
  have "(run_probes (h\<lparr>sv_read := r\<rparr>) acc ps :: ('e, (string \<times> json) list) act) = run_probes h acc ps" for acc ps
    by (induction ps arbitrary: acc) (simp_all add: runProbe_revealed [OF assms])
  then show ?thesis by (simp add: survey_run_def)
qed

subsection \<open>Bounds\<close>

lemma collect_vhosts_length: "length acc \<le> 200 \<Longrightarrow> length (collect_vhosts h ds acc paths) \<le> 200"
  by (induction paths arbitrary: acc) (simp_all add: Let_def)

lemma all_vhosts_length: "length (all_vhosts h ds patterns) \<le> 200"
proof -
  have "length acc \<le> 200 \<Longrightarrow> length (fold (\<lambda>pt acc. collect_vhosts h ds acc (globPaths h pt)) patterns acc) \<le> 200" for acc
    by (induction patterns arbitrary: acc) (simp_all add: collect_vhosts_length)
  from this [of "[]"] show ?thesis by (simp add: all_vhosts_def)
qed

lemma collect_certs_length: "length (collect_certs h acc paths) \<le> max 200 (length acc + 1)"
proof (induction paths arbitrary: acc)
  case (Cons path paths)
  show ?case using Cons [of acc] Cons [of "acc @ [c]" for c] by (cases "certMeta h path") (auto simp: Let_def)
qed simp

lemma all_certs_length: "length (all_certs h patterns) \<le> 199 + length patterns"
proof -
  have "length (fold (\<lambda>pt acc. collect_certs h acc (globPaths h pt)) patterns acc) \<le> max 199 (length acc) + length patterns" for acc
  proof (induction patterns arbitrary: acc)
    case (Cons pt patterns)
    show ?case
      using Cons [of "collect_certs h acc (globPaths h pt)"] collect_certs_length [of h acc "globPaths h pt"] by simp
  qed simp
  from this [of "[]"] show ?thesis by (simp add: all_certs_def)
qed

text \<open>The cap on the certificates is per pattern: past it each further pattern still adds one.\<close>

lemma certs_cap_passed:
  assumes "\<And>path. certMeta h path \<noteq> None" "\<And>pt. globPaths h pt \<noteq> []" "200 \<le> length acc"
  shows "length (fold (\<lambda>pt acc. collect_certs h acc (globPaths h pt)) patterns acc) = length acc + length patterns"
  using assms(3)
proof (induction patterns arbitrary: acc)
  case (Cons pt patterns)
  obtain path paths where g: "globPaths h pt = path # paths" using assms(2) by (meson neq_Nil_conv)
  obtain c where c: "certMeta h path = Some c" using assms(1) by blast
  show ?case using Cons.IH [of "acc @ [c]"] Cons.prems by (simp add: g c Let_def)
qed simp

lemma utf8_width_le: "utf8_width s \<le> 4"
  by (induction s rule: utf8_width.induct) (auto split: list.splits)

lemma runes_length: "length s \<le> 4 * length (runes s) \<and> (\<forall>r \<in> set (runes s). length r \<le> 4)"
proof (induction s rule: runes.induct)
  case (2 c s)
  show ?case
    using 2 utf8_width_le [of "c # s"]
    by (cases "utf8_width (c # s) = 0") (auto simp: runes.simps(2) simp del: utf8_width.simps)
qed simp

lemma truncateStr_length: "length (truncateStr s) \<le> 2048"
proof (cases "512 < length (runes s)")
  case True
  have "length (concat rs) \<le> 4 * length rs" if "\<forall>r \<in> set rs. length r \<le> 4" for rs :: "string list"
    using that by (induction rs) auto
  from this [of "take 512 (runes s)"] show ?thesis
    using True runes_length [of s] by (auto simp: truncateStr_def Let_def dest: in_set_takeD)
next
  case False
  then show ?thesis using runes_length [of s] by (simp add: truncateStr_def Let_def)
qed

subsection \<open>Properties\<close>

text \<open>
  C27. Whatever the catalog asks for, the only programs the survey starts are \<open>systemctl is-active\<close> on a
  unit that the catalog names and that is no pattern, and \<open>crontab -l\<close>.
\<close>

theorem survey_confined:
  "\<exists>cs. snd (survey_run h cat t :: (herror + json) \<times> trace) = t @ cs \<and>
     (\<forall>c \<in> set cs. c = Run ''crontab'' [''-l''] \<or>
       (\<exists>p \<in> set (cat_Probes cat). \<exists>u \<in> set (dt_Units (pr_Detect p)).
          c = Run ''systemctl'' [''is-active'', u] \<and> \<not> contains_any u ''*?[''))"
proof -
  obtain cs where cs: "snd (survey_run h cat t :: (herror + json) \<times> trace) = t @ cs" "list_all (survey_cmd (cat_Probes cat)) cs"
    using emits_snd [OF emits_survey] by blast
  then show ?thesis unfolding list_all_iff survey_cmd_def by (intro exI [of _ cs] conjI)
qed

definition demo_survey_host :: "(string \<Rightarrow> string option) \<Rightarrow> survey_host" where
  "demo_survey_host files =
     \<lparr>sv_env = \<lparr>env_linux = True, env_path = (\<lambda>b. b = ''systemctl''), env_run = (\<lambda>t c. \<lparr>rr_out = ''active'', rr_stderr = [], rr_err = None\<rparr>)\<rparr>,
      sv_stat = (\<lambda>p. None), sv_glob = (\<lambda>p. [p]), sv_read = files, sv_cert = (\<lambda>s. None), sv_conns = None, sv_proc = (\<lambda>n. []),
      sv_docker = None, sv_user = ''agent''\<rparr>"

definition demo_catalog :: Catalog where
  "demo_catalog = \<lparr>cat_Version = 1, cat_Probes =
     [\<lparr>pr_ID = ''nginx'', pr_Kind = ''service+config'',
       pr_Detect = \<lparr>dt_Ports = [], dt_Units = [''nginx'', ''php*-fpm''], dt_Bins = [], dt_Paths = []\<rparr>,
       pr_Map = [(''vhosts'', [''/etc/nginx/a''])]\<rparr>]\<rparr>"

theorem survey_confined_witness:
  "snd (survey_run (demo_survey_host (\<lambda>p. None)) demo_catalog [] :: (herror + json) \<times> trace) = [Run ''systemctl'' [''is-active'', ''nginx'']] \<and>
   (\<exists>cs. snd (survey_run (demo_survey_host (\<lambda>p. None)) demo_catalog [] :: (herror + json) \<times> trace) = [] @ cs \<and>
     (\<forall>c \<in> set cs. c = Run ''crontab'' [''-l''] \<or>
       (\<exists>p \<in> set (cat_Probes demo_catalog). \<exists>u \<in> set (dt_Units (pr_Detect p)).
          c = Run ''systemctl'' [''is-active'', u] \<and> \<not> contains_any u ''*?['')))"
  by (rule conjI, code_simp, rule survey_confined)

text \<open>
  C28. What leaves the host of the files' contents is confined to the lines of the three whitelisted
  directives of a web server and the decoded fields of a certificate: two hosts that agree on those
  give the same answer and run the same programs, whatever else their files hold.
\<close>

theorem survey_reveals:
  assumes "\<forall>path. map_option (\<lambda>content. (directive_lines nginxDirectives content, directive_lines apacheDirectives content,
        sv_cert h content)) (r path) =
      map_option (\<lambda>content. (directive_lines nginxDirectives content, directive_lines apacheDirectives content,
        sv_cert h content)) (sv_read h path)"
  shows "survey_run (h\<lparr>sv_read := r\<rparr>) cat t = survey_run h cat t"
proof -
  have "map_option (revealed h) (r path) = map_option (revealed h) (sv_read h path)" for path
    using assms unfolding revealed_def by blast
  from survey_revealed [OF this] show ?thesis by (rule fun_cong)
qed

definition demo_conf :: "string \<Rightarrow> string" where
  "demo_conf secret = ''server_name a.example;'' @ [CHR 0x0A] @ ''ssl_password '' @ secret @ [CHR 0x0A]"

theorem survey_reveals_witness:
  "fst (survey_run (demo_survey_host (\<lambda>p. Some (demo_conf ''one''))) demo_catalog []) =
     (Inr (JObj [(''catalog_version'', JInt 1), (''probes'', JObj [(''nginx'', JObj [(''detected'', JBool True),
       (''service'', JObj [(''active'', JBool True)]),
       (''vhosts'', JArr [JObj [(''server_name'', JStr ''a.example'')]])])])]) :: herror + json) \<and>
   (survey_run ((demo_survey_host (\<lambda>p. Some (demo_conf ''one'')))\<lparr>sv_read := \<lambda>p. Some (demo_conf ''two'')\<rparr>) demo_catalog []
      :: (herror + json) \<times> trace) =
     survey_run (demo_survey_host (\<lambda>p. Some (demo_conf ''one''))) demo_catalog []"
proof
  have d: "directive_lines nginxDirectives (demo_conf ''two'') = directive_lines nginxDirectives (demo_conf ''one'')"
      "directive_lines apacheDirectives (demo_conf ''two'') = directive_lines apacheDirectives (demo_conf ''one'')"
    by code_simp+
  show "(survey_run ((demo_survey_host (\<lambda>p. Some (demo_conf ''one'')))\<lparr>sv_read := \<lambda>p. Some (demo_conf ''two'')\<rparr>) demo_catalog []
      :: (herror + json) \<times> trace) =
     survey_run (demo_survey_host (\<lambda>p. Some (demo_conf ''one''))) demo_catalog []"
    by (rule survey_reveals) (simp add: d demo_survey_host_def)
qed code_simp

text \<open>
  The sizes of an answer: at most 200 virtual hosts a probe, 500 sockets, 50 markers and 2048 bytes
  a field; of certificates 199 and one for each pattern, since the cap of 200 ends only the walk over
  one pattern.
\<close>

theorem survey_bounded:
  "length (all_vhosts h directives patterns) \<le> 200 \<and> length (all_certs h patterns) \<le> 199 + length patterns \<and>
   length (Listeners h) \<le> 500 \<and> length (markers h paths) \<le> 50 \<and> length (truncateStr s) \<le> 2048"
  using all_vhosts_length all_certs_length truncateStr_length
  by (simp add: Listeners_def markers_def split: option.split)

text \<open>
  The files are those the catalog names, so that a directive's line is revealed of any file: of
  \<open>/etc/sudoers\<close> the line of \<open>root\<close>. And a unit may be an option of \<open>systemctl\<close>.
\<close>

theorem survey_catalog_reaches:
  "parseVhosts (demo_survey_host (\<lambda>p. Some ''root ALL=(ALL) ALL'')) ''/etc/sudoers'' nginxDirectives =
     [\<lparr>vh_ServerName = [], vh_Root = ''ALL=(ALL) ALL'', vh_Upstream = []\<rparr>] \<and>
   snd (UnitActive (demo_survey_host (\<lambda>p. None)) ''--host=example.org'' [] :: (herror + bool \<times> string) \<times> trace) =
     [Run ''systemctl'' [''is-active'', ''--host=example.org'']]"
  by (intro conjI) code_simp+

end
