(* ===== verification/Capabilities.thy ===== *)
theory Capabilities
  imports Systemd Runtimes
begin

text \<open>
  What the agent tells the panel it can do: \<open>internal/capabilities/capabilities.go\<close>, the message of
  \<open>pkg/protocol/messages.go\<close>, and \<open>agent:recapabilities\<close> from \<open>internal/agent/recapabilities.go\<close>. A
  probe runs on a host whose \<open>PATH\<close> does not change meanwhile; the cache of lookups is empty when it
  begins, at the start and after \<open>ClearPathCache\<close>, so that it is not seen.
\<close>

subsection \<open>Probing\<close>

record cap_host =
  ch_env :: env                              \<comment> \<open>\<open>env_linux\<close> is \<open>GOOS\<close>\<close>
  ch_GOOS :: string                          \<comment> \<open>its name where it is not Linux\<close>
  ch_exists :: "string \<Rightarrow> bool"
  ch_glob :: "string \<Rightarrow> string list"
  ch_distro :: "(string \<times> string) option"   \<comment> \<open>platform and version, if the library tells\<close>

definition hasOnPath :: "cap_host \<Rightarrow> string \<Rightarrow> bool" where
  "hasOnPath h nm = env_path (ch_env h) nm"

definition linux :: "cap_host \<Rightarrow> bool" where
  "linux h = env_linux (ch_env h)"

definition probeCron :: "cap_host \<Rightarrow> bool" where
  "probeCron h \<longleftrightarrow> linux h \<and> (hasOnPath h ''crontab'' \<or> ch_exists h ''/etc/cron.d'')"

definition probeSystemd :: "cap_host \<Rightarrow> bool" where
  "probeSystemd h \<longleftrightarrow> linux h \<and> hasOnPath h ''systemctl'' \<and> ch_exists h ''/run/systemd/system''"

definition probeNginx :: "cap_host \<Rightarrow> bool" where
  "probeNginx h \<longleftrightarrow> linux h \<and> hasOnPath h ''nginx''"

definition probePHPFPM :: "cap_host \<Rightarrow> bool" where
  "probePHPFPM h \<longleftrightarrow> linux h \<and>
     (hasOnPath h ''php-fpm'' \<or> list_ex (\<lambda>pat. ch_glob h pat \<noteq> []) [''/usr/sbin/php*-fpm*'', ''/usr/local/sbin/php*-fpm*''])"

definition probePackageManager :: "cap_host \<Rightarrow> bool" where
  "probePackageManager h \<longleftrightarrow> linux h \<and>
     list_ex (hasOnPath h) [''apt-get'', ''apt'', ''dnf'', ''yum'', ''apk'', ''pacman'', ''zypper'']"

definition probeCloudflared :: "cap_host \<Rightarrow> bool" where
  "probeCloudflared h = hasOnPath h ''cloudflared''"

definition probeWireguard :: "cap_host \<Rightarrow> bool" where
  "probeWireguard h \<longleftrightarrow> (linux h \<longrightarrow> hasOnPath h ''wg'' \<and> hasOnPath h ''ip'')"

definition probeFirewall :: "cap_host \<Rightarrow> bool" where
  "probeFirewall h \<longleftrightarrow> linux h \<and> (hasOnPath h ''ufw'' \<or> hasOnPath h ''firewall-cmd'' \<or> hasOnPath h ''iptables'')"

definition can_escalate :: "string \<Rightarrow> bool" where
  "can_escalate sudoMode \<longleftrightarrow> sudoMode = ''root'' \<or> sudoMode = ''passwordless''"

definition systemdRestartCapable :: "bool \<Rightarrow> string \<Rightarrow> bool" where
  "systemdRestartCapable systemdPresent sudoMode \<longleftrightarrow> systemdPresent \<and> can_escalate sudoMode"

subsection \<open>Runtimes\<close>

definition filepathBase :: "string \<Rightarrow> string" where
  "filepathBase p = after_last_slash (map (\<lambda>c. if c = CHR 0x5C then CHR ''/'' else c) p)"

text \<open>\<open>versionPattern.FindString\<close>: the leftmost digits, dot, digits, and a third part if it follows.\<close>

definition dotted :: "string \<Rightarrow> string" where
  "dotted s = (case s of [] \<Rightarrow> [] | c # r \<Rightarrow> if c = CHR ''.'' \<and> takeWhile is_digit r \<noteq> [] then c # takeWhile is_digit r else [])"

fun find_version :: "string \<Rightarrow> string" where
  "find_version [] = []"
| "find_version (c # s) =
     (let major = takeWhile is_digit (c # s); minor = dotted (dropWhile is_digit (c # s)) in
      if major \<noteq> [] \<and> minor \<noteq> []
      then major @ minor @ dotted (drop (length minor) (dropWhile is_digit (c # s)))
      else find_version s)"

definition version_forms :: "string \<Rightarrow> string list list" where
  "version_forms bin =
     (if to_lower (filepathBase bin) \<in> {''go'', ''go.exe''} then [[''version''], [''--version'']]
      else [[''--version''], [''-version''], [''version'']])"

fun first_output :: "cap_host \<Rightarrow> string \<Rightarrow> string list list \<Rightarrow> ('e, string) act" where
  "first_output h bin [] = ret []"
| "first_output h bin (args # forms) =
     abind (run (ch_env h) (Run bin args)) (\<lambda>r.
       if rr_err r = None \<and> rr_out r \<noteq> [] then ret (rr_out r) else first_output h bin forms)"

definition readVersion :: "cap_host \<Rightarrow> string \<Rightarrow> ('e, string) act" where
  "readVersion h bin =
     abind (first_output h bin (version_forms bin)) (\<lambda>out.
       let first = hd (split_on CHR 0x0A (trim_space out)); m = find_version first
       in ret (if out = [] then [] else if m \<noteq> [] then m else first))"

definition runtime_probes :: "(string \<times> string list) list" where
  "runtime_probes =
     [(''python'', [''python3'', ''python'']), (''node'', [''node'', ''nodejs'']), (''php'', [''php'']), (''go'', [''go'']),
      (''ruby'', [''ruby'']), (''java'', [''java''])]"

definition probe_runtime :: "cap_host \<Rightarrow> string \<times> string list \<Rightarrow> ('e, (string \<times> string) list) act" where
  "probe_runtime h p =
     (case find (hasOnPath h) (snd p) of
        None \<Rightarrow> ret []
      | Some bin \<Rightarrow> abind (readVersion h bin) (\<lambda>v. ret [(fst p, v)]))"

definition probeRuntimes :: "cap_host \<Rightarrow> ('e, (string \<times> string) list) act" where
  "probeRuntimes h = abind (amap (probe_runtime h) runtime_probes) (\<lambda>rs. ret (concat rs))"

subsection \<open>The message\<close>

record CapabilitiesMessage =
  cm_Capabilities :: "(string \<times> bool) list"
  cm_Platform :: string
  cm_Distro :: string
  cm_DistroVersion :: string
  cm_Runtimes :: "(string \<times> string) list"
  cm_AllowedPaths :: "string list"
  cm_Sudo :: string
  cm_RuntimeManagers :: "(string \<times> string) list"
  cm_SystemdJSON :: bool
  cm_ProbedAt :: int

definition capability_map :: "cap_host \<Rightarrow> bool \<Rightarrow> bool \<Rightarrow> string list \<Rightarrow> string \<Rightarrow> (string \<times> bool) list" where
  "capability_map h docker fileAccess allowedPaths sudoMode =
     [(''docker'', docker), (''files'', fileAccess \<and> allowedPaths \<noteq> []), (''cron'', probeCron h), (''systemd'', probeSystemd h),
      (''nginx'', probeNginx h), (''php_fpm'', probePHPFPM h), (''packages'', probePackageManager h),
      (''cloudflared'', probeCloudflared h), (''wireguard'', probeWireguard h), (''firewall'', probeFirewall h),
      (''ssh.keys'', linux h \<and> can_escalate sudoMode), (''doctor.probe'', probeSystemd h), (''survey'', probeSystemd h),
      (''systemd.restart'', systemdRestartCapable (probeSystemd h) sudoMode), (''cron.update'', probeCron h)]"

definition Probe_host :: "cap_host \<Rightarrow> bool \<Rightarrow> bool \<Rightarrow> string list \<Rightarrow> string \<Rightarrow> ('e, CapabilitiesMessage) act" where
  "Probe_host h docker fileAccess allowedPaths sudoMode =
     (let caps = capability_map h docker fileAccess allowedPaths sudoMode in
      abind (probeRuntimes h) (\<lambda>runtimes. ret
        \<lparr>cm_Capabilities = caps, cm_Platform = (if linux h then ''linux'' else ch_GOOS h),
         cm_Distro = (case ch_distro h of Some d \<Rightarrow> fst d | None \<Rightarrow> []),
         cm_DistroVersion = (case ch_distro h of Some d \<Rightarrow> snd d | None \<Rightarrow> []),
         cm_Runtimes = runtimes,
         cm_AllowedPaths = (if map_of caps ''files'' = Some True then allowedPaths else []),
         cm_Sudo = [], cm_RuntimeManagers = [], cm_SystemdJSON = False, cm_ProbedAt = 0\<rparr>))"

subsection \<open>Probing again\<close>

definition capable :: "(string \<times> bool) list \<Rightarrow> string \<Rightarrow> bool" where
  "capable caps k \<longleftrightarrow> map_of caps k = Some True"

text \<open>The three loops over the previous maps, which have no key twice.\<close>

definition or_caps :: "(string \<times> bool) list \<Rightarrow> (string \<times> bool) list \<Rightarrow> (string \<times> bool) list" where
  "or_caps prev out = fold (\<lambda>(k, v) out. if v \<and> \<not> capable out k then AList.update k True out else out) prev out"

definition fill_map :: "(string \<times> string) list \<Rightarrow> (string \<times> string) list \<Rightarrow> (string \<times> string) list" where
  "fill_map prev out = fold (\<lambda>(k, v) out. if map_of out k = None \<and> v \<noteq> [] then AList.update k v out else out) prev out"

definition mergeCapabilities :: "CapabilitiesMessage \<Rightarrow> CapabilitiesMessage \<Rightarrow> CapabilitiesMessage" where
  "mergeCapabilities prev fresh =
     fresh\<lparr>cm_Capabilities := or_caps (cm_Capabilities prev) (cm_Capabilities fresh),
       cm_Runtimes := fill_map (cm_Runtimes prev) (cm_Runtimes fresh),
       cm_RuntimeManagers := fill_map (cm_RuntimeManagers prev) (cm_RuntimeManagers fresh)\<rparr>"

text \<open>
  The state under \<open>capMu\<close>, with the sets that were handed to the transport. A request either finds a
  probe in flight and answers the cached set, or marks one, probes without the lock, merges what it
  found, pushes the set to the panel, and unmarks.
\<close>

record cap_state =
  caps_current :: CapabilitiesMessage
  caps_reprobing :: bool
  caps_sudoMode :: string
  caps_sent :: "CapabilitiesMessage list"

definition begin_reprobe :: "cap_state \<Rightarrow> (string \<times> CapabilitiesMessage) option \<times> cap_state" where
  "begin_reprobe st =
     (if caps_reprobing st then (Some (''in_progress'', caps_current st), st)
      else (None, st\<lparr>caps_reprobing := True\<rparr>))"

definition fresh_message :: "string \<Rightarrow> string \<Rightarrow> int \<Rightarrow> CapabilitiesMessage \<Rightarrow> CapabilitiesMessage" where
  "fresh_message mode manager now found =
     found\<lparr>cm_Sudo := mode, cm_RuntimeManagers := [(''python'', manager)], cm_ProbedAt := now\<rparr>"

definition merge_reprobe :: "CapabilitiesMessage \<Rightarrow> cap_state \<Rightarrow> cap_state" where
  "merge_reprobe fresh st = st\<lparr>caps_current := mergeCapabilities (caps_current st) fresh, caps_sudoMode := cm_Sudo fresh\<rparr>"

text \<open>
  \<open>sendCapabilities\<close> copies the cached set under the lock and hands the copy to the transport after
  it has released the lock; \<open>sendCapabilities\<close> is both, when nothing comes in between.
\<close>

definition copy_capabilities :: "cap_state \<Rightarrow> CapabilitiesMessage" where
  "copy_capabilities st = caps_current st"

definition push_capabilities :: "CapabilitiesMessage \<Rightarrow> cap_state \<Rightarrow> cap_state" where
  "push_capabilities msg st = st\<lparr>caps_sent := caps_sent st @ [msg]\<rparr>"

definition sendCapabilities :: "cap_state \<Rightarrow> cap_state" where
  "sendCapabilities st = push_capabilities (copy_capabilities st) st"

definition end_reprobe :: "cap_state \<Rightarrow> cap_state" where
  "end_reprobe st = st\<lparr>caps_reprobing := False\<rparr>"

text \<open>The handler, when no other request comes in between: it probes the sudo mode, then the host.\<close>

fun sudo_text :: "sudo_mode \<Rightarrow> string" where
  "sudo_text SudoRoot = ''root''"
| "sudo_text SudoPasswordless = ''passwordless''"
| "sudo_text SudoUnavailable = ''unavailable''"

definition handleAgentRecapabilities :: "cap_host \<Rightarrow> py_host \<Rightarrow> bool \<Rightarrow> bool \<Rightarrow> bool \<Rightarrow> string list \<Rightarrow> int \<Rightarrow> cap_state \<Rightarrow>
    ('e, (string \<times> CapabilitiesMessage) \<times> cap_state) act" where
  "handleAgentRecapabilities h py euid_root docker fileAccess allowedPaths now st =
     (case begin_reprobe st of
        (Some answer, st) \<Rightarrow> ret (answer, st)
      | (None, st) \<Rightarrow>
          abind (\<lambda>t. case probeSudoMode (ch_env h) euid_root t of (mode, t') \<Rightarrow> (Inr (sudo_text mode), t')) (\<lambda>mode.
          abind (Probe_host h docker fileAccess allowedPaths mode) (\<lambda>found.
          abind (ask_host (pyenvManagerKind py)) (\<lambda>manager.
            let st = merge_reprobe (fresh_message mode manager now found) st
            in ret ((''ok'', caps_current st), end_reprobe (sendCapabilities st))))))"

subsection \<open>What a merge keeps\<close>

lemma map_of_update [simp]: "map_of (AList.update k v al) k' = (if k' = k then Some v else map_of al k')"
  by (simp add: update_conv')

lemma or_caps_lookup:
  "distinct (map fst prev) \<Longrightarrow> capable (or_caps prev out) k \<longleftrightarrow> capable prev k \<or> capable out k"
proof (induction prev arbitrary: out)
  case (Cons p prev)
  obtain k' v where p: "p = (k', v)" by (cases p)
  let ?out = "if v \<and> \<not> capable out k' then AList.update k' True out else out"
  have "or_caps (p # prev) out = or_caps prev ?out" by (simp add: or_caps_def p)
  moreover have "capable ?out k \<longleftrightarrow> capable out k \<or> (v \<and> k = k')" by (auto simp: capable_def)
  moreover have "capable (p # prev) k \<longleftrightarrow> capable prev k \<or> (v \<and> k = k')"
    using Cons.prems by (auto simp: capable_def p dest!: map_of_SomeD intro: rev_image_eqI)
  ultimately show ?case using Cons by auto
qed (simp add: or_caps_def capable_def)

lemma fill_map_lookup:
  "distinct (map fst prev) \<Longrightarrow>
     map_of (fill_map prev out) k =
       (case map_of out k of Some v \<Rightarrow> Some v | None \<Rightarrow> if map_of prev k = Some [] then None else map_of prev k)"
proof (induction prev arbitrary: out)
  case (Cons p prev)
  obtain k' v where p: "p = (k', v)" by (cases p)
  let ?out = "if map_of out k' = None \<and> v \<noteq> [] then AList.update k' v out else out"
  have "fill_map (p # prev) out = fill_map prev ?out" by (simp add: fill_map_def p)
  moreover have "map_of prev k' = None" using Cons.prems by (auto simp: p map_of_eq_None_iff)
  ultimately show ?case using Cons.IH [of ?out] Cons.prems by (auto simp: p split: option.splits if_splits)
qed (simp add: fill_map_def split: option.split)

lemma update_distinct: "distinct (map fst al) \<Longrightarrow> distinct (map fst (AList.update k v al))"
  by (rule distinct_update)

lemma or_caps_distinct: "distinct (map fst out) \<Longrightarrow> distinct (map fst (or_caps prev out))"
proof (induction prev arbitrary: out)
  case (Cons p prev)
  then show ?case using Cons.IH [of "AList.update (fst p) True out"]
    by (cases p) (simp add: or_caps_def update_distinct)
qed (simp add: or_caps_def)

lemma fill_map_distinct: "distinct (map fst out) \<Longrightarrow> distinct (map fst (fill_map prev out))"
proof (induction prev arbitrary: out)
  case (Cons p prev)
  then show ?case using Cons.IH [of "AList.update (fst p) (snd p) out"]
    by (cases p) (simp add: fill_map_def update_distinct)
qed (simp add: fill_map_def)

text \<open>A message as a Go map: no key twice.\<close>

definition message_ok :: "CapabilitiesMessage \<Rightarrow> bool" where
  "message_ok m \<longleftrightarrow> distinct (map fst (cm_Capabilities m)) \<and> distinct (map fst (cm_Runtimes m)) \<and>
     distinct (map fst (cm_RuntimeManagers m))"

lemma merge_ok: "message_ok fresh \<Longrightarrow> message_ok (mergeCapabilities prev fresh)"
  by (simp add: message_ok_def mergeCapabilities_def or_caps_distinct fill_map_distinct)

lemma merge_capable:
  "message_ok prev \<Longrightarrow> capable (cm_Capabilities (mergeCapabilities prev fresh)) k \<longleftrightarrow>
     capable (cm_Capabilities prev) k \<or> capable (cm_Capabilities fresh) k"
  by (simp add: mergeCapabilities_def message_ok_def or_caps_lookup)

lemma merge_runtimes:
  "message_ok prev \<Longrightarrow> map_of (cm_Runtimes (mergeCapabilities prev fresh)) k =
     (case map_of (cm_Runtimes fresh) k of Some v \<Rightarrow> Some v
      | None \<Rightarrow> if map_of (cm_Runtimes prev) k = Some [] then None else map_of (cm_Runtimes prev) k)"
  by (simp add: mergeCapabilities_def message_ok_def fill_map_lookup)

subsection \<open>Interleaved requests\<close>

text \<open>
  A request that marked a probe goes through these stages; the stages after the merge carry what its
  own probe found, and the one between copying and pushing the copy. The watcher of the connection
  pushes too, with a copy for each goroutine that has not pushed yet, and the listing of units may set
  what is advertised of \<open>systemctl\<close>. All of these interleave.
\<close>

datatype request =
    Probing
  | Merged CapabilitiesMessage
  | Pushing CapabilitiesMessage CapabilitiesMessage
  | Pushed CapabilitiesMessage

type_synonym cap_system = "cap_state \<times> request list \<times> CapabilitiesMessage list"

definition without :: "nat \<Rightarrow> 'a list \<Rightarrow> 'a list" where
  "without i xs = take i xs @ drop (Suc i) xs"

inductive cap_step :: "cap_system \<Rightarrow> cap_system \<Rightarrow> bool" where
  Cached: "begin_reprobe st = (Some answer, st') \<Longrightarrow> cap_step (st, rs, ps) (st', rs, ps)"
| Begin: "begin_reprobe st = (None, st') \<Longrightarrow> cap_step (st, rs, ps) (st', rs @ [Probing], ps)"
| Merge: "i < length rs \<Longrightarrow> rs ! i = Probing \<Longrightarrow> message_ok fresh \<Longrightarrow>
    cap_step (st, rs, ps) (merge_reprobe fresh st, rs[i := Merged fresh], ps)"
| Copy: "i < length rs \<Longrightarrow> rs ! i = Merged fresh \<Longrightarrow>
    cap_step (st, rs, ps) (st, rs[i := Pushing fresh (copy_capabilities st)], ps)"
| Push: "i < length rs \<Longrightarrow> rs ! i = Pushing fresh msg \<Longrightarrow>
    cap_step (st, rs, ps) (push_capabilities msg st, rs[i := Pushed fresh], ps)"
| Unmark: "i < length rs \<Longrightarrow> rs ! i = Pushed fresh \<Longrightarrow> cap_step (st, rs, ps) (end_reprobe st, without i rs, ps)"
| Watcher_Copy: "cap_step (st, rs, ps) (st, rs, ps @ [copy_capabilities st])"
| Watcher_Push: "i < length ps \<Longrightarrow> cap_step (st, rs, ps) (push_capabilities (ps ! i) st, rs, without i ps)"
| Units: "cap_step (st, rs, ps) (st\<lparr>caps_current := (caps_current st)\<lparr>cm_SystemdJSON := b\<rparr>\<rparr>, rs, ps)"

definition caps_of :: "CapabilitiesMessage \<Rightarrow> string set" where
  "caps_of msg = {k. capable (cm_Capabilities msg) k}"

text \<open>
  Seen from a moment when the set \<open>K\<close> was cached: every copy, pushed since or on its way, lies between
  \<open>K\<close> and the set cached now, and a request that pushed has pushed what its probe found.
\<close>

fun request_ok :: "string set \<Rightarrow> CapabilitiesMessage \<Rightarrow> CapabilitiesMessage set \<Rightarrow> request \<Rightarrow> bool" where
  "request_ok K cur pushed Probing = True"
| "request_ok K cur pushed (Merged fresh) = (caps_of fresh \<subseteq> caps_of cur)"
| "request_ok K cur pushed (Pushing fresh msg) = (K \<union> caps_of fresh \<subseteq> caps_of msg \<and> caps_of msg \<subseteq> caps_of cur)"
| "request_ok K cur pushed (Pushed fresh) = (\<exists>msg \<in> pushed. caps_of fresh \<subseteq> caps_of msg)"

definition cap_inv :: "string set \<Rightarrow> CapabilitiesMessage list \<Rightarrow> cap_system \<Rightarrow> bool" where
  "cap_inv K before = (\<lambda>(st, rs, ps).
     message_ok (caps_current st) \<and> length rs = (if caps_reprobing st then 1 else 0) \<and> K \<subseteq> caps_of (caps_current st) \<and>
     (\<exists>pushed. caps_sent st = before @ pushed \<and>
        (\<forall>msg \<in> set pushed \<union> set ps. K \<subseteq> caps_of msg \<and> caps_of msg \<subseteq> caps_of (caps_current st)) \<and>
        (\<forall>r \<in> set rs. request_ok K (caps_current st) (set pushed) r)))"

lemma cap_invI:
  "message_ok (caps_current st) \<Longrightarrow> length rs = (if caps_reprobing st then 1 else 0) \<Longrightarrow> K \<subseteq> caps_of (caps_current st) \<Longrightarrow>
   caps_sent st = before @ pushed \<Longrightarrow>
   (\<And>msg. msg \<in> set pushed \<union> set ps \<Longrightarrow> K \<subseteq> caps_of msg \<and> caps_of msg \<subseteq> caps_of (caps_current st)) \<Longrightarrow>
   (\<And>r. r \<in> set rs \<Longrightarrow> request_ok K (caps_current st) (set pushed) r) \<Longrightarrow> cap_inv K before (st, rs, ps)"
  unfolding cap_inv_def prod.case by blast

lemma cap_invE:
  assumes "cap_inv K before (st, rs, ps)"
  obtains pushed where "message_ok (caps_current st)" "length rs = (if caps_reprobing st then 1 else 0)"
    "K \<subseteq> caps_of (caps_current st)" "caps_sent st = before @ pushed"
    "\<And>msg. msg \<in> set pushed \<union> set ps \<Longrightarrow> K \<subseteq> caps_of msg \<and> caps_of msg \<subseteq> caps_of (caps_current st)"
    "\<And>r. r \<in> set rs \<Longrightarrow> request_ok K (caps_current st) (set pushed) r"
  using assms unfolding cap_inv_def prod.case by blast

lemma set_without: "set (without i xs) \<subseteq> set xs"
  by (auto simp: without_def dest: in_set_takeD in_set_dropD)

lemma request_ok_mono:
  "request_ok K cur pushed r \<Longrightarrow> caps_of cur \<subseteq> caps_of cur' \<Longrightarrow> pushed \<subseteq> pushed' \<Longrightarrow> request_ok K cur' pushed' r"
  by (cases r) auto

lemma merge_caps_of:
  "message_ok prev \<Longrightarrow> caps_of (mergeCapabilities prev fresh) = caps_of prev \<union> caps_of fresh"
  by (auto simp: caps_of_def merge_capable)

lemma list_update_cases: "x \<in> set (xs[i := y]) \<Longrightarrow> x = y \<or> x \<in> set xs"
  by (metis insert_iff set_update_subset_insert subsetD)

lemma cap_move:
  assumes "cap_inv K before (st, rs, ps)" and "caps_current st' = caps_current st" "caps_sent st' = caps_sent st @ ms"
    and "length rs' = (if caps_reprobing st' then 1 else 0)"
    and "\<And>msg. msg \<in> set ms \<union> set ps' \<Longrightarrow> msg \<in> set ps \<or> K \<subseteq> caps_of msg \<and> caps_of msg \<subseteq> caps_of (caps_current st)"
    and "\<And>r. r \<in> set rs' \<Longrightarrow> r \<in> set rs \<or> request_ok K (caps_current st) (set ms) r"
  shows "cap_inv K before (st', rs', ps')"
proof -
  from assms(1) obtain pushed where i: "message_ok (caps_current st)" "K \<subseteq> caps_of (caps_current st)"
      "caps_sent st = before @ pushed"
      "\<And>msg. msg \<in> set pushed \<union> set ps \<Longrightarrow> K \<subseteq> caps_of msg \<and> caps_of msg \<subseteq> caps_of (caps_current st)"
      "\<And>r. r \<in> set rs \<Longrightarrow> request_ok K (caps_current st) (set pushed) r"
    by (rule cap_invE) (rule that)
  show ?thesis
  proof (rule cap_invI [where pushed = "pushed @ ms"])
    show "K \<subseteq> caps_of msg \<and> caps_of msg \<subseteq> caps_of (caps_current st')" if "msg \<in> set (pushed @ ms) \<union> set ps'" for msg
      using that assms(5) [of msg] i(4) [of msg] assms(2) by auto
    show "request_ok K (caps_current st') (set (pushed @ ms)) r" if "r \<in> set rs'" for r
      using assms(6) [OF that] i(5) [of r] request_ok_mono [of K "caps_current st"] assms(2) by auto
  qed (use assms i in simp_all)
qed

lemma cap_step_inv: "cap_step s s' \<Longrightarrow> cap_inv K before s \<Longrightarrow> cap_inv K before s'"
proof (induction rule: cap_step.induct)
  case (Merge i rs fresh st ps)
  from Merge.prems obtain pushed where inv: "message_ok (caps_current st)" "length rs = (if caps_reprobing st then 1 else 0)"
      "K \<subseteq> caps_of (caps_current st)" "caps_sent st = before @ pushed"
      "\<And>msg. msg \<in> set pushed \<union> set ps \<Longrightarrow> K \<subseteq> caps_of msg \<and> caps_of msg \<subseteq> caps_of (caps_current st)"
      "\<And>r. r \<in> set rs \<Longrightarrow> request_ok K (caps_current st) (set pushed) r"
    by (rule cap_invE) (rule that)
  have c: "caps_of (caps_current (merge_reprobe fresh st)) = caps_of (caps_current st) \<union> caps_of fresh"
    using inv(1) by (simp add: merge_reprobe_def merge_caps_of)
  show ?case
  proof (rule cap_invI [where pushed = pushed])
    show "request_ok K (caps_current (merge_reprobe fresh st)) (set pushed) r" if "r \<in> set (rs[i := Merged fresh])" for r
      using list_update_cases [OF that] inv(6) [of r] request_ok_mono [of K "caps_current st" "set pushed" r] c by auto
    show "K \<subseteq> caps_of msg \<and> caps_of msg \<subseteq> caps_of (caps_current (merge_reprobe fresh st))"
      if "msg \<in> set pushed \<union> set ps" for msg
      using inv(5) [OF that] c by auto
  qed (use inv c Merge.hyps in \<open>auto simp: merge_reprobe_def merge_ok\<close>)
next
  case (Copy i rs fresh st ps)
  then have m: "Merged fresh \<in> set rs" by (metis nth_mem)
  from Copy.prems have k: "K \<subseteq> caps_of (caps_current st)" "length rs = (if caps_reprobing st then 1 else 0)"
      "caps_of fresh \<subseteq> caps_of (caps_current st)"
    by - (erule cap_invE; use m in force)+
  show ?case
    by (rule cap_move [OF Copy.prems, where ms = "[]"])
      (use k in \<open>auto simp: copy_capabilities_def dest!: list_update_cases\<close>)
next
  case (Push i rs fresh msg st ps)
  then have m: "Pushing fresh msg \<in> set rs" by (metis nth_mem)
  from Push.prems have k: "K \<union> caps_of fresh \<subseteq> caps_of msg" "caps_of msg \<subseteq> caps_of (caps_current st)"
      "length rs = (if caps_reprobing st then 1 else 0)"
    by - (erule cap_invE; use m in force)+
  show ?case
    by (rule cap_move [OF Push.prems, where ms = "[msg]"])
      (use k in \<open>auto simp: push_capabilities_def dest!: list_update_cases\<close>)
next
  case (Unmark i rs fresh st ps)
  then have "length rs = (if caps_reprobing st then 1 else 0)" by (auto elim: cap_invE)
  then show ?case using Unmark set_without [of i rs]
    by (intro cap_move [OF Unmark.prems, where ms = "[]"]) (auto simp: end_reprobe_def without_def split: if_splits)
next
  case (Watcher_Copy st rs ps)
  then have "K \<subseteq> caps_of (caps_current st)" "length rs = (if caps_reprobing st then 1 else 0)" by (auto elim: cap_invE)
  then show ?case
    by (intro cap_move [OF Watcher_Copy, where ms = "[]"]) (auto simp: copy_capabilities_def)
next
  case (Watcher_Push i ps st rs)
  then have "length rs = (if caps_reprobing st then 1 else 0)" by (auto elim: cap_invE)
  then show ?case using Watcher_Push.hyps set_without [of i ps]
    by (intro cap_move [OF Watcher_Push.prems, where ms = "[ps ! i]"]) (auto simp: push_capabilities_def)
next
  case (Units st rs ps b)
  have "caps_of ((caps_current st)\<lparr>cm_SystemdJSON := b\<rparr>) = caps_of (caps_current st)" by (simp add: caps_of_def)
  moreover have "request_ok K ((caps_current st)\<lparr>cm_SystemdJSON := b\<rparr>) P r = request_ok K (caps_current st) P r" for P r
    by (cases r) (simp_all add: caps_of_def)
  ultimately show ?case using Units unfolding cap_inv_def prod.case by (simp add: message_ok_def)
next
  case (Begin st st' rs ps)
  then have "length rs = (if caps_reprobing st then 1 else 0)" by (auto elim: cap_invE)
  then show ?case using Begin
    by (intro cap_move [OF Begin.prems, where ms = "[]"]) (auto simp: begin_reprobe_def split: if_splits)
qed (auto simp: begin_reprobe_def split: if_splits)

lemma cap_steps_inv: "cap_step\<^sup>*\<^sup>* s s' \<Longrightarrow> cap_inv K before s \<Longrightarrow> cap_inv K before s'"
  by (induction rule: rtranclp_induct) (auto intro: cap_step_inv)

subsection \<open>Properties\<close>

text \<open>
  C38. However requests, pushes and unit listings interleave, at most one probe is in flight and a
  capability in the cached set stays in it. Every set handed to the transport since the start of the
  run holds all that was cached at that start and nothing that is not cached now, and by the time a
  request ends, a set with all that its own probe found has been handed over. Two pushes may still
  arrive in the wrong order (lemma \<open>push_overtaken\<close>).
\<close>

theorem capabilities_never_lost:
  assumes "cap_step\<^sup>*\<^sup>* (st, [], []) (st', rs, ps)" and "\<not> caps_reprobing st" and "message_ok (caps_current st)"
  shows "length rs = (if caps_reprobing st' then 1 else 0) \<and> message_ok (caps_current st') \<and>
     caps_of (caps_current st) \<subseteq> caps_of (caps_current st') \<and>
     (\<exists>pushed. caps_sent st' = caps_sent st @ pushed \<and>
        (\<forall>msg \<in> set pushed. caps_of (caps_current st) \<subseteq> caps_of msg \<and> caps_of msg \<subseteq> caps_of (caps_current st')) \<and>
        (\<forall>fresh. Pushed fresh \<in> set rs \<longrightarrow> (\<exists>msg \<in> set pushed. caps_of fresh \<subseteq> caps_of msg)))"
proof -
  have "cap_inv (caps_of (caps_current st)) (caps_sent st) (st, [], [])"
    using assms(2,3) by (simp add: cap_inv_def)
  then have "cap_inv (caps_of (caps_current st)) (caps_sent st) (st', rs, ps)" by (rule cap_steps_inv [OF assms(1)])
  then show ?thesis unfolding cap_inv_def prod.case by fastforce
qed

definition demo_message :: "(string \<times> bool) list \<Rightarrow> (string \<times> string) list \<Rightarrow> string \<Rightarrow> bool \<Rightarrow> CapabilitiesMessage" where
  "demo_message caps runtimes manager js =
     \<lparr>cm_Capabilities = caps, cm_Platform = ''linux'', cm_Distro = [], cm_DistroVersion = [], cm_Runtimes = runtimes,
      cm_AllowedPaths = [], cm_Sudo = ''root'', cm_RuntimeManagers = [(''python'', manager)], cm_SystemdJSON = js, cm_ProbedAt = 0\<rparr>"

definition demo_caps :: cap_state where
  "demo_caps = \<lparr>caps_current = demo_message [(''docker'', True)] [(''go'', ''1.22'')] ''pyenv'' True, caps_reprobing = False,
     caps_sudoMode = ''root'', caps_sent = []\<rparr>"

abbreviation demo_fresh :: CapabilitiesMessage where
  "demo_fresh \<equiv> demo_message [(''docker'', False), (''cron'', True)] [] [] False"

definition demo_merged :: cap_state where
  "demo_merged = merge_reprobe demo_fresh (demo_caps\<lparr>caps_reprobing := True\<rparr>)"

lemma demo_cap_facts:
  "\<not> caps_reprobing demo_caps" "message_ok (caps_current demo_caps)" "message_ok demo_fresh"
  "capable (cm_Capabilities (caps_current demo_caps)) ''docker''"
  "\<not> capable (cm_Capabilities (caps_current demo_caps)) ''cron''"
  "capable (cm_Capabilities (caps_current demo_merged)) ''cron''"
  "caps_reprobing demo_merged" "caps_sent demo_merged = []"
  by code_simp+

lemma demo_cap_run:
  "cap_step\<^sup>*\<^sup>* (demo_caps, [], []) (push_capabilities (caps_current demo_merged) demo_merged, [Pushed demo_fresh], [caps_current demo_caps])"
proof -
  let ?w = "[caps_current demo_caps]"
  have "cap_step (demo_caps, [], []) (demo_caps, [], ?w)"
    using cap_step.Watcher_Copy [of demo_caps "[]" "[]"] by (simp add: copy_capabilities_def)
  moreover have "cap_step (demo_caps, [], ?w) (demo_caps\<lparr>caps_reprobing := True\<rparr>, [] @ [Probing], ?w)"
    by (rule cap_step.Begin) (simp add: begin_reprobe_def demo_cap_facts)
  moreover have "cap_step (demo_caps\<lparr>caps_reprobing := True\<rparr>, [] @ [Probing], ?w) (demo_merged, [Merged demo_fresh], ?w)"
    using cap_step.Merge [of 0 "[Probing]" demo_fresh "demo_caps\<lparr>caps_reprobing := True\<rparr>" ?w]
    by (simp add: demo_cap_facts demo_merged_def)
  moreover have "cap_step (demo_merged, [Merged demo_fresh], ?w) (demo_merged, [Pushing demo_fresh (caps_current demo_merged)], ?w)"
    using cap_step.Copy [of 0 "[Merged demo_fresh]" demo_fresh demo_merged ?w] by (simp add: copy_capabilities_def)
  moreover have "cap_step (demo_merged, [Pushing demo_fresh (caps_current demo_merged)], ?w)
      (push_capabilities (caps_current demo_merged) demo_merged, [Pushed demo_fresh], ?w)"
    using cap_step.Push [of 0 "[Pushing demo_fresh (caps_current demo_merged)]" demo_fresh "caps_current demo_merged" demo_merged ?w]
    by simp
  ultimately show ?thesis by (meson converse_rtranclp_into_rtranclp rtranclp.rtrancl_refl)
qed

theorem capabilities_never_lost_witness:
  "\<exists>msg. caps_sent (push_capabilities (caps_current demo_merged) demo_merged) = [msg] \<and>
     capable (cm_Capabilities msg) ''docker'' \<and> capable (cm_Capabilities msg) ''cron''"
proof -
  obtain pushed where p: "caps_sent (push_capabilities (caps_current demo_merged) demo_merged) = caps_sent demo_caps @ pushed"
      "\<forall>msg \<in> set pushed. caps_of (caps_current demo_caps) \<subseteq> caps_of msg"
    using capabilities_never_lost [OF demo_cap_run demo_cap_facts(1,2)] by blast
  have "caps_sent (push_capabilities (caps_current demo_merged) demo_merged) = [caps_current demo_merged]"
    by (simp add: push_capabilities_def demo_cap_facts)
  moreover have "caps_sent demo_caps = []" by (simp add: demo_caps_def)
  ultimately have "caps_of (caps_current demo_caps) \<subseteq> caps_of (caps_current demo_merged)" using p by simp
  then show ?thesis using demo_cap_facts by (auto simp: push_capabilities_def caps_of_def)
qed

text \<open>
  A push that copied the set before a merge may be handed over after the push of that merge: the panel
  is then left with a set that lacks a capability it had been told of.
\<close>

lemma push_overtaken:
  "\<exists>st' rs ps new old. cap_step\<^sup>*\<^sup>* (demo_caps, [], []) (st', rs, ps) \<and> caps_sent st' = [new, old] \<and>
     capable (cm_Capabilities new) ''cron'' \<and> \<not> capable (cm_Capabilities old) ''cron''"
proof -
  let ?s = "push_capabilities (caps_current demo_merged) demo_merged"
  have "cap_step (?s, [Pushed demo_fresh], [caps_current demo_caps])
      (push_capabilities (caps_current demo_caps) ?s, [Pushed demo_fresh], without 0 [caps_current demo_caps])"
    using cap_step.Watcher_Push [of 0 "[caps_current demo_caps]" ?s] by simp
  with demo_cap_run have "cap_step\<^sup>*\<^sup>* (demo_caps, [], [])
      (push_capabilities (caps_current demo_caps) ?s, [Pushed demo_fresh], without 0 [caps_current demo_caps])" by simp
  moreover have "caps_sent (push_capabilities (caps_current demo_caps) ?s) = [caps_current demo_merged, caps_current demo_caps]"
    by (simp add: push_capabilities_def demo_cap_facts)
  ultimately show ?thesis using demo_cap_facts by blast
qed

text \<open>
  What a second probe does lose: that \<open>systemctl\<close> prints JSON, which is not probed again and is in no
  fresh message; the manager of a runtime, whose key is always there; and a runtime whose version
  could not be read once, at the next probe that does not find it.
\<close>

theorem reprobe_forgets:
  "cm_SystemdJSON (mergeCapabilities (caps_current demo_caps) (demo_message [] [] [] False)) = False \<and>
   map_of (cm_RuntimeManagers (mergeCapabilities (caps_current demo_caps) (demo_message [] [] [] False))) ''python'' = Some [] \<and>
   map_of (cm_Runtimes (mergeCapabilities (mergeCapabilities (caps_current demo_caps) (demo_message [] [(''go'', [])] [] False))
     (demo_message [] [] [] False))) ''go'' = None"
  by (intro conjI) code_simp+

end
