(* ===== verification/Urls.thy ===== *)
theory Urls
  imports Prelude
begin

text \<open>
  What the code uses of \<open>net/url\<close>: a parsed URL, written back by \<open>URL.String\<close>. Parsing is an argument
  of its users. Host, user and fragment are as they are written; the path is escaped.
\<close>

record url =
  u_Scheme :: string
  u_Opaque :: string
  u_User :: "string option"
  u_Host :: string
  u_Path :: string
  u_OmitHost :: bool
  u_ForceQuery :: bool
  u_RawQuery :: string
  u_Fragment :: string

definition url_authority :: "url \<Rightarrow> string" where
  "url_authority u =
     (if u_Scheme u = [] \<and> u_Host u = [] \<and> u_User u = None then []
      else if u_OmitHost u \<and> u_Host u = [] \<and> u_User u = None then []
      else (if u_Host u = [] \<and> u_Path u = [] \<and> u_User u = None then [] else ''//'') @
        (case u_User u of None \<Rightarrow> [] | Some ui \<Rightarrow> ui @ ''@'') @ u_Host u)"

text \<open>The prefix \<open>./\<close> keeps a first segment with a colon from being read as a scheme.\<close>

definition url_String :: "url \<Rightarrow> string" where
  "url_String u =
     (let scheme = (if u_Scheme u = [] then [] else u_Scheme u @ '':'');
          path = u_Path u;
          slash = (if path \<noteq> [] \<and> hd path \<noteq> CHR ''/'' \<and> u_Host u \<noteq> [] then ''/'' else []);
          front = scheme @ url_authority u @ slash;
          dot = (if front = [] \<and> CHR '':'' \<in> set (takeWhile (\<lambda>c. c \<noteq> CHR ''/'') path) then ''./'' else [])
      in (if u_Opaque u \<noteq> [] then scheme @ u_Opaque u else front @ dot @ path) @
         (if u_ForceQuery u \<or> u_RawQuery u \<noteq> [] then ''?'' @ u_RawQuery u else []) @
         (if u_Fragment u \<noteq> [] then ''#'' @ u_Fragment u else []))"

text \<open>\<open>buildBaseURL\<close> of the polling client: the panel's HTTP root, empty if the URL does not parse.\<close>

definition http_scheme :: "string \<Rightarrow> string" where
  "http_scheme s = (if s = ''wss'' then ''https'' else if s = ''ws'' then ''http'' else s)"

definition buildBaseURL :: "(string \<Rightarrow> url option) \<Rightarrow> string \<Rightarrow> string" where
  "buildBaseURL parse raw =
     (if raw = [] then []
      else (case parse raw of
              None \<Rightarrow> []
            | Some u \<Rightarrow> trim_right_char CHR ''/''
                (url_String (u\<lparr>u_Scheme := http_scheme (u_Scheme u), u_Path := [], u_RawQuery := []\<rparr>))))"

text \<open>\<open>buildSocketIOURL\<close> of the WebSocket client; the query is encoded with its keys sorted.\<close>

definition buildSocketIOURL :: "(string \<Rightarrow> url option) \<Rightarrow> string \<Rightarrow> string + string" where
  "buildSocketIOURL parse raw =
     (if raw = [] then Inl ''server URL is empty''
      else (case parse raw of
              None \<Rightarrow> Inl ''invalid server URL''
            | Some u \<Rightarrow> Inr (url_String (u\<lparr>u_Path := ''/socket.io/'', u_RawQuery := ''EIO=4&transport=websocket''\<rparr>))))"

lemma base_url_plain:
  assumes "parse raw = Some u" "raw \<noteq> []" "u_Opaque u = []" "u_User u = None" "u_Host u \<noteq> []" "\<not> u_ForceQuery u"
    "u_Fragment u = []" "u_Scheme u = ''wss''" "last (u_Host u) \<noteq> CHR ''/''"
  shows "buildBaseURL parse raw = ''https://'' @ u_Host u"
proof -
  have "trim_right_char CHR ''/'' (''https://'' @ u_Host u) = ''https://'' @ u_Host u"
    using assms(5,9) by (cases "u_Host u" rule: rev_cases) (simp_all add: trim_right_char_def)
  then show ?thesis using assms
    by (simp add: buildBaseURL_def url_String_def url_authority_def http_scheme_def Let_def)
qed

end
