(* ===== verification/WsLoop.thy ===== *)
theory WsLoop
  imports WsClient Protocol Urls
begin

text \<open>
  The rest of \<open>internal/ws/client.go\<close>: connecting, from the URL over the handshake of \<open>WsClient\<close> to an
  authenticated link, and the read and ping loops that then run on it. A connection's reads are a
  list, in the order they arrive; a read that fails is \<open>None\<close>. Whether a write succeeds is a function
  of the text written.
\<close>

subsection \<open>Connecting\<close>







subsection \<open>Reading\<close>





subsection \<open>Deadlines\<close>

definition half :: "int \<Rightarrow> int" where
  "half x = (if 0 \<le> x then x div 2 else - (- x div 2))"

text \<open>How long the read loop waits for the next sign of life.\<close>

definition readWait :: "int \<Rightarrow> int" where
  "readWait interval =
     (let w = int64 (half (int64 (interval * 5)) + 5 * second) in if w < 30 * second then 30 * second else w)"

text \<open>
  What arrives, each with the time since what arrived before: a text message, or a pong or a ping of
  the WebSocket layer, which the library handles. A message and a pong reset the deadline, a ping does
  not; past it the read fails. \<open>quiet\<close> is the time since the last reset. When nothing more arrives, the
  last read fails too.
\<close>

datatype frame = Text string | Pong | Ping

fun timed_reads :: "int \<Rightarrow> int \<Rightarrow> (int \<times> frame) list \<Rightarrow> string option list" where
  "timed_reads w quiet [] = [None]"
| "timed_reads w quiet ((gap, f) # fs) =
     (if w < quiet + gap then [None]
      else (case f of
              Text m \<Rightarrow> Some m # timed_reads w 0 fs
            | Pong \<Rightarrow> timed_reads w 0 fs
            | Ping \<Rightarrow> timed_reads w (quiet + gap) fs))"

text \<open>The ping loop: per tick whether the client is connected and whether the ping could be written.\<close>

datatype ping_end = NoLongerConnected | PingFailed

definition ping_every :: "int \<Rightarrow> int" where
  "ping_every interval = (if interval \<le> 0 then 25 * second else interval)"

fun pingLoop :: "(bool \<times> bool) list \<Rightarrow> ping_end option" where
  "pingLoop [] = None"
| "pingLoop ((up, written) # tks) =
     (if \<not> up then Some NoLongerConnected else if \<not> written then Some PingFailed else pingLoop tks)"

subsection \<open>Messages\<close>

text \<open>What the transport's callers send; raw JSON inside a message is \<open>None\<close> where it does not marshal.\<close>

datatype ws_message =
    HeartbeatMessage message string string string     \<comment> \<open>metrics, permission level, service checks\<close>
  | ResultMessage message command_result
  | StreamMessage message string string               \<comment> \<open>channel, data\<close>
  | ErrorMessage message string string                \<comment> \<open>code, details\<close>

definition SendHeartbeat :: "(ws_message \<Rightarrow> string option) \<Rightarrow> string \<Rightarrow> int \<Rightarrow> string \<Rightarrow> string \<Rightarrow> string \<Rightarrow> ws_client \<Rightarrow>
    send_result \<times> ws_client" where
  "SendHeartbeat marshal nonce now_ms metrics level checks c =
     WsClient.Send (marshal (HeartbeatMessage (NewMessage TypeHeartbeat nonce now_ms) metrics level checks)) c"

definition SendCommandResult :: "(ws_message \<Rightarrow> string option) \<Rightarrow> string \<Rightarrow> int \<Rightarrow> string \<Rightarrow> bool \<Rightarrow> string option option \<Rightarrow>
    string \<Rightarrow> int \<Rightarrow> ws_client \<Rightarrow> send_result \<times> ws_client" where
  "SendCommandResult marshal nonce now_ms commandID success data errMsg ms c =
     (case data of
        Some None \<Rightarrow> (MarshalFailed, c)
      | _ \<Rightarrow>
          WsClient.Send (marshal (ResultMessage (NewMessage TypeCommandResult nonce now_ms)
            \<lparr>cr_command_id = commandID, cr_success = success,
             cr_data = (case data of Some (Some d) \<Rightarrow> d | _ \<Rightarrow> []), cr_error = errMsg, cr_duration = ms\<rparr>)) c)"

definition SendStream :: "(ws_message \<Rightarrow> string option) \<Rightarrow> string \<Rightarrow> int \<Rightarrow> string \<Rightarrow> string option \<Rightarrow> ws_client \<Rightarrow>
    send_result \<times> ws_client" where
  "SendStream marshal nonce now_ms channel data c =
     (case data of
        None \<Rightarrow> (MarshalFailed, c)
      | Some d \<Rightarrow> WsClient.Send (marshal (StreamMessage (NewMessage TypeStream nonce now_ms) channel d)) c)"

definition SendError :: "(ws_message \<Rightarrow> string option) \<Rightarrow> string \<Rightarrow> int \<Rightarrow> string \<Rightarrow> string \<Rightarrow> ws_client \<Rightarrow>
    send_result \<times> ws_client" where
  "SendError marshal nonce now_ms code details c =
     WsClient.Send (marshal (ErrorMessage (NewMessage TypeError nonce now_ms) code details)) c"

definition Close :: "ws_client \<Rightarrow> ws_client" where
  "Close c = c\<lparr>w_phase := Disconnected, w_connected := False\<rparr>"

subsection \<open>No event before authentication\<close>














subsection \<open>Deadlines\<close>

lemma half_int64:
  assumes "0 \<le> x" "x < 2 ^ 63"
  shows "0 \<le> half x" "half x < 2 ^ 62"
  using assms by (simp_all add: half_def)

lemma readWait_exact:
  assumes "0 \<le> interval" "interval \<le> 1000000000000000000"
  shows "readWait interval = max (30 * second) (interval * 5 div 2 + 5 * second)"
proof -
  have "int64 (interval * 5) = interval * 5" by (rule int64_id) (use assms in simp_all)
  moreover have "int64 (interval * 5 div 2 + 5 * second) = interval * 5 div 2 + 5 * second"
    by (rule int64_id) (use assms in \<open>simp_all add: second_def\<close>)
  ultimately show ?thesis using assms by (simp add: readWait_def half_def Let_def max_def)
qed

lemma readWait_least: "30 * second \<le> readWait interval"
  by (simp add: readWait_def Let_def)

text \<open>
  As long as no gap exceeds the deadline and no ping of the WebSocket layer intervenes, every message
  is read and in order, pongs counting as signs of life, and the first longer gap ends the reads; for
  an interval that does not overflow the deadline is two and a half of the panel's ping intervals and
  five seconds, at least 30 seconds.
\<close>

lemma timed_reads_alive:
  "list_all (\<lambda>(gap, f). gap \<le> w \<and> f \<noteq> Ping) fs \<Longrightarrow> w < gap \<Longrightarrow>
   timed_reads w 0 (fs @ (gap, f) # later) =
     map Some (concat (map (\<lambda>(gap, f). case f of Text m \<Rightarrow> [m] | _ \<Rightarrow> []) fs)) @ [None]"
  by (induction fs) (auto split: frame.split)

text \<open>
  Where the announced interval is so long that its fivefold overflows, the deadline falls back to 30
  seconds, and a link on which the panel keeps its word is cut between two pings.
\<close>

lemma readWait_overflow: "readWait (2305843009213 * 1000000) = 30 * second"
  by (simp add: readWait_def half_def int64_def second_def Let_def)

end
