(* ===== verification/Hostmetrics.thy ===== *)
theory Hostmetrics
  imports Complex_Main Prelude "HOL-Library.Word"
begin

text \<open>
  The metrics collector, \<open>internal/metrics/collector.go\<close>. What the host answers is a record of the outcome
  of each query, \<open>None\<close> where it fails; counters are 64 bit words, so that a difference wraps as it does
  in the code, and floating point numbers are exact rationals. Times are in nanoseconds.
\<close>

type_synonym u64 = "64 word"

record usage =
  us_Total :: u64
  us_Used :: u64
  us_Percent :: rat

record readings =
  hr_cpu :: "rat list option"
  hr_percore :: "rat list option"
  hr_memory :: "usage option"
  hr_swap :: "usage option"
  hr_disk :: "usage option"
  hr_network :: "(u64 \<times> u64) list option"   \<comment> \<open>bytes received and sent, summed over the interfaces\<close>
  hr_uptime :: "u64 option"

record Collector =
  co_IncludePerCPU :: bool
  co_prevRx :: u64
  co_prevTx :: u64
  co_prevTime :: int

record SystemMetrics =
  sm_Timestamp :: int
  sm_CPUPercent :: rat
  sm_CPUPerCore :: "rat list option"
  sm_Memory :: usage
  sm_Swap :: usage
  sm_Disk :: usage
  sm_NetworkRx :: u64
  sm_NetworkTx :: u64
  sm_NetworkRxRate :: rat
  sm_NetworkTxRate :: rat
  sm_Uptime :: u64
  sm_LoadAvg1 :: rat
  sm_LoadAvg5 :: rat
  sm_LoadAvg15 :: rat

definition NewCollector :: "bool \<Rightarrow> int \<Rightarrow> Collector" where
  "NewCollector per_cpu now = \<lparr>co_IncludePerCPU = per_cpu, co_prevRx = 0, co_prevTx = 0, co_prevTime = now\<rparr>"

definition no_usage :: usage where "no_usage = \<lparr>us_Total = 0, us_Used = 0, us_Percent = 0\<rparr>"

definition or_none :: "usage option \<Rightarrow> usage" where
  "or_none u = (case u of None \<Rightarrow> no_usage | Some x \<Rightarrow> x)"

definition in_seconds :: "int \<Rightarrow> rat" where "in_seconds ns = of_int ns / 1000000000"

text \<open>\<open>float64(cur - prev) / elapsed\<close>: the difference is taken on the words.\<close>

definition rate :: "u64 \<Rightarrow> u64 \<Rightarrow> int \<Rightarrow> rat" where
  "rate cur prev elapsed = of_nat (unat (cur - prev)) / in_seconds elapsed"

definition network_rates :: "int \<Rightarrow> Collector \<Rightarrow> u64 \<times> u64 \<Rightarrow> rat \<times> rat" where
  "network_rates now c = (\<lambda>(rx, tx).
     let elapsed = now - co_prevTime c in
     if 0 < elapsed \<and> 0 < co_prevRx c then (rate rx (co_prevRx c) elapsed, rate tx (co_prevTx c) elapsed) else (0, 0))"

text \<open>The load averages are never set; the collector never fails.\<close>

definition Collect :: "int \<Rightarrow> readings \<Rightarrow> Collector \<Rightarrow> SystemMetrics \<times> Collector" where
  "Collect now h c =
     (let net = (case hr_network h of Some (x # _) \<Rightarrow> Some x | _ \<Rightarrow> None);
          (rx, tx) = (case net of None \<Rightarrow> (0, 0) | Some x \<Rightarrow> x);
          (rxr, txr) = (case net of None \<Rightarrow> (0, 0) | Some x \<Rightarrow> network_rates now c x);
          c = (case net of None \<Rightarrow> c | Some (rx, tx) \<Rightarrow> c\<lparr>co_prevRx := rx, co_prevTx := tx\<rparr>)
      in (\<lparr>sm_Timestamp = now div 1000000,
           sm_CPUPercent = (case hr_cpu h of Some (p # _) \<Rightarrow> p | _ \<Rightarrow> 0),
           sm_CPUPerCore = (if co_IncludePerCPU c then hr_percore h else None),
           sm_Memory = or_none (hr_memory h), sm_Swap = or_none (hr_swap h), sm_Disk = or_none (hr_disk h),
           sm_NetworkRx = rx, sm_NetworkTx = tx, sm_NetworkRxRate = rxr, sm_NetworkTxRate = txr,
           sm_Uptime = (case hr_uptime h of None \<Rightarrow> 0 | Some u \<Rightarrow> u),
           sm_LoadAvg1 = 0, sm_LoadAvg5 = 0, sm_LoadAvg15 = 0\<rparr>, c\<lparr>co_prevTime := now\<rparr>))"

subsection \<open>System information\<close>

record host_readings =
  hi_goos :: string
  hi_goarch :: string
  hi_hostname :: "string option"
  hi_info :: "(string \<times> string \<times> string) option"   \<comment> \<open>platform, its version, the kernel's\<close>
  hi_cpu :: "(string \<times> int) list option"             \<comment> \<open>model name and cores\<close>
  hi_threads :: "int option"
  hi_cores :: "int option"
  hi_numcpu :: int
  hi_memory :: "u64 option"
  hi_disk :: "u64 option"

record SystemInfo =
  si_Hostname :: string
  si_OS :: string
  si_Platform :: string
  si_PlatformVersion :: string
  si_KernelVersion :: string
  si_Architecture :: string
  si_CPUModel :: string
  si_CPUCores :: int
  si_CPUThreads :: int
  si_TotalMemory :: u64
  si_TotalDisk :: u64

definition cpu_cores :: "host_readings \<Rightarrow> int" where
  "cpu_cores h =
     (let n = (case hi_cores h of
                 Some n \<Rightarrow> n
               | None \<Rightarrow> (case hi_cpu h of Some ((_, n) # _) \<Rightarrow> n | _ \<Rightarrow> 0))
      in if n = 0 then hi_numcpu h else n)"

definition cpu_threads :: "host_readings \<Rightarrow> int" where
  "cpu_threads h =
     (let n = (case hi_threads h of Some n \<Rightarrow> n | None \<Rightarrow> 0) in if n = 0 then hi_numcpu h else n)"

definition GetSystemInfo :: "host_readings \<Rightarrow> SystemInfo" where
  "GetSystemInfo h =
     (let (platform, version, kernel) = (case hi_info h of None \<Rightarrow> ([], [], []) | Some x \<Rightarrow> x) in
      \<lparr>si_Hostname = (case hi_hostname h of None \<Rightarrow> [] | Some n \<Rightarrow> n), si_OS = hi_goos h,
       si_Platform = platform, si_PlatformVersion = version, si_KernelVersion = kernel, si_Architecture = hi_goarch h,
       si_CPUModel = (case hi_cpu h of Some ((m, _) # _) \<Rightarrow> m | _ \<Rightarrow> []),
       si_CPUCores = cpu_cores h, si_CPUThreads = cpu_threads h,
       si_TotalMemory = (case hi_memory h of None \<Rightarrow> 0 | Some m \<Rightarrow> m),
       si_TotalDisk = (case hi_disk h of None \<Rightarrow> 0 | Some d \<Rightarrow> d)\<rparr>)"

subsection \<open>Processes\<close>

record process =
  pc_pid :: int
  pc_name :: "string option"
  pc_username :: "string option"
  pc_cpu :: "rat option"
  pc_memory :: "rat option"
  pc_rss :: "u64 option"
  pc_status :: "string list option"
  pc_created :: "int option"
  pc_cmdline :: "string option"

record ProcessInfo =
  pi_PID :: int
  pi_Name :: string
  pi_Username :: string
  pi_CPUPercent :: rat
  pi_MemPercent :: rat
  pi_MemRSS :: u64
  pi_Status :: string
  pi_CreateTime :: int
  pi_Cmdline :: string

definition process_info :: "process \<Rightarrow> ProcessInfo" where
  "process_info p =
     \<lparr>pi_PID = pc_pid p, pi_Name = (case pc_name p of None \<Rightarrow> [] | Some s \<Rightarrow> s),
      pi_Username = (case pc_username p of None \<Rightarrow> [] | Some s \<Rightarrow> s),
      pi_CPUPercent = (case pc_cpu p of None \<Rightarrow> 0 | Some x \<Rightarrow> x),
      pi_MemPercent = (case pc_memory p of None \<Rightarrow> 0 | Some x \<Rightarrow> x),
      pi_MemRSS = (case pc_rss p of None \<Rightarrow> 0 | Some x \<Rightarrow> x),
      pi_Status = (case pc_status p of Some (s # _) \<Rightarrow> s | _ \<Rightarrow> []),
      pi_CreateTime = (case pc_created p of None \<Rightarrow> 0 | Some x \<Rightarrow> x),
      pi_Cmdline = (case pc_cmdline p of None \<Rightarrow> [] | Some s \<Rightarrow> s)\<rparr>"

definition ListProcesses :: "process list option \<Rightarrow> ProcessInfo list option" where
  "ListProcesses ps = map_option (map process_info) ps"

subsection \<open>Rates\<close>

fun collect_all :: "(int \<times> readings) list \<Rightarrow> Collector \<Rightarrow> SystemMetrics list \<times> Collector" where
  "collect_all [] c = ([], c)"
| "collect_all ((now, h) # rest) c =
     (case Collect now h c of (m, c) \<Rightarrow> (case collect_all rest c of (ms, c) \<Rightarrow> (m # ms, c)))"

lemma unat_diff:
  "unat (cur - prev) = (if unat prev \<le> unat cur then unat cur - unat prev else 2 ^ 64 - (unat prev - unat cur))" for cur prev :: u64
  using unsigned_less [of prev] by (auto simp: unat_sub_if_size word_size)

lemma Collect_prev:
  "co_prevTime (snd (Collect now h c)) = now"
  "hr_network h = Some ((rx, tx) # more_if) \<Longrightarrow> co_prevRx (snd (Collect now h c)) = rx \<and> co_prevTx (snd (Collect now h c)) = tx"
  by (simp_all add: Collect_def Let_def split: option.split prod.split list.split)

text \<open>
  Two collections in a row: the rates of the second are the growth of the counters over the time
  between, whatever other queries failed. And where a counter went back, as it does when an interface
  goes away, the difference wraps: the rate reported exceeds \<open>2^63\<close> bytes over that time as soon as less
  than half the range was lost.
\<close>

theorem rates_exact_or_wrap:
  assumes "hr_network h1 = Some ((rx1, tx1) # more1)" "hr_network h2 = Some ((rx2, tx2) # more2)" "t1 < t2" "0 < rx1"
  shows "let m = fst (Collect t2 h2 (snd (Collect t1 h1 c))) in
     (rx1 \<le> rx2 \<longrightarrow> sm_NetworkRxRate m = of_int (int (unat rx2) - int (unat rx1)) / in_seconds (t2 - t1)) \<and>
     (tx1 \<le> tx2 \<longrightarrow> sm_NetworkTxRate m = of_int (int (unat tx2) - int (unat tx1)) / in_seconds (t2 - t1)) \<and>
     (rx2 < rx1 \<and> unat rx1 - unat rx2 < 2 ^ 63 \<longrightarrow> 2 ^ 63 / in_seconds (t2 - t1) < sm_NetworkRxRate m)"
proof -
  let ?c = "snd (Collect t1 h1 c)"
  have p: "co_prevTime ?c = t1" "co_prevRx ?c = rx1" "co_prevTx ?c = tx1"
    using Collect_prev(1) [of t1 h1 c] Collect_prev(2) [OF assms(1), of t1 c] by auto
  have m: "sm_NetworkRxRate (fst (Collect t2 h2 ?c)) = rate rx2 rx1 (t2 - t1)"
      "sm_NetworkTxRate (fst (Collect t2 h2 ?c)) = rate tx2 tx1 (t2 - t1)"
    using assms(2,3,4) p by (simp_all add: Collect_def [of t2] network_rates_def Let_def split: prod.split)
  have exact: "rate x y d = of_int (int (unat x) - int (unat y)) / in_seconds d" if "y \<le> x" for x y :: u64 and d
    using that by (simp add: rate_def unat_diff word_le_nat_alt of_nat_diff)
  have s: "0 < in_seconds (t2 - t1)" using assms(3) by (simp add: in_seconds_def)
  have wrap: "2 ^ 63 / in_seconds (t2 - t1) < rate rx2 rx1 (t2 - t1)" if w: "rx2 < rx1" "unat rx1 - unat rx2 < 2 ^ 63"
  proof -
    have "2 ^ 63 < unat (rx2 - rx1)" using w by (simp add: unat_diff word_less_nat_alt)
    then have "(of_nat (2 ^ 63) :: rat) < of_nat (unat (rx2 - rx1))" by (simp only: of_nat_less_iff)
    then show ?thesis using s by (simp add: rate_def divide_strict_right_mono)
  qed
  show ?thesis unfolding Let_def m using exact wrap by blast
qed

definition demo_readings :: "u64 \<Rightarrow> readings" where
  "demo_readings rx =
     \<lparr>hr_cpu = None, hr_percore = None, hr_memory = None, hr_swap = None, hr_disk = None, hr_network = Some [(rx, 0)], hr_uptime = None\<rparr>"

theorem rates_exact_or_wrap_witness:
  "sm_NetworkRxRate (fst (Collect 2000000000 (demo_readings 3000) (snd (Collect 0 (demo_readings 1000) (NewCollector False 0))))) = 1000 \<and>
   2 ^ 62 < sm_NetworkRxRate (fst (Collect 2000000000 (demo_readings 999) (snd (Collect 0 (demo_readings 1000) (NewCollector False 0)))))"
proof -
  have n: "hr_network (demo_readings x) = Some [(x, 0)]" for x by (simp add: demo_readings_def)
  from rates_exact_or_wrap [OF n [of 1000] n [of 3000], of 0 2000000000 "NewCollector False 0"]
    rates_exact_or_wrap [OF n [of 1000] n [of 999], of 0 2000000000 "NewCollector False 0"]
  show ?thesis by (simp add: Let_def in_seconds_def)
qed

end
