(* ===== verification/Console.thy ===== *)
theory Console
  imports Config Hostmetrics Sampler Events Auth
begin

text \<open>
  What the agent tells its own console: the methods of \<open>internal/agent/agent.go\<close> behind the local
  interface, its log file (\<open>internal/logger/logger.go\<close>), and the connection watcher with the messages
  it sends. The state they read is their arguments; a metrics collector that is off is \<open>None\<close>.
\<close>

subsection \<open>Status and metrics\<close>

record AgentStatus =
  as_Running :: bool
  as_Connected :: bool
  as_Registered :: bool
  as_AgentID :: string
  as_AgentName :: string
  as_ServerURL :: string
  as_Uptime :: int
  as_Version :: string
  as_Transport :: string
  as_PermissionLevel :: string
  as_CPUPercent :: rat
  as_MemPercent :: rat
  as_DiskPercent :: rat

text \<open>The reporter, in monitor mode, says whether it is connected.\<close>

definition GetStatus :: "Config \<Rightarrow> string \<Rightarrow> bool \<Rightarrow> string \<Rightarrow> bool option \<Rightarrow> int \<Rightarrow> string \<Rightarrow> SystemMetrics option \<Rightarrow> AgentStatus" where
  "GetStatus cfg level ws_up mode reporter_up since_start version sample =
     \<lparr>as_Running = True, as_Connected = (case reporter_up of None \<Rightarrow> ws_up | Some up \<Rightarrow> up),
      as_Registered = (agent_ID (Agent cfg) \<noteq> []), as_AgentID = agent_ID (Agent cfg), as_AgentName = agent_Name (Agent cfg),
      as_ServerURL = server_URL (Server cfg), as_Uptime = since_start div 1000000000, as_Version = version,
      as_Transport = (case reporter_up of None \<Rightarrow> mode | Some _ \<Rightarrow> ''report''), as_PermissionLevel = level,
      as_CPUPercent = (case sample of None \<Rightarrow> 0 | Some m \<Rightarrow> sm_CPUPercent m),
      as_MemPercent = (case sample of None \<Rightarrow> 0 | Some m \<Rightarrow> us_Percent (sm_Memory m)),
      as_DiskPercent = (case sample of None \<Rightarrow> 0 | Some m \<Rightarrow> us_Percent (sm_Disk m))\<rparr>"

record DetailedMetrics =
  dm_CPUUsage :: rat
  dm_PerCPU :: "rat list option"
  dm_Cores :: nat
  dm_Memory :: usage
  dm_MemoryFree :: u64
  dm_Disk :: usage
  dm_DiskFree :: u64
  dm_BytesSent :: u64
  dm_BytesRecv :: u64
  dm_PacketsSent :: u64
  dm_PacketsRecv :: u64
  dm_Timestamp :: int

definition GetDetailedMetrics :: "int \<Rightarrow> SystemMetrics option \<Rightarrow> DetailedMetrics option" where
  "GetDetailedMetrics now_ms sample =
     map_option (\<lambda>m.
       \<lparr>dm_CPUUsage = sm_CPUPercent m, dm_PerCPU = sm_CPUPerCore m,
        dm_Cores = (case sm_CPUPerCore m of None \<Rightarrow> 0 | Some cs \<Rightarrow> length cs),
        dm_Memory = sm_Memory m, dm_MemoryFree = us_Total (sm_Memory m) - us_Used (sm_Memory m),
        dm_Disk = sm_Disk m, dm_DiskFree = us_Total (sm_Disk m) - us_Used (sm_Disk m),
        dm_BytesSent = sm_NetworkTx m, dm_BytesRecv = sm_NetworkRx m, dm_PacketsSent = 0, dm_PacketsRecv = 0,
        dm_Timestamp = now_ms\<rparr>) sample"

definition GetMetricsHistory :: "sampler option \<Rightarrow> sample list" where
  "GetMetricsHistory s = (case s of None \<Rightarrow> [] | Some sp \<Rightarrow> Sampler.snapshot sp)"

definition GetEvents :: "int \<Rightarrow> store option \<Rightarrow> Events.event list" where
  "GetEvents since s = (case s of None \<Rightarrow> [] | Some st \<Rightarrow> Snapshot since st)"

record ConnectionInfo =
  ci_Connected :: bool
  ci_ServerURL :: string
  ci_LastConnected :: int
  ci_SessionExpires :: int
  ci_ReconnectCount :: int

text \<open>
  When the agent last connected and how often it reconnected are fields that nothing assigns: they
  have their zero values, as arguments here.
\<close>

definition GetConnectionInfo :: "Config \<Rightarrow> bool \<Rightarrow> int option \<Rightarrow> int \<Rightarrow> session_token option \<Rightarrow> ConnectionInfo" where
  "GetConnectionInfo cfg up lastConnected reconnectCount session =
     \<lparr>ci_Connected = up, ci_ServerURL = server_URL (Server cfg),
      ci_LastConnected = (case lastConnected of None \<Rightarrow> 0 | Some t \<Rightarrow> t div 1000000),
      ci_SessionExpires = (case session of None \<Rightarrow> 0 | Some s \<Rightarrow> tok_ExpiresAt s div 1000000),
      ci_ReconnectCount = reconnectCount\<rparr>"

subsection \<open>The log\<close>

text \<open>The log file's content, \<open>None\<close> if it cannot be opened; the scanner's error is not looked at.\<close>

definition GetRecentLogs :: "Config \<Rightarrow> string option \<Rightarrow> nat \<Rightarrow> string list" where
  "GetRecentLogs cfg content lines =
     (if log_File (Logging cfg) = [] then []
      else (case content of
              None \<Rightarrow> []
            | Some s \<Rightarrow>
                let ls = scan_lines s in if length ls \<le> lines then ls else drop (length ls - lines) ls))"

text \<open>
  A logger, and how it is made: whether the directory could be made and the file opened, and the
  mode of a file that was there. The permissions beyond \<open>0600\<close> are taken from it.
\<close>

record log_setup =
  lg_level :: string
  lg_rotator :: bool
  lg_mode :: nat
  lg_warnings :: nat

definition slog_level :: "string \<Rightarrow> string" where
  "slog_level s = (if s \<in> {''debug'', ''warn'', ''error''} then s else ''info'')"

definition New_logger :: "host \<Rightarrow> LoggingConfig \<Rightarrow> bool \<Rightarrow> bool \<Rightarrow> nat option \<Rightarrow> log_setup" where
  "New_logger h cfg mkdir_ok open_ok mode =
     (let lvl = slog_level (log_Level cfg);
          m = (case mode of None \<Rightarrow> 384 | Some m \<Rightarrow> m) in
      if log_File cfg = [] then \<lparr>lg_level = lvl, lg_rotator = False, lg_mode = m, lg_warnings = 0\<rparr>
      else if \<not> mkdir_ok then \<lparr>lg_level = lvl, lg_rotator = False, lg_mode = m, lg_warnings = 1\<rparr>
      else if \<not> open_ok then \<lparr>lg_level = lvl, lg_rotator = False, lg_mode = m, lg_warnings = 1\<rparr>
      else \<lparr>lg_level = lvl, lg_rotator = True,
            lg_mode = (if \<not> on_windows h \<and> (\<exists>b < 12. bit m b \<and> b \<noteq> 7 \<and> b \<noteq> 8) then 384 else m), lg_warnings = 0\<rparr>)"

definition Rotate :: "log_setup \<Rightarrow> string option \<Rightarrow> string option" where
  "Rotate lg outcome = (if lg_rotator lg then outcome else None)"

text \<open>\<open>ClearLogs\<close>: the error of the rotation, or the log of the action; \<open>None\<close> inside is a panic of the log.\<close>

definition ClearLogs :: "log_setup \<Rightarrow> string option \<Rightarrow> int \<Rightarrow> bool \<Rightarrow> store option \<Rightarrow> string + store option option" where
  "ClearLogs lg outcome now_ms write_ok st =
     (case Rotate lg outcome of
        Some e \<Rightarrow> Inl e
      | None \<Rightarrow>
          Inr (case st of
                 None \<Rightarrow> Some None
               | Some s \<Rightarrow> map_option (\<lambda>(_, s'). Some s') (Append ''info'' ''info'' ''Logs cleared from console'' [] now_ms write_ok s)))"

subsection \<open>The connection watcher\<close>

datatype watch_event =
    TransitionTick bool     \<comment> \<open>what the transport says then\<close>
  | ResendTick bool

datatype watch_out = LogConnected | LogLost | PushCapabilities | PushSystemInfo

record watcher =
  wt_prev :: bool
  wt_first :: bool
  wt_resends :: nat
  wt_period :: int

definition new_watcher :: watcher where
  "new_watcher = \<lparr>wt_prev = False, wt_first = True, wt_resends = 0, wt_period = 5000000000\<rparr>"

fun watch_step :: "watch_event \<Rightarrow> watcher \<Rightarrow> watch_out list \<times> watcher" where
  "watch_step (ResendTick up) w =
     (let n = Suc (wt_resends w)
      in (if up then [PushCapabilities, PushSystemInfo] else [],
          w\<lparr>wt_resends := n, wt_period := (if n = 12 then 60000000000 else wt_period w)\<rparr>))"
| "watch_step (TransitionTick now) w =
     (if now = wt_prev w \<and> \<not> wt_first w then ([], w)
      else (if now then [LogConnected, PushCapabilities, PushSystemInfo] else if wt_prev w then [LogLost] else [],
            w\<lparr>wt_first := False, wt_prev := now\<rparr>))"

fun connectionWatcher :: "watch_event list \<Rightarrow> watcher \<Rightarrow> watch_out list \<times> watcher" where
  "connectionWatcher [] w = ([], w)"
| "connectionWatcher (e # es) w =
     (case watch_step e w of (out, w) \<Rightarrow> (case connectionWatcher es w of (outs, w) \<Rightarrow> (out @ outs, w)))"

text \<open>The changes of what is sampled, starting from disconnected; and how often it is up at a resend.\<close>

fun edges :: "bool \<Rightarrow> watch_event list \<Rightarrow> watch_out list" where
  "edges p [] = []"
| "edges p (ResendTick up # es) = edges p es"
| "edges p (TransitionTick now # es) =
     (if now = p then [] else [if now then LogConnected else LogLost]) @ edges now es"

definition resends :: "watch_event list \<Rightarrow> nat" where
  "resends es = length (filter (\<lambda>e. e = ResendTick True) es)"

definition is_log :: "watch_out \<Rightarrow> bool" where
  "is_log out \<longleftrightarrow> out = LogConnected \<or> out = LogLost"

definition pushes :: "watch_out list \<Rightarrow> nat" where
  "pushes out = length (filter (\<lambda>x. x = PushCapabilities) out)"

definition resend_ticks :: "watch_event list \<Rightarrow> nat" where
  "resend_ticks es = length (filter (\<lambda>e. e = ResendTick True \<or> e = ResendTick False) es)"

lemma counts [simp]:
  "pushes [] = 0" "pushes (x # xs) = (if x = PushCapabilities then 1 else 0) + pushes xs" "pushes (xs @ ys) = pushes xs + pushes ys"
  "resends [] = 0" "resends (e # es) = (if e = ResendTick True then 1 else 0) + resends es"
  "resend_ticks [] = 0" "resend_ticks (ResendTick up # es) = Suc (resend_ticks es)"
  "resend_ticks (TransitionTick up # es) = resend_ticks es"
  by (auto simp: pushes_def resends_def resend_ticks_def)

lemma is_log_simps [simp]:
  "is_log LogConnected" "is_log LogLost" "\<not> is_log PushCapabilities" "\<not> is_log PushSystemInfo"
  by (simp_all add: is_log_def)

lemma connectionWatcher_Cons:
  "connectionWatcher (e # es) w =
     (fst (watch_step e w) @ fst (connectionWatcher es (snd (watch_step e w))), snd (connectionWatcher es (snd (watch_step e w))))"
  by (simp add: case_prod_beta)

definition watcher_ok :: "watcher \<Rightarrow> bool" where
  "watcher_ok w \<longleftrightarrow> (wt_first w \<longrightarrow> \<not> wt_prev w) \<and> wt_period w = (if wt_resends w < 12 then 5000000000 else 60000000000)"

lemma watch_step_ok:
  assumes "watcher_ok w"
  shows "watcher_ok (snd (watch_step e w))" "wt_resends (snd (watch_step e w)) = wt_resends w + resend_ticks [e]"
    "filter is_log (fst (watch_step e w)) @ edges (wt_prev (snd (watch_step e w))) es = edges (wt_prev w) (e # es)"
    "pushes (fst (watch_step e w)) = length (filter (\<lambda>x. x = LogConnected) (edges (wt_prev w) [e])) + resends [e]"
proof -
  show "watcher_ok (snd (watch_step e w))" "wt_resends (snd (watch_step e w)) = wt_resends w + resend_ticks [e]"
    using assms by (cases e; auto simp: watcher_ok_def Let_def)+
  show "filter is_log (fst (watch_step e w)) @ edges (wt_prev (snd (watch_step e w))) es = edges (wt_prev w) (e # es)"
    using assms by (cases e) (auto simp: watcher_ok_def Let_def)
  show "pushes (fst (watch_step e w)) = length (filter (\<lambda>x. x = LogConnected) (edges (wt_prev w) [e])) + resends [e]"
    using assms by (cases e) (auto simp: watcher_ok_def Let_def)
qed

lemma edges_Cons: "edges p (e # es) = edges p [e] @ edges (case e of TransitionTick now \<Rightarrow> now | ResendTick up \<Rightarrow> p) es"
  by (cases e) simp_all

lemma watch_step_prev: "wt_prev (snd (watch_step e w)) = (case e of TransitionTick now \<Rightarrow> now | ResendTick up \<Rightarrow> wt_prev w)"
  by (cases e) (auto simp: Let_def)

lemma connectionWatcher_ok:
  "watcher_ok w \<Longrightarrow>
     filter is_log (fst (connectionWatcher es w)) = edges (wt_prev w) es \<and>
     pushes (fst (connectionWatcher es w)) = length (filter (\<lambda>x. x = LogConnected) (edges (wt_prev w) es)) + resends es \<and>
     watcher_ok (snd (connectionWatcher es w)) \<and> wt_resends (snd (connectionWatcher es w)) = wt_resends w + resend_ticks es"
proof (induction es arbitrary: w)
  case (Cons e es)
  note step = watch_step_ok [OF Cons.prems, of e]
  have ticks: "resend_ticks (e # es) = resend_ticks [e] + resend_ticks es" by (cases e) simp_all
  have resends: "resends (e # es) = resends [e] + resends es" by simp
  show ?case
    using Cons.IH [OF step(1)] step(2,4) step(3) [of es] edges_Cons [of "wt_prev w" e es] watch_step_prev [of e w]
    unfolding connectionWatcher_Cons fst_conv snd_conv filter_append counts(3) ticks resends by simp
qed simp

text \<open>
  C39. The activity log shows exactly the changes of the sampled connectivity, each once, in order, and
  never a loss before a first connection; the capabilities are pushed at every change to connected
  and at every resend tick that finds the link up; and the resend ticks come every five seconds for
  the first twelve and every minute from then on.
\<close>

theorem watcher_logs_edges:
  "let (out, w) = connectionWatcher es new_watcher in
     filter is_log out = edges False es \<and>
     pushes out = length (filter (\<lambda>x. x = LogConnected) (edges False es)) + resends es \<and>
     wt_period w = (if resend_ticks es < 12 then 5000000000 else 60000000000)"
proof -
  have "watcher_ok new_watcher" by (simp add: watcher_ok_def new_watcher_def)
  from connectionWatcher_ok [OF this, of es] show ?thesis
    by (simp add: new_watcher_def watcher_ok_def case_prod_beta)
qed

end
