(* ===== verification/Loops.thy ===== *)
theory Loops
  imports Console Report
begin

text \<open>
  The loops that \<open>Run\<close> starts in \<open>internal/agent/agent.go\<close> and what they send: the heartbeat, the system
  information, the discovery responder, and what \<open>Run\<close> writes to the activity log when it starts and
  ends. What Docker and the host answer are arguments.
\<close>

subsection \<open>System information\<close>

record SystemInfoMessage =
  sy_Hostname :: string
  sy_OS :: string
  sy_OSVersion :: string
  sy_Platform :: string
  sy_Architecture :: string
  sy_CPUModel :: string
  sy_CPUCores :: int
  sy_TotalMemory :: u64
  sy_TotalDisk :: u64
  sy_DockerVersion :: string
  sy_AgentVersion :: string
  sy_InstallDir :: string
  sy_ConfigDir :: string

definition installDir :: "string option \<Rightarrow> string" where
  "installDir exe = (case exe of None \<Rightarrow> [] | Some e \<Rightarrow> if e = [] then [] else Dir e)"

definition configDir :: "Config.host \<Rightarrow> Config \<Rightarrow> string" where
  "configDir h cfg = (if SourcePath cfg \<noteq> [] then Dir (SourcePath cfg) else Dir (DefaultConfigPath h))"

text \<open>Docker's version: \<open>None\<close> without a client, inside it the outcome of the query.\<close>

definition dockerVersion :: "string option option \<Rightarrow> string" where
  "dockerVersion docker = (case docker of Some (Some v) \<Rightarrow> v | _ \<Rightarrow> [])"

text \<open>The threads are sent as the cores; nothing is sent when metrics are off.\<close>

definition sendSystemInfo :: "Config.host \<Rightarrow> Config \<Rightarrow> string option \<Rightarrow> string option option \<Rightarrow> string \<Rightarrow> host_readings option \<Rightarrow>
    SystemInfoMessage option" where
  "sendSystemInfo h cfg exe docker version hr =
     map_option (\<lambda>r. let info = GetSystemInfo r in
       \<lparr>sy_Hostname = si_Hostname info, sy_OS = si_OS info, sy_OSVersion = si_PlatformVersion info,
        sy_Platform = si_Platform info, sy_Architecture = si_Architecture info, sy_CPUModel = si_CPUModel info,
        sy_CPUCores = si_CPUThreads info, sy_TotalMemory = si_TotalMemory info, sy_TotalDisk = si_TotalDisk info,
        sy_DockerVersion = dockerVersion docker, sy_AgentVersion = version,
        sy_InstallDir = installDir exe, sy_ConfigDir = configDir h cfg\<rparr>) hr"

subsection \<open>The heartbeat\<close>

record HeartbeatMetrics =
  hb_CPUPercent :: rat
  hb_MemoryPercent :: rat
  hb_DiskPercent :: rat
  hb_ContainerCount :: int
  hb_ContainerRunning :: int
  hb_ServiceChecks :: "service_check list"
  hb_PermissionLevel :: string

text \<open>One tick: nothing without a connection. Containers are \<open>None\<close> if Docker is off or does not answer.\<close>

definition heartbeat :: "env \<Rightarrow> network \<Rightarrow> monitor_check list \<Rightarrow> string \<Rightarrow> int \<Rightarrow> bool \<Rightarrow> SystemMetrics option \<Rightarrow> (int \<times> int) option \<Rightarrow>
    ('e, HeartbeatMetrics option) act" where
  "heartbeat env nt cks level now up sample containers =
     (if \<not> up then ret None
      else (let (cpu, mem, disk) = (case sample of None \<Rightarrow> (0, 0, 0)
              | Some m \<Rightarrow> (sm_CPUPercent m, us_Percent (sm_Memory m), us_Percent (sm_Disk m)))
        in abind (run_checks env nt now cks \<lparr>res_CPU = cpu, res_Memory = mem, res_Disk = disk\<rparr>) (\<lambda>checks.
          ret (Some \<lparr>hb_CPUPercent = cpu, hb_MemoryPercent = mem, hb_DiskPercent = disk,
            hb_ContainerCount = (case containers of None \<Rightarrow> 0 | Some (n, _) \<Rightarrow> n),
            hb_ContainerRunning = (case containers of None \<Rightarrow> 0 | Some (_, r) \<Rightarrow> r),
            hb_ServiceChecks = checks, hb_PermissionLevel = level\<rparr>))))"

text \<open>The loop's ticker: an interval that is not positive panics.\<close>

definition heartbeat_ticker :: "Config \<Rightarrow> int option" where
  "heartbeat_ticker cfg =
     (if server_PingInterval (Server cfg) \<le> 0 then None else Some (server_PingInterval (Server cfg)))"

subsection \<open>Discovery\<close>

text \<open>What a read of the socket gives; a datagram with its sender, the clock, and what it decodes to.\<close>

datatype datagram =
    NothingYet
  | ReadError
  | Datagram string int int "discovery_request option"

text \<open>Answers go to the sender, one port above the one listened on.\<close>

definition reply_address :: "string \<Rightarrow> string" where
  "reply_address ip = ip @ '':'' @ itoa (9000 + 1)"

fun discoveryLoop :: "string \<Rightarrow> string \<Rightarrow> string \<Rightarrow> string \<Rightarrow> datagram list \<Rightarrow> (string \<times> discovery_response) list" where
  "discoveryLoop agent_id apiKey hostname version [] = []"
| "discoveryLoop agent_id apiKey hostname version (NothingYet # ds) = discoveryLoop agent_id apiKey hostname version ds"
| "discoveryLoop agent_id apiKey hostname version (ReadError # ds) = discoveryLoop agent_id apiKey hostname version ds"
| "discoveryLoop agent_id apiKey hostname version (Datagram ip now sent req # ds) =
     (case discovery_reply agent_id apiKey hostname version now sent req of
        None \<Rightarrow> []
      | Some r \<Rightarrow> [(reply_address ip, r)]) @ discoveryLoop agent_id apiKey hostname version ds"

subsection \<open>The run\<close>

text \<open>What \<open>Run\<close> appends to the activity log (kind, severity, message): at its start, and at its end.\<close>

datatype run_end = Cancelled | RestartAsked

definition run_start_events :: "bool \<Rightarrow> (string \<times> string \<times> string) list" where
  "run_start_events insecure =
     (if insecure then [(''info'', ''warn'', ''Insecure TLS mode enabled (SERVERKIT_INSECURE_TLS)'')] else []) @
     [(''service_start'', ''info'', ''Agent service started'')]"

definition run_end_event :: "run_end \<Rightarrow> string \<times> string \<times> string" where
  "run_end_event e =
     (case e of
        Cancelled \<Rightarrow> (''service_stop'', ''info'', ''Agent stopping (signal)'')
      | RestartAsked \<Rightarrow> (''restart_requested'', ''info'', ''Restart requested via IPC''))"

subsection \<open>What the loops do\<close>

text \<open>A heartbeat runs what the service checks run and nothing else.\<close>

lemma heartbeat_confined: "emits (monitor_cmd cks) (\<lambda>_. True) (heartbeat env nt cks level now up sample containers)"
  unfolding heartbeat_def Let_def
  by (intro emits_if emits_ret TrueI) (auto split: option.split prod.split intro!: emits_bind [OF emits_run_checks] emits_ret)

lemma discovery_answers:
  "x \<in> set (discoveryLoop agent_id apiKey hostname version ds) \<Longrightarrow>
     \<exists>ip now sent req r. x = (reply_address ip, r) \<and> Datagram ip now sent req \<in> set ds \<and>
       discovery_reply agent_id apiKey hostname version now sent req = Some r"
proof (induction ds)
  case (Cons d ds)
  then show ?case by (cases d) (auto split: option.splits, blast+)
qed simp

end
