(* ===== verification/Release.thy ===== *)
theory Release
  imports Updater Cli Effects
begin

text \<open>
  The rest of the self-update: the version query, choosing and unpacking the archive, replacing the
  binary and restarting on Unix and on Windows (\<open>internal/updater/updater.go\<close>), the periodic checker
  (\<open>checker.go\<close>), and the three ways an update begins: on the panel's command, automatically, and on
  the command line.
\<close>

subsection \<open>The version query\<close>

record version_request =
  vr_url :: string
  vr_fields :: "(string \<times> string) list"
  vr_UserAgent :: string

definition version_request_of :: "platform \<Rightarrow> string \<Rightarrow> string \<Rightarrow> version_request" where
  "version_request_of pf raw_url version =
     \<lparr>vr_url = server_url raw_url @ ''/api/servers/agent/version/check'',
      vr_fields = [(''current_version'', version), (''os'', pf_GOOS pf), (''arch'', pf_GOARCH pf)],
      vr_UserAgent = ''ServerKit-Agent/'' @ version\<rparr>"

text \<open>The answer: no answer, or a status and what its body decodes to.\<close>

definition CheckForUpdate :: "string + int \<times> version_info option \<Rightarrow> update_error + version_info" where
  "CheckForUpdate answer =
     (case answer of
        Inl e \<Rightarrow> Inl (UpdateError (''failed to check for updates: '' @ e))
      | Inr (status, info) \<Rightarrow>
          if status \<noteq> 200 then Inl (UpdateError (''update check failed with status: '' @ itoa status))
          else (case info of None \<Rightarrow> Inl (UpdateError ''failed to decode response'') | Some i \<Rightarrow> Inr i))"

subsection \<open>The archive on Windows\<close>

fun extractZip :: "(string \<times> string option) list \<Rightarrow> string option \<Rightarrow> update_error + string" where
  "extractZip [] found =
     (case found of None \<Rightarrow> Inl (UpdateError ''agent binary not found in archive'') | Some b \<Rightarrow> Inr b)"
| "extractZip ((nm, content) # items) found =
     (if contains nm ''serverkit-agent'' \<and> suffix ''.exe'' nm
      then (case content of None \<Rightarrow> Inl (UpdateError ''read'') | Some b \<Rightarrow> extractZip items (Some b))
      else extractZip items found)"

definition extractBinary :: "platform \<Rightarrow> (string \<Rightarrow> tar_item list) \<Rightarrow> (string \<Rightarrow> (string \<times> string option) list) \<Rightarrow> string \<Rightarrow>
    update_error + string" where
  "extractBinary pf untar unzip archive =
     (if pf_GOOS pf = ''windows'' then extractZip (unzip archive) None else extractTarGz (untar archive) None)"

subsection \<open>Installing and restarting\<close>

text \<open>
  How the process goes on: it returns to its caller, with a restart on its way or without one, or it
  has started its successor and exited.
\<close>

datatype restarted = RestartRequested | RestartNotStarted | Exited

definition isSystemd :: "platform \<Rightarrow> bool" where
  "isSystemd pf \<longleftrightarrow> pf_GOOS pf = ''linux'' \<and> pf_systemd pf"

definition restart_unix :: "platform \<Rightarrow> (cmd \<Rightarrow> bool) \<Rightarrow> string \<Rightarrow> (update_error + restarted) \<times> cmd" where
  "restart_unix pf starts current =
     (if isSystemd pf
      then (let c = Run ''systemctl'' [''restart'', ''serverkit-agent''] in (Inr (if starts c then RestartRequested else RestartNotStarted), c))
      else (let c = Run current [''start''] in
            (if starts c then Inr Exited else Inl (UpdateError ''failed to start new process''), c)))"

text \<open>\<open>installUnix\<close>: replace the binary, then restart; the restart may fail with the new binary in place.\<close>

definition installUnix :: "platform \<Rightarrow> (cmd \<Rightarrow> bool) \<Rightarrow> install_outcome \<Rightarrow> string \<Rightarrow> string \<Rightarrow> Updater.files \<Rightarrow>
    (update_error + restarted) \<times> Updater.files" where
  "installUnix pf starts io current new_binary fs =
     (case swap_binary io current new_binary fs of
        (Inl e, fs) \<Rightarrow> (Inl e, fs)
      | (Inr _, fs) \<Rightarrow> (fst (restart_unix pf starts current), fs))"

definition quoted :: "string \<Rightarrow> string" where
  "quoted s = CHR 0x22 # s @ [CHR 0x22]"

text \<open>The script, its lines as in the source; \<open>del\<close> of the last line is the script itself.\<close>

definition batch_script :: "string \<Rightarrow> string \<Rightarrow> string" where
  "batch_script current new_path =
     unlines [''@echo off'', ''timeout /t 2 /nobreak > nul'', ''del '' @ quoted (current @ ''.backup'') @ '' 2>nul'',
       ''move '' @ quoted current @ '' '' @ quoted (current @ ''.backup''), ''copy '' @ quoted new_path @ '' '' @ quoted current,
       ''net start ServerKitAgent'', ''del '' @ quoted ''%~f0'']"

text \<open>
  On Windows: the result, the script if it could be written, and the commands started, of which only
  the last one's outcome matters.
\<close>

definition installWindows :: "string \<Rightarrow> bool \<Rightarrow> (cmd \<Rightarrow> bool) \<Rightarrow> string \<Rightarrow> string \<Rightarrow>
    (update_error + restarted) \<times> (string \<times> string) option \<times> cmd list" where
  "installWindows tempdir write_ok starts current new_path =
     (let script = Join [tempdir, ''serverkit-update.bat''];
          stop = Run ''net'' [''stop'', ''ServerKitAgent''];
          go = Run ''cmd'' [''/c'', ''start'', ''/b'', script]
      in if \<not> write_ok then (Inl (UpdateError ''failed to create update script''), None, [])
         else (if starts go then Inr RestartRequested else Inl (UpdateError ''failed to start update script''),
               Some (script, batch_script current new_path), [stop, go]))"

text \<open>
  The update as a whole, on Unix: what the network gives, whether the running binary's path could be
  determined, the system calls of the installation, and which commands start.
\<close>

record update_host =
  uh_platform :: platform
  uh_order :: "(string \<times> string) list \<Rightarrow> (string \<times> string) list"
  uh_untar :: "string \<Rightarrow> tar_item list"
  uh_archive :: fetched
  uh_sums :: fetched
  uh_executable :: "string option"     \<comment> \<open>with its symbolic links resolved\<close>
  uh_install :: install_outcome
  uh_starts :: "cmd \<Rightarrow> bool"

definition InstallUpdate :: "update_host \<Rightarrow> string \<Rightarrow> Updater.files \<Rightarrow> (update_error + restarted) \<times> Updater.files" where
  "InstallUpdate h binary fs =
     (case uh_executable h of
        None \<Rightarrow> (Inl (UpdateError ''failed to get current executable''), fs)
      | Some current \<Rightarrow> installUnix (uh_platform h) (uh_starts h) (uh_install h) current binary fs)"

definition download_of :: "update_host \<Rightarrow> version_info \<Rightarrow> update_error + string" where
  "download_of h info = DownloadUpdate (uh_platform h) (uh_order h) (uh_untar h) info (uh_archive h) (uh_sums h)"

text \<open>\<open>installUpdate\<close> of the checker; \<open>Cleanup\<close> after a failure touches no file modelled here.\<close>

definition installUpdate :: "update_host \<Rightarrow> version_info \<Rightarrow> Updater.files \<Rightarrow> (update_error + restarted) \<times> Updater.files" where
  "installUpdate h info fs =
     (case download_of h info of
        Inl e \<Rightarrow> (Inl e, fs)
      | Inr binary \<Rightarrow> InstallUpdate h binary fs)"

definition UpdateTo :: "update_host \<Rightarrow> string \<Rightarrow> string \<Rightarrow> string \<Rightarrow> Updater.files \<Rightarrow> (update_error + restarted) \<times> Updater.files" where
  "UpdateTo h version downloadURL checksumsURL fs =
     installUpdate h \<lparr>vi_UpdateAvailable = False, vi_CurrentVersion = [], vi_LatestVersion = version,
       vi_DownloadURL = downloadURL, vi_ChecksumsURL = checksumsURL\<rparr> fs"

subsection \<open>The three ways to begin\<close>

text \<open>
  \<open>agent:update\<close>: the answer goes out at once, the update follows. The URLs are the panel's; \<open>force\<close> is
  read and not used.
\<close>

record update_params =
  up_version :: string
  up_download_url :: string
  up_checksums_url :: string
  up_force :: bool

definition handleAgentUpdate :: "update_host \<Rightarrow> string + update_params \<Rightarrow> Updater.files \<Rightarrow>
    (string + (string \<times> json) list) \<times> Updater.files" where
  "handleAgentUpdate h params fs =
     (case params of
        Inl e \<Rightarrow> (Inl (''invalid params: '' @ e), fs)
      | Inr p \<Rightarrow>
          if up_version p = [] then (Inl ''version is required'', fs)
          else (Inr [(''success'', JBool True), (''message'', JStr ''Update triggered''), (''version'', JStr (up_version p))],
                snd (UpdateTo h (up_version p) (up_download_url p) (up_checksums_url p) fs)))"

text \<open>One check of the checker, with what it installs on its own.\<close>

definition checked :: "update_host \<Rightarrow> bool \<Rightarrow> int \<Rightarrow> string + int \<times> version_info option \<Rightarrow> checker \<times> Updater.files \<Rightarrow>
    checker \<times> Updater.files" where
  "checked h auto_install now answer = (\<lambda>(c, fs).
     case checkAndNotify auto_install now (CheckForUpdate answer) c of
       (c, None) \<Rightarrow> (c, fs)
     | (c, Some info) \<Rightarrow> (c, snd (installUpdate h info fs)))"

text \<open>
  \<open>Start\<close>: nothing if checks are off; a ticker with an interval that is not positive panics. The checks
  are those one minute after the start and those of the ticker, in the order they take the lock.
\<close>

fun checks :: "bool \<Rightarrow> (update_host \<times> int \<times> (string + int \<times> version_info option)) list \<Rightarrow> checker \<times> Updater.files \<Rightarrow>
    checker \<times> Updater.files" where
  "checks auto_install [] s = s"
| "checks auto_install ((h, now, answer) # more_checks) s = checks auto_install more_checks (checked h auto_install now answer s)"

definition Start_checker :: "UpdateConfig \<Rightarrow> (update_host \<times> int \<times> (string + int \<times> version_info option)) list \<Rightarrow>
    checker \<times> Updater.files \<Rightarrow> (checker \<times> Updater.files) option" where
  "Start_checker cfg cs s =
     (if \<not> upd_Enabled cfg then Some s
      else if upd_CheckInterval cfg \<le> 0 then None
      else Some (checks (upd_AutoInstall cfg) cs s))"

definition NewChecker :: checker where
  "NewChecker = \<lparr>ck_lastCheck = 0, ck_latestVersion = [], ck_updatePending = False\<rparr>"

definition CheckNow :: "int \<Rightarrow> string + int \<times> version_info option \<Rightarrow> checker \<Rightarrow> (update_error + version_info) \<times> checker" where
  "CheckNow now answer c = (CheckForUpdate answer, c\<lparr>ck_lastCheck := now\<rparr>)"

datatype update_verdict = UpToDate | OnlyChecked | Cancelled | UpdateInstalled restarted

definition runUpdate :: "update_host \<Rightarrow> bool \<Rightarrow> bool \<Rightarrow> string \<Rightarrow> string + int \<times> version_info option \<Rightarrow> Updater.files \<Rightarrow>
    (update_error + update_verdict) \<times> Updater.files" where
  "runUpdate h force checkOnly reply answer fs =
     (case CheckForUpdate answer of
        Inl e \<Rightarrow> (Inl e, fs)
      | Inr info \<Rightarrow>
          if \<not> vi_UpdateAvailable info then (Inr UpToDate, fs)
          else if checkOnly then (Inr OnlyChecked, fs)
          else if \<not> force \<and> reply \<noteq> ''y'' \<and> reply \<noteq> ''Y'' then (Inr Cancelled, fs)
          else (case installUpdate h info fs of
                  (Inl e, fs) \<Rightarrow> (Inl e, fs)
                | (Inr r, fs) \<Rightarrow> (Inr (UpdateInstalled r), fs)))"

subsection \<open>Only a verified binary\<close>

definition verified_for :: "update_host \<Rightarrow> string \<Rightarrow> bool" where
  "verified_for h binary \<longleftrightarrow> (\<exists>archive body line hash nm rest. uh_archive h = Inr (200, archive) \<and> uh_sums h = Inr (200, body) \<and>
     line \<in> set (split_on (CHR 0x0A) body) \<and> fields_of line = hash # nm # rest \<and>
     contains nm (pf_GOOS (uh_platform h)) \<and> contains nm (pf_GOARCH (uh_platform h)) \<and>
     to_lower (hex_encode (sha256 archive)) = to_lower hash \<and>
     (\<exists>en. TarEntry True en (Some binary) \<in> set (uh_untar h archive) \<and> contains en ''serverkit-agent''))"

definition order_ok :: "update_host \<Rightarrow> bool" where
  "order_ok h \<longleftrightarrow> (\<forall>xs. set (uh_order h xs) = set xs)"

text \<open>
  What an update may leave: the files as they were, or what the installation of a binary leaves that
  was verified with the downloads of this very update.
\<close>

definition replaced :: "update_host \<Rightarrow> Updater.files \<Rightarrow> Updater.files \<Rightarrow> bool" where
  "replaced h fs fs' \<longleftrightarrow> fs' = fs \<or>
     (\<exists>current binary. uh_executable h = Some current \<and> verified_for h binary \<and>
        fs' = snd (installUnix (uh_platform h) (uh_starts h) (uh_install h) current binary fs))"

lemma download_verified: "order_ok h \<Longrightarrow> download_of h info = Inr binary \<Longrightarrow> verified_for h binary"
  unfolding download_of_def verified_for_def order_ok_def by (drule update_fails_closed) (simp, blast)

lemma InstallUpdate_files:
  "snd (InstallUpdate h binary fs) =
     (case uh_executable h of None \<Rightarrow> fs
      | Some current \<Rightarrow> snd (installUnix (uh_platform h) (uh_starts h) (uh_install h) current binary fs))"
  by (simp add: InstallUpdate_def split: option.split)

lemma installUpdate_replaced: "order_ok h \<Longrightarrow> replaced h fs (snd (installUpdate h info fs))"
  using download_verified [of h info]
  by (auto simp: installUpdate_def replaced_def InstallUpdate_files split: sum.split option.split)

lemma replaced_refl [simp]: "replaced h fs fs"
  by (simp add: replaced_def)

lemma handleAgentUpdate_replaced: "order_ok h \<Longrightarrow> replaced h fs (snd (handleAgentUpdate h params fs))"
  by (auto simp: handleAgentUpdate_def UpdateTo_def installUpdate_replaced split: sum.split)

lemma runUpdate_replaced: "order_ok h \<Longrightarrow> replaced h fs (snd (runUpdate h force checkOnly reply answer fs))"
proof -
  have "snd (runUpdate h force checkOnly reply answer fs) = fs \<or>
      (\<exists>info. snd (runUpdate h force checkOnly reply answer fs) = snd (installUpdate h info fs))"
  proof (cases "CheckForUpdate answer")
    case (Inr info)
    obtain r fs' where i: "installUpdate h info fs = (r, fs')" by (rule prod.exhaust)
    have "snd (runUpdate h force checkOnly reply answer fs) \<in> {fs, fs'}"
      using Inr i by (simp add: runUpdate_def split: sum.split)
    then have "snd (runUpdate h force checkOnly reply answer fs) = fs \<or> snd (runUpdate h force checkOnly reply answer fs) = fs'"
      by simp
    then show ?thesis using i by (metis snd_conv)
  qed (simp add: runUpdate_def)
  then show "order_ok h \<Longrightarrow> ?thesis" by (auto simp: installUpdate_replaced)
qed

lemma checked_replaced: "order_ok h \<Longrightarrow> replaced h fs (snd (checked h auto_install now answer (c, fs)))"
  by (auto simp: checked_def installUpdate_replaced split: option.split prod.split)

lemma checked_manual: "snd (checked h False now answer (c, fs)) = fs"
  by (auto simp: checked_def checkAndNotify_def Let_def split: sum.split)

text \<open>One check, with the update it found.\<close>

lemma checked_offered:
  assumes "snd (checked h auto_install now answer (c, fs)) \<noteq> fs"
  shows "auto_install \<and> (\<exists>info. answer = Inr (200, Some info) \<and> vi_UpdateAvailable info)"
proof -
  obtain c' offer where n: "checkAndNotify auto_install now (CheckForUpdate answer) c = (c', offer)" by (rule prod.exhaust)
  with assms obtain info where "offer = Some info" by (cases offer) (simp_all add: checked_def)
  with n show ?thesis
    by (auto simp: checkAndNotify_def CheckForUpdate_def Let_def split: sum.splits if_splits prod.splits option.splits)
qed

lemma checks_snoc: "checks auto_install (cs @ [x]) s = checks auto_install [x] (checks auto_install cs s)"
proof (induction cs arbitrary: s)
  case (Cons y cs)
  then show ?case by (cases y) (simp only: append_Cons checks.simps)
qed simp

lemma Start_checker_next:
  assumes "i < length cs" "cs ! i = (h, now, answer)" "Start_checker cfg (take i cs) s = Some s1"
    "Start_checker cfg (take (Suc i) cs) s = Some s2"
  shows "s2 = (if upd_Enabled cfg then checked h (upd_AutoInstall cfg) now answer s1 else s1)"
  using assms by (auto simp: Start_checker_def take_Suc_conv_app_nth checks_snoc split: if_splits)

text \<open>
  C10. However an update begins, the files of the host are left as they were or as the installation of
  a binary leaves them that was verified with the downloads of this very update: it is the agent's
  entry of the archive downloaded, and the SHA-256 of that archive is in the checksums file under a
  name that contains this operating system and architecture (so that of \<open>arm64\<close> may serve for \<open>arm\<close>,
  lemma \<open>arm_matches_arm64\<close>). This is so on the panel's command, whose URLs are all the panel's; on the
  command line, where a mere check changes nothing; and for each single check of the periodic
  checker, which changes nothing unless the checker is enabled and told to install on its own and
  this check was answered with an available update.
\<close>

theorem updates_only_verified:
  assumes "order_ok h" "i < length cs" "cs ! i = (hc, now, answer')" "order_ok hc"
    "Start_checker cfg (take i cs) s0 = Some s1" "Start_checker cfg (take (Suc i) cs) s0 = Some s2"
  shows "replaced h fs (snd (handleAgentUpdate h params fs)) \<and>
     replaced h fs (snd (runUpdate h force checkOnly reply answer fs)) \<and>
     (checkOnly \<longrightarrow> snd (runUpdate h force checkOnly reply answer fs) = fs) \<and>
     replaced hc (snd s1) (snd s2) \<and>
     (snd s2 \<noteq> snd s1 \<longrightarrow> upd_Enabled cfg \<and> upd_AutoInstall cfg \<and>
        (\<exists>info. answer' = Inr (200, Some info) \<and> vi_UpdateAvailable info))"
proof -
  have "checkOnly \<longrightarrow> snd (runUpdate h force checkOnly reply answer fs) = fs"
    by (auto simp: runUpdate_def split: sum.split)
  moreover have s2: "s2 = (if upd_Enabled cfg then checked hc (upd_AutoInstall cfg) now answer' s1 else s1)"
    by (rule Start_checker_next [OF assms(2,3,5,6)])
  then have "replaced hc (snd s1) (snd s2)"
    using checked_replaced [OF assms(4)] by (cases s1) (simp only: snd_conv replaced_refl split: if_split, simp)
  moreover have "snd s2 \<noteq> snd s1 \<longrightarrow> upd_Enabled cfg \<and> upd_AutoInstall cfg \<and>
      (\<exists>info. answer' = Inr (200, Some info) \<and> vi_UpdateAvailable info)"
    using checked_offered [of hc "upd_AutoInstall cfg" now answer' "fst s1" "snd s1"] s2 by (cases "upd_Enabled cfg") auto
  ultimately show ?thesis
    using handleAgentUpdate_replaced [OF assms(1)] runUpdate_replaced [OF assms(1)] by blast
qed

definition demo_update :: update_host where
  "demo_update =
     (let sums = hex_encode (sha256 ''archive'') @ '' agent-linux-amd64'' in
      \<lparr>uh_platform = demo_platform, uh_order = id, uh_untar = (\<lambda>_. [TarEntry True ''serverkit-agent'' (Some ''new'')]),
       uh_archive = Inr (200, ''archive''), uh_sums = Inr (200, sums), uh_executable = Some ''/opt/agent'',
       uh_install = \<lparr>io_remove_ok = True, io_backup_ok = True, io_copied = Inr [], io_create_ok = True, io_chmod_ok = True, io_restore_ok = True\<rparr>,
       uh_starts = (\<lambda>_. True)\<rparr>)"

definition demo_update_config :: UpdateConfig where
  "demo_update_config = \<lparr>upd_Enabled = True, upd_CheckInterval = 1, upd_AutoInstall = True\<rparr>"

lemma DownloadUpdate_urls:
  "vi_DownloadURL i = vi_DownloadURL j \<Longrightarrow> vi_ChecksumsURL i = vi_ChecksumsURL j \<Longrightarrow>
     DownloadUpdate pf order untar i dl sums = DownloadUpdate pf order untar j dl sums"
  unfolding DownloadUpdate_def by (simp only:)

lemma demo_update_parts:
  "uh_platform demo_update = demo_platform" "uh_order demo_update = id" "uh_executable demo_update = Some ''/opt/agent''"
  "uh_untar demo_update = (\<lambda>_. [TarEntry True ''serverkit-agent'' (Some ''new'')])" "uh_archive demo_update = Inr (200, ''archive'')"
  "uh_sums demo_update = Inr (200, hex_encode (sha256 ''archive'') @ '' agent-linux-amd64'')"
  "uh_install demo_update = \<lparr>io_remove_ok = True, io_backup_ok = True, io_copied = Inr [], io_create_ok = True, io_chmod_ok = True, io_restore_ok = True\<rparr>"
  unfolding demo_update_def Let_def by (simp_all only: update_host.select_convs)

theorem updates_only_verified_witness:
  "\<exists>fs. fs = snd (handleAgentUpdate demo_update
       (Inr \<lparr>up_version = ''2'', up_download_url = vi_DownloadURL demo_info, up_checksums_url = vi_ChecksumsURL demo_info, up_force = False\<rparr>)
       [''/opt/agent'' \<mapsto> ''old'']) \<and> fs ''/opt/agent'' = Some ''new'' \<and> replaced demo_update [''/opt/agent'' \<mapsto> ''old''] fs \<and>
     snd (runUpdate demo_update False True [] (Inr (200, Some demo_info)) [''/opt/agent'' \<mapsto> ''old'']) = [''/opt/agent'' \<mapsto> ''old'']"
proof -
  let ?p = "Inr \<lparr>up_version = ''2'', up_download_url = vi_DownloadURL demo_info, up_checksums_url = vi_ChecksumsURL demo_info,
    up_force = False\<rparr>"
  let ?fs = "[''/opt/agent'' \<mapsto> ''old'']"
  have o: "order_ok demo_update" by (simp only: order_ok_def demo_update_parts id_apply simp_thms)
  have "DownloadUpdate demo_platform id (\<lambda>_. [TarEntry True ''serverkit-agent'' (Some ''new'')]) demo_info
      (Inr (200, ''archive'')) (Inr (200, hex_encode (sha256 ''archive'') @ '' agent-linux-amd64'')) = Inr ''new''"
    using update_fails_closed_witness unfolding Let_def by (rule conjunct1)
  then have "download_of demo_update \<lparr>vi_UpdateAvailable = False, vi_CurrentVersion = [], vi_LatestVersion = ''2'',
      vi_DownloadURL = vi_DownloadURL demo_info, vi_ChecksumsURL = vi_ChecksumsURL demo_info\<rparr> = Inr ''new''"
    unfolding download_of_def demo_update_parts
    by (subst DownloadUpdate_urls [of _ demo_info]) (simp_all only: version_info.select_convs)
  then have f: "snd (handleAgentUpdate demo_update ?p ?fs) ''/opt/agent'' = Some ''new''"
    by (simp add: handleAgentUpdate_def UpdateTo_def installUpdate_def InstallUpdate_files demo_update_parts(3,7)
      installUnix_def swap_binary_def rename_file_def Let_def)
  have s: "Start_checker demo_update_config (take 0 [(demo_update, 0, Inl [])]) (NewChecker, ?fs) = Some (NewChecker, ?fs)"
    "Start_checker demo_update_config (take (Suc 0) [(demo_update, 0, Inl [])]) (NewChecker, ?fs) =
       Some (checked demo_update True 0 (Inl []) (NewChecker, ?fs))"
    by (simp_all add: Start_checker_def demo_update_config_def)
  from updates_only_verified [OF o _ _ o s, of 0 "Inl []" ?fs ?p False True "[]" "Inr (200, Some demo_info)"] f
  show ?thesis by (intro exI [of _ "snd (handleAgentUpdate demo_update ?p ?fs)"]) simp
qed

text \<open>
  C35. Replacing the binary and restarting. After a success the path holds the new binary and the backup
  the old one. So they do after the one failure that is no failure of the replacement: without
  systemd, a successor that cannot be started is reported as an error with the new binary in
  place. After any other failure the path holds the old binary again, unless putting the backup back
  failed too, and then the backup holds it. No file but these two is ever touched.
\<close>

theorem install_all_or_nothing:
  assumes "fs current = Some old" "installUnix pf starts io current new_binary fs = (r, fs')"
  shows "((\<exists>how. r = Inr how) \<or> r = Inl (UpdateError ''failed to start new process'') \<longrightarrow>
        fs' current = Some new_binary \<and> fs' (current @ ''.backup'') = Some old) \<and>
     (\<forall>e. r = Inl e \<and> e \<noteq> UpdateError ''failed to start new process'' \<longrightarrow>
        fs' current = Some old \<or> \<not> io_restore_ok io \<and> fs' (current @ ''.backup'') = Some old) \<and>
     (r = Inl (UpdateError ''failed to start new process'') \<longrightarrow> \<not> isSystemd pf \<and> \<not> starts (Run current [''start''])) \<and>
     (\<forall>p. p \<noteq> current \<and> p \<noteq> current @ ''.backup'' \<longrightarrow> fs' p = fs p)"
proof -
  obtain rs fs1 where sw: "swap_binary io current new_binary fs = (rs, fs1)" by (rule prod.exhaust)
  note out = swap_binary_outcome [OF assms(1) sw]
  show ?thesis
  proof (cases rs)
    case (Inl e)
    then have "r = Inl e" "fs' = fs1" using assms(2) sw by (simp_all add: installUnix_def)
    then show ?thesis using out(2,3) [OF Inl] out(4) by auto
  next
    case (Inr u)
    then have "r = fst (restart_unix pf starts current)" "fs' = fs1" using assms(2) sw by (simp_all add: installUnix_def)
    then show ?thesis using out(1) Inr out(4) by (auto simp: restart_unix_def Let_def)
  qed
qed

theorem install_all_or_nothing_witness:
  "\<exists>e fs'. installUnix demo_platform (\<lambda>_. True) \<lparr>io_remove_ok = True, io_backup_ok = True, io_copied = Inl ''ne'', io_create_ok = True,
       io_chmod_ok = True, io_restore_ok = True\<rparr> ''/bin/agent'' ''new'' [''/bin/agent'' \<mapsto> ''old''] = (Inl e, fs') \<and>
     fs' ''/bin/agent'' = Some ''old''"
proof -
  let ?io = "\<lparr>io_remove_ok = True, io_backup_ok = True, io_copied = Inl ''ne'', io_create_ok = True, io_chmod_ok = True,
    io_restore_ok = True\<rparr>"
  obtain r fs' where i: "installUnix demo_platform (\<lambda>_. True) ?io ''/bin/agent'' ''new'' [''/bin/agent'' \<mapsto> ''old''] = (r, fs')"
    by (rule prod.exhaust)
  then have r: "r = Inl (UpdateError ''failed to copy new binary'')"
    by (simp add: installUnix_def swap_binary_def Let_def rename_file_def)
  have "UpdateError ''failed to copy new binary'' \<noteq> UpdateError ''failed to start new process''" by simp
  then have "fs' ''/bin/agent'' = Some ''old''"
    using install_all_or_nothing [OF _ i, of "''old''"] r by simp
  with i r show ?thesis by blast
qed

end
