(* ===== verification/Pairing.thy ===== *)
theory Pairing
  imports Cli Hostmetrics Urls
begin

text \<open>
  Pairing an agent with a panel: the keypair and the panel's client of \<open>internal/pairing\<close>, the driver
  (\<open>internal/pairdriver\<close>) and the \<open>pair\<close> command (\<open>cmd/agent/pair.go\<close>). Signing is a parameter; a private
  key is 64 bytes, the last 32 of which are the public key. What a server answers is a parameter, with
  its JSON decoded.
\<close>

subsection \<open>The keypair\<close>

record KeyPair =
  kp_Public :: string
  kp_Private :: string
  kp_Fingerprint :: string

definition upper_char :: "char \<Rightarrow> char" where
  "upper_char c = (if 97 \<le> (of_char c :: nat) \<and> (of_char c :: nat) \<le> 122 then char_of (of_char c - 32 :: nat) else c)"

text \<open>\<open>ToUpper\<close> of hex digits.\<close>

definition fingerprint :: "string \<Rightarrow> string" where
  "fingerprint pub = map upper_char (hex_encode (take 8 (sha256 (hex_encode pub))))"

definition key_of :: "string \<Rightarrow> KeyPair" where
  "key_of priv = \<lparr>kp_Public = drop 32 priv, kp_Private = priv, kp_Fingerprint = fingerprint (drop 32 priv)\<rparr>"

definition PublicKeyHex :: "KeyPair \<Rightarrow> string" where
  "PublicKeyHex k = hex_encode (kp_Public k)"

definition DefaultKeyPath :: "host \<Rightarrow> string" where
  "DefaultKeyPath h =
     (if on_windows h then program_file h [''ServerKit'', ''Agent'', ''pairing.key''] else ''/etc/serverkit-agent/pairing.key'')"

definition key_file :: "host \<Rightarrow> string \<Rightarrow> string" where
  "key_file h path = (if path = [] then DefaultKeyPath h else path)"

text \<open>What the random source makes, if it does: a private key.\<close>

definition Generate :: "string option \<Rightarrow> string + KeyPair" where
  "Generate random = (case random of None \<Rightarrow> Inl ''generate keypair'' | Some priv \<Rightarrow> Inr (key_of priv))"

definition LoadKey :: "host \<Rightarrow> string \<Rightarrow> files \<Rightarrow> string + KeyPair" where
  "LoadKey h path fs =
     (case fs path of
        Contents data \<Rightarrow>
          (case DecryptBytes h data of
             Inl _ \<Rightarrow> Inl ''decrypt key file''
           | Inr plain \<Rightarrow>
               if length plain \<noteq> 64 then Inl (''invalid key file size: '' @ itoa (int (length plain))) else Inr (key_of plain))
      | _ \<Rightarrow> Inl ''read key file'')"

definition SaveKey :: "host \<Rightarrow> save_io \<Rightarrow> KeyPair \<Rightarrow> string \<Rightarrow> files \<Rightarrow> (string + unit) \<times> files" where
  "SaveKey h io k path0 fs =
     (let path = key_file h path0 in
      if \<not> si_mkdir io then (Inl ''create key dir'', fs)
      else (case EncryptBytes h (si_nonce io) (kp_Private k) of
              Inl _ \<Rightarrow> (Inl ''encrypt key'', fs)
            | Inr data \<Rightarrow>
                (case WriteFile (si_write io) path data fs of
                   (ok, fs') \<Rightarrow> (if ok then Inr () else Inl ''write key file'', fs'))))"

definition LoadOrCreate :: "host \<Rightarrow> save_io \<Rightarrow> string option \<Rightarrow> string \<Rightarrow> files \<Rightarrow> (string + KeyPair) \<times> files" where
  "LoadOrCreate h io random path0 fs =
     (let path = key_file h path0 in
      case fs path of
        NotExist \<Rightarrow>
          (case Generate random of
             Inl e \<Rightarrow> (Inl e, fs)
           | Inr k \<Rightarrow> (case SaveKey h io k path fs of (Inl e, fs') \<Rightarrow> (Inl e, fs') | (Inr _, fs') \<Rightarrow> (Inr k, fs')))
      | _ \<Rightarrow> (LoadKey h path fs, fs))"

subsection \<open>The panel's client\<close>

text \<open>An answer: none, or its status, whether its body is empty, the error field and what it decodes to.\<close>

datatype 'a http = NoAnswer string | Answered int bool string "'a option"

definition do_request :: "'a \<Rightarrow> string \<Rightarrow> string \<Rightarrow> 'a http \<Rightarrow> string + 'a" where
  "do_request zero verb path answer =
     (let lead = verb @ '' '' @ path @ '': '' in
      case answer of
        NoAnswer e \<Rightarrow> Inl (lead @ e)
      | Answered status no_body err decoded \<Rightarrow>
          if 400 \<le> status
          then Inl (if err \<noteq> [] then lead @ err @ '' (status '' @ itoa status @ '')'' else lead @ ''status '' @ itoa status)
          else if no_body then Inr zero
          else (case decoded of None \<Rightarrow> Inl ''decode response'' | Some x \<Rightarrow> Inr x))"

record EnrollRequest =
  er_Pubkey :: string
  er_Passphrase :: string
  er_MachineID :: string
  er_SystemInfo :: "(string \<times> json) list"

record EnrollResponse =
  en_EnrollmentID :: string
  en_EnrollmentSecret :: string
  en_PairCode :: string
  en_PairCodeFormatted :: string
  en_PubkeyFingerprint :: string

record Credentials =
  cd_AgentID :: string
  cd_Name :: string
  cd_APIKey :: string
  cd_APISecret :: string

record PollResponse =
  pr_Status :: string
  pr_Credentials :: "Credentials option"

record RefreshResponse =
  rf_PairCode :: string
  rf_PairCodeExpiresAt :: string

definition no_enrollment :: EnrollResponse where
  "no_enrollment = \<lparr>en_EnrollmentID = [], en_EnrollmentSecret = [], en_PairCode = [], en_PairCodeFormatted = [], en_PubkeyFingerprint = []\<rparr>"

record Client =
  cl_BaseURL :: string
  cl_EnrollmentID :: string
  cl_EnrollmentSecret :: string
  cl_keypair :: "KeyPair option"

definition NewClient :: "string \<Rightarrow> Client" where
  "NewClient baseURL = \<lparr>cl_BaseURL = trim_suffix baseURL ''/'', cl_EnrollmentID = [], cl_EnrollmentSecret = [], cl_keypair = None\<rparr>"

definition SetKeyPair :: "KeyPair \<Rightarrow> Client \<Rightarrow> Client" where
  "SetKeyPair k c = c\<lparr>cl_keypair := Some k\<rparr>"

definition Enroll :: "EnrollResponse http \<Rightarrow> Client \<Rightarrow> (string + EnrollResponse) \<times> Client" where
  "Enroll answer c =
     (case do_request no_enrollment ''POST'' ''/api/v1/pairing/enroll'' answer of
        Inl e \<Rightarrow> (Inl e, c)
      | Inr resp \<Rightarrow> (Inr resp, c\<lparr>cl_EnrollmentID := en_EnrollmentID resp, cl_EnrollmentSecret := en_EnrollmentSecret resp\<rparr>))"

definition enrollHeaders :: "Client \<Rightarrow> (string \<times> string) list" where
  "enrollHeaders c =
     (if cl_EnrollmentID c \<noteq> [] then [(''X-Enrollment-Id'', cl_EnrollmentID c)] else []) @
     (if cl_EnrollmentSecret c \<noteq> [] then [(''X-Enrollment-Secret'', cl_EnrollmentSecret c)] else [])"

definition poll_headers :: "(string \<Rightarrow> string \<Rightarrow> string) \<Rightarrow> Client \<Rightarrow> (string \<times> string) list" where
  "poll_headers sign c =
     enrollHeaders c @
     (case cl_keypair c of
        Some k \<Rightarrow> if cl_EnrollmentID c \<noteq> []
                 then [(''X-Enrollment-Signature'', b64_encode (sign (kp_Private k) (cl_EnrollmentID c)))] else []
      | None \<Rightarrow> [])"

definition RotateCode :: "RefreshResponse http \<Rightarrow> string + RefreshResponse" where
  "RotateCode = do_request \<lparr>rf_PairCode = [], rf_PairCodeExpiresAt = []\<rparr> ''POST'' ''/api/v1/pairing/code/refresh''"

definition SetFreeze :: "RefreshResponse http \<Rightarrow> string + RefreshResponse" where
  "SetFreeze = do_request \<lparr>rf_PairCode = [], rf_PairCodeExpiresAt = []\<rparr> ''POST'' ''/api/v1/pairing/code/freeze''"

definition Poll :: "PollResponse http \<Rightarrow> string + Credentials option" where
  "Poll answer =
     (case do_request \<lparr>pr_Status = [], pr_Credentials = None\<rparr> ''GET'' ''/api/v1/pairing/poll'' answer of
        Inl e \<Rightarrow> Inl e
      | Inr resp \<Rightarrow> Inr (if pr_Status resp = ''claimed'' then pr_Credentials resp else None))"

definition formatPairCode :: "string \<Rightarrow> string" where
  "formatPairCode code =
     (if length code < 2 then code else take (length code div 2) code @ ''-'' @ drop (length code div 2) code)"

text \<open>
  One turn of the wait: whether the context was done, the answer to a rotation if the ticker fired,
  the answer to the poll, and whether the context was done in the five seconds after a failed one.
\<close>

record claim_round =
  cr_done :: bool
  cr_rotate :: "RefreshResponse http option"
  cr_poll :: "PollResponse http"
  cr_done_after :: bool

datatype claim_end = ClaimCancelled | Claimed Credentials

definition rotated :: "claim_round \<Rightarrow> (string \<times> string \<times> string) list" where
  "rotated r =
     (case cr_rotate r of
        None \<Rightarrow> []
      | Some a \<Rightarrow> (case RotateCode a of
                    Inl _ \<Rightarrow> [] | Inr x \<Rightarrow> [(rf_PairCode x, formatPairCode (rf_PairCode x), rf_PairCodeExpiresAt x)]))"

text \<open>How the wait ended, if it did, and the codes shown meanwhile.\<close>

fun WaitForClaim :: "claim_round list \<Rightarrow> claim_end option \<times> (string \<times> string \<times> string) list" where
  "WaitForClaim [] = (None, [])"
| "WaitForClaim (r # rs) =
     (if cr_done r then (Some ClaimCancelled, [])
      else (case Poll (cr_poll r) of
              Inl _ \<Rightarrow>
                if cr_done_after r then (Some ClaimCancelled, rotated r)
                else (case WaitForClaim rs of (e, shown) \<Rightarrow> (e, rotated r @ shown))
            | Inr (Some c) \<Rightarrow> (Some (Claimed c), rotated r)
            | Inr None \<Rightarrow> (case WaitForClaim rs of (e, shown) \<Rightarrow> (e, rotated r @ shown))))"

subsection \<open>The driver\<close>

definition passphraseAlphabet :: string where
  "passphraseAlphabet = ''23456789abcdefghjkmnpqrstuvwxyz''"

text \<open>The random indices, below the length of the alphabet; \<open>None\<close> where the source fails.\<close>

fun passphrase_chars :: "nat option list \<Rightarrow> string option" where
  "passphrase_chars [] = Some []"
| "passphrase_chars (None # is) = None"
| "passphrase_chars (Some i # is) = map_option (Cons (passphraseAlphabet ! i)) (passphrase_chars is)"

definition GeneratePassphrase :: "nat option list \<Rightarrow> string option" where
  "GeneratePassphrase random = passphrase_chars (take 8 random)"

definition NormalizePanelURL :: "string \<Rightarrow> string" where
  "NormalizePanelURL u =
     (let t = trim_space u;
          t = (if \<not> prefix ''http://'' t \<and> \<not> prefix ''https://'' t then ''https://'' @ t else t)
      in trim_suffix t ''/'')"

definition buildSystemInfo :: "SystemInfo option \<Rightarrow> string \<Rightarrow> string \<Rightarrow> string \<Rightarrow> string \<Rightarrow> (string \<times> json) list" where
  "buildSystemInfo info hostname goos goarch displayName =
     (case info of
        Some i \<Rightarrow> [(''hostname'', JStr (si_Hostname i)), (''os'', JStr (si_OS i)), (''platform'', JStr (si_Platform i)),
          (''platform_version'', JStr (si_PlatformVersion i)), (''architecture'', JStr (si_Architecture i)),
          (''cpu_cores'', JInt (si_CPUCores i)), (''total_memory'', JInt (uint (si_TotalMemory i))),
          (''total_disk'', JInt (uint (si_TotalDisk i)))]
      | None \<Rightarrow> [(''hostname'', JStr hostname), (''os'', JStr goos), (''architecture'', JStr goarch)]) @
     (if trim_space displayName \<noteq> [] then [(''display_name'', JStr (trim_space displayName))] else [])"

definition enroll_request :: "KeyPair \<Rightarrow> string \<Rightarrow> host \<Rightarrow> (string \<times> json) list \<Rightarrow> EnrollRequest" where
  "enroll_request k passphrase h info =
     \<lparr>er_Pubkey = PublicKeyHex k, er_Passphrase = passphrase, er_MachineID = MachineID h, er_SystemInfo = info\<rparr>"

definition as_result :: "Credentials \<Rightarrow> registration_result" where
  "as_result c = \<lparr>rr_AgentID = cd_AgentID c, rr_Name = cd_Name c, rr_APIKey = cd_APIKey c, rr_APISecret = cd_APISecret c,
     rr_WebSocketURL = []\<rparr>"

text \<open>
  \<open>saveCredentials\<close> of the driver and \<open>saveRegistrationCredentials\<close> of the wizard: unlike the commands
  they leave the key file where the configuration has it.
\<close>

definition driver_save :: "host \<Rightarrow> yaml \<Rightarrow> save_io \<Rightarrow> save_io \<Rightarrow> bool \<Rightarrow> string \<Rightarrow> string \<Rightarrow> registration_result \<Rightarrow> files \<Rightarrow>
    (cli_error + unit) \<times> files" where
  "driver_save h y io io2 mkdir_ok configPath panelURL creds fs =
     (case Load h y io configPath fs of
        (loaded, fs1) \<Rightarrow>
          (let cfg = (case loaded of Inr c \<Rightarrow> c | Inl _ \<Rightarrow> Default_config h)
           in if \<not> mkdir_ok then (Inl (SystemFailed ''create config directory''), fs1)
              else save_identity h y io io2 configPath
                     (take_identity h [] (socket_url (trim_suffix panelURL ''/'') @ ''/agent'') creds cfg) fs1))"

text \<open>What the driver tells the user interface.\<close>

datatype callback = OnEnrolled string string | OnClaimed string | OnError string

record pair_host =
  ph_host :: host
  ph_yaml :: yaml
  ph_key_io :: save_io
  ph_config_io :: save_io
  ph_credentials_io :: save_io
  ph_mkdir :: bool
  ph_marker_io :: save_io
  ph_marker :: string
  ph_random :: "string option"
  ph_info :: "SystemInfo option"
  ph_goarch :: string
  ph_enroll :: "EnrollRequest \<Rightarrow> EnrollResponse http"
  ph_rounds :: "claim_round list"

text \<open>Its callbacks, the client it polls with, if it gets there, and the files; the wait may not end.\<close>

definition driver_Run :: "pair_host \<Rightarrow> string \<Rightarrow> string \<Rightarrow> string \<Rightarrow> string \<Rightarrow> files \<Rightarrow> callback list \<times> Client option \<times> files" where
  "driver_Run p configPath panelURL0 passphrase displayName fs =
     (let h = ph_host p; panelURL = NormalizePanelURL panelURL0 in
      case LoadOrCreate h (ph_key_io p) (ph_random p) (DefaultKeyPath h) fs of
        (Inl e, fs1) \<Rightarrow> ([OnError (''load keypair: '' @ e)], None, fs1)
      | (Inr k, fs1) \<Rightarrow>
          (case Enroll (ph_enroll p (enroll_request k passphrase h
                   (buildSystemInfo (ph_info p) (ho_Hostname h) (ho_GOOS h) (ph_goarch p) displayName)))
                 (SetKeyPair k (NewClient panelURL)) of
             (Inl e, _) \<Rightarrow> ([OnError (''enroll: '' @ e)], None, fs1)
           | (Inr resp, c) \<Rightarrow>
               (case WaitForClaim (ph_rounds p) of
                  (e, shown) \<Rightarrow>
                    let begun = OnEnrolled (en_PairCode resp) (en_PairCodeFormatted resp) #
                          map (\<lambda>(code, formatted, _). OnEnrolled code formatted) shown
                    in (case e of
                          Some (Claimed creds) \<Rightarrow>
                            (case driver_save h (ph_yaml p) (ph_config_io p) (ph_credentials_io p) (ph_mkdir p) configPath panelURL
                                    (as_result creds) fs1 of
                               (Inl _, fs2) \<Rightarrow> (begun @ [OnError ''save credentials''], Some c, fs2)
                             | (Inr _, fs2) \<Rightarrow> (begun @ [OnClaimed (cd_Name creds)], Some c, fs2))
                        | _ \<Rightarrow> (begun, Some c, fs1)))))"

subsection \<open>The command\<close>

datatype pair_error = NoPassphrase | PassphraseTooShort | NoServer | PairFailed string | PairSaveFailed cli_error

text \<open>\<open>promptPassphrase\<close>: a line of a pipe, or two entries at a terminal.\<close>

definition promptPassphrase :: "bool \<Rightarrow> string option \<Rightarrow> string option \<times> string option \<Rightarrow> string option" where
  "promptPassphrase tty line entries =
     (if \<not> tty
      then map_option (\<lambda>l. rev (dropWhile (\<lambda>c. c = CHR 0x0D \<or> c = CHR 0x0A) (rev l))) line
      else (case entries of (Some a, Some b) \<Rightarrow> if a = b then Some a else None | _ \<Rightarrow> None))"

text \<open>The marker that a passphrase was set: a random text, not the passphrase.\<close>

definition marker_file :: "host \<Rightarrow> string" where
  "marker_file h =
     (if on_windows h then program_file h [''ServerKit'', ''Agent'', ''passphrase.set''] else ''/etc/serverkit-agent/passphrase.set'')"

definition writePassphraseMarker :: "host \<Rightarrow> save_io \<Rightarrow> string \<Rightarrow> files \<Rightarrow> files" where
  "writePassphraseMarker h io random fs =
     (if si_mkdir io then snd (WriteFile (si_write io) (marker_file h) random fs) else fs)"

definition resolve_passphrase :: "string \<Rightarrow> bool \<Rightarrow> string \<Rightarrow> string option \<Rightarrow> pair_error + string" where
  "resolve_passphrase flag headless from_env prompted =
     (let p = (if flag = [] \<and> headless then from_env else flag) in
      if flag = [] \<and> headless \<and> from_env = [] then Inl NoPassphrase
      else (case (if p = [] then prompted else Some p) of
              None \<Rightarrow> Inl NoPassphrase
            | Some q \<Rightarrow> if length q < 4 then Inl PassphraseTooShort else Inr q))"

text \<open>
  \<open>runPair\<close>: the outcome, \<open>None\<close> while it waits, the client it polls with, and the files. Unlike the
  driver it never gives the client its keypair.
\<close>

definition runPair :: "pair_host \<Rightarrow> string \<Rightarrow> string \<Rightarrow> string \<Rightarrow> string \<Rightarrow> bool \<Rightarrow> bool \<Rightarrow> string \<Rightarrow> string option \<Rightarrow> files \<Rightarrow>
    (pair_error + Credentials option) option \<times> Client option \<times> files" where
  "runPair p version cfgFile serverURL flag headless setOnly from_env prompted fs =
     (let h = ph_host p in
      case resolve_passphrase flag headless from_env prompted of
        Inl e \<Rightarrow> (Some (Inl e), None, fs)
      | Inr passphrase \<Rightarrow>
          let fs1 = writePassphraseMarker h (ph_marker_io p) (ph_marker p) fs in
          if setOnly then (Some (Inr None), None, fs1)
          else if serverURL = [] then (Some (Inl NoServer), None, fs1)
          else (case LoadOrCreate h (ph_key_io p) (ph_random p) (DefaultKeyPath h) fs1 of
            (Inl e, fs2) \<Rightarrow> (Some (Inl (PairFailed e)), None, fs2)
          | (Inr k, fs2) \<Rightarrow>
              (case Enroll (ph_enroll p (enroll_request k passphrase h
                     (buildSystemInfo (ph_info p) (ho_Hostname h) (ho_GOOS h) (ph_goarch p) [] @ [(''agent_version'', JStr version)])))
                   (NewClient serverURL) of
                 (Inl e, _) \<Rightarrow> (Some (Inl (PairFailed e)), None, fs2)
               | (Inr resp, c) \<Rightarrow>
                   (case fst (WaitForClaim (ph_rounds p)) of
                      None \<Rightarrow> (None, Some c, fs2)
                    | Some ClaimCancelled \<Rightarrow> (Some (Inl (PairFailed ''waiting for claim'')), Some c, fs2)
                    | Some (Claimed creds) \<Rightarrow>
                        (case pair_save h (ph_yaml p) (ph_config_io p) (ph_credentials_io p) cfgFile serverURL (as_result creds) fs2 of
                           (Inl e, fs3) \<Rightarrow> (Some (Inl (PairSaveFailed e)), Some c, fs3)
                         | (Inr _, fs3) \<Rightarrow> (Some (Inr (Some creds)), Some c, fs3))))))"

subsection \<open>The keypair is kept\<close>

lemma LoadKey_saved:
  assumes "SaveKey h io (key_of priv) path fs = (Inr (), fs')" "length priv = 64" "si_nonce io = Some n" "length n = 12"
    "same_machine h h'"
  shows "LoadKey h' (key_file h path) fs' = Inr (key_of priv)"
proof -
  obtain e where e: "encryptCredentials h (Some n) priv = Inr e" "fs' = fs(key_file h path := Contents e)"
    using assms(1,3) by (auto simp: SaveKey_def EncryptBytes_def key_of_def WriteFile_def Let_def
      split: if_splits sum.splits file_write.splits)
  from decrypt_encrypt [OF e(1) assms(4,5)] show ?thesis
    using e(2) assms(2) by (simp add: LoadKey_def DecryptBytes_def decryptCredentials_def)
qed

lemma key_file_idem: "key_file h' (key_file h path) = key_file h path"
proof -
  have "DefaultKeyPath h \<noteq> []" by (simp add: DefaultKeyPath_def program_file_def)
  then show ?thesis by (simp add: key_file_def)
qed

lemma SaveKey_path: "SaveKey h io k (key_file h path) fs = SaveKey h io k path fs"
  by (simp add: SaveKey_def key_file_idem)

text \<open>
  C40. The keypair that an agent makes when it has no key file and that it could save is the one it
  loads from then on, whichever user of the machine runs it (that may read the file, whose mode is not
  modelled), and the file is not written again: the fingerprint, which the operator compares, does
  not change.
\<close>

theorem keypair_kept:
  assumes "fs (key_file h path) = NotExist" "LoadOrCreate h io (Some priv) path fs = (Inr k, fs')"
    and "length priv = 64" "si_nonce io = Some n" "length n = 12" "same_machine h h'"
  shows "k = key_of priv \<and> LoadOrCreate h' io' random (key_file h path) fs' = (Inr k, fs')"
proof -
  have s: "SaveKey h io (key_of priv) path fs = (Inr (), fs')" "k = key_of priv"
    using assms(1,2) by (auto simp: LoadOrCreate_def Generate_def SaveKey_path split: prod.splits sum.splits)
  have l: "LoadKey h' (key_file h path) fs' = Inr (key_of priv)" by (rule LoadKey_saved [OF s(1) assms(3-6)])
  then have "fs' (key_file h path) \<noteq> NotExist" by (auto simp: LoadKey_def)
  then have "LoadOrCreate h' io' random (key_file h path) fs' = (LoadKey h' (key_file h path) fs', fs')"
    by (cases "fs' (key_file h path)") (simp_all add: LoadOrCreate_def key_file_idem)
  then show ?thesis using l s(2) by simp
qed

definition demo_priv :: string where "demo_priv = replicate 64 CHR ''k''"

theorem keypair_kept_witness:
  "\<exists>fs'. LoadOrCreate (example_host ''juanh'') example_io (Some demo_priv) [] (\<lambda>_. NotExist) = (Inr (key_of demo_priv), fs') \<and>
     LoadOrCreate (example_host ''SYSTEM'') example_io None (DefaultKeyPath (example_host ''juanh'')) fs' =
       (Inr (key_of demo_priv), fs')"
proof -
  let ?h = "example_host ''juanh''"
  have n: "si_nonce example_io = Some (replicate 12 CHR ''n'')" "length (replicate 12 CHR ''n'') = 12" "length demo_priv = 64"
    by (simp_all add: example_io_def demo_priv_def)
  have "int (length demo_priv) \<le> gcm_max" by (simp add: demo_priv_def gcm_max_def)
  then obtain e where "EncryptBytes ?h (si_nonce example_io) demo_priv = Inr e"
    by (simp add: EncryptBytes_def encryptCredentials_def n(1) gcm_seal_def Let_def)
  then obtain fs' where l: "LoadOrCreate ?h example_io (Some demo_priv) [] (\<lambda>_. NotExist) = (Inr (key_of demo_priv), fs')"
    by (simp add: LoadOrCreate_def Generate_def SaveKey_def key_of_def WriteFile_def example_io_def Let_def)
  from keypair_kept [OF _ l n(3,1,2) example_facts(6), of "''SYSTEM''" example_io None] l
  show ?thesis by (intro exI [of _ fs']) (simp add: key_file_def)
qed

subsection \<open>What a claim needs\<close>

lemma Poll_claimed:
  "Poll a = Inr (Some c) \<Longrightarrow>
     \<exists>status err resp. a = Answered status False err (Some resp) \<and> status < 400 \<and> pr_Status resp = ''claimed'' \<and>
       pr_Credentials resp = Some c"
  unfolding Poll_def do_request_def Let_def by (auto split: http.splits if_splits option.splits)

lemma WaitForClaim_claimed:
  "fst (WaitForClaim rs) = Some (Claimed c) \<Longrightarrow> \<exists>r \<in> set rs. Poll (cr_poll r) = Inr (Some c)"
  by (induction rs) (auto split: if_splits sum.splits option.splits prod.splits)

text \<open>The configuration a pairing starts from: the one of the file, or the default one if that does not load.\<close>

definition base_config :: "host \<Rightarrow> yaml \<Rightarrow> save_io \<Rightarrow> string \<Rightarrow> files \<Rightarrow> Config" where
  "base_config h y io f fs = (case fst (Load h y io f fs) of Inr c \<Rightarrow> c | Inl _ \<Rightarrow> Default_config h)"

lemma driver_save_saved:
  assumes "driver_save h y io io2 mk f url creds fs = (Inr u, fs2)"
  shows "leaves h y io io2 (config_path h f) (snd (Load h y io f fs)) fs2
           (take_identity h [] (socket_url (trim_suffix url ''/'') @ ''/agent'') creds (base_config h y io f fs))"
  using assms by (cases "Load h y io f fs")
    (auto simp: driver_save_def base_config_def split: if_splits intro!: save_identity_leaves)

lemma LoadOrCreate_frame: "LoadOrCreate h io random path fs = (r, fs') \<Longrightarrow> q \<noteq> key_file h path \<Longrightarrow> fs' q = fs q"
  by (auto simp: LoadOrCreate_def key_file_idem SaveKey_def WriteFile_def Let_def
      split: file_read.splits sum.splits if_splits prod.splits file_write.splits)

definition proves_possession :: "(string \<Rightarrow> string \<Rightarrow> string) \<Rightarrow> KeyPair \<Rightarrow> Client \<Rightarrow> bool" where
  "proves_possession sign k c \<longleftrightarrow>
     (''X-Enrollment-Signature'', b64_encode (sign (kp_Private k) (cl_EnrollmentID c))) \<in> set (poll_headers sign c)"

lemma Enroll_keypair: "Enroll a c = (Inr resp, c') \<Longrightarrow> cl_keypair c' = cl_keypair c \<and> cl_EnrollmentID c' = en_EnrollmentID resp"
  by (auto simp: Enroll_def split: sum.splits)

text \<open>How the driver got to poll, and what it then did with the files.\<close>

lemma driver_Run_polling:
  assumes "driver_Run p f url pass name fs = (cbs, Some c, fs')"
  shows "\<exists>k fs1. LoadOrCreate (ph_host p) (ph_key_io p) (ph_random p) (DefaultKeyPath (ph_host p)) fs = (Inr k, fs1) \<and>
     cl_keypair c = Some k \<and>
     (fs' = fs1 \<and> (\<forall>n. OnClaimed n \<notin> set cbs) \<or>
      (\<exists>creds res. fst (WaitForClaim (ph_rounds p)) = Some (Claimed creds) \<and>
         driver_save (ph_host p) (ph_yaml p) (ph_config_io p) (ph_credentials_io p) (ph_mkdir p) f (NormalizePanelURL url)
           (as_result creds) fs1 = (res, fs') \<and> (\<forall>n. OnClaimed n \<in> set cbs \<longrightarrow> res = Inr () \<and> n = cd_Name creds)))"
proof -
  obtain k fs1 where k: "LoadOrCreate (ph_host p) (ph_key_io p) (ph_random p) (DefaultKeyPath (ph_host p)) fs = (Inr k, fs1)"
    using assms unfolding driver_Run_def Let_def by (auto split: prod.splits sum.splits)
  let ?q = "enroll_request k pass (ph_host p)
      (buildSystemInfo (ph_info p) (ho_Hostname (ph_host p)) (ho_GOOS (ph_host p)) (ph_goarch p) name)"
  obtain resp c0 where e: "Enroll (ph_enroll p ?q) (SetKeyPair k (NewClient (NormalizePanelURL url))) = (Inr resp, c0)"
    using assms k unfolding driver_Run_def Let_def by (auto split: prod.splits sum.splits)
  obtain ce shown where w: "WaitForClaim (ph_rounds p) = (ce, shown)" by (rule prod.exhaust)
  let ?begun = "OnEnrolled (en_PairCode resp) (en_PairCodeFormatted resp) #
      map (\<lambda>(code, formatted, _). OnEnrolled code formatted) shown"
  have b: "OnClaimed n \<notin> set ?begun" for n by auto
  have c: "c = c0" "cl_keypair c = Some k"
    using assms k e w Enroll_keypair [OF e] unfolding driver_Run_def Let_def
    by (auto simp: SetKeyPair_def split: prod.splits sum.splits option.splits claim_end.splits)
  show ?thesis
  proof (cases "\<exists>creds. ce = Some (Claimed creds)")
    case True
    then obtain creds where ce: "ce = Some (Claimed creds)" by blast
    obtain res fs2 where s: "driver_save (ph_host p) (ph_yaml p) (ph_config_io p) (ph_credentials_io p) (ph_mkdir p) f
        (NormalizePanelURL url) (as_result creds) fs1 = (res, fs2)" by (rule prod.exhaust)
    have "fs' = fs2 \<and> (\<forall>n. OnClaimed n \<in> set cbs \<longrightarrow> res = Inr () \<and> n = cd_Name creds)"
      using assms k e w ce s b unfolding driver_Run_def Let_def by (cases res) auto
    then show ?thesis using k c(2) w ce s by (intro exI [of _ k] exI [of _ fs1]) auto
  next
    case False
    then have "fs' = fs1 \<and> cbs = ?begun"
      using assms k e w unfolding driver_Run_def Let_def by (auto split: option.splits claim_end.splits)
    then show ?thesis using k c(2) b by blast
  qed
qed

text \<open>
  C26. The console's pairing. A poll proves possession of the agent's own key whenever the panel's answer to
  the enrollment had an id; for an empty id the code polls without any proof. Getting the key writes no
  file but the key's. After that nothing is written unless a poll was answered that the enrollment was
  claimed, with credentials, and then only what saving these leaves. The interface is told of a claim
  only once it was saved, under the name of these credentials: the file then holds the configuration
  the pairing started from with the identity replaced, so that the permission level is still the one of
  that configuration. That is the file's own if it loads, and the default one, with level full, if
  it does not. The \<open>pair\<close> command gives its client no key, so that its polls prove nothing.
\<close>

theorem pairing_claims:
  assumes "driver_Run p f url pass name fs = (cbs, Some c, fs')"
  defines "h \<equiv> ph_host p" and "y \<equiv> ph_yaml p" and "io \<equiv> ph_config_io p" and "io2 \<equiv> ph_credentials_io p"
  shows "\<exists>k fs1. LoadOrCreate h (ph_key_io p) (ph_random p) (DefaultKeyPath h) fs = (Inr k, fs1) \<and>
     (\<forall>q. q \<noteq> key_file h (DefaultKeyPath h) \<longrightarrow> fs1 q = fs q) \<and>
     (if cl_EnrollmentID c \<noteq> [] then proves_possession sign k c else poll_headers sign c = enrollHeaders c) \<and>
     (fs' \<noteq> fs1 \<or> (\<exists>n. OnClaimed n \<in> set cbs) \<longrightarrow>
       (\<exists>creds. \<exists>r \<in> set (ph_rounds p). \<exists>status err resp. cr_poll r = Answered status False err (Some resp) \<and> status < 400 \<and>
          pr_Status resp = ''claimed'' \<and> pr_Credentials resp = Some creds \<and>
          fs' = snd (driver_save h y io io2 (ph_mkdir p) f (NormalizePanelURL url) (as_result creds) fs1) \<and>
          (\<forall>n. OnClaimed n \<in> set cbs \<longrightarrow> n = cd_Name creds \<and>
             (\<exists>conf. leaves h y io io2 (config_path h f) (snd (Load h y io f fs1)) fs' conf \<and>
                agent_ID (Agent conf) = cd_AgentID creds \<and>
                PermissionLevel conf = PermissionLevel (base_config h y io f fs1))))) \<and>
     (\<forall>q version serverURL flag headless setOnly from_env prompted out c2 fs3.
        runPair q version f serverURL flag headless setOnly from_env prompted fs = (out, Some c2, fs3) \<longrightarrow>
        poll_headers sign c2 = enrollHeaders c2)"
proof -
  from driver_Run_polling [OF assms(1)] obtain k fs1 where
    k: "LoadOrCreate h (ph_key_io p) (ph_random p) (DefaultKeyPath h) fs = (Inr k, fs1)" "cl_keypair c = Some k"
    and out: "fs' = fs1 \<and> (\<forall>n. OnClaimed n \<notin> set cbs) \<or>
      (\<exists>creds res. fst (WaitForClaim (ph_rounds p)) = Some (Claimed creds) \<and>
         driver_save h y io io2 (ph_mkdir p) f (NormalizePanelURL url) (as_result creds) fs1 = (res, fs') \<and>
         (\<forall>n. OnClaimed n \<in> set cbs \<longrightarrow> res = Inr () \<and> n = cd_Name creds))"
    unfolding h_def y_def io_def io2_def by blast
  have poss: "if cl_EnrollmentID c \<noteq> [] then proves_possession sign k c else poll_headers sign c = enrollHeaders c"
    using k(2) by (simp add: proves_possession_def poll_headers_def)
  have cmd: "poll_headers sign c2 = enrollHeaders c2"
    if r: "runPair q version f serverURL flag headless setOnly from_env prompted fs = (out, Some c2, fs3)"
    for q version serverURL flag headless setOnly from_env prompted out c2 fs3
  proof -
    obtain a resp where "Enroll a (NewClient serverURL) = (Inr resp, c2)"
      using r unfolding runPair_def Let_def by (auto split: sum.splits prod.splits option.splits claim_end.splits if_splits)
    from Enroll_keypair [OF this] show ?thesis by (simp add: NewClient_def poll_headers_def)
  qed
  have claimed: "\<exists>creds. \<exists>r \<in> set (ph_rounds p). \<exists>status err resp. cr_poll r = Answered status False err (Some resp) \<and> status < 400 \<and>
          pr_Status resp = ''claimed'' \<and> pr_Credentials resp = Some creds \<and>
          fs' = snd (driver_save h y io io2 (ph_mkdir p) f (NormalizePanelURL url) (as_result creds) fs1) \<and>
          (\<forall>n. OnClaimed n \<in> set cbs \<longrightarrow> n = cd_Name creds \<and>
             (\<exists>conf. leaves h y io io2 (config_path h f) (snd (Load h y io f fs1)) fs' conf \<and>
                agent_ID (Agent conf) = cd_AgentID creds \<and>
                PermissionLevel conf = PermissionLevel (base_config h y io f fs1)))"
    if c: "fs' \<noteq> fs1 \<or> (\<exists>n. OnClaimed n \<in> set cbs)"
  proof -
    from c out obtain creds res where cr: "fst (WaitForClaim (ph_rounds p)) = Some (Claimed creds)"
      and sv: "driver_save h y io io2 (ph_mkdir p) f (NormalizePanelURL url) (as_result creds) fs1 = (res, fs')"
      and ok: "\<forall>n. OnClaimed n \<in> set cbs \<longrightarrow> res = Inr () \<and> n = cd_Name creds"
      by blast
    from WaitForClaim_claimed [OF cr] obtain r where r: "r \<in> set (ph_rounds p)" "Poll (cr_poll r) = Inr (Some creds)" by blast
    from Poll_claimed [OF r(2)] obtain status err resp where a: "cr_poll r = Answered status False err (Some resp)" "status < 400"
      "pr_Status resp = ''claimed''" "pr_Credentials resp = Some creds" by blast
    let ?conf = "take_identity h [] (socket_url (trim_suffix (NormalizePanelURL url) ''/'') @ ''/agent'') (as_result creds)
      (base_config h y io f fs1)"
    have conf: "agent_ID (Agent ?conf) = cd_AgentID creds" "PermissionLevel ?conf = PermissionLevel (base_config h y io f fs1)"
      by (simp_all add: take_identity_def as_result_def Let_def PermissionLevel_def)
    have lev: "\<exists>conf. leaves h y io io2 (config_path h f) (snd (Load h y io f fs1)) fs' conf \<and>
        agent_ID (Agent conf) = cd_AgentID creds \<and> PermissionLevel conf = PermissionLevel (base_config h y io f fs1)"
      if "res = Inr ()"
      using driver_save_saved [OF sv [unfolded that]] conf by blast
    have snd: "fs' = snd (driver_save h y io io2 (ph_mkdir p) f (NormalizePanelURL url) (as_result creds) fs1)" by (simp add: sv)
    show ?thesis
      by (rule exI [of _ creds], rule bexI [OF _ r(1)], rule exI [of _ status], rule exI [of _ err], rule exI [of _ resp],
        intro conjI a snd allI impI; use ok lev in blast)
  qed
  show ?thesis using k(1) poss claimed cmd LoadOrCreate_frame [OF k(1)]
    by (intro exI [of _ k] exI [of _ fs1] conjI impI allI) simp_all
qed

definition demo_pairing :: pair_host where
  "demo_pairing =
     \<lparr>ph_host = example_host ''juanh'', ph_yaml = example_yaml, ph_key_io = example_io, ph_config_io = example_io,
      ph_credentials_io = example_io, ph_mkdir = True,
      ph_marker_io = example_io, ph_marker = ''m'', ph_random = Some demo_priv,
      ph_info = None, ph_goarch = ''amd64'',
      ph_enroll = \<lambda>_. Answered 200 False [] (Some (no_enrollment\<lparr>en_EnrollmentID := ''e-1''\<rparr>)),
      ph_rounds = [\<lparr>cr_done = False, cr_rotate = None,
        cr_poll = Answered 200 False [] (Some \<lparr>pr_Status = ''claimed'',
          pr_Credentials = Some \<lparr>cd_AgentID = ''a-1'', cd_Name = ''web-1'', cd_APIKey = [], cd_APISecret = []\<rparr>\<rparr>),
        cr_done_after = False\<rparr>]\<rparr>"

lemma demo_key: "\<exists>fs'. LoadOrCreate (example_host u) example_io (Some demo_priv) (DefaultKeyPath (example_host u)) (\<lambda>_. NotExist) =
    (Inr (key_of demo_priv), fs')"
proof -
  have "int (length demo_priv) \<le> gcm_max" by (simp add: demo_priv_def gcm_max_def)
  then obtain e where "EncryptBytes (example_host u) (si_nonce example_io) demo_priv = Inr e"
    by (simp add: EncryptBytes_def encryptCredentials_def example_facts(3) gcm_seal_def Let_def)
  then show ?thesis
    by (simp add: LoadOrCreate_def Generate_def SaveKey_def key_of_def WriteFile_def example_io_def Let_def)
qed

theorem pairing_claims_witness:
  "\<exists>cbs c fs'. driver_Run demo_pairing ''c.yaml'' ''p'' ''abcd'' [] (\<lambda>_. NotExist) = (cbs, Some c, fs') \<and> OnClaimed ''web-1'' \<in> set cbs \<and>
     (\<exists>k. proves_possession (\<lambda>_ m. m) k c)"
proof -
  obtain fs1 where k: "LoadOrCreate (example_host ''juanh'') example_io (Some demo_priv)
      (DefaultKeyPath (example_host ''juanh'')) (\<lambda>_. NotExist) = (Inr (key_of demo_priv), fs1)" using demo_key by blast
  define u where "u = NormalizePanelURL ''p''"
  define cr where "cr = as_result \<lparr>cd_AgentID = ''a-1'', cd_Name = ''web-1'', cd_APIKey = [], cd_APISecret = []\<rparr>"
  have "fst (driver_save (example_host ''juanh'') example_yaml example_io example_io True ''c.yaml'' u cr fs1) = Inr ()"
    by (simp add: driver_save_def save_identity_def Save_def SaveCredentials_def take_identity_def config_path_def cr_def
        as_result_def example_yaml_def WriteFile_def example_facts Let_def split: prod.split)
  then obtain fs2 where d: "driver_save (example_host ''juanh'') example_yaml example_io example_io True ''c.yaml'' u cr fs1 =
      (Inr (), fs2)" by (metis prod.collapse)
  let ?e = "no_enrollment\<lparr>en_EnrollmentID := ''e-1''\<rparr>"
  define c where "c = snd (Enroll (Answered 200 False [] (Some ?e)) (SetKeyPair (key_of demo_priv) (NewClient u)))"
  have e: "Enroll (Answered 200 False [] (Some ?e)) (SetKeyPair (key_of demo_priv) (NewClient u)) = (Inr ?e, c)"
    and id: "cl_EnrollmentID c = ''e-1''"
    by (simp_all add: c_def Enroll_def do_request_def)
  have w: "WaitForClaim (ph_rounds demo_pairing) =
      (Some (Claimed \<lparr>cd_AgentID = ''a-1'', cd_Name = ''web-1'', cd_APIKey = [], cd_APISecret = []\<rparr>), [])"
    by (simp add: demo_pairing_def Poll_def do_request_def rotated_def)
  have p: "ph_host demo_pairing = example_host ''juanh''" "ph_key_io demo_pairing = example_io"
    "ph_random demo_pairing = Some demo_priv" "ph_enroll demo_pairing = (\<lambda>_. Answered 200 False [] (Some ?e))"
    "ph_yaml demo_pairing = example_yaml" "ph_config_io demo_pairing = example_io"
    "ph_credentials_io demo_pairing = example_io" "ph_mkdir demo_pairing"
    by (simp_all add: demo_pairing_def)
  have r: "driver_Run demo_pairing ''c.yaml'' ''p'' ''abcd'' [] (\<lambda>_. NotExist) = ([OnEnrolled [] [], OnClaimed ''web-1''], Some c, fs2)"
    unfolding driver_Run_def Let_def p k prod.case sum.case u_def [symmetric] e w cr_def [symmetric]
    by (simp add: d p(8) cr_def [symmetric] no_enrollment_def)
  from pairing_claims [OF r, of "\<lambda>_ m. m"] id have "\<exists>k. proves_possession (\<lambda>_ m. m) k c" by (elim exE conjE) auto
  then show ?thesis by - (rule exI, rule exI [of _ c], rule exI, rule conjI [OF r], rule conjI, simp_all)
qed

end
