(* ===== verification/Wizard.thy ===== *)
theory Wizard
  imports Pairing
begin

text \<open>
  The pairing wizard of the console, \<open>internal/agentui/pairer.go\<close>, with the connection strings of
  \<open>internal/connstring\<close> and the Windows service control it uses: a state the page polls, written by the
  HTTP handlers and by the flows they start. What runs under the lock is one step; flows interleave
  with each other and with the handlers. Parsing a URL, the network and \<open>sc.exe\<close> are parameters.
\<close>

subsection \<open>Connection strings\<close>

record parsed_url =
  pu_Scheme :: string
  pu_Host :: string
  pu_Path :: string
  pu_Query :: "(string \<times> string) list"

datatype conn_error = EmptyString | UnknownVersion | NotAURL | MissingHost | MissingToken | SlashInToken

record Decoded =
  de_URL :: string
  de_Token :: string
  de_ExpiresAt :: "int option"
  de_ExpiresAtRaw :: string

definition query_get :: "(string \<times> string) list \<Rightarrow> string \<Rightarrow> string" where
  "query_get q k = (case map_of q k of Some v \<Rightarrow> v | None \<Rightarrow> [])"

definition panel_scheme :: "parsed_url \<Rightarrow> string" where
  "panel_scheme u = (if query_get (pu_Query u) ''insecure'' \<in> {''1'', ''true'', ''yes''} then ''http'' else ''https'')"

definition Decode :: "(string \<Rightarrow> parsed_url option) \<Rightarrow> (string \<Rightarrow> int option) \<Rightarrow> string \<Rightarrow> conn_error + Decoded" where
  "Decode parse_url parse_time s0 =
     (let s = trim_space s0 in
      if s = [] then Inl EmptyString
      else if \<not> prefix ''sk1://'' s then Inl UnknownVersion
      else case parse_url s of
        None \<Rightarrow> Inl NotAURL
      | Some u \<Rightarrow>
          if pu_Scheme u \<noteq> ''sk1'' then Inl UnknownVersion
          else if pu_Host u = [] then Inl MissingHost
          else (let token = trim_prefix (pu_Path u) ''/'' in
                if token = [] then Inl MissingToken
                else if CHR ''/'' \<in> set token then Inl SlashInToken
                else (let exp = query_get (pu_Query u) ''exp'' in
                      Inr \<lparr>de_URL = panel_scheme u @ ''://'' @ pu_Host u, de_Token = token,
                           de_ExpiresAt = (if exp = [] then None else parse_time exp), de_ExpiresAtRaw = exp\<rparr>)))"

subsection \<open>The service\<close>

text \<open>One run of \<open>sc.exe query\<close>: whether it succeeded and its output.\<close>

type_synonym sc_query = "bool \<times> string"

definition isServiceInstalled :: "sc_query \<Rightarrow> bool" where
  "isServiceInstalled q \<longleftrightarrow> fst q \<or> \<not> contains (snd q) ''1060''"

text \<open>The queries that fit before the deadline.\<close>

definition waitForService :: "string \<Rightarrow> string \<Rightarrow> sc_query list \<Rightarrow> string option" where
  "waitForService state timeout qs =
     (if list_ex (\<lambda>q. fst q \<and> contains (snd q) state) qs then None
      else Some (''service did not reach '' @ state @ '' within '' @ timeout @ '' (last sc query: '' @
             trim_space (if qs = [] then [] else snd (last qs)) @ '')''))"

definition waitForServiceRunning :: "sc_query list \<Rightarrow> string option" where
  "waitForServiceRunning = waitForService ''RUNNING'' ''20s''"

definition waitForServiceStopped :: "sc_query list \<Rightarrow> string option" where
  "waitForServiceStopped = waitForService ''STOPPED'' ''15s''"

text \<open>What the service manager answers after a pairing; an error of \<open>sc.exe\<close> is its text.\<close>

record service_host =
  sv_query :: sc_query
  sv_start :: "string option"
  sv_running :: "sc_query list"

subsection \<open>The state\<close>

record pairer =
  p_state :: string
  p_code :: string
  p_codeFmt :: string
  p_pass :: string
  p_panelURL :: string
  p_server :: string
  p_errMsg :: string
  p_cancel :: "nat option"            \<comment> \<open>the flow that it cancels\<close>

definition newPairer :: pairer where
  "newPairer = \<lparr>p_state = ''idle'', p_code = [], p_codeFmt = [], p_pass = [], p_panelURL = [], p_server = [], p_errMsg = [],
     p_cancel = None\<rparr>"

definition pair_OnEnrolled :: "string \<Rightarrow> string \<Rightarrow> pairer \<Rightarrow> pairer" where
  "pair_OnEnrolled code formatted p = p\<lparr>p_state := ''waiting'', p_code := code, p_codeFmt := formatted\<rparr>"

definition pair_OnClaimed :: "string \<Rightarrow> pairer \<Rightarrow> pairer" where
  "pair_OnClaimed name p = p\<lparr>p_state := ''claimed'', p_server := (if name \<noteq> [] then name else p_server p)\<rparr>"

definition failConnString :: "string \<Rightarrow> pairer \<Rightarrow> pairer" where
  "failConnString msg p = p\<lparr>p_state := ''error'', p_errMsg := msg\<rparr>"

definition pair_OnError :: "bool \<Rightarrow> string \<Rightarrow> pairer \<Rightarrow> pairer" where
  "pair_OnError canceled msg p = (if canceled then p else p\<lparr>p_state := ''error'', p_errMsg := msg\<rparr>)"

definition start_failed :: "string \<Rightarrow> string" where
  "start_failed e = ''Pairing succeeded but the agent service failed to start: '' @ e @ [CHR 0x0A, CHR 0x0A] @
     ''Try: restart the machine, or open Actions '' @ [CHR 0xE2, CHR 0x86, CHR 0x92] @ '' Restart agent.''"

definition not_running :: "string \<Rightarrow> string" where
  "not_running e = ''Pairing succeeded but the agent service didn't come up within 20s. '' @
     ''This usually means another agent process is holding port 19780 '' @ [CHR 0xE2, CHR 0x80, CHR 0x94] @ '' '' @
     ''try ending all serverkit-agent.exe processes from Task Manager and reopen the wizard.'' @
     [CHR 0x0A, CHR 0x0A] @ ''Detail: '' @ e"

definition await_running :: "service_host \<Rightarrow> pairer \<Rightarrow> pairer" where
  "await_running v p =
     (case waitForServiceRunning (sv_running v) of None \<Rightarrow> p | Some e \<Rightarrow> failConnString (not_running e) p)"

text \<open>What follows a claim by a pairing code: the service is awaited even where there is none.\<close>

definition after_OnClaimed :: "service_host \<Rightarrow> pairer \<Rightarrow> pairer" where
  "after_OnClaimed v p =
     (if isServiceInstalled (sv_query v)
      then (case sv_start v of Some e \<Rightarrow> failConnString (start_failed e) p | None \<Rightarrow> await_running v p)
      else await_running v p)"

text \<open>What follows a registration by a connection string.\<close>

definition after_registration :: "service_host \<Rightarrow> pairer \<Rightarrow> pairer" where
  "after_registration v p =
     (if \<not> isServiceInstalled (sv_query v) then p
      else (case sv_start v of Some e \<Rightarrow> failConnString (start_failed e) p | None \<Rightarrow> await_running v p))"

subsection \<open>The flows\<close>

datatype stage =
    Enrolling string string string    \<comment> \<open>panel, passphrase, name\<close>
  | AwaitingClaim string
  | ClaimSaved string                 \<comment> \<open>the identity is on disk, its name\<close>
  | ClaimShown
  | Registering string string         \<comment> \<open>panel, token\<close>
  | Registered string registration_result
  | RegistrationSaved string
  | RegistrationShown
  | Ended

record flow =
  fl_stage :: stage
  fl_cancelled :: bool

text \<open>The console: its state, its flows as they were started, and the identities put on disk, by flow.\<close>

record wizard =
  wz_pairer :: pairer
  wz_flows :: "flow list"
  wz_saved :: "(nat \<times> registration_result) list"

definition new_wizard :: wizard where
  "new_wizard = \<lparr>wz_pairer = newPairer, wz_flows = [], wz_saved = []\<rparr>"

definition cancel_flow :: "nat option \<Rightarrow> flow list \<Rightarrow> flow list" where
  "cancel_flow c fs = (case c of None \<Rightarrow> fs | Some n \<Rightarrow> if n < length fs then fs[n := (fs ! n)\<lparr>fl_cancelled := True\<rparr>] else fs)"

text \<open>The critical section that replaces whatever flow is under way.\<close>

definition begin_flow :: "stage \<Rightarrow> string \<Rightarrow> string \<Rightarrow> string \<Rightarrow> wizard \<Rightarrow> wizard" where
  "begin_flow st pass panelURL server w =
     (let p = wz_pairer w; fs = cancel_flow (p_cancel p) (wz_flows w)
      in w\<lparr>wz_pairer := \<lparr>p_state = ''enrolling'', p_code = [], p_codeFmt = [], p_pass = pass, p_panelURL = panelURL,
             p_server = server, p_errMsg = [], p_cancel = Some (length fs)\<rparr>,
           wz_flows := fs @ [\<lparr>fl_stage = st, fl_cancelled = False\<rparr>]\<rparr>)"

definition handleStart :: "string \<Rightarrow> (string \<times> string) option \<Rightarrow> nat option list \<Rightarrow> wizard \<Rightarrow> int \<times> wizard" where
  "handleStart meth body random w =
     (if meth \<noteq> ''POST'' then (405, w)
      else (case body of
              None \<Rightarrow> (400, w)
            | Some (url, name) \<Rightarrow>
                if url = [] then (400, w)
                else (case GeneratePassphrase random of
                        None \<Rightarrow> (500, w)
                      | Some pass \<Rightarrow> (200, begin_flow (Enrolling url pass name) pass url name w))))"

definition handleState :: "string \<Rightarrow> wizard \<Rightarrow> int \<times> pairer option" where
  "handleState meth w = (if meth \<noteq> ''GET'' then (405, None) else (200, Some (wz_pairer w)))"

definition handleCancel :: "string \<Rightarrow> wizard \<Rightarrow> int \<times> wizard" where
  "handleCancel meth w =
     (if meth \<noteq> ''POST'' then (405, w)
      else (200, w\<lparr>wz_flows := cancel_flow (p_cancel (wz_pairer w)) (wz_flows w),
               wz_pairer := (wz_pairer w)\<lparr>p_state := ''idle'', p_code := [], p_codeFmt := [], p_pass := [], p_errMsg := []\<rparr>\<rparr>))"

definition handleConnectionString :: "(string \<Rightarrow> parsed_url option) \<Rightarrow> (string \<Rightarrow> int option) \<Rightarrow> string \<Rightarrow> string option \<Rightarrow>
    wizard \<Rightarrow> int \<times> wizard" where
  "handleConnectionString parse_url parse_time meth body w =
     (if meth \<noteq> ''POST'' then (405, w)
      else (case body of
              None \<Rightarrow> (400, w)
            | Some s \<Rightarrow>
                (case Decode parse_url parse_time s of
                   Inl _ \<Rightarrow> (400, w)
                 | Inr d \<Rightarrow>
                     let url = NormalizePanelURL (de_URL d)
                     in (200, begin_flow (Registering url (de_Token d)) [] url [] w))))"

text \<open>Flow \<open>n\<close> moves on, and writes the state.\<close>

definition move :: "nat \<Rightarrow> stage \<Rightarrow> (pairer \<Rightarrow> pairer) \<Rightarrow> wizard \<Rightarrow> wizard" where
  "move n st f w = w\<lparr>wz_flows := (wz_flows w)[n := (wz_flows w ! n)\<lparr>fl_stage := st\<rparr>], wz_pairer := f (wz_pairer w)\<rparr>"

definition save_by :: "nat \<Rightarrow> registration_result \<Rightarrow> wizard \<Rightarrow> wizard" where
  "save_by n r w = w\<lparr>wz_saved := wz_saved w @ [(n, r)]\<rparr>"

definition in_stage :: "wizard \<Rightarrow> nat \<Rightarrow> stage \<Rightarrow> bool" where
  "in_stage w n st \<longleftrightarrow> n < length (wz_flows w) \<and> fl_stage (wz_flows w ! n) = st"

definition cancelled :: "wizard \<Rightarrow> nat \<Rightarrow> bool" where
  "cancelled w n \<longleftrightarrow> n < length (wz_flows w) \<and> fl_cancelled (wz_flows w ! n)"

text \<open>
  One step: of a handler, of \<open>pairdriver.Run\<close> with its callbacks, or of \<open>runConnectionStringFlow\<close>. An
  error is a cancellation only if the flow was cancelled; an answer that arrives as a flow is cancelled
  is still used, and only the registration looks once more.
\<close>

inductive wizard_step :: "wizard \<Rightarrow> wizard \<Rightarrow> bool" where
  start: "wizard_step w (snd (handleStart meth body random w))"
| cancel: "wizard_step w (snd (handleCancel meth w))"
| conn_string: "wizard_step w (snd (handleConnectionString parse_url parse_time meth text w))"
| enrolled: "in_stage w n (Enrolling url pass name) \<Longrightarrow>
    wizard_step w (move n (AwaitingClaim (NormalizePanelURL url)) (pair_OnEnrolled code formatted) w)"
| enroll_failed: "in_stage w n (Enrolling url pass name) \<Longrightarrow> (canceled \<Longrightarrow> cancelled w n) \<Longrightarrow>
    wizard_step w (move n Ended (pair_OnError canceled msg) w)"
| code_rotated: "in_stage w n (AwaitingClaim url) \<Longrightarrow>
    wizard_step w (move n (AwaitingClaim url) (pair_OnEnrolled code formatted) w)"
| wait_cancelled: "in_stage w n (AwaitingClaim url) \<Longrightarrow> cancelled w n \<Longrightarrow> wizard_step w (move n Ended id w)"
| claim_saved: "in_stage w n (AwaitingClaim url) \<Longrightarrow>
    wizard_step w (save_by n (as_result creds) (move n (ClaimSaved (cd_Name creds)) id w))"
| claim_save_failed: "in_stage w n (AwaitingClaim url) \<Longrightarrow> wizard_step w (move n Ended (pair_OnError False msg) w)"
| claim_shown: "in_stage w n (ClaimSaved name) \<Longrightarrow> wizard_step w (move n ClaimShown (pair_OnClaimed name) w)"
| claim_service: "in_stage w n ClaimShown \<Longrightarrow> wizard_step w (move n Ended (after_OnClaimed v) w)"
| register_failed: "in_stage w n (Registering url token) \<Longrightarrow> wizard_step w (move n Ended (failConnString msg) w)"
| register_dropped: "in_stage w n (Registering url token) \<Longrightarrow> cancelled w n \<Longrightarrow> wizard_step w (move n Ended id w)"
| registered: "in_stage w n (Registering url token) \<Longrightarrow> \<not> cancelled w n \<Longrightarrow> wizard_step w (move n (Registered url r) id w)"
| registration_saved: "in_stage w n (Registered url r) \<Longrightarrow>
    wizard_step w (save_by n r (move n (RegistrationSaved (rr_Name r)) id w))"
| registration_save_failed: "in_stage w n (Registered url r) \<Longrightarrow> wizard_step w (move n Ended (failConnString msg) w)"
| registration_shown: "in_stage w n (RegistrationSaved name) \<Longrightarrow>
    wizard_step w (move n RegistrationShown (\<lambda>p. p\<lparr>p_state := ''claimed'', p_server := name\<rparr>) w)"
| registration_service: "in_stage w n RegistrationShown \<Longrightarrow> wizard_step w (move n Ended (after_registration v) w)"

inductive_cases wizard_stepE: "wizard_step w w'"

inductive wizard_reaches :: "wizard \<Rightarrow> bool" where
  new: "wizard_reaches new_wizard"
| next_step: "wizard_reaches w \<Longrightarrow> wizard_step w w' \<Longrightarrow> wizard_reaches w'"

inductive wizard_later :: "wizard \<Rightarrow> wizard \<Rightarrow> bool" where
  same: "wizard_later w w"
| later: "wizard_later w w' \<Longrightarrow> wizard_step w' w'' \<Longrightarrow> wizard_later w w''"

subsection \<open>What the state says\<close>

lemma move_simps [simp]:
  "wz_pairer (move n st f w) = f (wz_pairer w)" "wz_saved (move n st f w) = wz_saved w"
  "length (wz_flows (move n st f w)) = length (wz_flows w)"
  by (simp_all add: move_def)

lemma save_by_simps [simp]:
  "wz_pairer (save_by n r w) = wz_pairer w" "wz_saved (save_by n r w) = wz_saved w @ [(n, r)]"
  "wz_flows (save_by n r w) = wz_flows w"
  by (simp_all add: save_by_def)

lemma move_stage: "n < length (wz_flows w) \<Longrightarrow> fl_stage (wz_flows (move n st f w) ! k) = (if k = n then st else fl_stage (wz_flows w ! k))"
  by (simp add: move_def nth_list_update)

lemma move_cancelled [simp]: "cancelled (move n st f w) k = cancelled w k"
  by (cases "k = n") (auto simp: cancelled_def move_def)

lemma save_cancelled [simp]: "cancelled (save_by n r w) k = cancelled w k"
  by (simp add: cancelled_def)

lemma length_cancel_flow [simp]: "length (cancel_flow c fs) = length fs"
  by (auto simp: cancel_flow_def split: option.split)

lemma cancel_flow_stage [simp]: "fl_stage (cancel_flow c fs ! k) = fl_stage (fs ! k)"
  by (auto simp: cancel_flow_def nth_list_update split: option.split)

lemma cancel_flow_mono: "fl_cancelled (fs ! k) \<Longrightarrow> fl_cancelled (cancel_flow c fs ! k)"
  by (auto simp: cancel_flow_def nth_list_update split: option.split)

text \<open>What the page is shown.\<close>

definition shown_ok :: "pairer \<Rightarrow> bool" where
  "shown_ok p \<longleftrightarrow>
     (p_state p = ''idle'' \<longrightarrow> p_code p = [] \<and> p_codeFmt p = [] \<and> p_pass p = [] \<and> p_errMsg p = []) \<and>
     (p_state p = ''enrolling'' \<longrightarrow> p_code p = [] \<and> p_codeFmt p = [] \<and> p_errMsg p = [])"

lemma shown_ok_writes:
  "shown_ok (pair_OnEnrolled c f p)" "shown_ok p \<Longrightarrow> shown_ok (pair_OnError k e p)" "shown_ok (pair_OnClaimed n p)"
  "shown_ok (failConnString e p)" "shown_ok (p\<lparr>p_state := ''claimed'', p_server := n\<rparr>)"
  by (simp_all add: shown_ok_def pair_OnEnrolled_def pair_OnError_def pair_OnClaimed_def failConnString_def)

lemma shown_ok_service:
  "shown_ok p \<Longrightarrow> shown_ok (after_OnClaimed v p)" "shown_ok p \<Longrightarrow> shown_ok (after_registration v p)"
  by (auto simp: after_OnClaimed_def after_registration_def await_running_def shown_ok_writes split: option.split)

lemma shown_ok_handlers:
  "shown_ok (wz_pairer w) \<Longrightarrow> shown_ok (wz_pairer (snd (handleStart m b r w)))"
  "shown_ok (wz_pairer w) \<Longrightarrow> shown_ok (wz_pairer (snd (handleCancel m w)))"
  "shown_ok (wz_pairer w) \<Longrightarrow> shown_ok (wz_pairer (snd (handleConnectionString u t m x w)))"
  by (auto simp: handleStart_def handleCancel_def handleConnectionString_def begin_flow_def shown_ok_def Let_def
      split: option.split sum.split prod.split)

lemma shown_ok_step: "wizard_step w w' \<Longrightarrow> shown_ok (wz_pairer w) \<Longrightarrow> shown_ok (wz_pairer w')"
  by (erule wizard_stepE) (simp_all add: shown_ok_writes shown_ok_service shown_ok_handlers)

subsection \<open>What was saved\<close>

fun has_saved :: "stage \<Rightarrow> bool option" where
  "has_saved (Enrolling _ _ _) = Some False"
| "has_saved (AwaitingClaim _) = Some False"
| "has_saved (Registering _ _) = Some False"
| "has_saved (Registered _ _) = Some False"
| "has_saved (ClaimSaved _) = Some True"
| "has_saved ClaimShown = Some True"
| "has_saved (RegistrationSaved _) = Some True"
| "has_saved RegistrationShown = Some True"
| "has_saved Ended = None"

definition saved_by :: "wizard \<Rightarrow> nat \<Rightarrow> bool" where
  "saved_by w n \<longleftrightarrow> n \<in> fst ` set (wz_saved w)"

lemma saved_by_move: "saved_by (move n st f w) k = saved_by w k"
  by (simp add: saved_by_def)

definition saves_ok :: "wizard \<Rightarrow> bool" where
  "saves_ok w \<longleftrightarrow>
     distinct (map fst (wz_saved w)) \<and> (\<forall>n. saved_by w n \<longrightarrow> n < length (wz_flows w)) \<and>
     (\<forall>n < length (wz_flows w). \<forall>b. has_saved (fl_stage (wz_flows w ! n)) = Some b \<longrightarrow> saved_by w n = b) \<and>
     (p_state (wz_pairer w) = ''claimed'' \<longrightarrow> wz_saved w \<noteq> [])"

lemma saves_ok_begin:
  assumes "saves_ok w" "has_saved st = Some False"
  shows "saves_ok (begin_flow st pass url server w)"
  using assms unfolding saves_ok_def begin_flow_def saved_by_def Let_def
  by (auto simp: nth_append less_Suc_eq)

lemma saves_ok_handlers:
  "saves_ok w \<Longrightarrow> saves_ok (snd (handleStart m b r w))" "saves_ok w \<Longrightarrow> saves_ok (snd (handleConnectionString u t m x w))"
  "saves_ok w \<Longrightarrow> saves_ok (snd (handleCancel m w))"
  by (auto simp: handleStart_def handleConnectionString_def saves_ok_begin Let_def split: option.split sum.split)
    (simp add: handleCancel_def saves_ok_def saved_by_def)

lemma saves_ok_move:
  assumes "saves_ok w" "in_stage w n st" "has_saved st' = has_saved st \<or> has_saved st' = None"
    "p_state (f (wz_pairer w)) = ''claimed'' \<longrightarrow> p_state (wz_pairer w) = ''claimed'' \<or> has_saved st = Some True"
  shows "saves_ok (move n st' f w)"
proof -
  have "wz_saved w \<noteq> []" if "has_saved st = Some True"
  proof -
    have "saved_by w n" using assms(1,2) that by (auto simp: saves_ok_def in_stage_def)
    then show ?thesis by (auto simp: saved_by_def)
  qed
  note saved = this
  have n: "n < length (wz_flows w)" "fl_stage (wz_flows w ! n) = st" using assms(2) by (simp_all add: in_stage_def)
  have st: "saved_by w k = b" if "k < length (wz_flows w)" "has_saved (if k = n then st' else fl_stage (wz_flows w ! k)) = Some b" for k b
    using assms(1,3) n that by (cases "k = n") (auto simp: saves_ok_def)
  have cl: "p_state (f (wz_pairer w)) = ''claimed'' \<longrightarrow> wz_saved w \<noteq> []"
    using assms(1,4) saved by (auto simp: saves_ok_def)
  have d: "distinct (map fst (wz_saved w))" "\<forall>n. saved_by w n \<longrightarrow> n < length (wz_flows w)"
    using assms(1) by (simp_all add: saves_ok_def)
  show ?thesis unfolding saves_ok_def move_simps saved_by_move move_stage [OF n(1)]
    by (intro conjI d cl allI impI) (rule st)
qed

lemma saves_ok_save:
  assumes "saves_ok w" "in_stage w n st" "has_saved st = Some False" "has_saved st' = Some True"
  shows "saves_ok (save_by n r (move n st' id w))"
  using assms unfolding saves_ok_def saved_by_def in_stage_def by (auto simp: move_stage)

lemma state_writes:
  "p_state (pair_OnEnrolled c f p) \<noteq> ''claimed''" "p_state (failConnString e p) \<noteq> ''claimed''"
  "p_state (pair_OnError k e p) = ''claimed'' \<Longrightarrow> p_state p = ''claimed''"
  "p_state (after_OnClaimed v p) = ''claimed'' \<Longrightarrow> p_state p = ''claimed''"
  "p_state (after_registration v p) = ''claimed'' \<Longrightarrow> p_state p = ''claimed''"
  by (auto simp: pair_OnEnrolled_def failConnString_def pair_OnError_def after_OnClaimed_def after_registration_def
      await_running_def split: if_splits option.splits)

lemma saves_ok_step: "wizard_step w w' \<Longrightarrow> saves_ok w \<Longrightarrow> saves_ok w'"
proof (induction rule: wizard_step.induct)
  case (claim_saved w n url creds) show ?case by (rule saves_ok_save [OF claim_saved(2,1)]) simp_all
next
  case (registration_saved w n url r) show ?case by (rule saves_ok_save [OF registration_saved(2,1)]) simp_all
qed ((rule saves_ok_handlers, assumption) |
    (rule saves_ok_move, assumption, assumption, simp, (auto simp: state_writes(1,2) dest: state_writes(3-5))[1]))+

subsection \<open>One flow at a time\<close>

definition one_live :: "wizard \<Rightarrow> bool" where
  "one_live w \<longleftrightarrow>
     (case p_cancel (wz_pairer w) of None \<Rightarrow> wz_flows w = [] | Some k \<Rightarrow> Suc k = length (wz_flows w)) \<and>
     (\<forall>n. Suc n < length (wz_flows w) \<longrightarrow> cancelled w n)"

lemma cancel_writes [simp]:
  "p_cancel (pair_OnEnrolled c f p) = p_cancel p" "p_cancel (failConnString e p) = p_cancel p"
  "p_cancel (pair_OnError k e p) = p_cancel p" "p_cancel (pair_OnClaimed n p) = p_cancel p"
  "p_cancel (after_OnClaimed v p) = p_cancel p" "p_cancel (after_registration v p) = p_cancel p"
  by (simp_all add: pair_OnEnrolled_def failConnString_def pair_OnError_def pair_OnClaimed_def after_OnClaimed_def
      after_registration_def await_running_def split: option.split)

lemma one_live_begin: "one_live w \<Longrightarrow> one_live (begin_flow st pass url server w)"
  unfolding one_live_def begin_flow_def cancelled_def Let_def
  by (auto simp: nth_append cancel_flow_def nth_list_update split: option.splits)

lemma one_live_handlers:
  "one_live w \<Longrightarrow> one_live (snd (handleStart m b r w))" "one_live w \<Longrightarrow> one_live (snd (handleConnectionString u t m x w))"
  "one_live w \<Longrightarrow> one_live (snd (handleCancel m w))"
  by (auto simp: handleStart_def handleConnectionString_def one_live_begin Let_def split: option.split sum.split)
    (auto simp: handleCancel_def one_live_def cancelled_def cancel_flow_mono cancel_flow_def [of None] split: option.split)

lemma one_live_move: "one_live w \<Longrightarrow> p_cancel (f (wz_pairer w)) = p_cancel (wz_pairer w) \<Longrightarrow> one_live (move n st f w)"
  unfolding one_live_def move_simps move_cancelled by (auto simp: move_def split: option.splits)

lemma one_live_save: "one_live w \<Longrightarrow> one_live (save_by n r w)"
  unfolding one_live_def save_by_simps save_cancelled .

lemma one_live_step: "wizard_step w w' \<Longrightarrow> one_live w \<Longrightarrow> one_live w'"
  by (erule wizard_stepE) (simp_all add: one_live_handlers one_live_move one_live_save)

lemma reaches_ok: "wizard_reaches w \<Longrightarrow> shown_ok (wz_pairer w) \<and> saves_ok w \<and> one_live w"
proof (induction rule: wizard_reaches.induct)
  case new
  show ?case by (simp add: new_wizard_def newPairer_def shown_ok_def saves_ok_def saved_by_def one_live_def)
next
  case (next_step w w')
  then show ?case using shown_ok_step saves_ok_step one_live_step by blast
qed

text \<open>A registration that was cancelled before its answer came has saved nothing and never will.\<close>

definition dropped :: "wizard \<Rightarrow> nat \<Rightarrow> bool" where
  "dropped w n \<longleftrightarrow> cancelled w n \<and> \<not> saved_by w n \<and> (\<exists>url token. in_stage w n (Registering url token) \<or> in_stage w n Ended)"

lemma dropped_begin: "dropped w n \<Longrightarrow> dropped (begin_flow st pass url server w) n"
  by (auto simp: dropped_def begin_flow_def in_stage_def cancelled_def saved_by_def nth_append cancel_flow_mono Let_def)

lemma dropped_handlers:
  "dropped w n \<Longrightarrow> dropped (snd (handleStart m b r w)) n" "dropped w n \<Longrightarrow> dropped (snd (handleConnectionString u t m x w)) n"
  "dropped w n \<Longrightarrow> dropped (snd (handleCancel m w)) n"
  by (auto simp: handleStart_def handleConnectionString_def dropped_begin Let_def split: option.split sum.split)
    (auto simp: handleCancel_def dropped_def in_stage_def cancelled_def saved_by_def cancel_flow_mono)

lemma dropped_move:
  assumes "dropped w n" "in_stage w k st" "(\<exists>url token. st = Registering url token) \<and> st' = Ended \<or> (\<forall>url token. st \<noteq> Registering url token) \<and> st \<noteq> Ended"
  shows "dropped (move k st' f w) n \<and> (st' \<noteq> Ended \<longrightarrow> k \<noteq> n)"
proof -
  have "k < length (wz_flows w)" using assms(2) by (simp add: in_stage_def)
  then show ?thesis using assms unfolding dropped_def saved_by_move move_cancelled in_stage_def move_simps
    by (auto simp: move_stage)
qed

lemma dropped_step:
  assumes "wizard_step w w'" "dropped w n"
  shows "dropped w' n"
  using assms
proof (induction rule: wizard_step.induct)
  case (claim_saved w k url creds)
  then show ?case using dropped_move [OF claim_saved(2,1), of "ClaimSaved (cd_Name creds)" id]
    by (auto simp: dropped_def saved_by_def in_stage_def)
next
  case (registered w k url token r)
  then have "k \<noteq> n" by (auto simp: dropped_def)
  then show ?case using registered by (auto simp: dropped_def in_stage_def saved_by_move move_stage)
next
  case (registration_saved w k url r)
  then show ?case using dropped_move [OF registration_saved(2,1), of "RegistrationSaved (rr_Name r)" id]
    by (auto simp: dropped_def saved_by_def in_stage_def)
qed ((rule dropped_handlers, assumption) | (rule dropped_move [THEN conjunct1], assumption, assumption, simp))+

lemma dropped_later: "wizard_later w w' \<Longrightarrow> dropped w n \<Longrightarrow> dropped w' n"
  by (induction rule: wizard_later.induct) (auto dest: dropped_step)

subsection \<open>Without a service\<close>

text \<open>
  There is no service: every query fails with the code for that. The comments say that the restart is
  then skipped cleanly and that both ways end alike; but the pairing still waits for the service to
  run and ends as an error, while the registration does not.
\<close>

definition standalone :: "service_host \<Rightarrow> bool" where
  "standalone v \<longleftrightarrow> \<not> isServiceInstalled (sv_query v) \<and> (\<forall>q \<in> set (sv_running v). \<not> fst q)"

lemma standalone_ends:
  "standalone v \<Longrightarrow> p_state (after_OnClaimed v p) = ''error'' \<and> after_registration v p = p"
  by (auto simp: standalone_def after_OnClaimed_def after_registration_def await_running_def waitForServiceRunning_def
      waitForService_def failConnString_def list_ex_iff split: option.split)

subsection \<open>A claim that was cancelled\<close>

text \<open>
  A claim whose answer comes as the flow is cancelled may still be saved and shown. The step relation
  leaves open which of the two the wait sees first, so that this is a possibility, shown by a run.
\<close>

definition demo_creds :: Pairing.Credentials where
  "demo_creds = \<lparr>cd_AgentID = ''a-1'', cd_Name = ''web-1'', cd_APIKey = ''k'', cd_APISecret = ''s''\<rparr>"

definition demo_started :: wizard where
  "demo_started = snd (handleStart ''POST'' (Some (''p'', [])) (replicate 8 (Some 0)) new_wizard)"

definition demo_waiting :: wizard where
  "demo_waiting = move 0 (AwaitingClaim (NormalizePanelURL ''p'')) (pair_OnEnrolled ''AB'' ''A-B'') demo_started"

definition demo_cancelled :: wizard where
  "demo_cancelled = snd (handleCancel ''POST'' demo_waiting)"

definition demo_claimed :: wizard where
  "demo_claimed = move 0 ClaimShown (pair_OnClaimed ''web-1'')
     (save_by 0 (as_result demo_creds) (move 0 (ClaimSaved ''web-1'') id demo_cancelled))"

lemma demo_flow:
  "wz_flows demo_started = [\<lparr>fl_stage = Enrolling ''p'' ''22222222'' [], fl_cancelled = False\<rparr>]"
  "p_cancel (wz_pairer demo_started) = Some 0" "wz_saved demo_started = []"
  by (simp_all add: demo_started_def handleStart_def GeneratePassphrase_def passphraseAlphabet_def begin_flow_def
      new_wizard_def newPairer_def cancel_flow_def numeral_eq_Suc)

lemma demo_run:
  "wizard_reaches demo_cancelled" "wizard_later demo_cancelled demo_claimed" "p_state (wz_pairer demo_cancelled) = ''idle''"
  "cancelled demo_cancelled 0" "p_state (wz_pairer demo_claimed) = ''claimed''" "saved_by demo_claimed 0" "\<not> saved_by demo_cancelled 0"
proof -
  have s: "wizard_reaches demo_started" unfolding demo_started_def
    by (rule wizard_reaches.next_step [OF wizard_reaches.new wizard_step.start])
  have w: "wizard_reaches demo_waiting" unfolding demo_waiting_def
    by (rule wizard_reaches.next_step [OF s wizard_step.enrolled [of _ _ _ "''22222222''" "[]"]]) (simp add: in_stage_def demo_flow)
  show "wizard_reaches demo_cancelled" unfolding demo_cancelled_def
    by (rule wizard_reaches.next_step [OF w wizard_step.cancel])
  have f: "wz_flows demo_cancelled = [\<lparr>fl_stage = AwaitingClaim (NormalizePanelURL ''p''), fl_cancelled = True\<rparr>]"
    by (simp add: demo_cancelled_def handleCancel_def demo_waiting_def move_def demo_flow pair_OnEnrolled_def cancel_flow_def)
  then show "cancelled demo_cancelled 0" by (simp add: cancelled_def)
  show "p_state (wz_pairer demo_cancelled) = ''idle''" by (simp add: demo_cancelled_def handleCancel_def)
  show "\<not> saved_by demo_cancelled 0"
    by (simp add: saved_by_def demo_cancelled_def handleCancel_def demo_waiting_def demo_flow)
  have n: "''web-1'' = cd_Name demo_creds" by (simp add: demo_creds_def)
  have a: "wizard_step demo_cancelled (save_by 0 (as_result demo_creds) (move 0 (ClaimSaved ''web-1'') id demo_cancelled))"
    unfolding n by (rule wizard_step.claim_saved [of _ _ "NormalizePanelURL ''p''"]) (simp add: in_stage_def f)
  have b: "wizard_step (save_by 0 (as_result demo_creds) (move 0 (ClaimSaved ''web-1'') id demo_cancelled)) demo_claimed"
    unfolding demo_claimed_def by (rule wizard_step.claim_shown) (simp add: in_stage_def move_def f)
  show "wizard_later demo_cancelled demo_claimed"
    by (rule wizard_later.later [OF wizard_later.later [OF wizard_later.same a] b])
  show "p_state (wz_pairer demo_claimed) = ''claimed''" by (simp add: demo_claimed_def pair_OnClaimed_def)
  show "saved_by demo_claimed 0" by (simp add: demo_claimed_def saved_by_def)
qed

lemma cancelled_claim_saved:
  "\<exists>w1 w2. wizard_reaches w1 \<and> p_state (wz_pairer w1) = ''idle'' \<and> cancelled w1 0 \<and> \<not> saved_by w1 0 \<and> wizard_later w1 w2 \<and>
     p_state (wz_pairer w2) = ''claimed'' \<and> saved_by w2 0"
  by (rule exI [of _ demo_cancelled], rule exI [of _ demo_claimed], intro conjI demo_run)

text \<open>
  C30. Whatever requests, flows and answers interleave, an idle page shows no code, passphrase or error
  and an enrolling one no old code or error; a claim is shown only once some flow's identity is on
  disk; a flow saves at most once; all but the last flow were told to stop; and a registration told so
  before its answer came has not saved and never will.
\<close>

theorem wizard_interleavings:
  assumes "wizard_reaches w"
  shows "(p_state (wz_pairer w) = ''idle'' \<longrightarrow> p_code (wz_pairer w) = [] \<and> p_codeFmt (wz_pairer w) = [] \<and>
       p_pass (wz_pairer w) = [] \<and> p_errMsg (wz_pairer w) = []) \<and>
     (p_state (wz_pairer w) = ''enrolling'' \<longrightarrow> p_code (wz_pairer w) = [] \<and> p_codeFmt (wz_pairer w) = [] \<and>
       p_errMsg (wz_pairer w) = []) \<and>
     (p_state (wz_pairer w) = ''claimed'' \<longrightarrow> wz_saved w \<noteq> []) \<and> distinct (map fst (wz_saved w)) \<and>
     (\<forall>n. Suc n < length (wz_flows w) \<longrightarrow> cancelled w n) \<and>
     (\<forall>n url token w'. in_stage w n (Registering url token) \<and> cancelled w n \<and> wizard_later w w' \<longrightarrow> \<not> saved_by w' n)"
proof -
  note ok = reaches_ok [OF assms]
  have never: "\<not> saved_by w' n" if "in_stage w n (Registering url token)" "cancelled w n" "wizard_later w w'" for n url token w'
  proof -
    have "\<not> saved_by w n" using ok that(1) by (auto simp: saves_ok_def in_stage_def)
    then have "dropped w n" using that(1,2) by (auto simp: dropped_def)
    from dropped_later [OF that(3) this] show ?thesis by (simp add: dropped_def)
  qed
  show ?thesis
  proof (intro conjI allI impI)
    show "cancelled w n" if "Suc n < length (wz_flows w)" for n using ok that unfolding one_live_def by blast
    show "\<not> saved_by w' n" if "in_stage w n (Registering url token) \<and> cancelled w n \<and> wizard_later w w'" for n url token w'
      using never that by blast
  qed (use ok in \<open>simp_all add: shown_ok_def saves_ok_def\<close>)
qed

theorem wizard_interleavings_witness:
  "wizard_reaches demo_cancelled \<and> p_pass (wz_pairer demo_cancelled) = [] \<and> distinct (map fst (wz_saved demo_cancelled))"
  using demo_run(1) wizard_interleavings [OF demo_run(1)] demo_run(3) by simp

end
