(* ===== verification/Userspace.thy ===== *)
theory Userspace
  imports Wireguard Crypto
begin

text \<open>
  The userspace WireGuard manager of Windows and macOS, \<open>internal/wireguard/wireguard_other.go\<close>. A
  device is what wireguard-go and its network stack answer, as functions of the configuration texts it
  took; its forwarders listen inside it. Paths are those of macOS.
\<close>

subsection \<open>The configuration protocol\<close>

datatype us_error =
    Invalid wg_error | NoStoredKey string | BadStoredKey | BadAddress string | TunFailed | ConfigureFailed | BringUpFailed
  | NotUp string | BadListenIP string | NetstackListenFailed string int | BadPeerKey | DeviceRefused

text \<open>\<open>hex.DecodeString\<close>.\<close>

fun hex_decode :: "string \<Rightarrow> string option" where
  "hex_decode [] = Some []"
| "hex_decode [c] = None"
| "hex_decode (c # d # s) =
     (case (hex_val c, hex_val d, hex_decode s) of
        (Some a, Some b, Some r) \<Rightarrow> Some (char_of (nat (16 * a + b)) # r)
      | _ \<Rightarrow> None)"

definition keyB64ToHex :: "string \<Rightarrow> string option" where
  "keyB64ToHex b64 =
     (case b64_decode (trim_space b64) of
        None \<Rightarrow> None
      | Some raw \<Rightarrow> if length raw \<noteq> 32 then None else Some (hex_encode raw))"

definition keyHexToB64 :: "string \<Rightarrow> string" where
  "keyHexToB64 h = (case hex_decode (trim_space h) of None \<Rightarrow> h | Some raw \<Rightarrow> b64_encode raw)"

text \<open>The lines of a configuration text, each ended by a newline.\<close>

definition uapi :: "string list \<Rightarrow> string" where
  "uapi ls = concat (map (\<lambda>l. l @ [CHR 0x0A]) ls)"

definition device_config :: "string \<Rightarrow> InterfaceUpRequest \<Rightarrow> string" where
  "device_config privHex r =
     uapi ([''private_key='' @ privHex] @ (if 0 < up_ListenPort r then [''listen_port='' @ itoa (up_ListenPort r)] else []))"

definition peer_config :: "string \<Rightarrow> PeerSetRequest \<Rightarrow> string" where
  "peer_config pubHex r =
     uapi ([''public_key='' @ pubHex, ''replace_allowed_ips=true''] @ map (\<lambda>ip. ''allowed_ip='' @ trim_space ip) (ps_AllowedIPs r) @
           (if ps_Endpoint r \<noteq> [] then [''endpoint='' @ ps_Endpoint r] else []) @
           (if 0 < ps_PersistentKeepalive r
            then [''persistent_keepalive_interval='' @ itoa (ps_PersistentKeepalive r)] else []))"

definition remove_config :: "string \<Rightarrow> string" where
  "remove_config pubHex = uapi [''public_key='' @ pubHex, ''remove=true'']"

definition atoi64u :: "string \<Rightarrow> int" where
  "atoi64u s = atoiSafe s"

definition new_peer :: "string \<Rightarrow> PeerStatus" where
  "new_peer k = \<lparr>pe_PublicKey = k, pe_Endpoint = [], pe_AllowedIPs = [], pe_LatestHandshake = 0, pe_TransferRx = 0,
     pe_TransferTx = 0, pe_PersistentKeepalive = 0\<rparr>"

definition peer_line :: "string \<Rightarrow> string \<Rightarrow> PeerStatus \<Rightarrow> PeerStatus" where
  "peer_line k v p =
     (if k = ''endpoint'' then p\<lparr>pe_Endpoint := v\<rparr>
      else if k = ''allowed_ip'' then p\<lparr>pe_AllowedIPs := pe_AllowedIPs p @ [v]\<rparr>
      else if k = ''last_handshake_time_sec'' then p\<lparr>pe_LatestHandshake := atoi64u v\<rparr>
      else if k = ''rx_bytes'' then p\<lparr>pe_TransferRx := atoi64u v\<rparr>
      else if k = ''tx_bytes'' then p\<lparr>pe_TransferTx := atoi64u v\<rparr>
      else if k = ''persistent_keepalive_interval'' then p\<lparr>pe_PersistentKeepalive := atoi64u v\<rparr>
      else p)"

text \<open>The peers so far and the one being read.\<close>

definition uapi_line :: "string \<Rightarrow> PeerStatus list \<times> PeerStatus option \<Rightarrow> PeerStatus list \<times> PeerStatus option" where
  "uapi_line line = (\<lambda>(done, cur).
     (case cut (CHR ''='') (trim_space line) of
        None \<Rightarrow> (done, cur)
      | Some (k, v) \<Rightarrow>
          if k = ''public_key''
          then (case cur of Some p \<Rightarrow> done @ [p] | None \<Rightarrow> done, Some (new_peer (keyHexToB64 v)))
          else (done, map_option (peer_line k v) cur)))"

definition parseUAPIStatus :: "string \<Rightarrow> InterfaceStatus \<Rightarrow> InterfaceStatus" where
  "parseUAPIStatus cfg st =
     (case fold uapi_line (split_on (CHR 0x0A) cfg) ([], None) of
        (done, cur) \<Rightarrow> st\<lparr>is_Peers := is_Peers st @ done @ (case cur of Some p \<Rightarrow> [p] | None \<Rightarrow> [])\<rparr>)"

subsection \<open>The manager\<close>

record usIface =
  ui_dev :: nat
  ui_pubKey :: string
  ui_listen :: int

text \<open>
  The key files, the interfaces by name, the texts each open device took, the registered forwarders,
  and the open listeners, each with its device.
\<close>

record userspaceManager =
  us_files :: "string \<rightharpoonup> string"
  us_ifaces :: "(string \<times> usIface) list"
  us_devices :: "(nat \<times> string list) list"
  us_forwards :: "(string \<times> nat) list"
  us_open :: "(nat \<times> nat \<times> binding) list"
  us_next :: nat

record us_host =
  uh_keyDir :: string
  uh_random :: "string option"
  uh_mkdir :: bool
  uh_write :: bool
  uh_tun :: bool
  uh_up :: bool
  uh_set :: "string list \<Rightarrow> string \<Rightarrow> bool"
  uh_get :: "string list \<Rightarrow> string option"
  uh_free :: "addr \<Rightarrow> int \<Rightarrow> bool"

type_synonym 'a us_act = "userspaceManager \<Rightarrow> (us_error + 'a) \<times> userspaceManager"

definition New_userspace :: userspaceManager where
  "New_userspace = \<lparr>us_files = Map.empty, us_ifaces = [], us_devices = [], us_forwards = [], us_open = [], us_next = 0\<rparr>"

definition userspaceDefaultKeyDir :: "string option \<Rightarrow> string \<Rightarrow> string" where
  "userspaceDefaultKeyDir configDir tempDir =
     (case configDir of Some d \<Rightarrow> Join [d, ''serverkit-agent'', ''wireguard''] | None \<Rightarrow> Join [tempDir, ''serverkit-agent-wireguard''])"

definition us_keyPath :: "us_host \<Rightarrow> string \<Rightarrow> string" where
  "us_keyPath h iface = Join [uh_keyDir h, iface @ ''.key'']"

definition us_check :: "'a checked \<Rightarrow> 'a us_act" where
  "us_check r m = (map_sum Invalid id r, m)"

definition us_bind :: "'a us_act \<Rightarrow> ('a \<Rightarrow> 'b us_act) \<Rightarrow> 'b us_act" where
  "us_bind f g m = (case f m of (Inl e, m') \<Rightarrow> (Inl e, m') | (Inr x, m') \<Rightarrow> g x m')"

definition us_Keygen :: "us_host \<Rightarrow> string \<Rightarrow> string us_act" where
  "us_Keygen h iface =
     us_bind (us_check (validIfaceName iface)) (\<lambda>_.
     us_bind (us_check (GenerateKeypair (uh_random h))) (\<lambda>(priv, pub) m.
       if \<not> uh_mkdir h then (Inl (Invalid KeyDirFailed), m)
       else if \<not> uh_write h then (Inl (Invalid KeyWriteFailed), m)
       else (Inr pub, m\<lparr>us_files := (us_files m)(us_keyPath h iface \<mapsto> priv @ [CHR 0x0A])\<rparr>)))"

definition us_InterfaceUp :: "us_host \<Rightarrow> InterfaceUpRequest \<Rightarrow> unit us_act" where
  "us_InterfaceUp h r =
     us_bind (us_check (validateInterfaceUp r)) (\<lambda>_ m.
       case us_files m (us_keyPath h (up_Name r)) of
         None \<Rightarrow> (Inl (NoStoredKey (up_Name r)), m)
       | Some raw \<Rightarrow>
           (case (keyB64ToHex (trim_space raw), PublicKeyFromPrivate (trim_space raw)) of
              (Some privHex, Inr pub) \<Rightarrow>
                if ParsePrefix (up_Address r) = None then (Inl (BadAddress (up_Address r)), m)
                else if map_of (us_ifaces m) (up_Name r) \<noteq> None then (Inr (), m)
                else if \<not> uh_tun h then (Inl TunFailed, m)
                else if \<not> uh_set h [] (device_config privHex r) then (Inl ConfigureFailed, m)
                else if \<not> uh_up h then (Inl BringUpFailed, m)
                else (Inr (), m\<lparr>us_ifaces := us_ifaces m @ [(up_Name r, \<lparr>ui_dev = us_next m, ui_pubKey = pub, ui_listen = up_ListenPort r\<rparr>)],
                                us_devices := us_devices m @ [(us_next m, [device_config privHex r])],
                                us_next := us_next m + 1\<rparr>)
            | _ \<Rightarrow> (Inl BadStoredKey, m)))"

definition us_close :: "nat \<Rightarrow> userspaceManager \<Rightarrow> userspaceManager" where
  "us_close l m = m\<lparr>us_open := filter (\<lambda>(i, d, b). i \<noteq> l) (us_open m)\<rparr>"

definition us_InterfaceDown :: "string \<Rightarrow> unit us_act" where
  "us_InterfaceDown iface =
     us_bind (us_check (validIfaceName iface)) (\<lambda>_ m.
       let mine = (\<lambda>(k, l). prefix (iface @ '':'') k); ls = map snd (filter mine (us_forwards m));
           m1 = m\<lparr>us_open := filter (\<lambda>(i, d, b). i \<notin> set ls) (us_open m), us_forwards := filter (\<lambda>f. \<not> mine f) (us_forwards m)\<rparr>
       in (Inr (), case map_of (us_ifaces m1) iface of
                     None \<Rightarrow> m1
                   | Some i \<Rightarrow> m1\<lparr>us_ifaces := AList.delete iface (us_ifaces m1), us_devices := AList.delete (ui_dev i) (us_devices m1)\<rparr>))"

definition us_conflict :: "nat \<Rightarrow> binding \<Rightarrow> nat \<times> nat \<times> binding \<Rightarrow> bool" where
  "us_conflict d b = (\<lambda>(_, d', b'). d = d' \<and> conflict b b')"

definition us_Forward :: "us_host \<Rightarrow> ForwardRequest \<Rightarrow> unit us_act" where
  "us_Forward h r0 =
     us_bind (us_check (validateForward r0)) (\<lambda>_ m.
       let r = normalized r0; key = forwardKey (fr_Interface r) (fr_ListenPort r)
       in case map_of (us_ifaces m) (fr_Interface r) of
            None \<Rightarrow> (Inl (NotUp (fr_Interface r)), m)
          | Some i \<Rightarrow>
              if ParseAddr (fr_ListenIP r) = None then (Inl (BadListenIP (fr_ListenIP r)), m)
              else if \<not> uh_free h (bi_ip (binding_of r)) (fr_ListenPort r) \<or>
                   list_ex (us_conflict (ui_dev i) (binding_of r)) (us_open m)
              then (Inl (NetstackListenFailed (fr_ListenIP r) (fr_ListenPort r)), m)
              else (let l = us_next m;
                        m1 = m\<lparr>us_open := us_open m @ [(l, ui_dev i, binding_of r)], us_next := l + 1\<rparr>;
                        m2 = (case map_of (us_forwards m1) key of Some old \<Rightarrow> us_close old m1 | None \<Rightarrow> m1)
                    in (Inr (), m2\<lparr>us_forwards := AList.update key l (us_forwards m2)\<rparr>)))"

definition us_Unforward :: "string \<Rightarrow> int \<Rightarrow> unit us_act" where
  "us_Unforward iface port =
     us_bind (us_check (validIfaceName iface)) (\<lambda>_ m.
       let key = forwardKey iface port
       in (Inr (), case map_of (us_forwards m) key of
                     Some l \<Rightarrow> (us_close l m)\<lparr>us_forwards := AList.delete key (us_forwards m)\<rparr>
                   | None \<Rightarrow> m))"

definition ipc_set :: "us_host \<Rightarrow> nat \<Rightarrow> string \<Rightarrow> unit us_act" where
  "ipc_set h d text m =
     (case map_of (us_devices m) d of
        None \<Rightarrow> (Inl DeviceRefused, m)
      | Some took \<Rightarrow>
          if uh_set h took text then (Inr (), m\<lparr>us_devices := AList.update d (took @ [text]) (us_devices m)\<rparr>)
          else (Inl DeviceRefused, m))"

definition us_SetPeer :: "us_host \<Rightarrow> PeerSetRequest \<Rightarrow> unit us_act" where
  "us_SetPeer h r =
     us_bind (us_check (validatePeerSet r)) (\<lambda>_ m.
       case map_of (us_ifaces m) (ps_Interface r) of
         None \<Rightarrow> (Inl (NotUp (ps_Interface r)), m)
       | Some i \<Rightarrow>
           (case keyB64ToHex (ps_PublicKey r) of
              None \<Rightarrow> (Inl BadPeerKey, m)
            | Some pubHex \<Rightarrow> ipc_set h (ui_dev i) (peer_config pubHex r) m))"

definition us_RemovePeer :: "us_host \<Rightarrow> PeerRemoveRequest \<Rightarrow> unit us_act" where
  "us_RemovePeer h r =
     us_bind (us_check (validIfaceName (pr_Interface r))) (\<lambda>_.
     us_bind (us_check (validPublicKey (pr_PublicKey r))) (\<lambda>_ m.
       case map_of (us_ifaces m) (pr_Interface r) of
         None \<Rightarrow> (Inr (), m)
       | Some i \<Rightarrow>
           (case keyB64ToHex (pr_PublicKey r) of
              None \<Rightarrow> (Inl BadPeerKey, m)
            | Some pubHex \<Rightarrow> ipc_set h (ui_dev i) (remove_config pubHex) m)))"

definition us_Status :: "us_host \<Rightarrow> string \<Rightarrow> InterfaceStatus us_act" where
  "us_Status h iface =
     us_bind (us_check (validIfaceName iface)) (\<lambda>_ m.
       let st = \<lparr>is_Name = iface, is_PublicKey = [], is_ListenPort = 0, is_Up = False, is_Peers = []\<rparr>
       in (Inr (case map_of (us_ifaces m) iface of
                  None \<Rightarrow> st
                | Some i \<Rightarrow>
                    (let st1 = st\<lparr>is_Up := True, is_PublicKey := ui_pubKey i, is_ListenPort := ui_listen i\<rparr>
                     in case Option.bind (map_of (us_devices m) (ui_dev i)) (uh_get h) of
                          None \<Rightarrow> st1 | Some cfg \<Rightarrow> parseUAPIStatus cfg st1)), m))"

subsection \<open>What the texts say\<close>

lemma split_uapi: "\<forall>l \<in> set ls. CHR 0x0A \<notin> set l \<Longrightarrow> split_on (CHR 0x0A) (uapi ls) = ls @ [[]]"
  by (induction ls) (auto simp: uapi_def split_on_append)

text \<open>Unless one of its values holds a newline, the text of a peer configures that peer, and nothing else.\<close>

lemma peer_text_lines:
  assumes "CHR 0x0A \<notin> set hex" "\<forall>ip \<in> set (ps_AllowedIPs r). CHR 0x0A \<notin> set (trim_space ip)" "CHR 0x0A \<notin> set (ps_Endpoint r)"
  shows "filter (prefix ''public_key='') (split_on (CHR 0x0A) (peer_config hex r)) = [''public_key='' @ hex]"
proof -
  have "CHR 0x0A \<notin> set (itoa n)" for n :: int
    using show_nat_digits [of "CHR 0x0A"] by (auto simp: itoa_def is_digit_def)
  then show ?thesis using assms unfolding peer_config_def
    by (subst split_uapi) (auto simp: filter_empty_conv)
qed

text \<open>An endpoint may hold one: its port is read by \<open>Sscanf\<close>, which does not look at what follows it.\<close>

definition injected :: PeerSetRequest where
  "injected =
     \<lparr>ps_Interface = ''wg0'', ps_PublicKey = b64_encode (replicate 32 CHR ''k''), ps_AllowedIPs = [''10.0.0.2/32''],
      ps_Endpoint = ''h:1'' @ [CHR 0x0A] @ ''public_key=00'' @ [CHR 0x0A] @ ''allowed_ip=0.0.0.0/0'', ps_PersistentKeepalive = 0\<rparr>"

lemma peer_text_injected:
  assumes "CHR 0x0A \<notin> set hex"
  shows "validatePeerSet injected = Inr ()"
    "filter (prefix ''public_key='') (split_on (CHR 0x0A) (peer_config hex injected)) = [''public_key='' @ hex, ''public_key=00'']"
proof -
  show "validatePeerSet injected = Inr ()" by code_simp
  have t: "trim_space ''10.0.0.2/32'' = ''10.0.0.2/32''" by code_simp
  have "peer_config hex injected =
      uapi [''public_key='' @ hex, ''replace_allowed_ips=true'', ''allowed_ip=10.0.0.2/32'', ''endpoint=h:1'', ''public_key=00'',
        ''allowed_ip=0.0.0.0/0'']"
    by (simp add: peer_config_def injected_def uapi_def t)
  then show "filter (prefix ''public_key='') (split_on (CHR 0x0A) (peer_config hex injected)) =
      [''public_key='' @ hex, ''public_key=00'']"
    using assms by (simp add: split_uapi)
qed

text \<open>A status does not depend on the lines that are no peer's, such as the private key's.\<close>

lemma status_ignores:
  assumes "cut (CHR ''='') (trim_space l) = Some (''private_key'', v)"
  shows "uapi_line l (done, cur) = (done, cur)"
  using assms by (cases cur) (simp_all add: uapi_line_def peer_line_def)

end
