(* ===== verification/Handlers.thy ===== *)
theory Handlers
  imports Docker Systemd Cron
begin

text \<open>
  Handlers that only decode, call and answer: the doctor's probe (\<open>internal/agent/doctor_handlers.go\<close>),
  the crontab (\<open>cron_handlers.go\<close>) and the lists and volumes of docker (\<open>internal/docker/client.go\<close>). What docker and
  the disk answer is given.
\<close>

subsection \<open>The doctor's probe\<close>

definition unitActiveFromState :: "string \<Rightarrow> bool" where
  "unitActiveFromState state \<longleftrightarrow> state = ''active'' \<or> state = ''activating''"

definition unit_state :: "string \<Rightarrow> string" where
  "unit_state out =
     (let s = takeWhile (\<lambda>c. c \<noteq> CHR 0x0D \<and> c \<noteq> CHR 0x0A) (trim_space out)
      in if s = [] \<or> s = ''unknown'' then ''not-found'' else s)"

definition probeUnitActive :: "env \<Rightarrow> string \<Rightarrow> ('e, bool \<times> string) act" where
  "probeUnitActive env unit =
     abind (run env (Run ''systemctl'' [''is-active'', unit])) (\<lambda>r.
       let state = unit_state (rr_out r) in ret (unitActiveFromState state, state))"

text \<open>A map from the units' names: a name given twice is probed twice and keeps its last answer.\<close>

fun probe_units :: "env \<Rightarrow> string list \<Rightarrow> (string \<times> bool \<times> string) list \<Rightarrow> ('e, (string \<times> bool \<times> string) list) act" where
  "probe_units env [] units = ret units"
| "probe_units env (u # us) units =
     (if isl (validateUnitName u) then probe_units env us units
      else abind (probeUnitActive env u) (\<lambda>a. probe_units env us (AList.update u a units)))"

record doctor_report =
  dr_units :: "(string \<times> bool \<times> string) list"
  dr_percent :: "rat option"

text \<open>The parameters are none, undecodable or the units.\<close>

definition handleDoctorProbe :: "env \<Rightarrow> rat option \<Rightarrow> (herror + string list) option \<Rightarrow> (herror, doctor_report) act" where
  "handleDoctorProbe env disk params =
     abind (lift (systemctlAvailable env)) (\<lambda>_.
     abind (lift (case params of None \<Rightarrow> Inr [] | Some p \<Rightarrow> p)) (\<lambda>units.
     abind (probe_units env units []) (\<lambda>answers. ret \<lparr>dr_units = answers, dr_percent = disk\<rparr>)))"

subsection \<open>The crontab\<close>

datatype cron_request =
    CronReqList | CronReqAdd add_request | CronReqUpdate update_request | CronReqRemove string | CronReqToggle string bool

datatype cron_answer = CronJobs "entry list" | CronEntry entry | CronDone | CronToggled bool

datatype cron_fail = CronBadParams | CronNoID | CronFailed cron_error

definition cron_result :: "('a \<Rightarrow> cron_answer) \<Rightarrow> (cron_error + 'a) \<times> string option \<Rightarrow> (cron_fail + cron_answer) \<times> string option" where
  "cron_result f r = (map_sum CronFailed f (fst r), snd r)"

text \<open>The answer, and the table that was installed, if one was.\<close>

fun handleCron :: "(string \<Rightarrow> string) \<Rightarrow> run_result \<Rightarrow> (string \<Rightarrow> run_result) \<Rightarrow> cron_request option \<Rightarrow>
    (cron_fail + cron_answer) \<times> string option" where
  "handleCron sha rd wr None = (Inl CronBadParams, None)"
| "handleCron sha rd wr (Some CronReqList) = cron_result CronJobs (CronList sha rd, None)"
| "handleCron sha rd wr (Some (CronReqAdd r)) = cron_result CronEntry (CronAdd sha r rd wr)"
| "handleCron sha rd wr (Some (CronReqUpdate r)) =
     (if ur_ID r = [] then (Inl CronNoID, None) else cron_result CronEntry (CronUpdate sha r rd wr))"
| "handleCron sha rd wr (Some (CronReqRemove i)) =
     (if i = [] then (Inl CronNoID, None) else cron_result (\<lambda>_. CronDone) (CronRemove sha i rd wr))"
| "handleCron sha rd wr (Some (CronReqToggle i on)) =
     (if i = [] then (Inl CronNoID, None) else cron_result (\<lambda>_. CronToggled on) (CronToggle sha i on rd wr))"

subsection \<open>Docker's lists\<close>

datatype docker_opt = WithHost string | WithAPIVersionNegotiation | WithTimeout int

text \<open>The options of the client: a path is a Unix socket.\<close>

definition docker_opts :: "string \<Rightarrow> int \<Rightarrow> docker_opt list" where
  "docker_opts socket timeout =
     (if socket \<noteq> [] then [WithHost (if prefix ''/'' socket then ''unix://'' @ socket else socket)] else []) @
     [WithAPIVersionNegotiation] @ (if 0 < timeout then [WithTimeout timeout] else [])"

record ImageInfo =
  ii_ID :: string
  ii_RepoTags :: "string list"
  ii_RepoDigests :: "string list"
  ii_Created :: int
  ii_Size :: int

record sdk_image = ImageInfo +
  si_Containers :: int
  si_SharedSize :: int

record VolumeInfo =
  vi_Name :: string
  vi_Driver :: string
  vi_Mountpoint :: string
  vi_Labels :: "(string \<times> string) list"
  vi_Scope :: string
  vi_CreatedAt :: string

record sdk_volume = VolumeInfo +
  sv_Options :: "(string \<times> string) list"

definition ListImages :: "herror + sdk_image list \<Rightarrow> herror + ImageInfo list" where
  "ListImages answer = map_sum id (map ImageInfo.truncate) answer"

definition ListVolumes :: "herror + sdk_volume list \<Rightarrow> herror + VolumeInfo list" where
  "ListVolumes answer = map_sum id (map VolumeInfo.truncate) answer"

definition CreateVolume :: "sdk \<Rightarrow> (string \<Rightarrow> sdk_volume) \<Rightarrow> string \<Rightarrow> string \<Rightarrow> (string \<times> string) list \<Rightarrow> VolumeInfo effect" where
  "CreateVolume d decode nm driver labels = ask d (VolumeCreate nm driver labels) (\<lambda>r. VolumeInfo.truncate (decode r))"

definition handleDockerContainerList :: "(bool \<Rightarrow> herror + sdk_container list) \<Rightarrow> bool option \<Rightarrow> ContainerInfo list reply" where
  "handleDockerContainerList query params = ListContainers query (case params of Some all \<Rightarrow> all | None \<Rightarrow> False)"

definition handleDockerContainerInspect :: "(string \<Rightarrow> herror + json) \<Rightarrow> herror + string \<Rightarrow> herror + json" where
  "handleDockerContainerInspect query params = rbind params query"

subsection \<open>Properties\<close>

lemma probe_emits:
  "emits (\<lambda>c. \<exists>u \<in> set us. validateUnitName u = Inr () \<and> c = Run ''systemctl'' [''is-active'', u]) (\<lambda>_. True)
     (probe_units env us units :: ('e, (string \<times> bool \<times> string) list) act)"
proof (induction us arbitrary: units)
  case Nil
  show ?case by (simp add: emits_ret)
next
  case (Cons u us)
  let ?P = "\<lambda>c. \<exists>v \<in> set (u # us). validateUnitName v = Inr () \<and> c = Run ''systemctl'' [''is-active'', v]"
  have rest: "emits ?P (\<lambda>_. True) (probe_units env us l :: ('e, (string \<times> bool \<times> string) list) act)" for l by (rule emits_mono [OF Cons.IH]) auto
  show ?case
  proof (cases "validateUnitName u")
    case (Inl e)
    then show ?thesis using rest by simp
  next
    case (Inr x)
    then have "?P (Run ''systemctl'' [''is-active'', u])" by auto
    then have "emits ?P (\<lambda>_. True) (probeUnitActive env u :: ('e, bool \<times> string) act)" unfolding probeUnitActive_def Let_def
      by (intro emits_bind [OF emits_run emits_ret]) simp_all
    then show ?thesis using Inr rest by (auto intro: emits_bind)
  qed
qed

end
