(* ===== verification/Localui.thy ===== *)
theory Localui
  imports Effects Console Wizard "HOL-Library.Multiset"
begin

text \<open>
  The desktop side of the agent: the console's local actions and diagnostic bundle
  (\<open>internal/agentui/actions.go\<close>, \<open>diag.go\<close>, \<open>preflight_windows.go\<close>), the tray and its client of the local
  interface (\<open>internal/tray\<close>), the cloud's pairing client (\<open>internal/pairing/cloud.go\<close>), and the commands
  of \<open>cmd/agent/main.go\<close> that start them. Windows, menus and archives are not modelled beyond what is
  put in them.
\<close>

subsection \<open>Local actions\<close>

definition reply_error :: "string \<Rightarrow> json" where
  "reply_error e = JObj [(''error'', JStr e)]"

definition reply_ok :: json where
  "reply_ok = JObj [(''ok'', JBool True)]"

definition handleIPCToken :: "Config.host \<Rightarrow> files \<Rightarrow> string \<Rightarrow> int \<times> json" where
  "handleIPCToken h fs meth =
     (if meth \<noteq> ''GET'' then (405, JNull)
      else (case fs (IPCTokenPath h) of
              Contents data \<Rightarrow>
                if trim_space data = [] then (503, reply_error ''ipc token file empty'')
                else (200, JObj [(''token'', JStr (trim_space data))])
            | _ \<Rightarrow> (503, reply_error ''ipc token not yet available; is the agent service running?'')))"

definition local_status :: "(config_error + Config) \<Rightarrow> string \<Rightarrow> int \<times> json" where
  "local_status loaded meth =
     (if meth \<noteq> ''GET'' then (405, JNull)
      else (200, case loaded of
              Inr cfg \<Rightarrow>
                if agent_ID (Agent cfg) \<noteq> []
                then JObj [(''registered'', JBool True), (''agent_id'', JStr (agent_ID (Agent cfg))), (''server_url'', JStr (server_URL (Server cfg)))]
                else JObj [(''registered'', JBool False), (''agent_id'', JStr []), (''server_url'', JStr [])]
            | Inl _ \<Rightarrow> JObj [(''registered'', JBool False), (''agent_id'', JStr []), (''server_url'', JStr [])]))"

text \<open>The commands a service action gives to \<open>sc.exe\<close>, and its answer; \<open>svc\<close> is the error of one, if any.\<close>

definition handleServiceAction :: "(string \<Rightarrow> string option) \<Rightarrow> string \<Rightarrow> string \<Rightarrow> string list \<times> int \<times> json" where
  "handleServiceAction svc action meth =
     (if meth \<noteq> ''POST'' then ([], 405, JNull)
      else let verbs = (if action = ''restart'' then [''stop'', ''start''] else if action \<in> {''start'', ''stop''} then [action] else []);
               err = (if verbs = [] then None else svc (last verbs))
           in (verbs, case err of None \<Rightarrow> (200, reply_ok) | Some e \<Rightarrow> (500, reply_error e)))"

text \<open>The target and what is answered; \<open>open_it\<close> is the error of opening it.\<close>

definition handleOpen :: "(string \<Rightarrow> string option) \<Rightarrow> string \<Rightarrow> (string \<times> string) option \<Rightarrow> string option \<times> int \<times> json" where
  "handleOpen open_it meth body =
     (if meth \<noteq> ''POST'' then (None, 405, JNull)
      else (case body of
              None \<Rightarrow> (None, 400, reply_error ''invalid body'')
            | Some (path, url) \<Rightarrow>
                let target = (if url = [] then path else url)
                in if target = [] then (None, 400, reply_error ''path or url required'')
                   else (Some target, case open_it target of None \<Rightarrow> (200, reply_ok) | Some e \<Rightarrow> (500, reply_error e))))"

definition openTarget :: "string \<Rightarrow> cmd" where
  "openTarget target = Run ''rundll32'' [''url.dll,FileProtocolHandler'', target]"

definition handleWizard :: "string \<Rightarrow> string option \<Rightarrow> string \<Rightarrow> cmd list \<times> int \<times> json" where
  "handleWizard exePath start_err meth =
     (if meth \<noteq> ''POST'' then ([], 405, JNull)
      else if exePath = [] then ([], 500, reply_error ''agent executable path unknown'')
      else ([Run exePath [''setup'']], case start_err of None \<Rightarrow> (200, reply_ok) | Some e \<Rightarrow> (500, reply_error e)))"

text \<open>The values of the registry's three places, as far as they can be read.\<close>

definition detectWebView2 :: "string option list \<Rightarrow> string" where
  "detectWebView2 places = (case find (\<lambda>v. v \<noteq> None \<and> v \<noteq> Some []) places of Some (Some v) \<Rightarrow> v | _ \<Rightarrow> [])"

definition preflightWebView2 :: "string option list \<Rightarrow> bool" where
  "preflightWebView2 places = (detectWebView2 places \<noteq> [])"

subsection \<open>The diagnostic bundle\<close>

definition backup_name :: "string \<Rightarrow> bool" where
  "backup_name nm \<longleftrightarrow> prefix ''agent-'' nm \<and> (suffix ''.log'' nm \<or> suffix ''.log.gz'' nm)"

text \<open>One round of the exchange sort: the newest of \<open>x\<close> and the rest, and what is left, in its place.\<close>

fun newest_first :: "string \<times> int \<Rightarrow> (string \<times> int) list \<Rightarrow> (string \<times> int) \<times> (string \<times> int) list" where
  "newest_first x [] = (x, [])"
| "newest_first x (y # ys) =
     (if snd x < snd y then (case newest_first y ys of (z, r) \<Rightarrow> (z, x # r))
      else (case newest_first x ys of (z, r) \<Rightarrow> (z, y # r)))"

lemma length_newest_first [simp]: "length (snd (newest_first x ys)) = length ys"
  by (induction ys arbitrary: x) (simp_all add: split_beta)

function exchange_sort :: "(string \<times> int) list \<Rightarrow> (string \<times> int) list" where
  "exchange_sort [] = []"
| "exchange_sort (x # ys) = fst (newest_first x ys) # exchange_sort (snd (newest_first x ys))"
  by pat_completeness auto
termination by (relation "measure length") auto

text \<open>\<open>mod\<close> is a file's time, if it can be read; the sorted names overwrite the first places of the list.\<close>

definition sortDescByModTime :: "(string \<Rightarrow> int option) \<Rightarrow> string list \<Rightarrow> string list" where
  "sortDescByModTime mtime paths =
     (let infos = List.map_filter (\<lambda>p. map_option (Pair p) (mtime p)) paths
      in map fst (exchange_sort infos) @ drop (length infos) paths)"

definition findLogBackups :: "(string \<Rightarrow> int option) \<Rightarrow> string \<Rightarrow> string list option \<Rightarrow> string list" where
  "findLogBackups mtime dir entries =
     (case entries of
        None \<Rightarrow> []
      | Some names \<Rightarrow> sortDescByModTime mtime (map (\<lambda>n. dir @ [CHR 0x5C] @ n) (filter backup_name names)))"

definition secret_keys :: "string list" where
  "secret_keys = [''api_key'', ''api_secret'', ''apikey'', ''apisecret'']"

definition redact_auth :: "(string \<times> json) list \<Rightarrow> (string \<times> json) list" where
  "redact_auth auth = map (\<lambda>(k, v). (k, if k \<in> set secret_keys then JStr ''[REDACTED]'' else v)) auth"

definition redact_doc :: "(string \<times> json) list \<Rightarrow> (string \<times> json) list" where
  "redact_doc doc = map (\<lambda>(k, v). (k, if k = ''auth'' then (case v of JObj auth \<Rightarrow> JObj (redact_auth auth) | _ \<Rightarrow> v) else v)) doc"

text \<open>A file that does not parse is returned as it is.\<close>

definition redactedConfigYAML :: "(string \<Rightarrow> (string \<times> json) list option) \<Rightarrow> ((string \<times> json) list \<Rightarrow> string) \<Rightarrow> file_read \<Rightarrow> string option" where
  "redactedConfigYAML parse print file =
     (case file of
        Contents data \<Rightarrow>
          Some (case parse data of
                  None \<Rightarrow> ''# diag: failed to parse for redaction; original returned as-is'' @ [CHR 0x0A] @ data
                | Some doc \<Rightarrow> print (redact_doc doc))
      | _ \<Rightarrow> None)"

definition diagDestPath :: "string \<Rightarrow> string option \<Rightarrow> bool \<Rightarrow> string" where
  "diagDestPath stamp home desktop =
     (let nm = ''serverkit-diag-'' @ stamp @ ''.zip''
      in case home of
           None \<Rightarrow> nm
         | Some h \<Rightarrow> (if desktop then h @ [CHR 0x5C] @ ''Desktop'' else h) @ [CHR 0x5C] @ nm)"

text \<open>The names in the archive, in order, with the files they are read from.\<close>

definition diag_entries :: "string \<Rightarrow> string list \<Rightarrow> bool \<Rightarrow> (string \<times> string) list" where
  "diag_entries dataDir backups redacted =
     (if dataDir = [] then []
      else (let f = (\<lambda>n. dataDir @ [CHR 0x5C] @ n)
            in [(''agent.log'', f (''logs'' @ [CHR 0x5C] @ ''agent.log''))] @
               map (\<lambda>p. (''logs-backups/'' @ rev (takeWhile (\<lambda>c. c \<noteq> CHR 0x5C) (rev p)), p)) (take 3 backups) @
               [(''events.json'', f ''events.json'')] @
               (if redacted then [(''config.redacted.yaml'', f ''config.yaml'')] else []))) @
     [(''sysinfo.json'', [])]"

definition dataDirGuess :: "Config.host \<Rightarrow> string" where
  "dataDirGuess h = (if ho_ProgramData h \<noteq> [] then program_file h [''ServerKit'', ''Agent''] else [])"

subsection \<open>The tray\<close>

text \<open>The tray reads the token again for every request.\<close>

definition loadToken :: "Config.host \<Rightarrow> files \<Rightarrow> string" where
  "loadToken h fs = (case fs (IPCTokenPath h) of Contents data \<Rightarrow> trim_space data | _ \<Rightarrow> [])"

definition authedRequest :: "Config.host \<Rightarrow> files \<Rightarrow> (string \<times> string) list" where
  "authedRequest h fs = (if loadToken h fs \<noteq> [] then [(''Authorization'', ''Bearer '' @ loadToken h fs)] else [])"

datatype 'a local_answer = Unreachable string | LocalAnswer int "'a option"

definition local_get :: "'a local_answer \<Rightarrow> string + 'a" where
  "local_get a =
     (case a of
        Unreachable e \<Rightarrow> Inl e
      | LocalAnswer status body \<Rightarrow>
          if status \<noteq> 200 then Inl (''unexpected status: '' @ itoa status)
          else (case body of None \<Rightarrow> Inl ''invalid JSON'' | Some x \<Rightarrow> Inr x))"

definition Restart :: "(bool \<times> string) local_answer \<Rightarrow> string option" where
  "Restart a =
     (case local_get a of
        Inl e \<Rightarrow> Some e
      | Inr (ok, e) \<Rightarrow> if ok then None else Some (''restart failed: '' @ e))"

definition IsAgentRunning :: "'a local_answer \<Rightarrow> bool" where
  "IsAgentRunning a = (case a of Unreachable _ \<Rightarrow> False | LocalAnswer status _ \<Rightarrow> status = 200)"

datatype icon = IconStopped | IconConnected | IconDisconnected

record tray =
  tr_running :: bool
  tr_connected :: bool
  tr_lastStatus :: string
  tr_icon :: icon
  tr_setup :: string
  tr_load :: "(rat \<times> rat) option"          \<comment> \<open>CPU and memory, if they are shown\<close>
  tr_start :: bool                           \<comment> \<open>which controls are enabled\<close>
  tr_stop :: bool
  tr_restart :: bool

definition refresh :: "(config_error + Config) \<Rightarrow> AgentStatus local_answer \<Rightarrow> tray" where
  "refresh loaded answer =
     (let configured = (case loaded of Inr c \<Rightarrow> agent_ID (Agent c) \<noteq> [] | Inl _ \<Rightarrow> False);
          setup = (if configured then ''Re-pair this server'' else ''Open setup wizard'') @ [CHR 0xE2, CHR 0x80, CHR 0xA6]
      in if \<not> configured
         then \<lparr>tr_running = False, tr_connected = False, tr_lastStatus = ''Not configured'', tr_icon = IconStopped, tr_setup = setup,
               tr_load = None, tr_start = False, tr_stop = False, tr_restart = False\<rparr>
         else (case local_get answer of
                 Inl _ \<Rightarrow>
                   \<lparr>tr_running = False, tr_connected = False, tr_lastStatus = ''Agent Not Running'', tr_icon = IconStopped, tr_setup = setup,
                    tr_load = None, tr_start = True, tr_stop = False, tr_restart = False\<rparr>
               | Inr s \<Rightarrow>
                   \<lparr>tr_running = as_Running s, tr_connected = as_Connected s,
                    tr_lastStatus = (if as_Connected s then ''Connected'' else if as_Running s then ''Disconnected'' else ''Stopped''),
                    tr_icon = (if as_Connected s then IconConnected else if as_Running s then IconDisconnected else IconStopped),
                    tr_setup = setup, tr_load = Some (as_CPUPercent s, as_MemPercent s),
                    tr_start = (\<not> as_Running s), tr_stop = as_Running s, tr_restart = as_Running s\<rparr>))"

definition startService :: "Config.host \<Rightarrow> cmd" where
  "startService h =
     (if on_windows h then Run ''sc'' [''start'', ''ServerKitAgent''] else Run ''systemctl'' [''start'', ''serverkit-agent''])"

definition stopService :: "Config.host \<Rightarrow> cmd" where
  "stopService h =
     (if on_windows h then Run ''sc'' [''stop'', ''ServerKitAgent''] else Run ''systemctl'' [''stop'', ''serverkit-agent''])"

definition restartService :: "Config.host \<Rightarrow> cmd list" where
  "restartService h =
     (if on_windows h then [stopService h, startService h] else [Run ''systemctl'' [''restart'', ''serverkit-agent'']])"

definition openURL :: "string \<Rightarrow> string \<Rightarrow> cmd" where
  "openURL goos url =
     (if goos = ''windows'' then Run ''rundll32'' [''url.dll,FileProtocolHandler'', url]
      else if goos = ''darwin'' then Run ''open'' [url] else Run ''xdg-open'' [url])"

definition openFile :: "string \<Rightarrow> string \<Rightarrow> cmd" where
  "openFile goos path =
     (if goos = ''windows'' then Run ''notepad'' [path]
      else if goos = ''darwin'' then Run ''open'' [''-t'', path] else Run ''xdg-open'' [path])"

subsection \<open>The cloud's client\<close>

record CloudEnrollRequest =
  ce_Pubkey :: string
  ce_Fingerprint :: string
  ce_Hostname :: string
  ce_Proto :: int
  ce_Kind :: string
  ce_AgentID :: string
  ce_AgentVersion :: string
  ce_MachineID :: string

record CloudEnrollment =
  cn_EnrollmentID :: string
  cn_EnrollmentSecret :: string
  cn_Code :: string
  cn_Kind :: string
  cn_ExpiresAt :: string

record CloudClaim =
  cc_DeviceID :: string
  cc_OrgSlug :: string
  cc_Name :: string
  cc_RelayURL :: string
  cc_Scopes :: "string list"

datatype cloud_error = CloudUnreachable string | CloudError int string | CloudBadAnswer | CloudNoKey

text \<open>What the cloud says: its own words if it gives any.\<close>

definition detailOf :: "json option \<Rightarrow> int \<Rightarrow> string" where
  "detailOf body status =
     (let plain = ''ServerKit Cloud returned '' @ itoa status
      in case body of
           Some (JObj b) \<Rightarrow>
             (case map_of b ''detail'' of
                Some (JStr d) \<Rightarrow> d
              | Some (JObj d) \<Rightarrow> (case map_of d ''error'' of Some (JStr msg) \<Rightarrow> msg | _ \<Rightarrow> plain)
              | _ \<Rightarrow> plain)
         | _ \<Rightarrow> plain)"

text \<open>An answer: unreachable, or its status, its JSON if any, and what it decodes to.\<close>

datatype 'a cloud_answer = NoCloud string | CloudAnswer int "json option" "'a option"

definition cloud_post :: "'a cloud_answer \<Rightarrow> cloud_error + 'a" where
  "cloud_post a =
     (case a of
        NoCloud e \<Rightarrow> Inl (CloudUnreachable e)
      | CloudAnswer status body out \<Rightarrow>
          if 400 \<le> status then Inl (CloudError status (detailOf body status))
          else (case out of None \<Rightarrow> Inl CloudBadAnswer | Some x \<Rightarrow> Inr x))"

definition lower_char :: "char \<Rightarrow> char" where
  "lower_char c = (if 65 \<le> (of_char c :: nat) \<and> (of_char c :: nat) \<le> 90 then char_of (of_char c + 32 :: nat) else c)"

definition cloud_request :: "KeyPair \<Rightarrow> CloudEnrollRequest \<Rightarrow> CloudEnrollRequest" where
  "cloud_request k r =
     r\<lparr>ce_Pubkey := PublicKeyHex k, ce_Fingerprint := map lower_char (kp_Fingerprint k), ce_Kind := ''agent'',
       ce_Proto := (if ce_Proto r = 0 then 1 else ce_Proto r)\<rparr>"

definition cloud_Enroll :: "KeyPair option \<Rightarrow> (CloudEnrollRequest \<Rightarrow> CloudEnrollment cloud_answer) \<Rightarrow> CloudEnrollRequest \<Rightarrow>
    cloud_error + CloudEnrollment" where
  "cloud_Enroll keypair cloud req =
     (case keypair of None \<Rightarrow> Inl CloudNoKey | Some k \<Rightarrow> cloud_post (cloud (cloud_request k req)))"

text \<open>The poll's body at time \<open>ts\<close>, and its answer: none while nobody has approved.\<close>

definition cloud_poll_body :: "(string \<Rightarrow> string \<Rightarrow> string) \<Rightarrow> KeyPair \<Rightarrow> CloudEnrollment \<Rightarrow> int \<Rightarrow> (string \<times> json) list" where
  "cloud_poll_body sign k e ts =
     [(''enrollment_id'', JStr (cn_EnrollmentID e)), (''enrollment_secret'', JStr (cn_EnrollmentSecret e)), (''ts'', JInt ts),
      (''sig'', JStr (hex_encode (sign (kp_Private k) (cn_EnrollmentID e @ ''|'' @ itoa ts))))]"

definition cloud_Poll :: "(string \<Rightarrow> string \<Rightarrow> string) \<Rightarrow> KeyPair option \<Rightarrow> ((string \<times> json) list \<Rightarrow> CloudClaim cloud_answer) \<Rightarrow>
    CloudEnrollment \<Rightarrow> int \<Rightarrow> cloud_error + CloudClaim option" where
  "cloud_Poll sign keypair cloud e ts =
     (case keypair of
        None \<Rightarrow> Inl CloudNoKey
      | Some k \<Rightarrow>
          (case cloud_post (cloud (cloud_poll_body sign k e ts)) of
             Inl err \<Rightarrow> Inl err
           | Inr c \<Rightarrow> Inr (if cc_DeviceID c = [] then None else Some c)))"

subsection \<open>The commands\<close>

text \<open>What \<open>register\<close> registers with, from its flags and the environment.\<close>

definition register_inputs :: "(string \<Rightarrow> conn_error + Decoded) \<Rightarrow> (string \<Rightarrow> string) \<Rightarrow> string \<Rightarrow> string \<Rightarrow> string \<Rightarrow>
    conn_error option + string \<times> string" where
  "register_inputs decode env connStr0 token0 serverURL0 =
     (let connStr = (if connStr0 = [] then env ''SERVERKIT_CONNECTION_STRING'' else connStr0);
          token = (if token0 = [] then env ''SERVERKIT_REGISTRATION_TOKEN'' else token0);
          serverURL = (if serverURL0 = [] then env ''SERVERKIT_SERVER_URL'' else serverURL0)
      in if connStr \<noteq> [] then (case decode connStr of Inl e \<Rightarrow> Inl (Some e) | Inr d \<Rightarrow> Inr (de_Token d, de_URL d))
         else if token = [] \<or> serverURL = [] then Inl None else Inr (token, serverURL))"

datatype start_end = NotLoaded config_error | InstanceHeld | PortInUse int | NotRegistered | NotCreated | AgentEnded bool

text \<open>
  \<open>agentMainLoop\<close>: whether another instance holds the lock, whether the port of the local interface is
  free, whether the agent could be made, and whether its run ended well.
\<close>

definition agentMainLoop :: "(config_error + Config) \<Rightarrow> bool \<Rightarrow> bool \<Rightarrow> bool \<Rightarrow> bool \<Rightarrow> start_end" where
  "agentMainLoop loaded held port_free created ended_well =
     (case loaded of
        Inl e \<Rightarrow> NotLoaded e
      | Inr cfg \<Rightarrow>
          if held then InstanceHeld
          else if ipc_Enabled (IPC cfg) \<and> \<not> port_free then PortInUse (ipc_Port (IPC cfg))
          else if agent_ID (Agent cfg) = [] then NotRegistered
          else if \<not> created then NotCreated else AgentEnded ended_well)"

datatype status_line = NotConfigured string | NotRegisteredLine | Configured string string string "string + level"

definition showStatus :: "Config.host \<Rightarrow> (config_error + Config) \<Rightarrow> status_line" where
  "showStatus h loaded =
     (case loaded of
        Inl _ \<Rightarrow> NotConfigured (DefaultConfigPath h)
      | Inr cfg \<Rightarrow>
          if agent_ID (Agent cfg) = [] then NotRegisteredLine
          else Configured (agent_ID (Agent cfg)) (agent_Name (Agent cfg)) (server_URL (Server cfg))
                 (map_sum (\<lambda>_. ''INVALID'') id (PermissionLevel cfg)))"

text \<open>What \<open>runDesktop\<close> does: whether it spawns the wizard and whether it shows a tray, in need of a setup.\<close>

definition runDesktop :: "bool \<Rightarrow> (config_error + Config) \<Rightarrow> bool \<Rightarrow> bool \<times> bool option" where
  "runDesktop already loaded repair =
     (if already then (repair, None)
      else let needsSetup = ((case loaded of Inl _ \<Rightarrow> True | Inr c \<Rightarrow> agent_ID (Agent c) = []) \<or> repair)
           in (needsSetup, Some needsSetup))"

definition http_of :: "string \<Rightarrow> string" where
  "http_of s =
     (if 4 < length s \<and> take 4 s = ''wss:'' then ''https:'' @ drop 4 s
      else if 3 < length s \<and> take 3 s = ''ws:'' then ''http:'' @ drop 3 s else s)"

text \<open>Up to the last slash behind the ninth character.\<close>

definition getDashboardURL :: "string \<Rightarrow> string" where
  "getDashboardURL serverURL =
     (if serverURL = [] then []
      else (let url = http_of serverURL; slashes = filter (\<lambda>i. url ! i = CHR ''/'' \<and> 8 < i) [0..<length url]
            in if slashes = [] then url else take (last slashes) url))"

subsection \<open>Lemmas\<close>

lemma newest_first_mset: "newest_first x ys = (z, r) \<Longrightarrow> mset (z # r) = mset (x # ys)"
  by (induction ys arbitrary: x z r) (auto split: if_splits prod.splits)

lemma newest_first_max: "newest_first x ys = (z, r) \<Longrightarrow> \<forall>e \<in> set r. snd e \<le> snd z"
proof (induction ys arbitrary: x z r)
  case (Cons y ys)
  have top: "snd v \<le> snd z'" if "newest_first v ys = (z', r')" for v z' r'
  proof -
    have "v \<in> set (z' # r')" using newest_first_mset [OF that, THEN mset_eq_setD] by simp
    then show ?thesis using Cons.IH [OF that] by auto
  qed
  show ?case
  proof (cases "snd x < snd y")
    case True
    obtain z' r' where n: "newest_first y ys = (z', r')" by (rule prod.exhaust)
    have "z = z'" "r = x # r'" using Cons.prems True n by simp_all
    then show ?thesis using top [OF n] Cons.IH [OF n] True by simp
  next
    case False
    obtain z' r' where n: "newest_first x ys = (z', r')" by (rule prod.exhaust)
    have "z = z'" "r = y # r'" using Cons.prems False n by simp_all
    then show ?thesis using top [OF n] Cons.IH [OF n] False by simp
  qed
qed simp

lemma exchange_sort_correct:
  "mset (exchange_sort xs) = mset xs \<and> sorted_wrt (\<lambda>a b. snd b \<le> snd a) (exchange_sort xs)"
proof (induction xs rule: exchange_sort.induct)
  case (2 x ys)
  obtain z r where n: "newest_first x ys = (z, r)" by (rule prod.exhaust)
  have r: "mset (exchange_sort r) = mset r" using 2 n by simp
  then have "\<forall>e \<in> set (exchange_sort r). snd e \<le> snd z"
    using newest_first_max [OF n] mset_eq_setD [OF r] by simp
  then show ?case using 2 n newest_first_mset [OF n] by simp
qed simp

text \<open>A log whose time cannot be read is overwritten by the sorted ones, and another appears twice.\<close>

lemma sort_loses_unreadable:
  "sortDescByModTime (\<lambda>p. if p = ''a'' then None else Some 1) [''a'', ''b''] = [''b'', ''b'']"
  by (simp add: sortDescByModTime_def map_filter_def)

lemma bundle_redacted:
  assumes "map_of doc ''auth'' = Some (JObj auth)" "k \<in> set secret_keys" "map_of auth k \<noteq> None"
  shows "\<exists>auth'. map_of (redact_doc doc) ''auth'' = Some (JObj auth') \<and> map_of auth' k = Some (JStr ''[REDACTED]'')"
proof -
  have m: "map_of (map (\<lambda>(k, v). (k, g k v)) xs) i = map_option (g i) (map_of xs i)" for g :: "string \<Rightarrow> json \<Rightarrow> json" and xs i
    by (induction xs) auto
  obtain v where "map_of auth k = Some v" using assms(3) by blast
  then have "map_of (redact_auth auth) k = Some (JStr ''[REDACTED]'')"
    using assms(2) m [of "\<lambda>k v. if k \<in> set secret_keys then JStr ''[REDACTED]'' else v" auth k] by (simp add: redact_auth_def)
  then show ?thesis using assms(1) m [of "\<lambda>k v. if k = ''auth'' then (case v of JObj auth \<Rightarrow> JObj (redact_auth auth) | _ \<Rightarrow> v) else v" doc "''auth''"]
    by (simp add: redact_doc_def)
qed

lemma dashboard_keeps_path:
  "getDashboardURL ''wss://server.example.com/ws/agent'' = ''https://server.example.com/ws''"
  by code_simp

text \<open>A connection string of the environment goes before a token and a server given as flags.\<close>

lemma environment_wins:
  "env ''SERVERKIT_CONNECTION_STRING'' = s \<Longrightarrow> s \<noteq> [] \<Longrightarrow> decode s = Inr d \<Longrightarrow>
     register_inputs decode env [] token url = Inr (de_Token d, de_URL d)"
  by (simp add: register_inputs_def)

end
