(* ===== verification/Desktop.thy ===== *)
theory Desktop
  imports Localui Ipc
begin

text \<open>
  What the agent does on a desktop: the screenshots of \<open>internal/gui\<close> on Linux, the Windows service of
  \<open>cmd/agent/service_windows.go\<close> and what the console makes of the local interface's token. An image is
  its size and its pixels; encoders and decoders are parameters; a scale is an exact fraction.
\<close>

subsection \<open>Screenshots\<close>

record Capabilities =
  ca_Capability :: string
  ca_Resolution :: string
  ca_MaxFPS :: int
  ca_SyntheticFallback :: bool
  ca_Reason :: string

definition no_capture :: "string \<Rightarrow> Capabilities" where
  "no_capture reason =
     \<lparr>ca_Capability = ''none'', ca_Resolution = [], ca_MaxFPS = 0, ca_SyntheticFallback = True, ca_Reason = reason\<rparr>"

definition can_capture :: "string \<Rightarrow> Capabilities" where
  "can_capture c =
     \<lparr>ca_Capability = c, ca_Resolution = [], ca_MaxFPS = 3, ca_SyntheticFallback = False, ca_Reason = []\<rparr>"

text \<open>The two displays of the environment and the programs on the path.\<close>

definition detectCapabilities :: "string \<Rightarrow> string \<Rightarrow> (string \<Rightarrow> bool) \<Rightarrow> Capabilities" where
  "detectCapabilities wayland display on_path =
     (if wayland \<noteq> [] \<and> on_path ''grim'' then can_capture ''linux-wayland''
      else if display \<noteq> []
      then (if list_ex on_path [''scrot'', ''import'', ''gnome-screenshot''] then can_capture ''linux-x11''
            else no_capture ''X11 detected but no scrot/import/gnome-screenshot installed'')
      else no_capture ''no display server (headless)'')"

definition HandleCapabilities :: "string + Capabilities \<Rightarrow> Capabilities" where
  "HandleCapabilities detected = (case detected of Inl e \<Rightarrow> no_capture e | Inr c \<Rightarrow> c)"

text \<open>What captures: the commands it runs in order, if any does; the last resort writes a temporary file.\<close>

datatype capture = Stdout cmd | ViaFile cmd cmd | NoTool

definition captureRawPNG :: "string \<Rightarrow> (string \<Rightarrow> bool) \<Rightarrow> string \<Rightarrow> capture" where
  "captureRawPNG wayland on_path tmp =
     (if wayland \<noteq> [] \<and> on_path ''grim'' then Stdout (Run ''grim'' [''-''])
      else if on_path ''scrot'' then ViaFile (Run ''scrot'' [''-o'', ''/dev/stdout'']) (Run ''scrot'' [''-o'', tmp])
      else if on_path ''import'' then Stdout (Run ''import'' [''-window'', ''root'', ''png:-''])
      else NoTool)"

definition captured :: "(cmd \<Rightarrow> string option) \<Rightarrow> (string \<Rightarrow> string option) \<Rightarrow> string \<Rightarrow> capture \<Rightarrow> string option" where
  "captured exec read tmp c =
     (case c of
        Stdout k \<Rightarrow> exec k
      | ViaFile k l \<Rightarrow> (case exec k of Some out \<Rightarrow> Some out | None \<Rightarrow> (case exec l of None \<Rightarrow> None | Some _ \<Rightarrow> read tmp))
      | NoTool \<Rightarrow> None)"

record 'p image =
  im_width :: int
  im_height :: int
  im_at :: "int \<Rightarrow> int \<Rightarrow> 'p"

text \<open>The source pixel of each pixel, the corner being the origin.\<close>

definition source_of :: "rat \<Rightarrow> int \<Rightarrow> int" where
  "source_of scale x = \<lfloor>of_int x / scale\<rfloor>"

definition nearestScale :: "'p image \<Rightarrow> rat \<Rightarrow> 'p image" where
  "nearestScale src scale =
     \<lparr>im_width = max 1 \<lfloor>of_int (im_width src) * scale\<rfloor>, im_height = max 1 \<lfloor>of_int (im_height src) * scale\<rfloor>,
      im_at = \<lambda>x y. im_at src (source_of scale x) (source_of scale y)\<rparr>"

record ScreenshotParams =
  sp_Scale :: rat
  sp_Quality :: int
  sp_Format :: string

definition default_shot :: ScreenshotParams where
  "default_shot = \<lparr>sp_Scale = 3 / 4, sp_Quality = 70, sp_Format = ''jpeg''\<rparr>"

definition checked_shot :: "ScreenshotParams \<Rightarrow> ScreenshotParams" where
  "checked_shot p =
     \<lparr>sp_Scale = (if sp_Scale p \<le> 0 \<or> 1 < sp_Scale p then 3 / 4 else sp_Scale p),
      sp_Quality = (if sp_Quality p < 10 \<or> 95 < sp_Quality p then 70 else sp_Quality p),
      sp_Format = (if sp_Format p \<noteq> ''png'' \<and> sp_Format p \<noteq> ''jpeg'' then ''jpeg'' else sp_Format p)\<rparr>"

record Frame =
  fm_ImageBase64 :: string
  fm_Format :: string
  fm_Width :: int
  fm_Height :: int

definition captureFrame :: "(string \<Rightarrow> 'p image option) \<Rightarrow> (ScreenshotParams \<Rightarrow> 'p image \<Rightarrow> string option) \<Rightarrow>
    string option \<Rightarrow> ScreenshotParams \<Rightarrow> Frame option" where
  "captureFrame decode encode raw p =
     (case raw of
        None \<Rightarrow> None
      | Some bytes \<Rightarrow>
          (case decode bytes of
             None \<Rightarrow>
               if sp_Format p = ''png''
               then Some \<lparr>fm_ImageBase64 = b64_encode bytes, fm_Format = ''png'', fm_Width = 0, fm_Height = 0\<rparr> else None
           | Some src \<Rightarrow>
               let img = (if 0 < sp_Scale p \<and> sp_Scale p < 1 then nearestScale src (sp_Scale p) else src)
               in map_option (\<lambda>bytes. \<lparr>fm_ImageBase64 = b64_encode bytes, fm_Format = sp_Format p,
                    fm_Width = im_width img, fm_Height = im_height img\<rparr>) (encode p img)))"

text \<open>No parameters, undecodable ones or those of the request, over the defaults.\<close>

definition HandleScreenshot :: "(string \<Rightarrow> 'p image option) \<Rightarrow> (ScreenshotParams \<Rightarrow> 'p image \<Rightarrow> string option) \<Rightarrow>
    string option \<Rightarrow> (unit + ScreenshotParams) option \<Rightarrow> string + Frame" where
  "HandleScreenshot decode encode raw params =
     (case (case params of None \<Rightarrow> Inr default_shot | Some p \<Rightarrow> p) of
        Inl _ \<Rightarrow> Inl ''invalid params''
      | Inr p \<Rightarrow> (case captureFrame decode encode raw (checked_shot p) of None \<Rightarrow> Inl ''capture'' | Some f \<Rightarrow> Inr f))"

subsection \<open>The Windows service\<close>

datatype service_event = Interrogate string | StopRequest | Shutdown | OtherControl | RunEnded "string option" bool   \<comment> \<open>its error, whether a cancellation\<close>

datatype service_status = StartPending | ServiceRunning | Echo string | StopPending | ServiceStopped nat

text \<open>
  What it tells the service manager after each event, whether it stops the agent, and its exit code if it
  is over. A stop waits for the agent.
\<close>

fun service_loop :: "service_event list \<Rightarrow> service_status list \<times> bool \<times> nat option" where
  "service_loop [] = ([], False, None)"
| "service_loop (Interrogate s # es) = (case service_loop es of (out, c, e) \<Rightarrow> (Echo s # out, c, e))"
| "service_loop (StopRequest # es) = ([StopPending, ServiceStopped 0], True, Some 0)"
| "service_loop (Shutdown # es) = ([StopPending, ServiceStopped 0], True, Some 0)"
| "service_loop (OtherControl # es) = service_loop es"
| "service_loop (RunEnded err canceled # es) =
     (if err \<noteq> None \<and> \<not> canceled then ([ServiceStopped 1], False, Some 1) else ([ServiceStopped 0], False, Some 0))"

definition Execute :: "service_event list \<Rightarrow> service_status list \<times> bool \<times> nat option" where
  "Execute es = (case service_loop es of (out, c, e) \<Rightarrow> (StartPending # ServiceRunning # out, c, e))"

lemma service_ends:
  "Execute es = (out, c, Some code) \<Longrightarrow> last out = ServiceStopped code"
  "Execute es = (out, c, None) \<Longrightarrow> \<forall>n. ServiceStopped n \<notin> set out"
proof -
  have "(\<forall>code. service_loop es = (out, c, Some code) \<longrightarrow> out \<noteq> [] \<and> last out = ServiceStopped code) \<and>
      (service_loop es = (out, c, None) \<longrightarrow> (\<forall>n. ServiceStopped n \<notin> set out))" for out c
    by (induction es arbitrary: out c rule: service_loop.induct) (auto split: prod.splits if_splits)
  then show "Execute es = (out, c, Some code) \<Longrightarrow> last out = ServiceStopped code"
    "Execute es = (out, c, None) \<Longrightarrow> \<forall>n. ServiceStopped n \<notin> set out"
    by (auto simp: Execute_def split: prod.splits)
qed

subsection \<open>Reading inside the image\<close>

text \<open>
  Whatever a request asks, a screenshot is scaled by a factor in (0, 1], of a quality from 10 to 95
  and in a known format, and scaling reads no pixel outside the image it scales, however small.
\<close>

lemma source_in_range:
  assumes "0 < w" "0 < s" "s \<le> 1" "0 \<le> x" "x < max 1 \<lfloor>of_int w * s\<rfloor>"
  shows "0 \<le> source_of s x \<and> source_of s x < w"
proof (cases "x = 0")
  case True
  then show ?thesis using assms(1) by (simp add: source_of_def)
next
  case False
  then have "x < \<lfloor>of_int w * s\<rfloor>" using assms(4,5) by simp
  then have "(of_int x :: rat) < of_int w * s" by linarith
  then have "(of_int x :: rat) / s < of_int w" using assms(2) by (simp add: pos_divide_less_eq)
  moreover have "(0 :: rat) \<le> of_int x / s" using assms(2,4) by simp
  ultimately show ?thesis unfolding source_of_def by (simp add: floor_less_iff)
qed

lemma screenshot_bounds:
  fixes src :: "'p image"
  shows "(\<forall>p. 0 < sp_Scale (checked_shot p) \<and> sp_Scale (checked_shot p) \<le> 1 \<and> 10 \<le> sp_Quality (checked_shot p) \<and>
       sp_Quality (checked_shot p) \<le> 95 \<and> sp_Format (checked_shot p) \<in> {''png'', ''jpeg''}) \<and>
     (\<forall>p x y. 0 < im_width src \<and> 0 < im_height src \<and> 0 \<le> x \<and> 0 \<le> y \<and>
        x < im_width (nearestScale src (sp_Scale (checked_shot p))) \<and> y < im_height (nearestScale src (sp_Scale (checked_shot p))) \<longrightarrow>
        (\<exists>sx sy. 0 \<le> sx \<and> sx < im_width src \<and> 0 \<le> sy \<and> sy < im_height src \<and>
           im_at (nearestScale src (sp_Scale (checked_shot p))) x y = im_at src sx sy))"
proof -
  have c: "0 < sp_Scale (checked_shot p) \<and> sp_Scale (checked_shot p) \<le> 1 \<and> 10 \<le> sp_Quality (checked_shot p) \<and>
       sp_Quality (checked_shot p) \<le> 95 \<and> sp_Format (checked_shot p) \<in> {''png'', ''jpeg''}" for p
    by (simp add: checked_shot_def)
  show ?thesis
  proof (intro conjI [OF _ allI [OF allI [OF allI [OF impI]]]])
    fix p x y
    let ?s = "sp_Scale (checked_shot p)"
    assume a: "0 < im_width src \<and> 0 < im_height src \<and> 0 \<le> x \<and> 0 \<le> y \<and>
        x < im_width (nearestScale src ?s) \<and> y < im_height (nearestScale src ?s)"
    have "0 \<le> source_of ?s x \<and> source_of ?s x < im_width src" "0 \<le> source_of ?s y \<and> source_of ?s y < im_height src"
      using a c [of p] source_in_range [of "im_width src" ?s x] source_in_range [of "im_height src" ?s y]
      by (simp_all add: nearestScale_def)
    then show "\<exists>sx sy. 0 \<le> sx \<and> sx < im_width src \<and> 0 \<le> sy \<and> sy < im_height src \<and>
        im_at (nearestScale src ?s) x y = im_at src sx sy"
      by (intro exI [of _ "source_of ?s x"] exI [of _ "source_of ?s y"]) (simp add: nearestScale_def)
  qed (use c in blast)
qed

text \<open>A host with only \<open>gnome-screenshot\<close> says that it can capture, and cannot.\<close>

lemma advertised_not_captured:
  "detectCapabilities [] '':0'' (\<lambda>p. p = ''gnome-screenshot'') = can_capture ''linux-x11''"
  "captureRawPNG [] (\<lambda>p. p = ''gnome-screenshot'') tmp = NoTool"
  by (simp_all add: detectCapabilities_def captureRawPNG_def)

subsection \<open>The token\<close>

text \<open>What the console's page is told, whoever asks for it, is the token that the local interface takes.\<close>

lemma console_gives_token:
  assumes "fs (IPCTokenPath h) = Contents data" "32 \<le> length (trim_space data)"
    and "Start cfg False (fst (loadOrGenerateToken (Some data) mkdir_ok random write_ok)) = Listening addr serve"
    and q: "iq_method q = ''POST''" "iq_path q = ''/restart''" "bearerToken q = tok"
    and tok: "handleIPCToken h fs ''GET'' = (200, JObj [(''token'', JStr tok)])"
  shows "re_call (serve q) = Some CallRestart"
proof -
  have t: "tok = trim_space data" "tok \<noteq> []" using assms(1,2) tok by (auto simp: handleIPCToken_def split: if_splits)
  have "serve = corsMiddleware (authMiddleware tok mux)" using assms(2,3) t(1)
    by (auto simp: loadOrGenerateToken_def Start_def Let_def split: if_splits)
  then show ?thesis using mux_restart [OF q(1,2)] q t by (simp add: corsMiddleware_def authMiddleware_def Let_def)
qed

end
