(* ===== verification/Spec2Isabelle.thy ===== *)
theory Spec2Isabelle
  imports Prelude Protocol Permissions Events Jobs Sampler Cron SshKeys Files Protect Crypto Auth AgentProperties
    Transport WsClient PollClient Updater Packages Systemd
    Report Ipc Gcm Config Cli Wireguard Terminal Compose Docker Runtimes Cloudflared Survey Capabilities
    WsLoop Console Loops Release Pairing Wizard Userspace Handlers Desktop
begin

text \<open>
  The ServerKit agent: a Go program that runs on a server, keeps one connection to a panel, reports
  metrics, and does what the panel asks, as far as the operator allows it. This development models
  its source, \<open>src/\<close>, and proves what the parts and their composition promise.

  \<^bold>\<open>The program.\<close> A configuration with encrypted credentials (\<open>internal/config\<close>) gives the agent its
  identity and its permission level, which only the commands of the host change (\<open>cmd/agent\<close>). The
  agent (\<open>internal/agent/agent.go\<close>) takes commands from a transport: a WebSocket, with long polling as the
  fallback (\<open>internal/transport\<close>, \<open>internal/ws\<close>), or at level \<open>monitor\<close> none, only signed reports that go
  out. A message is dispatched to a pool of workers; a worker asks the permission table and calls the
  handler of its action. Handlers run programs, read files, talk to docker, or start a long-running
  job, whose events go to a ring buffer and to subscribers of its channel. A local HTTP interface
  serves the tray and the console of the desktop, whose wizard pairs the agent with a panel.

  \<^bold>\<open>Conventions.\<close> A record is a struct, a datatype an enumeration or a set of outcomes, an error the left
  of a sum, and a panic a value of its own where code can panic. Go's \<open>int\<close> is \<open>int\<close> where it cannot
  overflow and wraps explicitly (\<open>int64\<close>) or is a word where it can; a string is a list of bytes. A
  handler that runs programs is a computation over the list of the commands run so far
  (\<open>Effects.act\<close>); what the host answers to each is a function of that list, so that it may answer
  differently each time. What a library, the network, the clock, the random source or the file system
  answers is an argument. Goroutines and locks are step relations: what runs under one lock is one
  step, and steps interleave freely.

  \<^bold>\<open>Shared theories.\<close> \<open>Prelude\<close>: the parts of \<open>strings\<close>, \<open>strconv\<close> and \<open>bufio\<close> that the code calls, results
  and JSON. \<open>Effects\<close>: commands, handlers, and the rules (\<open>emits_rules\<close>) that say what commands a handler
  can run. \<open>Paths\<close>, \<open>Netip\<close>, \<open>Urls\<close>, \<open>Base64\<close>, \<open>Crypto\<close> (SHA-256, HMAC), \<open>Gcm\<close> (AES-GCM), \<open>X25519\<close>: the
  parts of the standard library that are computed rather than assumed. \<open>Protocol\<close>: the vocabulary of
  \<open>pkg/protocol\<close>.

  \<^bold>\<open>Interfaces.\<close> \<open>bounded_log\<close> (theory \<open>Bounded_Log\<close>) is what the three histories of the agent share, a log
  that keeps its last entries; it is interpreted on the activity log (\<open>Events\<close>), the ring of a job
  (\<open>Jobs\<close>) and the metric sampler (\<open>Sampler\<close>). \<open>job_task\<close> (theory \<open>Job_Tasks\<close>) is what a goroutine owes the job
  it reports on, just one outcome and that last; it is interpreted on all seven job bodies (\<open>Packages\<close>,
  \<open>Systemd\<close>, \<open>Compose\<close>, \<open>Runtimes\<close>, \<open>Cloudflared\<close>), and \<open>job_reports_once\<close> below collects what follows.

  \<^bold>\<open>The agent.\<close> \<open>Permissions\<close> is the table of levels (\<open>internal/permissions\<close>), \<open>Auth\<close> the authenticator,
  \<open>Agent\<close> the state and construction, \<open>Dispatch\<close> the messages, the pool, subscriptions and the rotation of
  credentials as a step relation. \<open>AgentSafety\<close> proves its invariants by rule induction and
  \<open>AgentProperties\<close> says what they mean for every reachable agent: only permitted handlers are called, a
  monitoring agent does nothing it is asked but a signed rotation, every command is answered once,
  credentials change only by what a signed message carries, and the pool never sends on a closed
  channel; the ticker of a metric stream may panic, and does so in the model. \<open>Loops\<close> holds the heartbeat, the system information, discovery and the
  start and end of a run, \<open>Console\<close> what the agent tells its console and the watcher of its connection,
  \<open>Capabilities\<close> the probe of the host with its interleavings, \<open>Hostmetrics\<close> the collector.

  \<^bold>\<open>Transports.\<close> \<open>Transport\<close> is the choice between the two backends, \<open>WsClient\<close> the Socket.IO handshake,
  framing and send queue, \<open>WsLoop\<close> connecting, reading, the keep-alive and the loop that reconnects,
  \<open>PollClient\<close> long polling, \<open>Report\<close> the reporter of monitor mode with the discovery responder and
  \<open>Servicecheck\<close> the checks it reports.

  \<^bold>\<open>Handlers.\<close> \<open>Exec\<close> (escalation and \<open>system:exec\<close>), \<open>Files\<close> (over a file system with symbolic links), \<open>Cron\<close>,
  \<open>SshKeys\<close>, \<open>Protect\<close> (firewall, fail2ban and the origin lock), \<open>Packages\<close>, \<open>Systemd\<close>, \<open>Runtimes\<close> (Python
  versions), \<open>Cloudflared\<close> (tunnels), \<open>Compose\<close> and \<open>Docker\<close>, \<open>Wireguard\<close> and \<open>Userspace\<close> (the Linux and the
  userspace backend), \<open>Terminal\<close> (shells), \<open>Survey\<close> (the read-only survey by an untrusted catalog) and
  \<open>Handlers\<close> (those that only decode, call and answer). For each, what every branch answers, and which
  programs it can start with which arguments (\<open>system_exec_confined\<close>, \<open>panel_tools_confined\<close>,
  \<open>ssh_runs_as_user\<close>, \<open>compose_confined\<close>, \<open>survey_confined\<close>).

  \<^bold>\<open>The host's side.\<close> \<open>Config\<close> and \<open>Cli\<close> (configuration, credentials, permission level, registration),
  \<open>Updater\<close> and \<open>Release\<close> (self-update, from the check to the installed binary), \<open>Ipc\<close> (the local
  interface), \<open>Pairing\<close> (keypair, panel client, driver and the \<open>pair\<close> command), \<open>Wizard\<close> (the pairing page,
  with the interleavings of its requests and flows), \<open>Localui\<close> (the console's actions and diagnostic
  bundle, the tray, the cloud's client, the other commands) and \<open>Desktop\<close> (screenshots, the Windows
  service, and the console's use of the token).

  \<^bold>\<open>Bounds and fuel.\<close> Following links ends because the number of links is bounded, by 255 as in
  \<open>filepath.EvalSymlinks\<close> and by 40 as in the kernel. The walk to the nearest existing ancestor of a path
  (\<open>Files\<close>) is the one function with fuel: it gets one step more than the path has characters, each step
  shortens the path, and \<open>resolve_total_and_prefix\<close> proves that it always gives a path. All other loops
  are recursive functions that end, or runs over what a channel has delivered so far, where still to
  wait is a value of its own.

  \<^bold>\<open>Findings.\<close> Where the code does not do what it means to, the model does what the code does, and a lemma
  or a conjunct of a theorem shows it: for example \<open>cancelled_claim_saved\<close> (a cancelled pairing is saved), \<open>standalone_ends\<close>
  (a claim without a service ends as an error), \<open>pairing_claims\<close> (the \<open>pair\<close> command proves no possession),
  \<open>forward_not_replaced\<close> (a forward cannot be replaced), \<open>late_frame_crosses\<close> (a frame checked on one
  connection goes out on the next), \<open>push_overtaken\<close> (a stale push hides a capability from the panel),
  \<open>report_follows_redirect\<close> (a redirect takes a report elsewhere), \<open>peer_text_injected\<close> (an endpoint adds
  lines to a device's configuration), \<open>console_gives_token\<close> and \<open>option_names_pass\<close>.

  \<^bold>\<open>Not modelled.\<close> The windows of the console and of the legacy wizard (\<open>internal/agentui/window_windows.go\<close>,
  \<open>internal/setupui\<close>), the tray's menu and icons, the helpers that wrap Win32 calls (\<open>cmd/agent/*_windows.go\<close>
  but the service) and the PowerShell capture are layout and calls of the system. The stubs of other
  systems only answer that they are not supported. Of the modelled files, what is left out is logging,
  the copying of bytes by a forwarder or a terminal, the modes of files, panics inside handlers, a
  child of a program that keeps its output open, the HTTP and TLS machinery (redirects are followed
  for the reporter only; elsewhere an answer is the final one), JSON and YAML encoding,
  whose results are arguments, the rounding of floating point numbers, which are exact fractions, and
  Windows paths, but for the names of fixed files.
\<close>

section \<open>Jobs report one outcome\<close>

text \<open>
  C19. Whenever the body of a long-running job returns, whatever the host answered, its subscribers see
  how it ended: the live one gets all its events in order with just one outcome, the last; the job has
  terminated; and a late subscriber's replay ends with that outcome, however little of the log is
  kept. Whether a body returns is not said: a child that keeps the output open past the deadline holds
  it up.
\<close>

theorem job_reports_once:
  "job_ends (fst (runPackageInstallJob env start mode pm names t)) \<and>
   job_ends (fst (runPackageUpgradeJob env start mode pm ext names all_packages t)) \<and>
   job_ends (fst (runSystemdLogsFollowJob env start mode deadline unit t)) \<and>
   job_ends (fst (runDockerBuildJob env start spec t)) \<and>
   job_ends (fst (runPyenvInstallJob h start version t)) \<and>
   job_ends (fst (runPyenvBootstrapJob h start t)) \<and>
   job_ends (runCloudflaredLoginJob (login_loop False deliveries))"
  using login_job.ends [of deliveries]
  by (simp add: install_job.ends upgrade_job.ends follow_job.ends build_job.ends pyenv_install_job.ends bootstrap_job.ends
    login_job_body_def)

end
